(* ===== verification/Prelude.thy ===== *)
theory Prelude
  imports Main "HOL-Library.Sublist" "HOL-Library.Char_ord"
begin

text \<open>
  The vocabulary every component shares.

  Exceptions are values of \<^verbatim>\<open>exn\<close>, one constructor per exception class that the code
  raises or catches; a computation with effects is a function from the state to an exception
  or a result, together with the new state (\<^verbatim>\<open>eff\<close>).  \<^verbatim>\<open>bnd\<close>, \<^verbatim>\<open>catch_exn\<close> and
  \<^verbatim>\<open>for_each\<close> are the sequencing, \<^verbatim>\<open>try/except\<close> and \<^verbatim>\<open>for\<close> of the source.  \<^verbatim>\<open>wp\<close> is the
  weakest precondition of such a computation, and the rules of the collection \<^verbatim>\<open>wp\<close> push it
  through the combinators, so that a handler is verified by one \<^verbatim>\<open>simp\<close>.

  Python dictionaries are association lists in insertion order, with \<^verbatim>\<open>dict_get\<close>,
  \<^verbatim>\<open>dict_set\<close> (an existing key keeps its place) and \<^verbatim>\<open>dict_del\<close>.

  Text is a list of \<^verbatim>\<open>char\<close>, read as the UTF-8 bytes of the Python string; equality,
  concatenation, prefix and suffix tests agree with Python's on that encoding.
\<close>

named_theorems wp_rules and frame_rules and dict_simps

section \<open>Exceptions and effects\<close>

datatype exn =
    HTTPException int string
  | ResourceNotFoundError string
  | HttpResponseError int string
  | HTTPStatusError int string
  | TransportError string
  | TerraformError string
  | GitHubRepoError string
  | RuntimeError string
  | ValueError string
  | TypeError string
  | KeyError string
  | OverflowError string
  | IntegrityError string
  | OtherError string

text \<open>The text that \<^verbatim>\<open>str(exc)\<close> gives.\<close>

fun exn_str :: "exn \<Rightarrow> string" where
  "exn_str (HTTPException _ m) = m"
| "exn_str (ResourceNotFoundError m) = m"
| "exn_str (HttpResponseError _ m) = m"
| "exn_str (HTTPStatusError _ m) = m"
| "exn_str (TransportError m) = m"
| "exn_str (TerraformError m) = m"
| "exn_str (GitHubRepoError m) = m"
| "exn_str (RuntimeError m) = m"
| "exn_str (ValueError m) = m"
| "exn_str (TypeError m) = m"
| "exn_str (KeyError m) = m"
| "exn_str (OverflowError m) = m"
| "exn_str (IntegrityError m) = m"
| "exn_str (OtherError m) = m"

text \<open>\<^verbatim>\<open>httpx.HTTPError\<close> is the common base of status errors and transport errors;
  \<^verbatim>\<open>TerraformError\<close> and \<^verbatim>\<open>GitHubRepoError\<close> derive from \<^verbatim>\<open>RuntimeError\<close>;
  \<^verbatim>\<open>ResourceNotFoundError\<close> derives from \<^verbatim>\<open>HttpResponseError\<close>, with status 404.\<close>

fun is_httpx_error :: "exn \<Rightarrow> bool" where
  "is_httpx_error (HTTPStatusError _ _) = True"
| "is_httpx_error (TransportError _) = True"
| "is_httpx_error _ = False"

fun is_runtime_error :: "exn \<Rightarrow> bool" where
  "is_runtime_error (RuntimeError _) = True"
| "is_runtime_error (TerraformError _) = True"
| "is_runtime_error (GitHubRepoError _) = True"
| "is_runtime_error _ = False"

fun is_http_response_error :: "exn \<Rightarrow> bool" where
  "is_http_response_error (HttpResponseError _ _) = True"
| "is_http_response_error (ResourceNotFoundError _) = True"
| "is_http_response_error _ = False"

fun is_resource_not_found :: "exn \<Rightarrow> bool" where
  "is_resource_not_found (ResourceNotFoundError _) = True"
| "is_resource_not_found _ = False"

fun exn_status_code :: "exn \<Rightarrow> int option" where
  "exn_status_code (HttpResponseError c _) = Some c"
| "exn_status_code (ResourceNotFoundError _) = Some 404"
| "exn_status_code _ = None"

type_synonym ('s, 'a) eff = "'s \<Rightarrow> (exn + 'a) \<times> 's"

definition ret :: "'a \<Rightarrow> ('s, 'a) eff" where
  "ret a s = (Inr a, s)"

definition raise :: "exn \<Rightarrow> ('s, 'a) eff" where
  "raise e s = (Inl e, s)"

definition bnd :: "('s, 'a) eff \<Rightarrow> ('a \<Rightarrow> ('s, 'b) eff) \<Rightarrow> ('s, 'b) eff" where
  "bnd m f s = (case m s of (Inl e, t) \<Rightarrow> (Inl e, t) | (Inr a, t) \<Rightarrow> f a t)"

definition sq :: "('s, 'a) eff \<Rightarrow> ('s, 'b) eff \<Rightarrow> ('s, 'b) eff" where
  "sq m n = bnd m (\<lambda>_. n)"

definition catch_exn :: "('s, 'a) eff \<Rightarrow> (exn \<Rightarrow> ('s, 'a) eff) \<Rightarrow> ('s, 'a) eff" where
  "catch_exn m h s = (case m s of (Inl e, t) \<Rightarrow> h e t | (Inr a, t) \<Rightarrow> (Inr a, t))"

definition get_st :: "('s, 's) eff" where
  "get_st s = (Inr s, s)"

definition mod_st :: "('s \<Rightarrow> 's) \<Rightarrow> ('s, unit) eff" where
  "mod_st f s = (Inr (), f s)"

definition lift_sum :: "exn + 'a \<Rightarrow> ('s, 'a) eff" where
  "lift_sum r s = (r, s)"

text \<open>Sequencing without effects: the first exception wins.\<close>

definition bind_sum :: "exn + 'a \<Rightarrow> ('a \<Rightarrow> exn + 'b) \<Rightarrow> exn + 'b" where
  "bind_sum r f = (case r of Inl e \<Rightarrow> Inl e | Inr a \<Rightarrow> f a)"

fun for_each :: "'x list \<Rightarrow> ('x \<Rightarrow> ('s, unit) eff) \<Rightarrow> ('s, unit) eff" where
  "for_each [] body = ret ()"
| "for_each (x # xs) body = sq (body x) (for_each xs body)"

text \<open>A best-effort call: \<^verbatim>\<open>try: m  except Exception: pass\<close>.\<close>

definition best_effort :: "('s, unit) eff \<Rightarrow> ('s, unit) eff" where
  "best_effort m = catch_exn m (\<lambda>_. ret ())"

lemma bind_sum_simps: "bind_sum (Inl e) f = Inl e" "bind_sum (Inr a) f = f a"
  by (simp_all add: bind_sum_def)

lemma bind_sum_Inr: "bind_sum r f = Inr b \<longleftrightarrow> (\<exists>a. r = Inr a \<and> f a = Inr b)"
  by (cases r) (simp_all add: bind_sum_def)

section \<open>Weakest preconditions\<close>

definition wp :: "('s, 'a) eff \<Rightarrow> ('a \<Rightarrow> 's \<Rightarrow> bool) \<Rightarrow> (exn \<Rightarrow> 's \<Rightarrow> bool) \<Rightarrow> 's \<Rightarrow> bool" where
  "wp m Q E s = (case m s of (Inr a, t) \<Rightarrow> Q a t | (Inl e, t) \<Rightarrow> E e t)"

lemma wp_ret [wp_rules]: "wp (ret a) Q E s = Q a s"
  by (simp add: wp_def ret_def)

lemma wp_raise [wp_rules]: "wp (raise e) Q E s = E e s"
  by (simp add: wp_def raise_def)

lemma wp_bnd [wp_rules]: "wp (bnd m f) Q E s = wp m (\<lambda>a. wp (f a) Q E) E s"
  by (simp add: wp_def bnd_def split: prod.splits sum.splits)

lemma wp_sq [wp_rules]: "wp (sq m n) Q E s = wp m (\<lambda>_. wp n Q E) E s"
  by (simp add: sq_def wp_bnd)

lemma wp_catch [wp_rules]: "wp (catch_exn m h) Q E s = wp m Q (\<lambda>e. wp (h e) Q E) s"
  by (simp add: wp_def catch_exn_def split: prod.splits sum.splits)

lemma wp_get_st [wp_rules]: "wp get_st Q E s = Q s s"
  by (simp add: wp_def get_st_def)

lemma wp_mod_st [wp_rules]: "wp (mod_st f) Q E s = Q () (f s)"
  by (simp add: wp_def mod_st_def)

lemma wp_lift_sum [wp_rules]: "wp (lift_sum r) Q E s = (case r of Inl e \<Rightarrow> E e s | Inr a \<Rightarrow> Q a s)"
  by (simp add: wp_def lift_sum_def split: sum.splits)

lemma wp_best_effort [wp_rules]: "wp (best_effort m) Q E s = wp m Q (\<lambda>_. Q ()) s"
  by (simp add: wp_def best_effort_def catch_exn_def ret_def split: prod.splits sum.splits)

lemma wp_if [wp_rules]: "wp (if b then m else n) Q E s = (if b then wp m Q E s else wp n Q E s)"
  by simp

lemma wp_option [wp_rules]:
  "wp (case x of None \<Rightarrow> m | Some y \<Rightarrow> n y) Q E s =
     (case x of None \<Rightarrow> wp m Q E s | Some y \<Rightarrow> wp (n y) Q E s)"
  by (cases x) simp_all

text \<open>The same rules without the state, for a continuation.\<close>

lemma wp_ret_fun: "wp (ret a) Q E = Q a"
  by (simp add: fun_eq_iff wp_rules)

lemma wp_raise_fun: "wp (raise e) Q E = E e"
  by (simp add: fun_eq_iff wp_rules)

lemma wp_bnd_fun: "wp (bnd m f) Q E = wp m (\<lambda>a. wp (f a) Q E) E"
  by (simp add: fun_eq_iff wp_rules)

lemma wp_sq_fun: "wp (sq m n) Q E = wp m (\<lambda>_. wp n Q E) E"
  by (simp add: fun_eq_iff wp_rules)

lemma wp_catch_fun: "wp (catch_exn m h) Q E = wp m Q (\<lambda>e. wp (h e) Q E)"
  by (simp add: fun_eq_iff wp_rules)

lemma wp_lift_sum_fun: "wp (lift_sum r) Q E = (case r of Inl e \<Rightarrow> E e | Inr a \<Rightarrow> Q a)"
  by (simp add: fun_eq_iff wp_rules split: sum.splits)

lemmas wp_fun_rules = wp_ret_fun wp_raise_fun wp_bnd_fun wp_sq_fun wp_catch_fun wp_lift_sum_fun

lemma wp_True: "wp m (\<lambda>_ _. True) (\<lambda>_ _. True) s"
  by (simp add: wp_def split: prod.splits sum.splits)

lemma wp_conseq:
  assumes "wp m Q E s" and "\<And>a t. Q a t \<Longrightarrow> Q' a t" and "\<And>e t. E e t \<Longrightarrow> E' e t"
  shows "wp m Q' E' s"
  using assms by (auto simp: wp_def split: prod.splits sum.splits)

lemma wp_Inr: "wp m Q E s \<Longrightarrow> m s = (Inr a, t) \<Longrightarrow> Q a t"
  by (simp add: wp_def)

lemma wp_Inl: "wp m Q E s \<Longrightarrow> m s = (Inl e, t) \<Longrightarrow> E e t"
  by (simp add: wp_def)

lemma wp_snd: "wp m (\<lambda>_. P) (\<lambda>_. P) s = P (snd (m s))"
  by (simp add: wp_def split: prod.splits sum.splits)

lemma wpI_frame: "(\<And>a t. m s = (Inr a, t) \<Longrightarrow> Q a t) \<Longrightarrow> (\<And>e t. m s = (Inl e, t) \<Longrightarrow> E e t) \<Longrightarrow> wp m Q E s"
  by (auto simp: wp_def split: prod.splits sum.splits)

text \<open>A loop keeps an invariant that its body keeps, whether the body returns or raises.\<close>

lemma wp_for_each_inv:
  assumes "I s"
    and "\<And>x t. x \<in> set xs \<Longrightarrow> I t \<Longrightarrow> wp (body x) (\<lambda>_. I) E t"
    and "\<And>t. I t \<Longrightarrow> Q () t"
  shows "wp (for_each xs body) Q E s"
  using assms
proof (induction xs arbitrary: s)
  case Nil
  then show ?case by (simp add: wp_rules)
next
  case (Cons x xs)
  have rest: "wp (for_each xs body) Q E t" if "I t" for t
    by (rule Cons.IH [OF that]) (use Cons.prems in auto)
  have "wp (body x) (\<lambda>_. I) E s"
    using Cons.prems by simp
  then have "wp (body x) (\<lambda>_. wp (for_each xs body) Q E) E s"
    by (rule wp_conseq) (simp_all add: rest)
  then show ?case
    by (simp add: wp_rules)
qed

text \<open>A loop that fails has worked through a prefix of its list.\<close>

lemma wp_for_each_prefix:
  assumes "P [] s"
    and "\<And>ds x t. prefix (ds @ [x]) xs \<Longrightarrow> P ds t \<Longrightarrow> wp (body x) (\<lambda>_. P (ds @ [x])) (\<lambda>_. P ds) t"
  shows "wp (for_each xs body) (\<lambda>_. P xs) (\<lambda>_ t. \<exists>ds. prefix ds xs \<and> P ds t) s"
proof -
  have "wp (for_each ys body) (\<lambda>_. P xs) (\<lambda>_ t. \<exists>ds. prefix ds xs \<and> P ds t) t"
    if "xs = ds @ ys" "P ds t" for ds ys t
    using that
  proof (induction ys arbitrary: ds t)
    case Nil
    then show ?case by (simp add: wp_rules)
  next
    case (Cons y ys)
    have "wp (body y) (\<lambda>_. P (ds @ [y])) (\<lambda>_. P ds) t"
      using Cons.prems by (intro assms(2)) simp_all
    then have "wp (body y) (\<lambda>_. wp (for_each ys body) (\<lambda>_. P xs) (\<lambda>_ t. \<exists>ds. prefix ds xs \<and> P ds t))
        (\<lambda>_ t. \<exists>ds. prefix ds xs \<and> P ds t) t"
    proof (rule wp_conseq)
      fix a :: unit and u
      assume "P (ds @ [y]) u"
      then show "wp (for_each ys body) (\<lambda>_. P xs) (\<lambda>_ t. \<exists>ds. prefix ds xs \<and> P ds t) u"
        using Cons.prems by (intro Cons.IH) simp_all
    next
      fix e :: exn and u
      assume "P ds u"
      then show "\<exists>ds. prefix ds xs \<and> P ds u"
        using Cons.prems by (intro exI [of _ ds]) simp
    qed
    then show ?case
      by (simp add: wp_rules)
  qed
  from this [of "[]" xs s] show ?thesis
    using assms(1) by simp
qed

text \<open>A computation that leaves an observation of the state as it was.\<close>

definition keeps :: "('s \<Rightarrow> 'o) \<Rightarrow> ('s, 'a) eff \<Rightarrow> bool" where
  "keeps obs m \<longleftrightarrow> (\<forall>w. obs (snd (m w)) = obs w)"

lemma wp_keeps:
  assumes "keeps obs m" and "\<And>a w'. m w = (Inr a, w') \<Longrightarrow> obs w' = obs w \<Longrightarrow> Q a w'"
    and "\<And>e w'. m w = (Inl e, w') \<Longrightarrow> obs w' = obs w \<Longrightarrow> E e w'"
  shows "wp m Q E w"
  using assms by (intro wpI_frame) (auto simp: keeps_def dest!: spec [of _ w])

lemma keeps_wp: "(\<And>w. wp m (\<lambda>_ t. obs t = obs w) (\<lambda>_ t. obs t = obs w) w) \<Longrightarrow> keeps obs m"
  by (simp add: keeps_def wp_snd [where P = "\<lambda>t. obs t = obs w" for w, symmetric])

lemma keeps_ret [simp]: "keeps obs (ret a)"
  by (simp add: keeps_def ret_def)

lemma keeps_raise [simp]: "keeps obs (raise e)"
  by (simp add: keeps_def raise_def)

lemma keeps_bnd: "keeps obs m \<Longrightarrow> (\<And>a. keeps obs (f a)) \<Longrightarrow> keeps obs (bnd m f)"
  by (rule keeps_wp) (auto simp: wp_rules intro!: wp_keeps)

lemma keeps_sq: "keeps obs m \<Longrightarrow> keeps obs n \<Longrightarrow> keeps obs (sq m n)"
  by (simp add: sq_def keeps_bnd)

lemma keeps_catch: "keeps obs m \<Longrightarrow> (\<And>e. keeps obs (h e)) \<Longrightarrow> keeps obs (catch_exn m h)"
  by (rule keeps_wp) (auto simp: wp_rules intro!: wp_keeps)

lemma keeps_for_each: "(\<And>x. x \<in> set xs \<Longrightarrow> keeps obs (body x)) \<Longrightarrow> keeps obs (for_each xs body)"
  by (induction xs) (simp_all add: keeps_sq)

section \<open>Dictionaries\<close>

type_synonym ('k, 'v) dict = "('k \<times> 'v) list"

abbreviation dict_get :: "('k, 'v) dict \<Rightarrow> 'k \<Rightarrow> 'v option" where
  "dict_get \<equiv> map_of"

fun dict_set :: "('k, 'v) dict \<Rightarrow> 'k \<Rightarrow> 'v \<Rightarrow> ('k, 'v) dict" where
  "dict_set [] k v = [(k, v)]"
| "dict_set (p # ps) k v = (if fst p = k then (k, v) # ps else p # dict_set ps k v)"

fun dict_del :: "('k, 'v) dict \<Rightarrow> 'k \<Rightarrow> ('k, 'v) dict" where
  "dict_del [] k = []"
| "dict_del (p # ps) k = (if fst p = k then ps else p # dict_del ps k)"

definition dict_ok :: "('k, 'v) dict \<Rightarrow> bool" where
  "dict_ok d = distinct (map fst d)"

lemma dict_get_set [dict_simps]: "dict_get (dict_set d k v) k' = (if k' = k then Some v else dict_get d k')"
  by (induction d) auto

lemma dict_keys_set: "fst ` set (dict_set d k v) = insert k (fst ` set d)"
  by (induction d) auto

lemma dict_ok_set: "dict_ok d \<Longrightarrow> dict_ok (dict_set d k v)"
  by (induction d) (auto simp: dict_ok_def dict_keys_set)

lemma dict_keys_del: "x \<in> fst ` set (dict_del d k) \<Longrightarrow> x \<in> fst ` set d"
  by (induction d) (auto split: if_splits)

lemma dict_ok_Cons: "dict_ok (p # d) \<longleftrightarrow> fst p \<notin> fst ` set d \<and> dict_ok d"
  by (simp add: dict_ok_def)

lemma dict_ok_del: "dict_ok d \<Longrightarrow> dict_ok (dict_del d k)"
proof (induction d)
  case (Cons p d)
  then show ?case
    using dict_keys_del [of "fst p" d k] by (auto simp: dict_ok_Cons)
qed simp

lemma dict_get_notin: "k \<notin> fst ` set d \<Longrightarrow> dict_get d k = None"
  by (simp add: map_of_eq_None_iff)

lemma dict_get_del [dict_simps]:
  "dict_ok d \<Longrightarrow> dict_get (dict_del d k) k' = (if k' = k then None else dict_get d k')"
proof (induction d)
  case (Cons p d)
  then show ?case
    by (cases p) (auto simp: dict_ok_Cons dict_get_notin)
qed simp

lemma dict_ok_Nil [simp]: "dict_ok []"
  by (simp add: dict_ok_def)

lemma dict_del_absent: "dict_get d k = None \<Longrightarrow> dict_del d k = d"
  by (induction d) (auto split: if_splits)

section \<open>Text\<close>

definition starts_with :: "string \<Rightarrow> string \<Rightarrow> bool" where
  "starts_with s p = prefix p s"

definition ends_with :: "string \<Rightarrow> string \<Rightarrow> bool" where
  "ends_with s p = suffix p s"

text \<open>\<^verbatim>\<open>str.lower\<close> on the ASCII letters.\<close>

definition lower_char :: "char \<Rightarrow> char" where
  "lower_char c = (if CHR ''A'' \<le> c \<and> c \<le> CHR ''Z'' then char_of (of_char c + (32::nat)) else c)"

definition lower :: "string \<Rightarrow> string" where
  "lower = map lower_char"

text \<open>\<^verbatim>\<open>s.replace("_", "-")\<close>.\<close>

definition dashed :: "string \<Rightarrow> string" where
  "dashed = map (\<lambda>c. if c = CHR ''_'' then CHR ''-'' else c)"

definition byte :: "char \<Rightarrow> nat" where
  "byte c = of_char c"

definition digit_char :: "int \<Rightarrow> char" where
  "digit_char d = char_of (48 + nat (d mod 10))"

lemma of_char_digit_char [simp]: "of_char (digit_char d) = 48 + nat (d mod 10)"
proof -
  have "nat (d mod 10) < 10"
    by (simp add: nat_less_iff)
  then show ?thesis
    by (simp add: digit_char_def)
qed

lemma byte_digit_char: "byte (digit_char d) = 48 + nat (d mod 10)"
  by (simp add: byte_def)

lemma byte_digit_range: "48 \<le> byte (digit_char d) \<and> byte (digit_char d) \<le> 57"
proof -
  have "d mod 10 < 10" by simp
  then show ?thesis
    unfolding byte_digit_char by linarith
qed

lemma digit_char_neq: "byte c < 48 \<or> 57 < byte c \<Longrightarrow> digit_char d \<noteq> c"
  using byte_digit_range [of d] by auto

text \<open>The decimal digits of a non-negative integer, and \<^verbatim>\<open>str(i)\<close> of any integer.\<close>

function digits_str :: "int \<Rightarrow> string" where
  "digits_str n = (if n < 10 then [digit_char n] else digits_str (n div 10) @ [digit_char n])"
  by pat_completeness auto
termination
  by (relation "measure nat") auto

declare digits_str.simps [simp del]

definition int_str :: "int \<Rightarrow> string" where
  "int_str i = (if i < 0 then CHR ''-'' # digits_str (- i) else digits_str i)"

text \<open>\<^verbatim>\<open>f"{n:0wd}"\<close>: the decimal digits of \<^verbatim>\<open>n\<close>, zero-padded to width \<^verbatim>\<open>w\<close>.\<close>

fun pad_str :: "nat \<Rightarrow> int \<Rightarrow> string" where
  "pad_str 0 n = []"
| "pad_str (Suc w) n = pad_str w (n div 10) @ [digit_char n]"

text \<open>Truthiness of an optional string: \<^verbatim>\<open>None\<close> and the empty string are false.\<close>

definition opt_true :: "string option \<Rightarrow> bool" where
  "opt_true x = (case x of None \<Rightarrow> False | Some s \<Rightarrow> s \<noteq> [])"

definition opt_or_empty :: "string option \<Rightarrow> string" where
  "opt_or_empty x = (case x of None \<Rightarrow> [] | Some s \<Rightarrow> s)"

end
