(* ===== verification/PyFloat.thy ===== *)
theory PyFloat
  imports Prelude Complex_Main
begin

text \<open>
  Python's \<^verbatim>\<open>float\<close>: IEEE 754 binary64.  A finite float is the rational it denotes
  (the sign of zero is not kept: nothing modelled here observes it), \<^verbatim>\<open>rnd64\<close> rounds a
  rational to the nearest representable one, ties to even, with the subnormal range, and
  \<^verbatim>\<open>to_float\<close> adds the overflow to infinity.  Every arithmetic operation rounds the exact
  result once.  \<^verbatim>\<open>py_round n\<close> is the built-in \<^verbatim>\<open>round(x, n)\<close>: the decimal with \<^verbatim>\<open>n\<close>
  places nearest to the exact value, ties to even, converted back to a float.

  The lemmas are the ones money needs: rounding is monotone, keeps signs, keeps every
  representable value, and is symmetric.
\<close>

section \<open>Rounding to an integer, ties to even\<close>

definition rne :: "rat \<Rightarrow> int" where
  "rne x = (let f = \<lfloor>x\<rfloor>; d = x - of_int f in
     if d < 1/2 then f else if d > 1/2 then f + 1 else if even f then f else f + 1)"

lemma rne_of_int [simp]: "rne (of_int n) = n"
  by (simp add: rne_def)

lemma rne_0 [simp]: "rne 0 = 0"
  by (simp add: rne_def)

lemma rne_bounds: "of_int (rne x) \<le> x + 1/2 \<and> x - 1/2 \<le> of_int (rne x)"
proof -
  obtain f where f: "\<lfloor>x\<rfloor> = f" by simp
  then have "of_int f \<le> x" and "x < of_int f + 1"
    by linarith+
  with f show ?thesis
    by (auto simp: rne_def Let_def)
qed

lemma rne_floor: "rne x = \<lfloor>x\<rfloor> \<or> rne x = \<lfloor>x\<rfloor> + 1"
  by (auto simp: rne_def Let_def)

lemma rne_mono: "x \<le> y \<Longrightarrow> rne x \<le> rne y"
proof -
  assume xy: "x \<le> y"
  then have fl: "\<lfloor>x\<rfloor> \<le> \<lfloor>y\<rfloor>"
    by (rule floor_mono)
  show "rne x \<le> rne y"
  proof (cases "\<lfloor>x\<rfloor> = \<lfloor>y\<rfloor>")
    case True
    with xy show ?thesis
      by (auto simp: rne_def Let_def)
  next
    case False
    with fl rne_floor [of x] rne_floor [of y] show ?thesis
      by linarith
  qed
qed

lemma rne_minus: "rne (- x) = - rne x"
proof (cases "x = of_int \<lfloor>x\<rfloor>")
  case True
  then have "rne (- x) = rne (of_int (- \<lfloor>x\<rfloor>))" and "rne x = rne (of_int \<lfloor>x\<rfloor>)"
    by simp_all
  then show ?thesis
    by (simp only: rne_of_int)
next
  case False
  obtain f where f: "\<lfloor>x\<rfloor> = f" by simp
  then have "of_int f \<le> x" and "x < of_int f + 1"
    by linarith+
  moreover from this False f have "\<lfloor>- x\<rfloor> = - f - 1"
    by (intro floor_unique) auto
  ultimately show ?thesis
    using False f by (auto simp: rne_def Let_def)
qed

section \<open>The binary exponent of a rational\<close>

function nbits :: "int \<Rightarrow> nat" where
  "nbits n = (if n \<le> 0 then 0 else Suc (nbits (n div 2)))"
  by pat_completeness auto
termination
  by (relation "measure nat") auto

declare nbits.simps [simp del]

lemma nbits_upper: "n < 2 ^ nbits n"
proof (induction n rule: nbits.induct)
  case (1 n)
  then show ?case
    by (subst nbits.simps) auto
qed

lemma nbits_lower: "0 < n \<Longrightarrow> 2 ^ (nbits n - 1) \<le> n"
proof (induction n rule: nbits.induct)
  case (1 n)
  show ?case
  proof (cases "n div 2 = 0")
    case True
    with 1 have "n = 1" by auto
    then show ?thesis by (simp add: nbits.simps [of 1] nbits.simps [of 0])
  next
    case False
    with 1 have "2 ^ (nbits (n div 2) - 1) \<le> n div 2" by simp
    moreover have "0 < nbits (n div 2)"
      using False 1 by (simp add: nbits.simps [of "n div 2"])
    ultimately have "2 ^ nbits (n div 2) \<le> n"
      by (cases "nbits (n div 2)") auto
    then show ?thesis
      using 1 by (simp add: nbits.simps [of n])
  qed
qed

definition ilog2 :: "rat \<Rightarrow> int" where
  "ilog2 x = (case quotient_of x of (p, q) \<Rightarrow>
     let k = int (nbits p) - int (nbits q) in
     if (2::rat) powi k \<le> x then k else k - 1)"

lemma powi_nat_diff: "0 < m \<Longrightarrow> (2::rat) powi (int n - int m) = 2 ^ n / 2 ^ m"
  by (simp add: power_int_diff)

lemma ilog2_bounds:
  assumes "0 < x"
  shows "2 powi ilog2 x \<le> x \<and> x < 2 powi (ilog2 x + 1)"
proof -
  obtain p q where pq: "quotient_of x = (p, q)"
    by (cases "quotient_of x")
  then have q: "0 < q" and x: "x = of_int p / of_int q"
    by (simp_all add: quotient_of_denom_pos quotient_of_div)
  with assms have p: "0 < p"
    by (simp add: zero_less_divide_iff)
  define P Q where "P = nbits p" and "Q = nbits q"
  have P: "P > 0" and Q: "Q > 0"
    using p q by (simp_all add: P_def Q_def nbits.simps [of p] nbits.simps [of q])
  have "p < 2 ^ P" and "2 ^ (P - 1) \<le> p" and "q < 2 ^ Q" and "2 ^ (Q - 1) \<le> q"
    unfolding P_def Q_def by (rule nbits_upper nbits_lower p q)+
  then have b: "(of_int p :: rat) < 2 ^ P" "2 ^ (P - 1) \<le> (of_int p :: rat)"
      "(of_int q :: rat) < 2 ^ Q" "2 ^ (Q - 1) \<le> (of_int q :: rat)"
    by (metis of_int_less_iff of_int_le_iff of_int_numeral of_int_power)+
  have two: "(2::rat) ^ P = 2 * 2 ^ (P - 1)" "(2::rat) ^ Q = 2 * 2 ^ (Q - 1)"
    using P Q by (simp_all flip: power_Suc)
  have up: "x < 2 powi (int P - int Q + 1)"
  proof -
    have "x \<le> of_int p / 2 ^ (Q - 1)"
      unfolding x using b p q by (intro divide_left_mono) auto
    also have "\<dots> < 2 ^ P / 2 ^ (Q - 1)"
      using b by (intro divide_strict_right_mono) auto
    also have "\<dots> = 2 powi (int P - int Q + 1)"
      using Q two by (simp add: power_int_add powi_nat_diff)
    finally show ?thesis .
  qed
  have lo: "2 powi (int P - int Q - 1) \<le> x"
  proof -
    have "2 powi (int P - int Q - 1) = 2 ^ (P - 1) / (2::rat) ^ Q"
      using Q two by (simp add: power_int_diff)
    also have "\<dots> \<le> of_int p / 2 ^ Q"
      using b by (intro divide_right_mono) auto
    also have "\<dots> \<le> x"
      unfolding x using b p q by (intro divide_left_mono) auto
    finally show ?thesis .
  qed
  have "ilog2 x = (if (2::rat) powi (int P - int Q) \<le> x then int P - int Q else int P - int Q - 1)"
    by (simp add: ilog2_def pq P_def Q_def Let_def)
  with up lo show ?thesis
    by auto
qed

lemma powi_mono: "a \<le> b \<Longrightarrow> (2::rat) powi a \<le> 2 powi b"
  by (rule power_int_increasing) simp_all

lemma powi_strict_mono: "a < b \<Longrightarrow> (2::rat) powi a < 2 powi b"
  by (rule power_int_strict_increasing) simp_all

lemma powi_less_iff: "(2::rat) powi a < 2 powi b \<longleftrightarrow> a < b"
  using powi_mono [of b a] powi_strict_mono [of a b] by (cases "a < b") auto

lemma ilog2_unique: "2 powi k \<le> x \<Longrightarrow> x < 2 powi (k + 1) \<Longrightarrow> ilog2 x = k"
proof -
  assume a: "2 powi k \<le> x" "x < 2 powi (k + 1)"
  then have "0 < x"
    using zero_less_power_int [of "2::rat" k] by linarith
  from ilog2_bounds [OF this] a have "(2::rat) powi k < 2 powi (ilog2 x + 1)"
      and "(2::rat) powi ilog2 x < 2 powi (k + 1)"
    by linarith+
  then show ?thesis
    by (simp add: powi_less_iff)
qed

lemma ilog2_mono: "0 < x \<Longrightarrow> x \<le> y \<Longrightarrow> ilog2 x \<le> ilog2 y"
proof -
  assume a: "0 < x" "x \<le> y"
  then have "(2::rat) powi ilog2 x < 2 powi (ilog2 y + 1)"
    using ilog2_bounds [of x] ilog2_bounds [of y] by linarith
  then show ?thesis
    by (simp add: powi_less_iff)
qed

section \<open>Rounding to binary64\<close>

definition ulp_exp :: "rat \<Rightarrow> int" where
  "ulp_exp x = max (ilog2 \<bar>x\<bar> - 52) (- 1074)"

definition rnd64 :: "rat \<Rightarrow> rat" where
  "rnd64 x = (if x = 0 then 0
     else of_int (rne (x / 2 powi ulp_exp x)) * 2 powi ulp_exp x)"

text \<open>The representable values: an integer of at most 53 bits times a power of two that is
  not below the subnormal one.\<close>

definition rep64 :: "rat \<Rightarrow> bool" where
  "rep64 x \<longleftrightarrow> (\<exists>m e. x = of_int m * 2 powi e \<and> \<bar>m\<bar> < 2 ^ 53 \<and> - 1074 \<le> e)"

lemma rnd64_0 [simp]: "rnd64 0 = 0"
  by (simp add: rnd64_def)

lemma ulp_exp_minus [simp]: "ulp_exp (- x) = ulp_exp x"
  by (simp add: ulp_exp_def)

lemma rnd64_minus: "rnd64 (- x) = - rnd64 x"
  by (simp add: rnd64_def rne_minus)

lemma powi_add2: "(2::rat) powi (a + b) = 2 powi a * 2 powi b"
  by (simp add: power_int_add)

lemma rne_scale_le: "0 < x \<Longrightarrow> rne (x / 2 powi ulp_exp x) \<le> 2 ^ 53"
proof -
  assume x: "0 < x"
  have "x < 2 powi (ilog2 x + 1)"
    using ilog2_bounds [OF x] by blast
  also have "\<dots> \<le> 2 powi (ulp_exp x + 53)"
    using x by (intro powi_mono) (simp add: ulp_exp_def)
  finally have "x / 2 powi ulp_exp x \<le> of_int (2 ^ 53)"
    by (simp add: powi_add2 divide_le_eq)
  then have "rne (x / 2 powi ulp_exp x) \<le> rne (of_int (2 ^ 53))"
    by (rule rne_mono)
  then show ?thesis by (simp only: rne_of_int)
qed

lemma rne_scale_ge: "0 < x \<Longrightarrow> 0 \<le> rne (x / 2 powi ulp_exp x)"
  using rne_mono [of 0 "x / 2 powi ulp_exp x"] by simp

lemma rep64I: "\<bar>m\<bar> \<le> 2 ^ 53 \<Longrightarrow> - 1074 \<le> e \<Longrightarrow> rep64 (of_int m * 2 powi e)"
proof -
  assume m: "\<bar>m\<bar> \<le> 2 ^ 53" and e: "- 1074 \<le> e"
  have half: "rep64 (of_int m * 2 powi e)" if "m = 2 * n" and "\<bar>n\<bar> < 2 ^ 53" for n
    unfolding rep64_def using that e
    by (intro exI [of _ n] exI [of _ "e + 1"]) (simp add: powi_add2)
  have "\<bar>m\<bar> < 2 ^ 53 \<or> m = 2 * 2 ^ 52 \<or> m = 2 * (- (2 ^ 52))"
    using m by (simp add: abs_le_iff abs_less_iff) linarith
  moreover have ?thesis if "\<bar>m\<bar> < 2 ^ 53"
    unfolding rep64_def by (intro exI [of _ m] exI [of _ e] conjI refl that e)
  moreover have ?thesis if "m = 2 * 2 ^ 52"
    by (rule half [OF that]) simp
  moreover have ?thesis if "m = 2 * (- (2 ^ 52))"
    by (rule half [OF that]) simp
  ultimately show ?thesis by blast
qed

lemma rep64_minus: "rep64 y \<Longrightarrow> rep64 (- y)"
proof -
  assume "rep64 y"
  then obtain m e where "y = of_int m * 2 powi e" "\<bar>m\<bar> < 2 ^ 53" "- 1074 \<le> e"
    by (auto simp: rep64_def)
  then have "- y = of_int (- m) * 2 powi e" and "\<bar>- m\<bar> \<le> 2 ^ 53" and "- 1074 \<le> e"
    by simp_all
  then show "rep64 (- y)"
    by (simp only: rep64I)
qed

lemma rep64_0 [simp]: "rep64 0"
  using rep64I [of 0 0] by simp

lemma rep64_rnd64: "rep64 (rnd64 x)"
proof -
  have pos: "rep64 (rnd64 y)" if "0 < y" for y
  proof -
    have "rep64 (of_int (rne (y / 2 powi ulp_exp y)) * 2 powi ulp_exp y)"
      using rne_scale_le [OF that] rne_scale_ge [OF that]
      by (intro rep64I) (simp_all add: ulp_exp_def)
    with that show ?thesis by (simp add: rnd64_def)
  qed
  consider "x = 0" | "0 < x" | "0 < - x" by linarith
  then show ?thesis
  proof cases
    case 3
    then have "rep64 (- rnd64 (- x))"
      by (intro rep64_minus pos)
    then show ?thesis by (simp add: rnd64_minus)
  qed (simp_all add: pos)
qed

lemma ilog2_powi: "ilog2 (2 powi k) = k"
  by (rule ilog2_unique) (simp_all add: powi_less_iff)

lemma rnd64_rep_pos:
  assumes "0 < x" and "rep64 x"
  shows "rnd64 x = x"
proof -
  obtain m' e' where x': "x = of_int m' * 2 powi e'" and m': "\<bar>m'\<bar> < 2 ^ 53" and e': "- 1074 \<le> e'"
    using assms(2) by (auto simp: rep64_def)
  have "\<bar>x\<bar> < 2 powi (53 + e')"
  proof -
    have "(of_int \<bar>m'\<bar> :: rat) < of_int (2 ^ 53)"
      using m' by (simp only: of_int_less_iff)
    then show ?thesis
      by (simp add: x' powi_add2 abs_mult)
  qed
  then have "(2::rat) powi ilog2 \<bar>x\<bar> < 2 powi (53 + e')"
    using ilog2_bounds [of "\<bar>x\<bar>"] assms(1) by auto
  then have le: "ulp_exp x \<le> e'"
    using e' by (simp add: ulp_exp_def powi_less_iff)
  define d where "d = nat (e' - ulp_exp x)"
  have "x / 2 powi ulp_exp x = of_int (m' * 2 ^ d)"
  proof -
    have "e' = ulp_exp x + int d"
      using le by (simp add: d_def)
    then have "(2::rat) powi e' = 2 powi ulp_exp x * 2 ^ d"
      by (simp add: powi_add2)
    then show ?thesis
      by (subst x') simp
  qed
  then show ?thesis
    using assms(1) by (simp add: rnd64_def flip: of_int_mult) (simp add: field_simps)
qed

lemma rnd64_rep: "rep64 x \<Longrightarrow> rnd64 x = x"
proof -
  assume r: "rep64 x"
  consider "x = 0" | "0 < x" | "0 < - x" by linarith
  then show ?thesis
  proof cases
    case 3
    then have "rnd64 (- x) = - x"
      by (intro rnd64_rep_pos rep64_minus r)
    then show ?thesis by (simp add: rnd64_minus)
  qed (simp_all add: rnd64_rep_pos r)
qed

lemma rnd64_idem [simp]: "rnd64 (rnd64 x) = rnd64 x"
  by (simp add: rnd64_rep rep64_rnd64)

lemma rnd64_le_powi:
  assumes "0 < x" and "x \<le> 2 powi k" and "ulp_exp x \<le> k"
  shows "rnd64 x \<le> 2 powi k"
proof -
  define d where "d = nat (k - ulp_exp x)"
  have k: "k = ulp_exp x + int d"
    using assms(3) by (simp add: d_def)
  have "x / 2 powi ulp_exp x \<le> of_int (2 ^ d)"
    using assms(2) by (simp add: k powi_add2 divide_le_eq mult.commute)
  then have "rne (x / 2 powi ulp_exp x) \<le> 2 ^ d"
    using rne_mono rne_of_int by metis
  then have "(of_int (rne (x / 2 powi ulp_exp x)) :: rat) \<le> of_int (2 ^ d)"
    by (simp only: of_int_le_iff)
  then have "of_int (rne (x / 2 powi ulp_exp x)) * 2 powi ulp_exp x \<le> 2 ^ d * (2::rat) powi ulp_exp x"
    by (intro mult_right_mono) auto
  also have "\<dots> = 2 powi k"
    by (simp add: k powi_add2 mult.commute)
  finally show ?thesis
    using assms(1) by (simp add: rnd64_def)
qed

lemma rnd64_ge_powi:
  assumes "0 < y" and "2 powi k \<le> y" and "ulp_exp y \<le> k"
  shows "2 powi k \<le> rnd64 y"
proof -
  define d where "d = nat (k - ulp_exp y)"
  have k: "k = ulp_exp y + int d"
    using assms(3) by (simp add: d_def)
  have "of_int (2 ^ d) \<le> y / 2 powi ulp_exp y"
    using assms(2) by (simp add: k powi_add2 le_divide_eq mult.commute)
  then have "2 ^ d \<le> rne (y / 2 powi ulp_exp y)"
    using rne_mono rne_of_int by metis
  then have "(of_int (2 ^ d) :: rat) \<le> of_int (rne (y / 2 powi ulp_exp y))"
    by (simp only: of_int_le_iff)
  then have "2 ^ d * (2::rat) powi ulp_exp y \<le> of_int (rne (y / 2 powi ulp_exp y)) * 2 powi ulp_exp y"
    by (intro mult_right_mono) auto
  moreover have "2 ^ d * (2::rat) powi ulp_exp y = 2 powi k"
    by (simp add: k powi_add2 mult.commute)
  ultimately show ?thesis
    using assms(1) by (simp add: rnd64_def)
qed

lemma rnd64_mono_pos:
  assumes x: "0 < x" and xy: "x \<le> y"
  shows "rnd64 x \<le> rnd64 y"
proof -
  have y: "0 < y" using x xy by simp
  have le: "ulp_exp x \<le> ulp_exp y"
    using ilog2_mono [OF x xy] x y by (simp add: ulp_exp_def)
  show ?thesis
  proof (cases "ulp_exp x = ulp_exp y")
    case True
    have "rne (x / 2 powi ulp_exp y) \<le> rne (y / 2 powi ulp_exp y)"
      by (intro rne_mono divide_right_mono xy) simp
    with x y True show ?thesis
      by (simp add: rnd64_def)
  next
    case False
    with le have lt: "ulp_exp x < ulp_exp y" by simp
    then have uy: "ulp_exp y = ilog2 y - 52" and lg: "ilog2 x + 1 \<le> ilog2 y"
      using x y by (auto simp: ulp_exp_def max_def split: if_splits)
    have "x < 2 powi (ilog2 x + 1)" and "2 powi ilog2 y \<le> y"
      using ilog2_bounds x y by blast+
    moreover have "(2::rat) powi (ilog2 x + 1) \<le> 2 powi ilog2 y"
      by (rule powi_mono [OF lg])
    ultimately have "rnd64 x \<le> 2 powi ilog2 y" and "2 powi ilog2 y \<le> rnd64 y"
      using x y lt uy by (auto intro!: rnd64_le_powi rnd64_ge_powi)
    then show ?thesis by (rule order_trans)
  qed
qed

lemma rnd64_nonneg: "0 \<le> x \<Longrightarrow> 0 \<le> rnd64 x"
  using rne_scale_ge [of x] by (auto simp: rnd64_def order_le_less)

lemma rnd64_mono: "x \<le> y \<Longrightarrow> rnd64 x \<le> rnd64 y"
proof -
  assume xy: "x \<le> y"
  consider "0 < x" | "x \<le> 0" "0 \<le> y" | "0 < - y" by linarith
  then show ?thesis
  proof cases
    case 1
    then show ?thesis by (rule rnd64_mono_pos) (rule xy)
  next
    case 2
    then show ?thesis
      using rnd64_nonneg [of y] rnd64_nonneg [of "- x"] by (simp add: rnd64_minus)
  next
    case 3
    then have "rnd64 (- y) \<le> rnd64 (- x)"
      using xy by (intro rnd64_mono_pos) simp_all
    then show ?thesis by (simp add: rnd64_minus)
  qed
qed

section \<open>The float type and its operations\<close>

datatype pyfloat = FFin rat | FInf bool | FNaN

definition fmax :: rat where
  "fmax = 2 ^ 1024"

definition to_float :: "rat \<Rightarrow> pyfloat" where
  "to_float x = (let r = rnd64 x in if \<bar>r\<bar> < fmax then FFin r else FInf (r < 0))"

text \<open>The floats that arithmetic produces: the finite ones are representable and in range.\<close>

fun float_ok :: "pyfloat \<Rightarrow> bool" where
  "float_ok (FFin x) \<longleftrightarrow> rep64 x \<and> \<bar>x\<bar> < fmax"
| "float_ok (FInf _) \<longleftrightarrow> True"
| "float_ok FNaN \<longleftrightarrow> True"

fun fadd :: "pyfloat \<Rightarrow> pyfloat \<Rightarrow> pyfloat" where
  "fadd (FFin a) (FFin b) = to_float (a + b)"
| "fadd FNaN _ = FNaN"
| "fadd _ FNaN = FNaN"
| "fadd (FInf a) (FInf b) = (if a = b then FInf a else FNaN)"
| "fadd (FInf a) _ = FInf a"
| "fadd _ (FInf b) = FInf b"

fun fmul :: "pyfloat \<Rightarrow> pyfloat \<Rightarrow> pyfloat" where
  "fmul (FFin a) (FFin b) = to_float (a * b)"
| "fmul FNaN _ = FNaN"
| "fmul _ FNaN = FNaN"
| "fmul (FInf a) (FInf b) = FInf (a \<noteq> b)"
| "fmul (FInf a) (FFin b) = (if b = 0 then FNaN else FInf (a \<noteq> (b < 0)))"
| "fmul (FFin b) (FInf a) = (if b = 0 then FNaN else FInf (a \<noteq> (b < 0)))"

text \<open>Division by a finite non-zero literal.\<close>

fun fdiv_lit :: "pyfloat \<Rightarrow> rat \<Rightarrow> pyfloat" where
  "fdiv_lit (FFin a) d = to_float (a / d)"
| "fdiv_lit (FInf a) d = FInf (a \<noteq> (d < 0))"
| "fdiv_lit FNaN d = FNaN"

text \<open>\<^verbatim>\<open><\<close> on floats; every comparison with NaN is false.\<close>

fun flt :: "pyfloat \<Rightarrow> pyfloat \<Rightarrow> bool" where
  "flt (FFin a) (FFin b) = (a < b)"
| "flt (FInf a) (FInf b) = (a \<and> \<not> b)"
| "flt (FInf a) (FFin _) = a"
| "flt (FFin _) (FInf b) = (\<not> b)"
| "flt _ _ = False"

definition py_round_rat :: "nat \<Rightarrow> rat \<Rightarrow> rat" where
  "py_round_rat n x = of_int (rne (x * 10 ^ n)) / 10 ^ n"

fun py_round :: "nat \<Rightarrow> pyfloat \<Rightarrow> pyfloat" where
  "py_round n (FFin x) = to_float (py_round_rat n x)"
| "py_round n f = f"

text \<open>\<^verbatim>\<open>float(i)\<close> of an int: the nearest float, or \<^verbatim>\<open>OverflowError\<close>.\<close>

definition float_of_int :: "int \<Rightarrow> exn + pyfloat" where
  "float_of_int i = (case to_float (of_int i) of FFin x \<Rightarrow> Inr (FFin x)
     | _ \<Rightarrow> Inl (OverflowError ''int too large to convert to float''))"

text \<open>\<^verbatim>\<open>int(f)\<close> of a float: truncation towards zero; infinities and NaN raise.\<close>

definition trunc_rat :: "rat \<Rightarrow> int" where
  "trunc_rat x = (if x < 0 then - \<lfloor>- x\<rfloor> else \<lfloor>x\<rfloor>)"

fun int_of_float :: "pyfloat \<Rightarrow> exn + int" where
  "int_of_float (FFin x) = Inr (trunc_rat x)"
| "int_of_float (FInf _) = Inl (OverflowError ''cannot convert float infinity to integer'')"
| "int_of_float FNaN = Inl (ValueError ''cannot convert float NaN to integer'')"

fun float_true :: "pyfloat \<Rightarrow> bool" where
  "float_true (FFin x) \<longleftrightarrow> x \<noteq> 0"
| "float_true _ \<longleftrightarrow> True"

lemma fmax_pos: "0 < fmax"
  by (simp add: fmax_def)

lemma float_ok_to_float: "float_ok (to_float x)"
  by (auto simp: to_float_def Let_def rep64_rnd64)

lemma to_float_rep: "rep64 x \<Longrightarrow> \<bar>x\<bar> < fmax \<Longrightarrow> to_float x = FFin x"
  by (simp add: to_float_def rnd64_rep)

lemma to_float_0 [simp]: "to_float 0 = FFin 0"
  by (simp add: to_float_rep fmax_pos)

lemma rep64_1: "rep64 1"
  using rep64I [of 1 0] by simp

lemma fmul_1: "float_ok f \<Longrightarrow> fmul f (FFin 1) = f"
  by (cases f) (simp_all add: to_float_rep)

lemma py_round_rat_mono: "x \<le> y \<Longrightarrow> py_round_rat n x \<le> py_round_rat n y"
  by (simp add: py_round_rat_def divide_right_mono rne_mono mult_right_mono)

lemma py_round_rat_0 [simp]: "py_round_rat n 0 = 0"
  by (simp add: py_round_rat_def)

text \<open>The order on floats without NaN, and the operations that keep it.\<close>

fun fle :: "pyfloat \<Rightarrow> pyfloat \<Rightarrow> bool" where
  "fle (FFin a) (FFin b) = (a \<le> b)"
| "fle (FInf a) (FInf b) = (a \<or> \<not> b)"
| "fle (FInf a) (FFin _) = a"
| "fle (FFin _) (FInf b) = (\<not> b)"
| "fle _ _ = False"

lemma fle_to_float: "x \<le> y \<Longrightarrow> fle (to_float x) (to_float y)"
  using rnd64_mono [of x y] fmax_pos
  by (auto simp: to_float_def Let_def abs_less_iff)

lemma to_float_not_nan [simp]: "to_float x \<noteq> FNaN"
  by (simp add: to_float_def Let_def)

lemma fle_py_round: "fle a b \<Longrightarrow> fle (py_round n a) (py_round n b)"
proof (cases a; cases b)
  fix x y assume "fle a b" "a = FFin x" "b = FFin y"
  then show ?thesis
    by (simp add: fle_to_float py_round_rat_mono)
next
  fix x c assume "fle a b" "a = FFin x" "b = FInf c"
  then show ?thesis
    by (cases "to_float (py_round_rat n x)") auto
next
  fix x c assume "fle a b" "a = FInf c" "b = FFin x"
  then show ?thesis
    by (cases "to_float (py_round_rat n x)") auto
qed auto

text \<open>Evaluation at concrete values, and closure of the operations.\<close>

lemma fmax_gt: "2 ^ 53 < fmax"
  unfolding fmax_def by (rule power_strict_increasing) simp_all

lemma to_float_of_int: "\<bar>i\<bar> \<le> 2 ^ 53 \<Longrightarrow> to_float (of_int i) = FFin (of_int i)"
proof -
  assume i: "\<bar>i\<bar> \<le> 2 ^ 53"
  then have "rep64 (of_int i)"
    using rep64I [of i 0] by simp
  moreover have "\<bar>of_int i :: rat\<bar> < fmax"
  proof -
    from i have "(of_int \<bar>i\<bar> :: rat) \<le> of_int (2 ^ 53)"
      by (simp only: of_int_le_iff)
    then show ?thesis
      using fmax_gt by simp
  qed
  ultimately show ?thesis
    by (rule to_float_rep)
qed

lemma to_float_numeral: "(numeral n :: int) \<le> 2 ^ 53 \<Longrightarrow> to_float (numeral n) = FFin (numeral n)"
  using to_float_of_int [of "numeral n"] by simp

lemma to_float_1 [simp]: "to_float 1 = FFin 1"
  using to_float_of_int [of 1] by simp

lemma py_round_rat_of_int: "py_round_rat n (of_int i) = of_int i"
proof -
  have "rne (of_int i * 10 ^ n) = i * 10 ^ n"
    using rne_of_int [of "i * 10 ^ n"] by simp
  then show ?thesis
    by (simp add: py_round_rat_def)
qed

lemma float_ok_fadd: "float_ok a \<Longrightarrow> float_ok b \<Longrightarrow> float_ok (fadd a b)"
  by (cases a; cases b) (simp_all add: float_ok_to_float)

lemma float_ok_fmul: "float_ok a \<Longrightarrow> float_ok b \<Longrightarrow> float_ok (fmul a b)"
  by (cases a; cases b) (simp_all add: float_ok_to_float)

lemma float_ok_py_round: "float_ok a \<Longrightarrow> float_ok (py_round n a)"
  by (cases a) (simp_all add: float_ok_to_float)

lemma float_ok_fdiv_lit: "float_ok (fdiv_lit a d)"
  by (cases a) (simp_all add: float_ok_to_float)

lemma fle_fadd_0: "float_ok a \<Longrightarrow> fle (FFin 0) a \<Longrightarrow> fadd (FFin 0) a = a"
  by (cases a) (simp_all add: to_float_rep)

lemma fle_0_to_float: "0 \<le> x \<Longrightarrow> fle (FFin 0) (to_float x)"
  using fle_to_float [of 0 x] by simp

lemma fadd_nonneg: "fle (FFin 0) a \<Longrightarrow> fle (FFin 0) b \<Longrightarrow> fle (FFin 0) (fadd a b)"
  by (cases a; cases b) (auto intro: fle_0_to_float)

lemma to_float_cases: "(\<exists>y. to_float x = FFin y \<and> y = rnd64 x) \<or> to_float x = FInf (rnd64 x < 0)"
  by (auto simp: to_float_def Let_def)

end
