(* ===== verification/Json.thy ===== *)
theory Json
  imports PyFloat
begin

text \<open>
  JSON values as \<^verbatim>\<open>json.loads\<close> returns them (objects are dictionaries in insertion order),
  with the Python operations the code applies to them: truth value, \<^verbatim>\<open>dict.get\<close>,
  \<^verbatim>\<open>str()\<close>, \<^verbatim>\<open>isinstance(v, int)\<close> with and without \<^verbatim>\<open>bool\<close>, and
  \<^verbatim>\<open>json.dumps(v, separators=(",", ":"))\<close>, whose output is ASCII.
\<close>

datatype json =
    JNull
  | JBool bool
  | JInt int
  | JFloat pyfloat
  | JStr string
  | JList "json list"
  | JObj "(string \<times> json) list"

type_synonym jdict = "(string, json) dict"

fun truthy :: "json \<Rightarrow> bool" where
  "truthy JNull = False"
| "truthy (JBool b) = b"
| "truthy (JInt i) = (i \<noteq> 0)"
| "truthy (JFloat f) = float_true f"
| "truthy (JStr s) = (s \<noteq> [])"
| "truthy (JList xs) = (xs \<noteq> [])"
| "truthy (JObj d) = (d \<noteq> [])"

text \<open>\<^verbatim>\<open>d.get(k)\<close> and \<^verbatim>\<open>a or b\<close>.\<close>

definition jget :: "jdict \<Rightarrow> string \<Rightarrow> json" where
  "jget d k = (case dict_get d k of None \<Rightarrow> JNull | Some v \<Rightarrow> v)"

definition jget_or :: "jdict \<Rightarrow> string \<Rightarrow> json \<Rightarrow> json" where
  "jget_or d k v0 = (case dict_get d k of None \<Rightarrow> v0 | Some v \<Rightarrow> v)"

definition py_or :: "json \<Rightarrow> json \<Rightarrow> json" where
  "py_or a b = (if truthy a then a else b)"

definition opt_str_json :: "string option \<Rightarrow> json" where
  "opt_str_json x = (case x of None \<Rightarrow> JNull | Some s \<Rightarrow> JStr s)"

section \<open>Decimal text of a float\<close>

definition ndigits :: "int \<Rightarrow> nat" where
  "ndigits i = length (digits_str i)"

definition ilog10 :: "rat \<Rightarrow> int" where
  "ilog10 x = (if 1 \<le> x then int (ndigits \<lfloor>x\<rfloor>) - 1
     else let n = ndigits \<lfloor>1 / x\<rfloor> in if 1 / x = 10 ^ (n - 1) then - int (n - 1) else - int n)"

text \<open>The decimal with \<^verbatim>\<open>n\<close> significant digits nearest to a positive \<^verbatim>\<open>x\<close>: its digits as
  an integer and the power of ten of the last digit.\<close>

definition sig_digits :: "nat \<Rightarrow> rat \<Rightarrow> int \<times> int" where
  "sig_digits n x = (let e = ilog10 x - int n + 1 in (rne (x / 10 powi e), e))"

text \<open>The shortest digit string that reads back as \<^verbatim>\<open>x\<close> (at most 17 digits are needed).\<close>

fun shortest_from :: "nat \<Rightarrow> nat \<Rightarrow> rat \<Rightarrow> int \<times> int" where
  "shortest_from 0 n x = sig_digits n x"
| "shortest_from (Suc fuel) n x = (case sig_digits n x of (d, e) \<Rightarrow>
     if to_float (of_int d * 10 powi e) = FFin x then (d, e) else shortest_from fuel (Suc n) x)"

fun strip_zeros :: "nat \<Rightarrow> int \<times> int \<Rightarrow> int \<times> int" where
  "strip_zeros 0 de = de"
| "strip_zeros (Suc fuel) (d, e) = (if d mod 10 = 0 then strip_zeros fuel (d div 10, e + 1) else (d, e))"

definition repr_pos :: "rat \<Rightarrow> string" where
  "repr_pos x = (case strip_zeros 17 (shortest_from 16 1 x) of (d, e) \<Rightarrow>
     let ds = digits_str d; p = e + int (length ds) - 1 in
     if - 4 \<le> p \<and> p < 16 then
       (if 0 \<le> e then ds @ replicate (nat e) CHR ''0'' @ ''.0''
        else if 0 \<le> p then take (nat p + 1) ds @ ''.'' @ drop (nat p + 1) ds
        else ''0.'' @ replicate (nat (- p) - 1) CHR ''0'' @ ds)
     else
       (if length ds = 1 then ds else take 1 ds @ ''.'' @ drop 1 ds)
       @ ''e'' @ (if p < 0 then ''-'' else ''+'')
       @ (if \<bar>p\<bar> < 10 then ''0'' else '''') @ digits_str \<bar>p\<bar>)"

fun float_repr :: "pyfloat \<Rightarrow> string" where
  "float_repr (FFin x) =
     (if x = 0 then ''0.0'' else if x < 0 then ''-'' @ repr_pos (- x) else repr_pos x)"
| "float_repr (FInf n) = (if n then ''-inf'' else ''inf'')"
| "float_repr FNaN = ''nan''"

section \<open>Code points and escapes\<close>

fun code_points :: "string \<Rightarrow> nat list" where
  "code_points [] = []"
| "code_points (a # s) =
     (if byte a < 192 then byte a # code_points s
      else if byte a < 224 then
        (case s of b # r \<Rightarrow> ((byte a - 192) * 64 + (byte b - 128)) # code_points r | _ \<Rightarrow> [])
      else if byte a < 240 then
        (case s of b # c # r \<Rightarrow>
           ((byte a - 224) * 4096 + (byte b - 128) * 64 + (byte c - 128)) # code_points r | _ \<Rightarrow> [])
      else
        (case s of b # c # d # r \<Rightarrow>
           ((byte a - 240) * 262144 + (byte b - 128) * 4096 + (byte c - 128) * 64 + (byte d - 128))
             # code_points r | _ \<Rightarrow> []))"

text \<open>\<^verbatim>\<open>s[:n]\<close>: the first \<^verbatim>\<open>n\<close> code points, on the encoding.\<close>

fun py_take :: "nat \<Rightarrow> string \<Rightarrow> string" where
  "py_take n [] = []"
| "py_take n (c # s) =
     (if 128 \<le> byte c \<and> byte c < 192 then c # py_take n s
      else case n of 0 \<Rightarrow> [] | Suc m \<Rightarrow> c # py_take m s)"

definition hex_digit :: "nat \<Rightarrow> char" where
  "hex_digit n = (if n < 10 then char_of (48 + n) else char_of (87 + n))"

definition hex4 :: "nat \<Rightarrow> string" where
  "hex4 n = [hex_digit (n div 4096 mod 16), hex_digit (n div 256 mod 16),
             hex_digit (n div 16 mod 16), hex_digit (n mod 16)]"

definition json_escape :: "nat \<Rightarrow> string" where
  "json_escape p =
     (if p = 34 then [CHR 0x5C, CHR 0x22]
      else if p = 92 then [CHR 0x5C, CHR 0x5C]
      else if p = 10 then [CHR 0x5C, CHR ''n'']
      else if p = 13 then [CHR 0x5C, CHR ''r'']
      else if p = 9 then [CHR 0x5C, CHR ''t'']
      else if p = 12 then [CHR 0x5C, CHR ''f'']
      else if p = 8 then [CHR 0x5C, CHR ''b'']
      else if 32 \<le> p \<and> p \<le> 126 then [char_of p]
      else if p < 65536 then [CHR 0x5C, CHR ''u''] @ hex4 p
      else [CHR 0x5C, CHR ''u''] @ hex4 (55296 + (p - 65536) div 1024)
         @ [CHR 0x5C, CHR ''u''] @ hex4 (56320 + (p - 65536) mod 1024))"

definition json_str :: "string \<Rightarrow> string" where
  "json_str s = [CHR 0x22] @ concat (map json_escape (code_points s)) @ [CHR 0x22]"

fun join :: "string \<Rightarrow> string list \<Rightarrow> string" where
  "join sep [] = []"
| "join sep [x] = x"
| "join sep (x # y # xs) = x @ sep @ join sep (y # xs)"

fun json_float :: "pyfloat \<Rightarrow> string" where
  "json_float (FInf n) = (if n then ''-Infinity'' else ''Infinity'')"
| "json_float FNaN = ''NaN''"
| "json_float f = float_repr f"

fun dumps :: "json \<Rightarrow> string" where
  "dumps JNull = ''null''"
| "dumps (JBool b) = (if b then ''true'' else ''false'')"
| "dumps (JInt i) = int_str i"
| "dumps (JFloat f) = json_float f"
| "dumps (JStr s) = json_str s"
| "dumps (JList xs) = ''['' @ join '','' (map dumps xs) @ '']''"
| "dumps (JObj d) = ''{'' @ join '','' (map (\<lambda>(k, v). json_str k @ '':'' @ dumps v) d) @ ''}''"

section \<open>The text of a value: str() and repr()\<close>

text \<open>\<^verbatim>\<open>repr\<close> of a string: single quotes unless the text has one and no double quote.
  Text outside ASCII is taken as printable.\<close>

definition repr_char :: "char \<Rightarrow> char \<Rightarrow> string" where
  "repr_char q c =
     (if c = q \<or> byte c = 92 then [CHR 0x5C, c]
      else if byte c = 10 then [CHR 0x5C, CHR ''n'']
      else if byte c = 13 then [CHR 0x5C, CHR ''r'']
      else if byte c = 9 then [CHR 0x5C, CHR ''t'']
      else if byte c < 32 \<or> byte c = 127
        then [CHR 0x5C, CHR ''x'', hex_digit (byte c div 16), hex_digit (byte c mod 16)]
      else [c])"

definition repr_str :: "string \<Rightarrow> string" where
  "repr_str s = (let q = (if CHR 0x27 \<in> set s \<and> CHR 0x22 \<notin> set s then CHR 0x22 else CHR 0x27)
     in [q] @ concat (map (repr_char q) s) @ [q])"

fun py_repr :: "json \<Rightarrow> string" where
  "py_repr JNull = ''None''"
| "py_repr (JBool b) = (if b then ''True'' else ''False'')"
| "py_repr (JInt i) = int_str i"
| "py_repr (JFloat f) = float_repr f"
| "py_repr (JStr s) = repr_str s"
| "py_repr (JList xs) = ''['' @ join '', '' (map py_repr xs) @ '']''"
| "py_repr (JObj d) = ''{'' @ join '', '' (map (\<lambda>(k, v). repr_str k @ '': '' @ py_repr v) d) @ ''}''"

fun py_str :: "json \<Rightarrow> string" where
  "py_str (JStr s) = s"
| "py_str v = py_repr v"

section \<open>Lemmas\<close>

lemma jget_set [simp]: "jget (dict_set d k v) k' = (if k' = k then v else jget d k')"
  by (simp add: jget_def dict_simps)

lemma jget_Nil [simp]: "jget [] k = JNull"
  by (simp add: jget_def)

lemma jget_Cons [simp]: "jget ((k, v) # d) k' = (if k' = k then v else jget d k')"
  by (simp add: jget_def)

lemma jget_or_Cons [simp]: "jget_or ((k, v) # d) k' z = (if k' = k then v else jget_or d k' z)"
  by (simp add: jget_or_def)

lemma jget_or_Nil [simp]: "jget_or [] k' z = z"
  by (simp add: jget_or_def)

lemma truthy_JNull_or: "py_or JNull b = b"
  by (simp add: py_or_def)

end
