(* ===== verification/Billing.thy ===== *)
theory Billing
  imports Json
begin

text \<open>
  \<^verbatim>\<open>src/app/services/billing.py\<close>: the cost of one call.

  \<^verbatim>\<open>cost_from_copilot_usage\<close> prices a call from upstream's \<^verbatim>\<open>total_nano_aiu\<close>,
  \<^verbatim>\<open>tokens_from_copilot_usage\<close> splits its token counts by type, and \<^verbatim>\<open>compute_cost\<close> is the
  price-table fallback.  Amounts are binary64 floats, each operation rounding once, and the
  conversions that Python lets raise (\<^verbatim>\<open>float\<close> of a huge int, \<^verbatim>\<open>int\<close> of NaN or infinity)
  raise here.

  The lemmas: a call without markup is billed at exactly its cost, a markup never bills below
  cost, cost is monotone in upstream's total, a total of zero is a price, and the counts are
  the per-type sums of upstream's details.
\<close>

record cost_breakdown =
  cost_usd :: pyfloat
  billed_usd :: pyfloat

definition NANO_AIU_PER_USD :: rat where
  "NANO_AIU_PER_USD = 10 ^ 11"

definition USD_PLACES :: nat where
  "USD_PLACES = 11"

definition round_pair :: "pyfloat \<Rightarrow> pyfloat \<Rightarrow> nat \<Rightarrow> cost_breakdown" where
  "round_pair cost markup_pct places =
     (let billed = fmul cost (fadd (FFin 1) markup_pct) in
      \<lparr>cost_usd = py_round places cost, billed_usd = py_round places billed\<rparr>)"

definition cost_from_copilot_usage :: "json \<Rightarrow> pyfloat \<Rightarrow> exn + cost_breakdown option" where
  "cost_from_copilot_usage copilot_usage markup_pct =
     (case copilot_usage of
        JObj d \<Rightarrow>
          (case jget d ''total_nano_aiu'' of
             JInt i \<Rightarrow>
               (case float_of_int i of
                  Inl e \<Rightarrow> Inl e
                | Inr f \<Rightarrow> Inr (Some (round_pair (fdiv_lit f NANO_AIU_PER_USD) markup_pct USD_PLACES)))
           | JFloat f \<Rightarrow> Inr (Some (round_pair (fdiv_lit f NANO_AIU_PER_USD) markup_pct USD_PLACES))
           | _ \<Rightarrow> Inr None)
      | _ \<Rightarrow> Inr None)"

record token_counts =
  prompt_tok :: int
  completion_tok :: int
  cached_tok :: int
  cache_write_tok :: int

datatype token_field = PromptTok | CompletionTok | CachedTok | CacheWriteTok

text \<open>\<^verbatim>\<open>_TOKEN_TYPE_FIELDS.get(str(entry.get("token_type", "")))\<close>: the text of a value that
  is not a string is never one of the four names.\<close>

definition token_type_field :: "json \<Rightarrow> token_field option" where
  "token_type_field v =
     (case v of
        JStr s \<Rightarrow>
          (if s = ''input'' then Some PromptTok
           else if s = ''output'' then Some CompletionTok
           else if s = ''cache_read'' then Some CachedTok
           else if s = ''cache_write'' then Some CacheWriteTok
           else None)
      | _ \<Rightarrow> None)"

definition zero_tokens :: token_counts where
  "zero_tokens = \<lparr>prompt_tok = 0, completion_tok = 0, cached_tok = 0, cache_write_tok = 0\<rparr>"

fun add_tokens :: "token_field \<Rightarrow> int \<Rightarrow> token_counts \<Rightarrow> token_counts" where
  "add_tokens PromptTok n t = t\<lparr>prompt_tok := prompt_tok t + n\<rparr>"
| "add_tokens CompletionTok n t = t\<lparr>completion_tok := completion_tok t + n\<rparr>"
| "add_tokens CachedTok n t = t\<lparr>cached_tok := cached_tok t + n\<rparr>"
| "add_tokens CacheWriteTok n t = t\<lparr>cache_write_tok := cache_write_tok t + n\<rparr>"

text \<open>One entry of \<^verbatim>\<open>token_details\<close>: skipped unless it is an object with a known type and a
  numeric count that is not a bool.\<close>

definition add_detail :: "json \<Rightarrow> token_counts \<Rightarrow> exn + token_counts" where
  "add_detail entry out =
     (case entry of
        JObj d \<Rightarrow>
          (case token_type_field (jget_or d ''token_type'' (JStr [])) of
             None \<Rightarrow> Inr out
           | Some field \<Rightarrow>
               (case jget d ''token_count'' of
                  JInt n \<Rightarrow> Inr (add_tokens field n out)
                | JFloat f \<Rightarrow>
                    (case int_of_float f of Inl e \<Rightarrow> Inl e | Inr n \<Rightarrow> Inr (add_tokens field n out))
                | _ \<Rightarrow> Inr out))
      | _ \<Rightarrow> Inr out)"

fun add_details :: "json list \<Rightarrow> token_counts \<Rightarrow> exn + token_counts" where
  "add_details [] out = Inr out"
| "add_details (x # xs) out =
     (case add_detail x out of Inl e \<Rightarrow> Inl e | Inr out' \<Rightarrow> add_details xs out')"

definition tokens_from_copilot_usage :: "json \<Rightarrow> exn + token_counts" where
  "tokens_from_copilot_usage copilot_usage =
     (case copilot_usage of
        JObj d \<Rightarrow>
          (case jget d ''token_details'' of
             JList details \<Rightarrow> add_details details zero_tokens
           | _ \<Rightarrow> Inr zero_tokens)
      | _ \<Rightarrow> Inr zero_tokens)"

text \<open>\<^verbatim>\<open>n / 1000.0\<close> for an int \<^verbatim>\<open>n\<close>.\<close>

definition per_1k :: "int \<Rightarrow> exn + pyfloat" where
  "per_1k n = (case float_of_int n of Inl e \<Rightarrow> Inl e | Inr f \<Rightarrow> Inr (fdiv_lit f 1000))"

definition CACHED_RATE :: pyfloat where
  "CACHED_RATE = to_float (1 / 10)"

definition compute_cost ::
  "pyfloat \<Rightarrow> pyfloat \<Rightarrow> pyfloat \<Rightarrow> int \<Rightarrow> int \<Rightarrow> int \<Rightarrow> exn + cost_breakdown" where
  "compute_cost price_in_per_1k price_out_per_1k markup_pct prompt completion cached =
     (let billable_prompt = max (prompt - cached) 0 in
      case per_1k billable_prompt of Inl e \<Rightarrow> Inl e | Inr p \<Rightarrow>
      (case per_1k cached of Inl e \<Rightarrow> Inl e | Inr c \<Rightarrow>
      (case per_1k completion of Inl e \<Rightarrow> Inl e | Inr o1 \<Rightarrow>
         Inr (round_pair
           (fadd (fadd (fmul p price_in_per_1k) (fmul (fmul c price_in_per_1k) CACHED_RATE))
                 (fmul o1 price_out_per_1k))
           markup_pct 6))))"

section \<open>Cost from upstream's total\<close>

lemma float_of_int_Inr: "float_of_int n = Inr f \<Longrightarrow> \<exists>x. f = FFin x \<and> to_float (of_int n) = FFin x"
  by (cases "to_float (of_int n)") (auto simp: float_of_int_def)

text \<open>The numeric total of a usage object, as the code reads it.\<close>

definition nano_total :: "json \<Rightarrow> json option" where
  "nano_total u =
     (case u of JObj d \<Rightarrow> (case jget d ''total_nano_aiu'' of
          JInt i \<Rightarrow> Some (JInt i) | JFloat f \<Rightarrow> Some (JFloat f) | _ \<Rightarrow> None)
      | _ \<Rightarrow> None)"

lemma cost_None_iff: "cost_from_copilot_usage u m = Inr None \<longleftrightarrow> nano_total u = None"
  by (auto simp: cost_from_copilot_usage_def nano_total_def split: json.splits sum.splits)

lemma fadd_1_0: "fadd (FFin 1) (FFin 0) = FFin 1"
  by simp

lemma round_pair_no_markup:
  "float_ok c \<Longrightarrow> billed_usd (round_pair c (FFin 0) n) = cost_usd (round_pair c (FFin 0) n)"
  by (simp add: round_pair_def Let_def fadd_1_0 fmul_1 del: fadd.simps fmul.simps)

text \<open>Every priced outcome is the rounded pair of a division by \<^verbatim>\<open>1e11\<close>.\<close>

lemma cost_Some_round_pair:
  assumes "cost_from_copilot_usage u m = Inr (Some c)"
  obtains f where "c = round_pair (fdiv_lit f NANO_AIU_PER_USD) m USD_PLACES"
  using assms by (auto simp: cost_from_copilot_usage_def split: json.splits sum.splits)

lemma cost_of_int_total:
  assumes "\<bar>i\<bar> \<le> 2 ^ 53"
  shows "cost_from_copilot_usage (JObj [(''total_nano_aiu'', JInt i)]) m =
    Inr (Some (round_pair (to_float (of_int i / 10 ^ 11)) m 11))"
  using to_float_of_int [OF assms]
  by (simp add: cost_from_copilot_usage_def float_of_int_def NANO_AIU_PER_USD_def USD_PLACES_def)

lemma fle_fmul_ge_1:
  assumes "float_ok (FFin a)" "0 \<le> a" "1 \<le> b"
  shows "fle (FFin a) (fmul (FFin a) (FFin b))"
proof -
  have "a \<le> a * b"
    using assms by (metis mult.right_neutral mult_left_mono)
  then have "fle (to_float a) (to_float (a * b))"
    by (rule fle_to_float)
  moreover have "to_float a = FFin a"
    using assms(1) by (simp add: to_float_rep)
  ultimately show ?thesis by simp
qed

lemma markup_factor:
  assumes "0 \<le> m" and "m \<le> 2 ^ 52"
  obtains b where "fadd (FFin 1) (FFin m) = FFin b" and "1 \<le> b"
proof -
  have "rnd64 1 \<le> rnd64 (1 + m)" and "rnd64 (1 + m) \<le> rnd64 (2 ^ 53)"
    using assms by (simp_all add: rnd64_mono)
  moreover have "rnd64 1 = 1"
    by (simp add: rnd64_rep rep64_1)
  moreover have "rnd64 (2 ^ 53) = 2 ^ 53"
    using rep64I [of "2 ^ 53" 0] by (intro rnd64_rep) simp
  ultimately have "1 \<le> rnd64 (1 + m)" and "rnd64 (1 + m) < fmax"
    using fmax_gt by simp_all
  then show ?thesis
    using that by (simp add: to_float_def)
qed

lemma round_pair_markup_le:
  assumes c: "float_ok c" "fle (FFin 0) c" and m: "0 \<le> m" "m \<le> 2 ^ 52"
  shows "fle (cost_usd (round_pair c (FFin m) n)) (billed_usd (round_pair c (FFin m) n))"
proof -
  obtain b where b: "fadd (FFin 1) (FFin m) = FFin b" "1 \<le> b"
    by (rule markup_factor [OF m])
  have "fle c (fmul c (FFin b))"
  proof (cases c)
    case (FFin a)
    then show ?thesis
      using c b(2) fle_fmul_ge_1 [of a b] by simp
  next
    case (FInf s)
    then show ?thesis using c b(2) by auto
  qed (use c in auto)
  then show ?thesis
    by (simp add: round_pair_def Let_def b fle_py_round del: fadd.simps fmul.simps)
qed

lemma float_of_int_mono: "i \<le> j \<Longrightarrow> fle (to_float (of_int i / d)) (to_float (of_int j / d))" if "0 < d"
  using that by (intro fle_to_float) (simp add: divide_right_mono)

lemma round_pair_cost [simp]: "cost_usd (round_pair c m n) = py_round n c"
  by (simp add: round_pair_def Let_def)

section \<open>Token counts\<close>

text \<open>The reference: the sum, over the entries of one type, of their counts.\<close>

definition detail_type :: "json \<Rightarrow> token_field option" where
  "detail_type e = (case e of JObj d \<Rightarrow> token_type_field (jget_or d ''token_type'' (JStr [])) | _ \<Rightarrow> None)"

definition detail_count :: "json \<Rightarrow> int" where
  "detail_count e = (case e of JObj d \<Rightarrow>
     (case jget d ''token_count'' of JInt n \<Rightarrow> n
      | JFloat f \<Rightarrow> (case int_of_float f of Inr n \<Rightarrow> n | Inl _ \<Rightarrow> 0) | _ \<Rightarrow> 0) | _ \<Rightarrow> 0)"

definition type_sum :: "token_field \<Rightarrow> json list \<Rightarrow> int" where
  "type_sum f es = sum_list (map detail_count (filter (\<lambda>e. detail_type e = Some f) es))"

fun tok_get :: "token_field \<Rightarrow> token_counts \<Rightarrow> int" where
  "tok_get PromptTok t = prompt_tok t"
| "tok_get CompletionTok t = completion_tok t"
| "tok_get CachedTok t = cached_tok t"
| "tok_get CacheWriteTok t = cache_write_tok t"

lemma tok_get_add: "tok_get f (add_tokens g n t) = tok_get f t + (if f = g then n else 0)"
  by (cases f; cases g) simp_all

lemma tok_get_zero [simp]: "tok_get f zero_tokens = 0"
  by (cases f) (simp_all add: zero_tokens_def)

lemma add_detail_get:
  "add_detail e t = Inr t' \<Longrightarrow>
     tok_get f t' = tok_get f t + (if detail_type e = Some f then detail_count e else 0)"
  by (auto simp: add_detail_def detail_type_def detail_count_def tok_get_add
      split: json.splits option.splits sum.splits)

lemma add_details_get:
  "add_details es t = Inr t' \<Longrightarrow> tok_get f t' = tok_get f t + type_sum f es"
proof (induction es arbitrary: t)
  case Nil
  then show ?case by (simp add: type_sum_def)
next
  case (Cons e es)
  from Cons.prems obtain t1 where t1: "add_detail e t = Inr t1" and rest: "add_details es t1 = Inr t'"
    by (auto split: sum.splits)
  have "tok_get f t' = tok_get f t1 + type_sum f es"
    by (rule Cons.IH [OF rest])
  then show ?case
    using add_detail_get [OF t1, of f] by (simp add: type_sum_def)
qed

text \<open>The only values of \<^verbatim>\<open>token_count\<close> that make the split raise are non-finite floats.\<close>

definition detail_finite :: "json \<Rightarrow> bool" where
  "detail_finite e = (case e of JObj d \<Rightarrow>
     (case jget d ''token_count'' of JFloat (FInf _) \<Rightarrow> False | JFloat FNaN \<Rightarrow> False | _ \<Rightarrow> True)
     | _ \<Rightarrow> True)"

lemma add_detail_total: "detail_finite e \<Longrightarrow> \<exists>t'. add_detail e t = Inr t'"
  by (auto simp: add_detail_def detail_finite_def split: json.splits option.splits pyfloat.splits sum.splits)

lemma add_details_total: "list_all detail_finite es \<Longrightarrow> \<exists>t'. add_details es t = Inr t'"
proof (induction es arbitrary: t)
  case (Cons e es)
  then obtain t1 where "add_detail e t = Inr t1"
    using add_detail_total by fastforce
  with Cons show ?case by simp
qed simp

section \<open>The price-table fallback\<close>

lemma fmul_pos_nonneg: "fle (FFin 0) f \<Longrightarrow> 0 < b \<Longrightarrow> fle (FFin 0) (fmul f (FFin b))"
  by (cases f) (auto intro: fle_0_to_float)

lemma fmul_per_1k_nonneg:
  assumes "per_1k n = Inr f" "0 \<le> n" "0 \<le> b"
  shows "fle (FFin 0) (fmul f (FFin b))"
proof -
  obtain x where x: "to_float (of_int n) = FFin x" and f: "f = to_float (x / 1000)"
    using assms(1) by (auto simp: per_1k_def split: sum.splits dest!: float_of_int_Inr)
  have x0: "0 \<le> x"
    using fle_0_to_float [of "of_int n"] assms(2) x by simp
  have "rnd64 x = x" and xm: "\<bar>x\<bar> < fmax"
    using float_ok_to_float [of "of_int n"] x by (simp_all add: rnd64_rep)
  then have "0 \<le> rnd64 (x / 1000)" and "rnd64 (x / 1000) \<le> x"
    using x0 rnd64_mono [of "x / 1000" x] by (simp_all add: rnd64_nonneg)
  then have "f = FFin (rnd64 (x / 1000))"
    using xm by (simp add: f to_float_def)
  then show ?thesis
    using \<open>0 \<le> rnd64 (x / 1000)\<close> assms(3) by (simp add: fle_0_to_float)
qed

lemma CACHED_RATE_pos: "\<exists>r>0. CACHED_RATE = FFin r"
proof -
  have "rnd64 (2 powi (- 4)) \<le> rnd64 (1 / 10)" and "rnd64 (1 / 10) \<le> rnd64 1"
    by (intro rnd64_mono; simp add: power_int_minus)+
  moreover have "rnd64 (2 powi (- 4)) = 2 powi (- 4)"
    using rep64I [of 1 "- 4"] by (intro rnd64_rep) simp
  moreover have "rnd64 1 = 1"
    by (simp add: rnd64_rep rep64_1)
  moreover have "(0::rat) < 2 powi (- 4)"
    by simp
  ultimately have "0 < rnd64 (1 / 10)" and "rnd64 (1 / 10) \<le> 1"
    by linarith+
  moreover have "(1::rat) < fmax"
    using fmax_gt by simp
  ultimately show ?thesis
    by (intro exI [of _ "rnd64 (1 / 10)"]) (simp add: CACHED_RATE_def to_float_def)
qed

section \<open>Properties\<close>

text \<open>A call billed without markup (the BYO and INTERNAL tenants) is billed at exactly the
  cost recorded for it, to the last bit of the float.\<close>

lemma no_markup_bills_cost:
  assumes "cost_from_copilot_usage u (FFin 0) = Inr (Some c)"
  shows "billed_usd c = cost_usd c"
  using assms by (elim cost_Some_round_pair) (simp add: round_pair_no_markup float_ok_fdiv_lit)

text \<open>The totals upstream may send that are not negative.\<close>

definition nonneg_total :: "json \<Rightarrow> bool" where
  "nonneg_total u = (case nano_total u of Some (JInt i) \<Rightarrow> 0 \<le> i | Some (JFloat f) \<Rightarrow> fle (FFin 0) f | _ \<Rightarrow> True)"

lemma cost_nonneg_form:
  assumes "cost_from_copilot_usage u m = Inr (Some c)" and "nonneg_total u"
  obtains f where "c = round_pair f m USD_PLACES" and "float_ok f" and "fle (FFin 0) f"
proof -
  have div: "fle (FFin 0) f \<Longrightarrow> fle (FFin 0) (fdiv_lit f NANO_AIU_PER_USD)" for f
    by (cases f) (auto simp: NANO_AIU_PER_USD_def intro!: fle_0_to_float)
  have int: "0 \<le> i \<Longrightarrow> float_of_int i = Inr f \<Longrightarrow> fle (FFin 0) f" for i f
    using fle_0_to_float [of "of_int i"] by (cases "to_float (of_int i)") (auto simp: float_of_int_def)
  from assms show ?thesis
    using that div int float_ok_fdiv_lit
    by (auto simp: cost_from_copilot_usage_def nonneg_total_def nano_total_def
        split: json.splits sum.splits)
qed

text \<open>A resale markup between zero and \<^verbatim>\<open>2^52\<close> never bills less than the cost, whatever
  the float rounding of the product and of the two decimal roundings does.\<close>

lemma markup_never_bills_below_cost:
  assumes "cost_from_copilot_usage u (FFin m) = Inr (Some c)"
    and "nonneg_total u" and "0 \<le> m" and "m \<le> 2 ^ 52"
  shows "fle (cost_usd c) (billed_usd c)"
proof -
  obtain f where "c = round_pair f (FFin m) USD_PLACES" "float_ok f" "fle (FFin 0) f"
    using assms(1,2) by (rule cost_nonneg_form)
  then show ?thesis
    using assms(3,4) round_pair_markup_le by blast
qed

lemma markup_never_bills_below_cost_witness:
  "fle (cost_usd (round_pair (to_float (of_int 250000 / 10 ^ 11)) (FFin (1/4)) 11))
       (billed_usd (round_pair (to_float (of_int 250000 / 10 ^ 11)) (FFin (1/4)) 11))"
  by (rule markup_never_bills_below_cost [OF cost_of_int_total])
    (simp_all add: nonneg_total_def nano_total_def)

text \<open>Cost is monotone in upstream's total: of two calls priced from integer totals, the one
  with the larger total never costs less.\<close>

lemma cost_monotone_in_total:
  assumes "cost_from_copilot_usage (JObj d) m = Inr (Some c)"
    and "cost_from_copilot_usage (JObj d') m' = Inr (Some c')"
    and "jget d ''total_nano_aiu'' = JInt i" and "jget d' ''total_nano_aiu'' = JInt j" and "i \<le> j"
  shows "fle (cost_usd c) (cost_usd c')"
proof -
  obtain x y where x: "to_float (of_int i) = FFin x" and y: "to_float (of_int j) = FFin y"
    and c: "c = round_pair (to_float (x / NANO_AIU_PER_USD)) m USD_PLACES"
    and c': "c' = round_pair (to_float (y / NANO_AIU_PER_USD)) m' USD_PLACES"
    using assms(1-4)
    by (auto simp: cost_from_copilot_usage_def split: sum.splits dest!: float_of_int_Inr)
  have "fle (to_float (of_int i)) (to_float (of_int j))"
    using assms(5) by (intro fle_to_float) simp
  then have "x / NANO_AIU_PER_USD \<le> y / NANO_AIU_PER_USD"
    using x y by (simp add: NANO_AIU_PER_USD_def divide_right_mono)
  then show ?thesis
    by (simp add: c c' fle_py_round fle_to_float)
qed

text \<open>The token split is the per-type sum of upstream's details: whenever it returns, each of
  the four columns is the sum of the counts of the entries of its type, and nothing else.\<close>

lemma token_split_is_type_sum:
  assumes "tokens_from_copilot_usage (JObj d) = Inr t" and "jget d ''token_details'' = JList es"
  shows "tok_get f t = type_sum f es"
  using assms add_details_get [of es zero_tokens t f] by (simp add: tokens_from_copilot_usage_def)

lemma token_split_is_type_sum_witness:
  "tok_get CachedTok \<lparr>prompt_tok = 7, completion_tok = 0, cached_tok = 5, cache_write_tok = 0\<rparr>
    = type_sum CachedTok
       [JObj [(''token_type'', JStr ''input''), (''token_count'', JInt 7)],
        JObj [(''token_type'', JStr ''cache_read''), (''token_count'', JInt 5)],
        JObj [(''token_type'', JStr ''audio''), (''token_count'', JInt 9)]]"
  by (rule token_split_is_type_sum [of "[(''token_details'', JList
       [JObj [(''token_type'', JStr ''input''), (''token_count'', JInt 7)],
        JObj [(''token_type'', JStr ''cache_read''), (''token_count'', JInt 5)],
        JObj [(''token_type'', JStr ''audio''), (''token_count'', JInt 9)]])]"])
    (simp_all add: tokens_from_copilot_usage_def add_detail_def token_type_field_def zero_tokens_def)

text \<open>The fallback price is never negative: with non-negative prices and counts the cost from
  the local price table is at least zero, even when more cached tokens are reported than prompt
  tokens (the billable prompt is clamped at zero).\<close>

lemma fallback_cost_nonneg:
  assumes "compute_cost (FFin pin) (FFin pout) m prompt completion cached = Inr c"
    and "0 \<le> pin" and "0 \<le> pout" and "0 \<le> completion" and "0 \<le> cached"
  shows "fle (FFin 0) (cost_usd c)"
proof -
  obtain p q r where p: "per_1k (max (prompt - cached) 0) = Inr p" and q: "per_1k cached = Inr q"
    and r: "per_1k completion = Inr r"
    and c: "cost_usd c = py_round 6 (fadd (fadd (fmul p (FFin pin)) (fmul (fmul q (FFin pin)) CACHED_RATE))
              (fmul r (FFin pout)))"
    using assms(1) by (auto simp: compute_cost_def Let_def split: sum.splits)
  obtain rate where rate: "0 < rate" "CACHED_RATE = FFin rate"
    using CACHED_RATE_pos by blast
  have "fle (FFin 0) (fmul p (FFin pin))" and "fle (FFin 0) (fmul q (FFin pin))"
    and "fle (FFin 0) (fmul r (FFin pout))"
    using fmul_per_1k_nonneg [OF p] fmul_per_1k_nonneg [OF q] fmul_per_1k_nonneg [OF r] assms(2-5)
    by simp_all
  then have "fle (FFin 0) (fadd (fadd (fmul p (FFin pin)) (fmul (fmul q (FFin pin)) CACHED_RATE))
              (fmul r (FFin pout)))"
    unfolding rate(2) by (intro fadd_nonneg fmul_pos_nonneg [OF _ rate(1)])
  then have "fle (py_round 6 (FFin 0)) (cost_usd c)"
    unfolding c by (rule fle_py_round)
  then show ?thesis by simp
qed

lemma per_1k_0: "per_1k 0 = Inr (FFin 0)"
  by (simp add: per_1k_def float_of_int_def)

end
