(* ===== verification/Timestamps.thy ===== *)
theory Timestamps
  imports Prelude "HOL-Library.List_Lexorder"
begin

text \<open>
  The part of Python's \<^verbatim>\<open>datetime\<close> that the usage pipeline uses.  An aware UTC time is the
  number of microseconds since 0001-01-01T00:00:00 (\<^verbatim>\<open>utc\<close>); \<^verbatim>\<open>ymd2ord\<close> and
  \<^verbatim>\<open>ord2ymd\<close> are the proleptic Gregorian calendar, \<^verbatim>\<open>iso_utc\<close> is \<^verbatim>\<open>isoformat()\<close>,
  \<^verbatim>\<open>fromisoformat\<close> follows the parser of CPython 3.12 (calendar dates, ISO weeks, optional
  separators, fractions, offsets), \<^verbatim>\<open>astimezone_utc\<close> converts an offset time, raising
  \<^verbatim>\<open>OverflowError\<close> when the result leaves the years 1 to 9999.

  The lemmas: the calendar functions are inverse to each other, \<^verbatim>\<open>isoformat\<close> of UTC times is
  ordered as the times are (the string comparisons of the usage queries rest on that), and
  \<^verbatim>\<open>fromisoformat\<close> reads back what \<^verbatim>\<open>isoformat\<close> wrote.
\<close>

type_synonym utc = int

section \<open>The calendar\<close>

definition leap :: "int \<Rightarrow> bool" where
  "leap y \<longleftrightarrow> y mod 4 = 0 \<and> (y mod 100 \<noteq> 0 \<or> y mod 400 = 0)"

definition days_before_year :: "int \<Rightarrow> int" where
  "days_before_year y = (let p = y - 1 in p * 365 + p div 4 - p div 100 + p div 400)"

definition month_lengths :: "int \<Rightarrow> int list" where
  "month_lengths y = [31, if leap y then 29 else 28, 31, 30, 31, 30, 31, 31, 30, 31, 30, 31]"

definition days_in_month :: "int \<Rightarrow> int \<Rightarrow> int" where
  "days_in_month y m = month_lengths y ! nat (m - 1)"

definition days_before_month :: "int \<Rightarrow> int \<Rightarrow> int" where
  "days_before_month y m = sum_list (take (nat (m - 1)) (month_lengths y))"

text \<open>Days since 0001-01-01 (that day is 0).\<close>

definition ymd2ord :: "int \<Rightarrow> int \<Rightarrow> int \<Rightarrow> int" where
  "ymd2ord y m d = days_before_year y + days_before_month y m + d - 1"

fun month_of :: "int list \<Rightarrow> int \<Rightarrow> int \<Rightarrow> int \<times> int" where
  "month_of [] m n = (m, n + 1)"
| "month_of (l # ls) m n = (if n < l then (m, n + 1) else month_of ls (m + 1) (n - l))"

text \<open>The year and the day of the year (from 0).\<close>

definition year_of :: "int \<Rightarrow> int \<times> int" where
  "year_of n =
     (let n400 = n div 146097; r400 = n mod 146097;
          n100 = r400 div 36524; r100 = r400 mod 36524;
          n4 = r100 div 1461; r4 = r100 mod 1461;
          n1 = r4 div 365; r1 = r4 mod 365;
          year = n400 * 400 + n100 * 100 + n4 * 4 + n1 + 1
      in if n1 = 4 \<or> n100 = 4 then (year - 1, 365) else (year, r1))"

definition ord2ymd :: "int \<Rightarrow> int \<times> int \<times> int" where
  "ord2ymd n = (case year_of n of (y, r) \<Rightarrow> (case month_of (month_lengths y) 1 r of (m, d) \<Rightarrow> (y, m, d)))"

definition year_length :: "int \<Rightarrow> int" where
  "year_length y = (if leap y then 366 else 365)"

lemma div_Suc_int:
  fixes p k :: int
  assumes "0 < k"
  shows "(p + 1) div k = p div k + (if (p + 1) mod k = 0 then 1 else 0)"
proof (cases "p mod k + 1 = k")
  case True
  then have e: "p + 1 = k * (p div k + 1) + 0"
    using mult_div_mod_eq [of k p] by (simp only: distrib_left)
  have "(p + 1) div k = p div k + 1" "(p + 1) mod k = 0"
    using int_div_pos_eq [OF e] int_mod_pos_eq [OF e] assms by simp_all
  then show ?thesis by simp
next
  case False
  have e: "p + 1 = k * (p div k) + (p mod k + 1)"
    using mult_div_mod_eq [of k p] by simp
  have "0 \<le> p mod k" "p mod k < k"
    using assms by simp_all
  with False have "(p + 1) div k = p div k" "(p + 1) mod k = p mod k + 1"
    using int_div_pos_eq [OF e] int_mod_pos_eq [OF e] by linarith+
  then show ?thesis
    using \<open>0 \<le> p mod k\<close> by simp
qed

lemma div_pred_int: "0 < k \<Longrightarrow> y div k = (y - 1) div k + (if y mod k = 0 then 1 else 0)" for y k :: int
  using div_Suc_int [of k "y - 1"] by (simp only: diff_add_cancel)

lemma mod_0_trans_int: "y mod m = 0 \<Longrightarrow> k dvd m \<Longrightarrow> y mod k = 0" for y m k :: int
  by (meson dvd_imp_mod_0 dvd_trans mod_0_imp_dvd)

lemma leap_sum:
  fixes y :: int
  assumes "D4 = E4 + (if P then 1 else 0)" "D100 = E100 + (if Q then 1 else 0)"
    "D400 = E400 + (if R then 1 else 0)" "Q \<Longrightarrow> P" "R \<Longrightarrow> Q"
  shows "y * 365 + D4 - D100 + D400
    = (y - 1) * 365 + E4 - E100 + E400 + (if P \<and> (\<not> Q \<or> R) then 366 else 365)"
  by (cases P; cases Q; cases R) (use assms in simp_all)

lemma days_before_year_Suc: "days_before_year (y + 1) = days_before_year y + year_length y"
proof -
  have new: "days_before_year (y + 1) = y * 365 + y div 4 - y div 100 + y div 400"
    and old: "days_before_year y = (y - 1) * 365 + (y - 1) div 4 - (y - 1) div 100 + (y - 1) div 400"
    by (simp_all add: days_before_year_def Let_def)
  have d4: "y div 4 = (y - 1) div 4 + (if y mod 4 = 0 then 1 else 0)"
    and d100: "y div 100 = (y - 1) div 100 + (if y mod 100 = 0 then 1 else 0)"
    and d400: "y div 400 = (y - 1) div 400 + (if y mod 400 = 0 then 1 else 0)"
    by (rule div_pred_int; simp)+
  have i100: "y mod 100 = 0 \<Longrightarrow> y mod 4 = 0" and i400: "y mod 400 = 0 \<Longrightarrow> y mod 100 = 0"
    using mod_0_trans_int [of y 100 4] mod_0_trans_int [of y 400 100] by auto
  show ?thesis
    unfolding new old year_length_def leap_def
    by (rule leap_sum [OF d4 d100 d400 i100 i400])
qed

lemma days_before_year_mono:
  assumes "y < z"
  shows "days_before_year y + year_length y \<le> days_before_year z"
proof -
  have "days_before_year (y + 1) \<le> days_before_year (y + 1 + int k)" for k
  proof (induction k)
    case (Suc k)
    then show ?case
      using days_before_year_Suc [of "y + 1 + int k"] by (simp add: year_length_def split: if_splits)
  qed simp
  from this [of "nat (z - y - 1)"] assms show ?thesis
    by (simp add: days_before_year_Suc)
qed

lemma days_before_year_cycles:
  fixes a b c d :: int
  assumes "0 \<le> b" "b \<le> 3" "0 \<le> c" "c \<le> 24" "0 \<le> d" "d \<le> 3"
  shows "days_before_year (a * 400 + b * 100 + c * 4 + d + 1) = 146097 * a + 36524 * b + 1461 * c + 365 * d"
proof -
  have "(a * 400 + b * 100 + c * 4 + d) div 4 = a * 100 + b * 25 + c"
    by (rule int_div_pos_eq [where r = d]) (use assms in auto)
  moreover have "(a * 400 + b * 100 + c * 4 + d) div 100 = a * 4 + b"
    by (rule int_div_pos_eq [where r = "c * 4 + d"]) (use assms in auto)
  moreover have "(a * 400 + b * 100 + c * 4 + d) div 400 = a"
    by (rule int_div_pos_eq [where r = "b * 100 + c * 4 + d"]) (use assms in auto)
  ultimately show ?thesis
    by (simp add: days_before_year_def Let_def)
qed

lemma leap_cycles:
  fixes a b c d :: int
  assumes "0 \<le> b" "b \<le> 3" "0 \<le> c" "c \<le> 24" "0 \<le> d" "d \<le> 3"
  shows "leap (a * 400 + b * 100 + c * 4 + d + 1) \<longleftrightarrow> d = 3 \<and> (c \<noteq> 24 \<or> b = 3)"
proof -
  let ?y = "a * 400 + b * 100 + c * 4 + d + 1"
  have m: "?y mod k = (if r = k then 0 else r)" if "?y = k * q + r" "0 < r" "r \<le> k" for k q r
  proof (cases "r = k")
    case True
    then have "?y = k * (q + 1) + 0" using that by (simp add: algebra_simps)
    then have "?y mod k = 0"
      by (rule int_mod_pos_eq) (use that in auto)
    with True show ?thesis by simp
  next
    case False
    have "?y mod k = r"
      by (rule int_mod_pos_eq [OF that(1)]) (use that False in auto)
    with False show ?thesis by simp
  qed
  have "?y mod 4 = (if d + 1 = 4 then 0 else d + 1)"
    by (rule m [where q = "a * 100 + b * 25 + c"]) (use assms in auto)
  moreover have "?y mod 100 = (if c * 4 + d + 1 = 100 then 0 else c * 4 + d + 1)"
    by (rule m [where q = "a * 4 + b"]) (use assms in auto)
  moreover have "?y mod 400 = (if b * 100 + c * 4 + d + 1 = 400 then 0 else b * 100 + c * 4 + d + 1)"
    by (rule m [where q = a]) (use assms in auto)
  ultimately show ?thesis
    using assms unfolding leap_def by (simp split: if_splits)
qed

lemma year_of_correct:
  assumes "0 \<le> n" and "year_of n = (y, r)"
  shows "days_before_year y + r = n \<and> 0 \<le> r \<and> r < year_length y \<and> 1 \<le> y"
proof -
  define a where "a = n div 146097"
  define q where "q = n mod 146097"
  define b where "b = q div 36524"
  define q2 where "q2 = q mod 36524"
  define c where "c = q2 div 1461"
  define q3 where "q3 = q2 mod 1461"
  define d where "d = q3 div 365"
  define r1 where "r1 = q3 mod 365"
  note defs = a_def q_def b_def q2_def c_def q3_def d_def r1_def
  have n: "n = 146097 * a + q" "q = 36524 * b + q2" "q2 = 1461 * c + q3" "q3 = 365 * d + r1"
    by (simp_all add: defs)
  have rng: "0 \<le> q" "q < 146097" "0 \<le> q2" "q2 < 36524" "0 \<le> q3" "q3 < 1461" "0 \<le> r1" "r1 < 365"
    by (simp_all add: defs)
  have a0: "0 \<le> a"
    using assms(1) by (simp add: a_def pos_imp_zdiv_nonneg_iff)
  have bcd: "0 \<le> b" "b \<le> 4" "0 \<le> c" "c \<le> 24" "0 \<le> d" "d \<le> 4"
    using n rng by linarith+
  have yr: "(y, r) = (if d = 4 \<or> b = 4 then (a * 400 + b * 100 + c * 4 + d + 1 - 1, 365)
      else (a * 400 + b * 100 + c * 4 + d + 1, r1))"
    using assms(2)[symmetric] by (simp only: year_of_def Let_def defs)
  consider (plain) "d \<noteq> 4" "b \<noteq> 4" | (b4) "b = 4" | (d4) "d = 4" "b \<noteq> 4"
    by blast
  then show ?thesis
  proof cases
    case plain
    then have "b \<le> 3" and "d \<le> 3" using bcd by auto
    then show ?thesis
      using yr plain n rng bcd a0 days_before_year_cycles [of b c d a]
      by (simp add: year_length_def)
  next
    case b4
    then have "q2 = 0" using n rng by linarith
    then have "c = 0" "q3 = 0" "d = 0" "r1 = 0"
      by (simp_all add: defs)
    then show ?thesis
      using yr b4 n a0 days_before_year_cycles [of 3 24 3 a] leap_cycles [of 3 24 3 a]
      by (simp add: year_length_def)
  next
    case d4
    then have "r1 = 0" and "b \<le> 3" using n rng bcd by linarith+
    moreover have "c \<le> 23 \<or> b = 3"
    proof (rule ccontr)
      assume "\<not> ?thesis"
      then have "c = 24" using bcd by linarith
      with d4 \<open>r1 = 0\<close> n rng show False by linarith
    qed
    ultimately have lp: "leap (a * 400 + b * 100 + c * 4 + 3 + 1)"
      and dy: "days_before_year (a * 400 + b * 100 + c * 4 + 3 + 1) = 146097 * a + 36524 * b + 1461 * c + 365 * 3"
      using leap_cycles [of b c 3 a] days_before_year_cycles [of b c 3 a] bcd by auto
    have y: "y = a * 400 + b * 100 + c * 4 + 3 + 1" and r: "r = 365"
      using yr d4 by simp_all
    show ?thesis
      unfolding y r using lp dy n d4 \<open>r1 = 0\<close> a0 bcd by (simp only: year_length_def if_True) linarith
  qed
qed

lemma month_of_correct:
  assumes "0 \<le> n" and "n < sum_list ls" and "\<forall>l \<in> set ls. 0 < l" and "month_of ls k n = (m, d)"
  shows "k \<le> m \<and> m < k + int (length ls) \<and> sum_list (take (nat (m - k)) ls) + d - 1 = n
     \<and> 1 \<le> d \<and> d \<le> ls ! nat (m - k)"
  using assms
proof (induction ls arbitrary: k n)
  case (Cons l ls)
  show ?case
  proof (cases "n < l")
    case True
    with Cons.prems show ?thesis by auto
  next
    case False
    with Cons.prems have "month_of ls (k + 1) (n - l) = (m, d)" and "0 \<le> n - l" and "n - l < sum_list ls"
      by auto
    with Cons.IH [of "n - l" "k + 1"] Cons.prems(3)
    have ih: "k + 1 \<le> m" "m < k + 1 + int (length ls)" "sum_list (take (nat (m - (k + 1))) ls) + d - 1 = n - l"
        "1 \<le> d" "d \<le> ls ! nat (m - (k + 1))"
      by auto
    moreover from ih(1) have "nat (m - k) = Suc (nat (m - (k + 1)))"
      by simp
    ultimately show ?thesis by simp
  qed
qed simp

lemma month_lengths_sum: "sum_list (month_lengths y) = year_length y"
  by (simp add: month_lengths_def year_length_def)

lemma month_lengths_pos: "\<forall>l \<in> set (month_lengths y). 0 < l"
  by (simp add: month_lengths_def)

lemma length_month_lengths [simp]: "length (month_lengths y) = 12"
  by (simp add: month_lengths_def)

definition valid_ymd :: "int \<Rightarrow> int \<Rightarrow> int \<Rightarrow> bool" where
  "valid_ymd y m d \<longleftrightarrow> 1 \<le> y \<and> 1 \<le> m \<and> m \<le> 12 \<and> 1 \<le> d \<and> d \<le> days_in_month y m"

lemma ord2ymd_correct:
  assumes "0 \<le> n" and "ord2ymd n = (y, m, d)"
  shows "ymd2ord y m d = n \<and> valid_ymd y m d"
proof -
  obtain r where yr: "year_of n = (y, r)" and md: "month_of (month_lengths y) 1 r = (m, d)"
    using assms(2) by (auto simp: ord2ymd_def split: prod.splits)
  have Y: "days_before_year y + r = n" "0 \<le> r" "r < year_length y" "1 \<le> y"
    using year_of_correct [OF assms(1) yr] by auto
  then have "1 \<le> m \<and> m < 1 + int 12 \<and> sum_list (take (nat (m - 1)) (month_lengths y)) + d - 1 = r
     \<and> 1 \<le> d \<and> d \<le> month_lengths y ! nat (m - 1)"
    using month_of_correct [of r "month_lengths y" 1 m d] md month_lengths_pos
    by (simp add: month_lengths_sum)
  with Y show ?thesis
    by (auto simp: ymd2ord_def valid_ymd_def days_before_month_def days_in_month_def)
qed

section \<open>UTC times and isoformat\<close>

definition DAY :: int where "DAY = 86400000000"
definition MAX_UTC :: int where "MAX_UTC = 3652059 * DAY"

record civil =
  year :: int
  month :: int
  day :: int
  hour :: int
  minute :: int
  second :: int
  micro :: int

definition civil_of :: "utc \<Rightarrow> civil" where
  "civil_of t = (case ord2ymd (t div DAY) of (y, m, d) \<Rightarrow>
     let r = t mod DAY in
     \<lparr>year = y, month = m, day = d, hour = r div 3600000000, minute = r div 60000000 mod 60,
      second = r div 1000000 mod 60, micro = r mod 1000000\<rparr>)"

definition utc_of :: "civil \<Rightarrow> utc" where
  "utc_of c = ymd2ord (year c) (month c) (day c) * DAY
     + ((hour c * 60 + minute c) * 60 + second c) * 1000000 + micro c"

definition date_str :: "civil \<Rightarrow> string" where
  "date_str c = pad_str 4 (year c) @ ''-'' @ pad_str 2 (month c) @ ''-'' @ pad_str 2 (day c)"

definition hour_str :: "civil \<Rightarrow> string" where
  "hour_str c = date_str c @ ''T'' @ pad_str 2 (hour c)"

definition iso_utc :: "utc \<Rightarrow> string" where
  "iso_utc t = (let c = civil_of t in
     hour_str c @ '':'' @ pad_str 2 (minute c) @ '':'' @ pad_str 2 (second c)
     @ (if micro c = 0 then [] else ''.'' @ pad_str 6 (micro c)) @ ''+00:00'')"

text \<open>\<^verbatim>\<open>strftime\<close> (of years from 1000 on, which it writes with four digits) with the formats the code uses: \<^verbatim>\<open>%Y%m\<close>, \<^verbatim>\<open>%Y-%m-%dT%H\<close>, \<^verbatim>\<open>%Y-%m-%d\<close>.\<close>

definition fmt_Ym :: "utc \<Rightarrow> string" where
  "fmt_Ym t = (let c = civil_of t in pad_str 4 (year c) @ pad_str 2 (month c))"

definition fmt_hour :: "utc \<Rightarrow> string" where
  "fmt_hour t = hour_str (civil_of t)"

definition fmt_day :: "utc \<Rightarrow> string" where
  "fmt_day t = date_str (civil_of t)"

definition valid_civil :: "civil \<Rightarrow> bool" where
  "valid_civil c \<longleftrightarrow> valid_ymd (year c) (month c) (day c) \<and> year c \<le> 9999
     \<and> 0 \<le> hour c \<and> hour c < 24 \<and> 0 \<le> minute c \<and> minute c < 60
     \<and> 0 \<le> second c \<and> second c < 60 \<and> 0 \<le> micro c \<and> micro c < 1000000"

lemma DAY_pos [simp]: "0 < DAY"
  by (simp add: DAY_def)

lemma day_time_split:
  fixes r :: int
  assumes "0 \<le> r"
  shows "((r div 3600000000 * 60 + r div 60000000 mod 60) * 60 + r div 1000000 mod 60) * 1000000
    + r mod 1000000 = r"
proof -
  have "r div 60000000 div 60 = r div 3600000000" and "r div 1000000 div 60 = r div 60000000"
    using zdiv_zmult2_eq [of 60 r 60000000] zdiv_zmult2_eq [of 60 r 1000000] by simp_all
  then have "r div 3600000000 * 60 + r div 60000000 mod 60 = r div 60000000"
    and "r div 60000000 * 60 + r div 1000000 mod 60 = r div 1000000"
    using div_mult_mod_eq [of "r div 60000000" 60] div_mult_mod_eq [of "r div 1000000" 60] by simp_all
  then show ?thesis
    using div_mult_mod_eq [of r 1000000] by simp
qed

lemma ord_year_le_9999:
  assumes "ymd2ord y m d < 3652059" and "valid_ymd y m d"
  shows "y \<le> 9999"
proof (rule ccontr)
  assume "\<not> y \<le> 9999"
  then have "days_before_year 9999 + year_length 9999 \<le> days_before_year y"
    by (intro days_before_year_mono) simp
  moreover have "days_before_year 9999 + year_length 9999 = 3652059"
    by (simp add: days_before_year_def year_length_def leap_def Let_def)
  moreover have "0 \<le> days_before_month y m"
    unfolding days_before_month_def
    by (rule sum_list_nonneg) (use month_lengths_pos in \<open>auto dest: in_set_takeD intro: less_imp_le\<close>)
  ultimately show False
    using assms by (simp add: ymd2ord_def valid_ymd_def)
qed

lemma civil_of_correct:
  assumes "0 \<le> t" and "t < MAX_UTC"
  shows "utc_of (civil_of t) = t \<and> valid_civil (civil_of t)"
proof -
  obtain y m d where ymd: "ord2ymd (t div DAY) = (y, m, d)"
    by (metis prod_cases3)
  have n: "0 \<le> t div DAY" "t div DAY < 3652059"
    using assms by (simp_all add: pos_imp_zdiv_nonneg_iff MAX_UTC_def DAY_def)
  have ord: "ymd2ord y m d = t div DAY" and val: "valid_ymd y m d"
    using ord2ymd_correct [OF n(1) ymd] by auto
  have y: "y \<le> 9999"
    using ord_year_le_9999 [OF _ val] ord n(2) by simp
  have r: "0 \<le> t mod DAY" "t mod DAY < 86400000000"
    by (simp_all add: DAY_def)
  then have "t mod DAY div 3600000000 < 24" "0 \<le> t mod DAY div 3600000000"
    by (simp_all add: pos_imp_zdiv_nonneg_iff)
  with y val have "valid_civil (civil_of t)"
    by (simp add: civil_of_def ymd valid_civil_def Let_def)
  moreover have "utc_of (civil_of t) = t"
    using day_time_split [OF r(1)] div_mult_mod_eq [of t DAY]
    by (simp only: civil_of_def ymd utc_of_def ord Let_def prod.case civil.simps)
  ultimately show ?thesis by simp
qed

section \<open>Order of the text is order of the times\<close>

lemma less_append_eq_length:
  fixes u v x y :: string
  shows "length u = length v \<Longrightarrow> u @ x < v @ y \<longleftrightarrow> u < v \<or> (u = v \<and> x < y)"
proof (induction u v rule: list_induct2)
  case (Cons a u b v)
  then show ?case by (auto simp: Cons_less_Cons)
qed simp

lemma length_pad_str [simp]: "length (pad_str w n) = w"
  by (induction w n rule: pad_str.induct) auto

lemma digit_char_less_iff: "digit_char a < digit_char b \<longleftrightarrow> a mod 10 < b mod 10"
  using pos_mod_sign [of 10 a] pos_mod_sign [of 10 b]
  by (simp only: less_char_def of_char_digit_char) linarith

lemma digit_char_eq_iff: "digit_char a = digit_char b \<longleftrightarrow> a mod 10 = b mod 10"
proof
  assume "digit_char a = digit_char b"
  then have "(of_char (digit_char a) :: nat) = of_char (digit_char b)" by simp
  then show "a mod 10 = b mod 10"
    by (simp only: of_char_digit_char)
qed (simp add: digit_char_def)

lemma div10_cmp:
  fixes a b q r q' r' :: int
  assumes "a = q * 10 + r" "b = q' * 10 + r'" "0 \<le> r" "r < 10" "0 \<le> r'" "r' < 10"
  shows "(a < b) = (q < q' \<or> (q = q' \<and> r < r'))" and "(a = b) = (q = q' \<and> r = r')"
  using assms by (cases q q' rule: linorder_cases; simp)+

text \<open>Zero-padded decimals of the same width compare as the numbers.\<close>

lemma pad_str_cmp:
  assumes "0 \<le> a" "a < 10 ^ w" "0 \<le> b" "b < 10 ^ w"
  shows "(pad_str w a < pad_str w b \<longleftrightarrow> a < b) \<and> (pad_str w a = pad_str w b \<longleftrightarrow> a = b)"
  using assms
proof (induction w arbitrary: a b)
  case 0
  then show ?case by simp
next
  case (Suc w)
  have "a div 10 < 10 ^ w" "0 \<le> a div 10" "b div 10 < 10 ^ w" "0 \<le> b div 10"
    using Suc.prems by auto
  note ih = Suc.IH [OF this(2,1) this(4,3)]
  note cmp = div10_cmp [OF div_mult_mod_eq [of a 10, symmetric] div_mult_mod_eq [of b 10, symmetric]]
  have "(a < b) = (a div 10 < b div 10 \<or> (a div 10 = b div 10 \<and> a mod 10 < b mod 10))"
    and "(a = b) = (a div 10 = b div 10 \<and> a mod 10 = b mod 10)"
    by (rule cmp; simp)+
  with ih show ?case
    by (simp add: less_append_eq_length digit_char_less_iff digit_char_eq_iff)
qed

text \<open>The fields of a time, most significant first, as one key per field.\<close>

definition civil_key :: "civil \<Rightarrow> int list" where
  "civil_key c = [year c, month c, day c, hour c, minute c, second c, micro c]"

lemma ymd2ord_less:
  assumes "valid_ymd y m d" "valid_ymd y' m' d'" and "[y, m, d] < [y', m', d']"
  shows "ymd2ord y m d < ymd2ord y' m' d'"
proof -
  have lt_year: "days_before_month y m + d \<le> year_length y" if "valid_ymd y m d" for y m d
  proof -
    have "take (nat (m - 1)) (month_lengths y) @ month_lengths y ! nat (m - 1) # drop (Suc (nat (m - 1))) (month_lengths y)
        = month_lengths y"
      using that by (intro id_take_nth_drop [symmetric]) (auto simp: valid_ymd_def)
    then have "sum_list (take (nat (m - 1)) (month_lengths y)) + month_lengths y ! nat (m - 1)
        + sum_list (drop (Suc (nat (m - 1))) (month_lengths y)) = year_length y"
      by (metis add.assoc month_lengths_sum sum_list.Cons sum_list.append)
    moreover have "0 \<le> sum_list (drop (Suc (nat (m - 1))) (month_lengths y))"
      by (rule sum_list_nonneg) (use month_lengths_pos in \<open>auto dest: in_set_dropD intro: less_imp_le\<close>)
    ultimately show ?thesis
      using that by (simp add: valid_ymd_def days_before_month_def days_in_month_def)
  qed
  have nonneg: "0 \<le> days_before_month y m" for y m
    unfolding days_before_month_def
    by (rule sum_list_nonneg) (use month_lengths_pos in \<open>auto dest: in_set_takeD intro: less_imp_le\<close>)
  have month: "days_before_month y m + days_in_month y m \<le> days_before_month y m'"
    if "1 \<le> m" "m < m'" "m' \<le> 12" for y m m'
  proof -
    have "Suc (nat (m - 1)) \<le> nat (m' - 1)" using that by simp
    then have "take (Suc (nat (m - 1))) (month_lengths y) @ drop (Suc (nat (m - 1))) (take (nat (m' - 1)) (month_lengths y))
        = take (nat (m' - 1)) (month_lengths y)"
      by (metis append_take_drop_id min.absorb1 take_take)
    then have "sum_list (take (Suc (nat (m - 1))) (month_lengths y))
        + sum_list (drop (Suc (nat (m - 1))) (take (nat (m' - 1)) (month_lengths y))) = days_before_month y m'"
      unfolding days_before_month_def by (metis sum_list.append)
    moreover have "0 \<le> sum_list (drop (Suc (nat (m - 1))) (take (nat (m' - 1)) (month_lengths y)))"
      by (rule sum_list_nonneg) (meson in_set_dropD in_set_takeD less_imp_le month_lengths_pos)
    moreover have "sum_list (take (Suc (nat (m - 1))) (month_lengths y)) = days_before_month y m + days_in_month y m"
      using that by (simp add: take_Suc_conv_app_nth days_before_month_def days_in_month_def)
    ultimately show ?thesis by linarith
  qed
  consider "y < y'" | "y = y'" "m < m'" | "y = y'" "m = m'" "d < d'"
    using assms(3) by (auto simp: Cons_less_Cons)
  then show ?thesis
  proof cases
    case 1
    then show ?thesis
      using days_before_year_mono [OF 1] lt_year [OF assms(1)] nonneg [of y' m'] assms(2)
      by (simp add: ymd2ord_def valid_ymd_def)
  next
    case 2
    then show ?thesis
      using month [of m m' y] assms by (simp add: ymd2ord_def valid_ymd_def)
  next
    case 3
    then show ?thesis by (simp add: ymd2ord_def)
  qed
qed

lemma civil_key_less:
  assumes "valid_civil a" "valid_civil b" and "civil_key a < civil_key b"
  shows "utc_of a < utc_of b"
proof -
  let ?ord = "\<lambda>c. ymd2ord (year c) (month c) (day c)"
  let ?tod = "\<lambda>c. ((hour c * 60 + minute c) * 60 + second c) * 1000000 + micro c"
  have tod: "0 \<le> ?tod c" "?tod c < DAY" if "valid_civil c" for c
    using that by (simp_all add: valid_civil_def DAY_def)
  consider "[year a, month a, day a] < [year b, month b, day b]"
    | "year a = year b" "month a = month b" "day a = day b"
      "[hour a, minute a, second a, micro a] < [hour b, minute b, second b, micro b]"
    using assms(3) by (auto simp: civil_key_def Cons_less_Cons)
  then show ?thesis
  proof cases
    case 1
    then have "?ord a < ?ord b"
      by (rule ymd2ord_less [rotated 2]) (use assms(1,2) in \<open>simp_all add: valid_civil_def\<close>)
    then have "?ord a + 1 \<le> ?ord b" by simp
    then have "(?ord a + 1) * DAY \<le> ?ord b * DAY"
      by (intro mult_right_mono) (simp_all add: DAY_def)
    then show ?thesis
      using tod(2) [OF assms(1)] tod(1) [OF assms(2)] by (simp add: utc_of_def algebra_simps)
  next
    case 2
    then have "?tod a < ?tod b"
      using assms(1,2) by (auto simp: Cons_less_Cons valid_civil_def)
    with 2 show ?thesis
      by (simp add: utc_of_def)
  qed
qed

lemma pad_field_cmp:
  assumes "0 \<le> a" "a < 10 ^ w" "0 \<le> b" "b < 10 ^ w"
  shows "pad_str w a @ x < pad_str w b @ y \<longleftrightarrow> a < b \<or> (a = b \<and> x < y)"
  using pad_str_cmp [OF assms] by (simp add: less_append_eq_length)

definition micro_tail :: "int \<Rightarrow> string" where
  "micro_tail u = (if u = 0 then [] else ''.'' @ pad_str 6 u) @ ''+00:00''"

lemma micro_tail_cmp:
  assumes "0 \<le> a" "a < 1000000" "0 \<le> b" "b < 1000000"
  shows "micro_tail a < micro_tail b \<longleftrightarrow> a < b"
proof -
  have *: "(pad_str 6 a @ ''+00:00'' < pad_str 6 b @ ''+00:00'') = (a < b)"
    using pad_field_cmp [of a 6 b "''+00:00''" "''+00:00''"] assms by auto
  consider "a = 0" "b = 0" | "a = 0" "0 < b" | "0 < a" "b = 0" | "0 < a" "0 < b"
    using assms by linarith
  then show ?thesis
    by cases (simp_all add: micro_tail_def * Cons_less_Cons)
qed

lemma iso_utc_tail:
  "iso_utc t = (let c = civil_of t in pad_str 4 (year c) @ ''-'' @ pad_str 2 (month c) @ ''-'' @ pad_str 2 (day c)
     @ ''T'' @ pad_str 2 (hour c) @ '':'' @ pad_str 2 (minute c) @ '':'' @ pad_str 2 (second c) @ micro_tail (micro c))"
  by (simp add: iso_utc_def hour_str_def date_str_def micro_tail_def Let_def)

lemma days_in_month_le: "1 \<le> m \<Longrightarrow> m \<le> 12 \<Longrightarrow> days_in_month y m \<le> 31"
proof -
  assume "1 \<le> m" "m \<le> 12"
  then have "month_lengths y ! nat (m - 1) \<in> set (month_lengths y)"
    by (intro nth_mem) auto
  moreover have "\<forall>l \<in> set (month_lengths y). l \<le> 31"
    by (simp add: month_lengths_def)
  ultimately show ?thesis
    by (auto simp: days_in_month_def)
qed

lemma valid_civil_ranges:
  assumes "valid_civil c"
  shows "0 \<le> year c" "year c < 10 ^ 4" "0 \<le> month c" "month c < 10 ^ 2" "0 \<le> day c" "day c < 10 ^ 2"
    "0 \<le> hour c" "hour c < 10 ^ 2" "0 \<le> minute c" "minute c < 10 ^ 2" "0 \<le> second c" "second c < 10 ^ 2"
    "0 \<le> micro c" "micro c < 1000000"
  using assms days_in_month_le [of "month c" "year c"] by (auto simp: valid_civil_def valid_ymd_def)

lemma iso_less_key:
  assumes "0 \<le> a" "a < MAX_UTC" "0 \<le> b" "b < MAX_UTC"
  shows "iso_utc a < iso_utc b \<longleftrightarrow> civil_key (civil_of a) < civil_key (civil_of b)"
proof -
  have "valid_civil (civil_of a)" and "valid_civil (civil_of b)"
    using civil_of_correct assms by auto
  note ra = valid_civil_ranges [OF this(1)] and rb = valid_civil_ranges [OF this(2)]
  have sep: "(s @ x < s @ y) = (x < y)" for s x y :: string
    by (simp add: less_append_eq_length)
  show ?thesis
    unfolding iso_utc_tail Let_def civil_key_def
    by (simp only: sep micro_tail_cmp [OF ra(13,14) rb(13,14)]
        pad_field_cmp [OF ra(1,2) rb(1,2)] pad_field_cmp [OF ra(3,4) rb(3,4)]
        pad_field_cmp [OF ra(5,6) rb(5,6)] pad_field_cmp [OF ra(7,8) rb(7,8)]
        pad_field_cmp [OF ra(9,10) rb(9,10)] pad_field_cmp [OF ra(11,12) rb(11,12)])
      (auto simp: Cons_less_Cons)
qed

lemma iso_utc_less_iff:
  assumes "0 \<le> a" "a < MAX_UTC" "0 \<le> b" "b < MAX_UTC"
  shows "iso_utc a < iso_utc b \<longleftrightarrow> a < b"
proof -
  have C: "utc_of (civil_of a) = a" "valid_civil (civil_of a)" "utc_of (civil_of b) = b" "valid_civil (civil_of b)"
    using civil_of_correct assms by auto
  have eq: "civil_key (civil_of a) = civil_key (civil_of b) \<Longrightarrow> a = b"
    using C(1,3) by (auto simp: civil_key_def utc_of_def)
  show ?thesis
    unfolding iso_less_key [OF assms]
    using civil_key_less [OF C(2,4)] civil_key_less [OF C(4,2)] C(1,3) eq
    by (metis linorder_less_linear order_less_asym)
qed

lemma iso_utc_le_iff:
  assumes "0 \<le> a" "a < MAX_UTC" "0 \<le> b" "b < MAX_UTC"
  shows "iso_utc a \<le> iso_utc b \<longleftrightarrow> a \<le> b"
  using iso_utc_less_iff [OF assms(3,4,1,2)] by (simp add: not_less [symmetric])

section \<open>Reading a timestamp\<close>

definition dig :: "char \<Rightarrow> int option" where
  "dig c = (if 48 \<le> byte c \<and> byte c \<le> 57 then Some (int (byte c) - 48) else None)"

fun digits_from :: "int \<Rightarrow> string \<Rightarrow> int option" where
  "digits_from acc [] = Some acc"
| "digits_from acc (c # s) = (case dig c of None \<Rightarrow> None | Some d \<Rightarrow> digits_from (acc * 10 + d) s)"

definition int_of_digits :: "string \<Rightarrow> int option" where
  "int_of_digits s = (if s = [] then None else digits_from 0 s)"

definition all_digits :: "string \<Rightarrow> bool" where
  "all_digits s = list_all (\<lambda>c. dig c \<noteq> None) s"

fun find_idx :: "char \<Rightarrow> string \<Rightarrow> nat option" where
  "find_idx c [] = None"
| "find_idx c (x # s) = (if x = c then Some 0 else map_option Suc (find_idx c s))"

definition char_at :: "string \<Rightarrow> nat \<Rightarrow> char \<Rightarrow> bool" where
  "char_at s i c = (i < length s \<and> s ! i = c)"

definition slice :: "string \<Rightarrow> nat \<Rightarrow> nat \<Rightarrow> string" where
  "slice s i n = take n (drop i s)"

text \<open>Where the date part ends (the input has at least seven characters).\<close>

definition separator_location :: "string \<Rightarrow> nat option" where
  "separator_location s =
     (if length s = 7 then Some 7
      else if char_at s 4 CHR ''-'' then
        (if char_at s 5 CHR ''W'' then
           (if 8 < length s \<and> char_at s 8 CHR ''-'' then
              (if length s = 9 then None
               else if 10 < length s \<and> dig (s ! 10) \<noteq> None then Some 8
               else Some 10)
            else Some 8)
         else Some 10)
      else if char_at s 4 CHR ''W'' then
        (let idx = 7 + length (takeWhile (\<lambda>c. dig c \<noteq> None) (drop 7 s)) in
         if idx < 9 then Some idx else if even idx then Some 7 else Some 8)
      else Some 8)"

definition isoweek1monday :: "int \<Rightarrow> int" where
  "isoweek1monday y = (let first = ymd2ord y 1 1; wd = first mod 7 in
     if wd > 3 then first - wd + 7 else first - wd)"

definition isoweek_to_ymd :: "int \<Rightarrow> int \<Rightarrow> int \<Rightarrow> (int \<times> int \<times> int) option" where
  "isoweek_to_ymd y week wday =
     (let first = ymd2ord y 1 1 mod 7;
          week_ok = (0 < week \<and> week < 53) \<or> (week = 53 \<and> (first = 3 \<or> (first = 2 \<and> leap y))) in
      if 1 \<le> y \<and> y \<le> 9999 \<and> week_ok \<and> 0 < wday \<and> wday < 8
      then Some (ord2ymd (isoweek1monday y + (week - 1) * 7 + (wday - 1))) else None)"

definition parse_date :: "string \<Rightarrow> (int \<times> int \<times> int) option" where
  "parse_date s =
     (case int_of_digits (slice s 0 4) of None \<Rightarrow> None | Some y \<Rightarrow>
      let has_sep = char_at s 4 CHR ''-''; pos = (if has_sep then 5 else 4) in
      if char_at s pos CHR ''W'' then
        (case int_of_digits (slice s (pos + 1) 2) of None \<Rightarrow> None | Some week \<Rightarrow>
         let p3 = pos + 3 in
         if p3 < length s then
           (if char_at s p3 CHR ''-'' \<noteq> has_sep then None
            else case int_of_digits (slice s (if has_sep then p3 + 1 else p3) 1) of
                   None \<Rightarrow> None | Some wd \<Rightarrow> isoweek_to_ymd y week wd)
         else isoweek_to_ymd y week 1)
      else
        (case int_of_digits (slice s pos 2) of None \<Rightarrow> None | Some m \<Rightarrow>
         let p2 = pos + 2 in
         if char_at s p2 CHR ''-'' \<noteq> has_sep then None
         else case int_of_digits (slice s (if has_sep then p2 + 1 else p2) 2) of
                None \<Rightarrow> None | Some d \<Rightarrow> Some (y, m, d)))"

definition two_digits :: "string \<Rightarrow> int option" where
  "two_digits s = (if length s < 2 then None else int_of_digits (take 2 s))"

definition parse_fraction :: "string \<Rightarrow> int option" where
  "parse_fraction s =
     (let n = min 6 (length s) in
      case int_of_digits (take n s) of None \<Rightarrow> None | Some u \<Rightarrow>
        if all_digits (drop n s) then Some (u * 10 ^ (6 - n)) else None)"

definition parse_hms :: "string \<Rightarrow> (int \<times> int \<times> int \<times> int) option" where
  "parse_hms s =
     (case two_digits s of None \<Rightarrow> None | Some h \<Rightarrow>
      let r0 = drop 2 s; has_sep = char_at r0 0 CHR '':'' in
      if r0 = [] then Some (h, 0, 0, 0)
      else let s1 = (if has_sep then drop 1 r0 else r0) in
      case two_digits s1 of None \<Rightarrow> None | Some m \<Rightarrow>
      let r1 = drop 2 s1 in
      if r1 = [] then Some (h, m, 0, 0)
      else if has_sep \<and> \<not> char_at r1 0 CHR '':'' then None
      else let s2 = (if has_sep then drop 1 r1 else r1) in
      case two_digits s2 of None \<Rightarrow> None | Some sec \<Rightarrow>
      let r2 = drop 2 s2 in
      if r2 = [] then Some (h, m, sec, 0)
      else if char_at r2 0 CHR ''.'' \<or> char_at r2 0 CHR '','' then
        (case parse_fraction (drop 1 r2) of None \<Rightarrow> None | Some u \<Rightarrow> Some (h, m, sec, u))
      else None)"

text \<open>The time of day and, if there is one, the UTC offset in microseconds.\<close>

definition micros :: "int \<times> int \<times> int \<times> int \<Rightarrow> int" where
  "micros q = (case q of (h, m, s, u) \<Rightarrow> ((h * 60 + m) * 60 + s) * 1000000 + u)"

definition tz_index :: "string \<Rightarrow> nat option" where
  "tz_index s = (case find_idx CHR ''-'' s of Some i \<Rightarrow> Some i
     | None \<Rightarrow> (case find_idx CHR ''+'' s of Some i \<Rightarrow> Some i | None \<Rightarrow> find_idx CHR ''Z'' s))"

definition parse_time :: "string \<Rightarrow> ((int \<times> int \<times> int \<times> int) \<times> int option) option" where
  "parse_time s =
     (if length s < 2 then None
      else case tz_index s of
        None \<Rightarrow> map_option (\<lambda>q. (q, None)) (parse_hms s)
      | Some i \<Rightarrow>
          (case parse_hms (take i s) of None \<Rightarrow> None | Some q \<Rightarrow>
             if Suc i = length s \<and> s ! i = CHR ''Z'' then Some (q, Some 0)
             else if length (drop (Suc i) s) \<in> {0, 1, 3} then None
             else case parse_hms (drop (Suc i) s) of None \<Rightarrow> None | Some z \<Rightarrow>
               let off = (if s ! i = CHR ''-'' then - micros z else micros z) in
               if \<bar>off\<bar> < DAY then Some (q, Some off) else None))"

definition is_cont_byte :: "char \<Rightarrow> bool" where
  "is_cont_byte c = (128 \<le> byte c \<and> byte c < 192)"

definition make_civil :: "int \<times> int \<times> int \<Rightarrow> int \<times> int \<times> int \<times> int \<Rightarrow> civil option" where
  "make_civil ymd q = (case ymd of (y, m, d) \<Rightarrow> case q of (h, mi, s, u) \<Rightarrow>
     let c = \<lparr>year = y, month = m, day = d, hour = h, minute = mi, second = s, micro = u\<rparr> in
     if valid_civil c then Some c else None)"

definition fromisoformat :: "string \<Rightarrow> (civil \<times> int option) option" where
  "fromisoformat s =
     (if length s < 7 then None
      else case separator_location s of None \<Rightarrow> None | Some k \<Rightarrow>
        let tstr = dropWhile is_cont_byte (drop (Suc k) s) in
        case parse_date (take k s) of None \<Rightarrow> None | Some ymd \<Rightarrow>
        (case (if tstr = [] then Some ((0, 0, 0, 0), None) else parse_time tstr) of
           None \<Rightarrow> None
         | Some (q, off) \<Rightarrow> map_option (\<lambda>c. (c, off)) (make_civil ymd q)))"

definition astimezone_utc :: "civil \<Rightarrow> int \<Rightarrow> exn + utc" where
  "astimezone_utc c off =
     (let t = utc_of c - off in
      if 0 \<le> t \<and> t < MAX_UTC then Inr t else Inl (OverflowError ''date value out of range''))"

section \<open>Reading back what isoformat wrote\<close>

lemma dig_digit_char [simp]: "dig (digit_char d) = Some (d mod 10)"
  using byte_digit_range [of d] by (simp add: dig_def) (simp add: byte_digit_char)

lemma digits_from_append: "digits_from acc (s @ t) = (case digits_from acc s of None \<Rightarrow> None | Some a \<Rightarrow> digits_from a t)"
  by (induction acc s rule: digits_from.induct) (auto split: option.splits)

lemma digits_from_pad: "digits_from acc (pad_str w n) = Some (acc * 10 ^ w + n mod 10 ^ w)"
proof (induction w arbitrary: acc n)
  case (Suc w)
  have "n mod (10 * 10 ^ w) = 10 * (n div 10 mod 10 ^ w) + n mod 10"
    by (rule zmod_zmult2_eq [of "10 ^ w" n 10, simplified])
  then show ?case
    by (simp add: digits_from_append Suc algebra_simps)
qed simp

lemma int_of_digits_pad: "0 < w \<Longrightarrow> 0 \<le> n \<Longrightarrow> n < 10 ^ w \<Longrightarrow> int_of_digits (pad_str w n) = Some n"
  using digits_from_pad [of 0 w n] length_pad_str [of w n]
  by (auto simp: int_of_digits_def simp del: length_pad_str)

lemma pad_str_6: "pad_str 6 n = [digit_char (n div 100000), digit_char (n div 10000), digit_char (n div 1000),
    digit_char (n div 100), digit_char (n div 10), digit_char n]"
  by (simp add: eval_nat_numeral zdiv_zmult2_eq [symmetric])

lemma pad2: "pad_str 2 n = [digit_char (n div 10), digit_char n]"
  by (simp add: numeral_2_eq_2)
lemma pad4: "pad_str 4 n = [digit_char (n div 1000), digit_char (n div 100), digit_char (n div 10), digit_char n]"
  by (simp add: eval_nat_numeral div_mult2_eq [symmetric] zdiv_zmult2_eq [symmetric])

lemma int_of_digits_2: "0 \<le> n \<Longrightarrow> n < 100 \<Longrightarrow> int_of_digits [digit_char (n div 10), digit_char n] = Some n"
  using int_of_digits_pad [of 2 n] by (simp add: pad2)

lemma int_of_digits_4: "0 \<le> n \<Longrightarrow> n < 10000 \<Longrightarrow>
    int_of_digits [digit_char (n div 1000), digit_char (n div 100), digit_char (n div 10), digit_char n] = Some n"
  using int_of_digits_pad [of 4 n] by (simp add: pad4)

lemma int_of_digits_6: "0 \<le> n \<Longrightarrow> n < 1000000 \<Longrightarrow>
    int_of_digits [digit_char (n div 100000), digit_char (n div 10000), digit_char (n div 1000),
      digit_char (n div 100), digit_char (n div 10), digit_char n] = Some n"
  using int_of_digits_pad [of 6 n] by (simp add: pad_str_6)

lemma digit_char_neqs [simp]:
  "digit_char d \<noteq> CHR ''-''" "digit_char d \<noteq> CHR ''+''" "digit_char d \<noteq> CHR '':''"
  "digit_char d \<noteq> CHR ''W''" "digit_char d \<noteq> CHR ''Z''" "digit_char d \<noteq> CHR ''.''"
  "digit_char d \<noteq> CHR '',''" "digit_char d \<noteq> CHR ''T''"
  by (rule digit_char_neq; simp add: byte_def)+

lemma not_cont_digit [simp]: "\<not> is_cont_byte (digit_char d)"
  using byte_digit_range [of d] by (simp add: is_cont_byte_def)

lemma parse_date_iso:
  assumes "valid_civil c"
  shows "parse_date (date_str c) = Some (year c, month c, day c)"
  using valid_civil_ranges [OF assms]
  by (simp add: parse_date_def date_str_def pad4 pad2 slice_def char_at_def int_of_digits_4 int_of_digits_2 Let_def)

definition hms_str :: "civil \<Rightarrow> string" where
  "hms_str c = pad_str 2 (hour c) @ '':'' @ pad_str 2 (minute c) @ '':'' @ pad_str 2 (second c)
     @ (if micro c = 0 then [] else ''.'' @ pad_str 6 (micro c))"

lemma parse_hms_iso:
  assumes "valid_civil c"
  shows "parse_hms (hms_str c) = Some (hour c, minute c, second c, micro c)"
  using valid_civil_ranges [OF assms]
  by (simp add: parse_hms_def hms_str_def pad2 pad_str_6 char_at_def two_digits_def int_of_digits_2 int_of_digits_6
      parse_fraction_def all_digits_def Let_def)

lemma parse_hms_zero: "parse_hms ''00:00'' = Some (0, 0, 0, 0)"
  by (simp add: parse_hms_def two_digits_def int_of_digits_def dig_def byte_def char_at_def Let_def)

lemma find_idx_append: "find_idx c s = None \<Longrightarrow> find_idx c (s @ c # t) = Some (length s)"
  by (induction s) (auto split: if_splits)

lemma find_idx_append_None: "find_idx c s = None \<Longrightarrow> find_idx c t = None \<Longrightarrow> find_idx c (s @ t) = None"
  by (induction s) (auto split: if_splits)

lemma parse_time_iso:
  assumes "valid_civil c"
  shows "parse_time (hms_str c @ ''+00:00'') = Some ((hour c, minute c, second c, micro c), Some 0)"
proof -
  have minus: "find_idx CHR ''-'' (hms_str c @ ''+00:00'') = None"
    by (simp add: hms_str_def pad2 pad_str_6)
  have "find_idx CHR ''+'' (hms_str c) = None"
    by (simp add: hms_str_def pad2 pad_str_6)
  then have plus: "find_idx CHR ''+'' (hms_str c @ ''+00:00'') = Some (length (hms_str c))"
    by (rule find_idx_append)
  have len: "2 \<le> length (hms_str c)"
    by (simp add: hms_str_def pad2)
  show ?thesis
    using len minus plus
    by (simp add: parse_time_def tz_index_def parse_hms_iso [OF assms] parse_hms_zero micros_def Let_def nth_append)
qed

lemma make_civil_iso:
  "valid_civil c \<Longrightarrow> make_civil (year c, month c, day c) (hour c, minute c, second c, micro c) = Some c"
  by (cases c) (simp add: make_civil_def Let_def)

lemma iso_utc_split: "iso_utc t = date_str (civil_of t) @ ''T'' @ hms_str (civil_of t) @ ''+00:00''"
  by (simp add: iso_utc_def hour_str_def hms_str_def Let_def)

lemma length_date_str [simp]: "length (date_str c) = 10"
  by (simp add: date_str_def)

lemma separator_location_iso: "separator_location (date_str c @ ''T'' @ s) = Some 10"
  by (simp add: separator_location_def date_str_def pad4 pad2 char_at_def)

lemma fromisoformat_iso_utc:
  assumes "0 \<le> t" "t < MAX_UTC"
  shows "fromisoformat (iso_utc t) = Some (civil_of t, Some 0)"
proof -
  let ?c = "civil_of t"
  have v: "valid_civil ?c"
    using civil_of_correct [OF assms] by simp
  have cut: "take 10 (date_str ?c @ ''T'' @ s) = date_str ?c" "drop (Suc 10) (date_str ?c @ ''T'' @ s) = s" for s
    by simp_all
  have tail: "dropWhile is_cont_byte (hms_str ?c @ ''+00:00'') = hms_str ?c @ ''+00:00''"
    by (simp add: hms_str_def pad2)
  have "hms_str ?c @ ''+00:00'' \<noteq> []" by simp
  then show ?thesis
    unfolding iso_utc_split fromisoformat_def separator_location_iso
    by (simp only: option.case Let_def cut tail parse_date_iso [OF v] parse_time_iso [OF v] make_civil_iso [OF v]
        if_False option.map prod.case) simp
qed

lemma astimezone_utc_0: "0 \<le> t \<Longrightarrow> t < MAX_UTC \<Longrightarrow> astimezone_utc (civil_of t) 0 = Inr t"
  using civil_of_correct [of t] by (simp add: astimezone_utc_def)

section \<open>Summary\<close>

text \<open>Comparing two stored UTC timestamps as text compares the instants, also when one of them has
  no fractional part; and reading a timestamp back gives the instant that was written.\<close>

lemma iso_text_order_is_time_order:
  assumes "0 \<le> a" "a < MAX_UTC" "0 \<le> b" "b < MAX_UTC"
  shows "(iso_utc a < iso_utc b) = (a < b)"
  using assms by (rule iso_utc_less_iff)

lemma isoformat_roundtrip:
  assumes "0 \<le> t" "t < MAX_UTC"
  shows "\<exists>c. fromisoformat (iso_utc t) = Some (c, Some 0) \<and> astimezone_utc c 0 = Inr t"
  using fromisoformat_iso_utc [OF assms] astimezone_utc_0 [OF assms] by blast

end
