(* ===== verification/JsonParse.thy ===== *)
theory JsonParse
  imports Json Timestamps
begin

text \<open>
  \<^verbatim>\<open>json.loads\<close> of a text, and \<^verbatim>\<open>bytes.decode("utf-8")\<close>.  \<^verbatim>\<open>None\<close> stands for the
  \<^verbatim>\<open>ValueError\<close> both raise.  The parser follows CPython's scanner: its white space, literals
  (with NaN and the infinities), number pattern, string escapes and surrogate pairs, and the rule
  that a repeated key keeps its first place and takes its last value.  The fuel of
  \<^verbatim>\<open>parse_value\<close> is the length of the text plus one: every nested value has consumed a
  character.  The depth limit of the interpreter is not modelled.
\<close>

section \<open>UTF-8\<close>

definition utf8_encode :: "nat \<Rightarrow> string" where
  "utf8_encode p =
     (if p < 128 then [char_of p]
      else if p < 2048 then [char_of (192 + p div 64), char_of (128 + p mod 64)]
      else if p < 65536 then
        [char_of (224 + p div 4096), char_of (128 + p div 64 mod 64), char_of (128 + p mod 64)]
      else [char_of (240 + p div 262144), char_of (128 + p div 4096 mod 64),
            char_of (128 + p div 64 mod 64), char_of (128 + p mod 64)])"

text \<open>Well-formed UTF-8: no overlong form, no surrogate, nothing above U+10FFFF.\<close>

fun utf8_valid :: "string \<Rightarrow> bool" where
  "utf8_valid [] = True"
| "utf8_valid (a # s) =
     (if byte a < 128 then utf8_valid s
      else if 194 \<le> byte a \<and> byte a < 224 then
        (case s of b # r \<Rightarrow> is_cont_byte b \<and> utf8_valid r | _ \<Rightarrow> False)
      else if 224 \<le> byte a \<and> byte a < 240 then
        (case s of b # c # r \<Rightarrow>
           is_cont_byte b \<and> is_cont_byte c
           \<and> (byte a = 224 \<longrightarrow> 160 \<le> byte b) \<and> (byte a = 237 \<longrightarrow> byte b < 160) \<and> utf8_valid r
         | _ \<Rightarrow> False)
      else if 240 \<le> byte a \<and> byte a < 245 then
        (case s of b # c # d # r \<Rightarrow>
           is_cont_byte b \<and> is_cont_byte c \<and> is_cont_byte d
           \<and> (byte a = 240 \<longrightarrow> 144 \<le> byte b) \<and> (byte a = 244 \<longrightarrow> byte b < 144) \<and> utf8_valid r
         | _ \<Rightarrow> False)
      else False)"

section \<open>Scanning\<close>

definition is_ws :: "char \<Rightarrow> bool" where
  "is_ws c \<longleftrightarrow> byte c = 32 \<or> byte c = 9 \<or> byte c = 10 \<or> byte c = 13"

definition skip_ws :: "string \<Rightarrow> string" where
  "skip_ws s = dropWhile is_ws s"

definition hex_val :: "char \<Rightarrow> nat option" where
  "hex_val c = (let n = byte c in
     if 48 \<le> n \<and> n \<le> 57 then Some (n - 48)
     else if 97 \<le> n \<and> n \<le> 102 then Some (n - 87)
     else if 65 \<le> n \<and> n \<le> 70 then Some (n - 55) else None)"

definition hex4_val :: "string \<Rightarrow> (nat \<times> string) option" where
  "hex4_val s = (case s of a # b # c # d # r \<Rightarrow>
      (case (hex_val a, hex_val b, hex_val c, hex_val d) of
         (Some w, Some x, Some y, Some z) \<Rightarrow> Some (((w * 16 + x) * 16 + y) * 16 + z, r)
       | _ \<Rightarrow> None)
    | _ \<Rightarrow> None)"

definition simple_escape :: "char \<Rightarrow> char option" where
  "simple_escape e =
     (if e = CHR 0x22 then Some CHR 0x22 else if e = CHR 0x5C then Some CHR 0x5C
      else if e = CHR ''/'' then Some CHR ''/''
      else if e = CHR ''b'' then Some CHR 0x08 else if e = CHR ''f'' then Some CHR 0x0C
      else if e = CHR ''n'' then Some CHR 0x0A else if e = CHR ''r'' then Some CHR 0x0D
      else if e = CHR ''t'' then Some CHR 0x09 else None)"

text \<open>One \<^verbatim>\<open>\u\<close> escape, the \<^verbatim>\<open>\u\<close> already read: the code point, joining a surrogate pair.\<close>

definition u_escape :: "string \<Rightarrow> (nat \<times> string) option" where
  "u_escape s = (case hex4_val s of None \<Rightarrow> None | Some (u, r) \<Rightarrow>
     if 55296 \<le> u \<and> u \<le> 56319 \<and> take 2 r = [CHR 0x5C, CHR ''u''] then
       (case hex4_val (drop 2 r) of None \<Rightarrow> None | Some (v, r') \<Rightarrow>
          if 56320 \<le> v \<and> v \<le> 57343
          then Some (65536 + (u - 55296) * 1024 + (v - 56320), r') else Some (u, r))
     else Some (u, r))"

lemma hex4_val_length: "hex4_val s = Some (u, r) \<Longrightarrow> length r < length s"
  by (auto simp: hex4_val_def split: list.splits option.splits)

lemma u_escape_length:
  assumes "u_escape s = Some (u, r)"
  shows "length r < length s"
proof -
  obtain u0 r0 where h: "hex4_val s = Some (u0, r0)"
    using assms by (cases "hex4_val s") (auto simp: u_escape_def)
  have "r = r0 \<or> (\<exists>v. hex4_val (drop 2 r0) = Some (v, r))"
    using assms h by (simp add: u_escape_def split: if_splits option.splits prod.splits)
  then show ?thesis
  proof
    assume "r = r0"
    then show ?thesis using hex4_val_length [OF h] by simp
  next
    assume "\<exists>v. hex4_val (drop 2 r0) = Some (v, r)"
    then obtain v where "hex4_val (drop 2 r0) = Some (v, r)" ..
    from hex4_val_length [OF this] hex4_val_length [OF h] show ?thesis by simp
  qed
qed

text \<open>The body of a string, the opening quote already read.\<close>

function scan_str :: "string \<Rightarrow> (string \<times> string) option" where
  "scan_str s = (case s of
       [] \<Rightarrow> None
     | c # s1 \<Rightarrow>
         if c = CHR 0x22 then Some ([], s1)
         else if c = CHR 0x5C then
           (case s1 of
              [] \<Rightarrow> None
            | e # s2 \<Rightarrow>
                if e = CHR ''u'' then
                  (case u_escape s2 of None \<Rightarrow> None | Some (p, r) \<Rightarrow>
                     map_option (\<lambda>(t, r'). (utf8_encode p @ t, r')) (scan_str r))
                else
                  (case simple_escape e of None \<Rightarrow> None | Some x \<Rightarrow>
                     map_option (\<lambda>(t, r'). (x # t, r')) (scan_str s2)))
         else if byte c < 32 then None
         else map_option (\<lambda>(t, r'). (c # t, r')) (scan_str s1))"
  by pat_completeness auto
termination
  by (relation "measure length") (auto dest: u_escape_length)

declare scan_str.simps [simp del]

definition span_digits :: "string \<Rightarrow> string \<times> string" where
  "span_digits s = (takeWhile (\<lambda>c. dig c \<noteq> None) s, dropWhile (\<lambda>c. dig c \<noteq> None) s)"

definition digits_val :: "string \<Rightarrow> int" where
  "digits_val s = (case digits_from 0 s of Some n \<Rightarrow> n | None \<Rightarrow> 0)"

definition MAX_INT_DIGITS :: nat where
  "MAX_INT_DIGITS = 4300"

text \<open>The fraction and exponent of a number, when present.\<close>

definition scan_frac :: "string \<Rightarrow> (string \<times> string) option" where
  "scan_frac s = (case s of c # r \<Rightarrow>
      if c = CHR ''.'' then (case span_digits r of (ds, r') \<Rightarrow> if ds = [] then None else Some (ds, r'))
      else None | [] \<Rightarrow> None)"

definition scan_exp :: "string \<Rightarrow> (int \<times> string) option" where
  "scan_exp s = (case s of c # r \<Rightarrow>
      if c = CHR ''e'' \<or> c = CHR ''E'' then
        (let neg = char_at r 0 CHR ''-''; r1 = (if neg \<or> char_at r 0 CHR ''+'' then drop 1 r else r) in
         case span_digits r1 of (ds, r') \<Rightarrow>
           if ds = [] then None else Some (if neg then - digits_val ds else digits_val ds, r'))
      else None | [] \<Rightarrow> None)"

definition scan_number :: "string \<Rightarrow> (json \<times> string) option" where
  "scan_number s =
     (let neg = char_at s 0 CHR ''-''; s1 = (if neg then drop 1 s else s);
          sg = (if neg then - 1 else 1 :: int);
          (all_ds, _) = span_digits s1;
          ds = (if char_at s1 0 CHR ''0'' then ''0'' else all_ds);
          r = drop (length ds) s1
      in if ds = [] then None
         else (case (scan_frac r) of
           Some (fs, r1) \<Rightarrow>
             (let m = (of_int (sg * digits_val (ds @ fs)) :: rat) / 10 ^ length fs in
              case scan_exp r1 of
                Some (e, r2) \<Rightarrow> Some (JFloat (to_float (m * 10 powi e)), r2)
              | None \<Rightarrow> Some (JFloat (to_float m), r1))
         | None \<Rightarrow>
             (case scan_exp r of
                Some (e, r2) \<Rightarrow> Some (JFloat (to_float (of_int (sg * digits_val ds) * 10 powi e)), r2)
              | None \<Rightarrow> if MAX_INT_DIGITS < length ds then None
                        else Some (JInt (sg * digits_val ds), r))))"

definition scan_lit :: "string \<Rightarrow> (json \<times> string) option" where
  "scan_lit s =
     (if prefix ''null'' s then Some (JNull, drop 4 s)
      else if prefix ''true'' s then Some (JBool True, drop 4 s)
      else if prefix ''false'' s then Some (JBool False, drop 5 s)
      else if prefix ''NaN'' s then Some (JFloat FNaN, drop 3 s)
      else if prefix ''Infinity'' s then Some (JFloat (FInf False), drop 8 s)
      else if prefix ''-Infinity'' s then Some (JFloat (FInf True), drop 9 s)
      else scan_number s)"

section \<open>Values\<close>

fun parse_value :: "nat \<Rightarrow> string \<Rightarrow> (json \<times> string) option"
  and parse_elems :: "nat \<Rightarrow> string \<Rightarrow> (json list \<times> string) option"
  and parse_members :: "nat \<Rightarrow> string \<Rightarrow> ((string \<times> json) list \<times> string) option" where
  "parse_value 0 s = None"
| "parse_value (Suc n) s = (case s of
      [] \<Rightarrow> None
    | c # r \<Rightarrow>
        if c = CHR 0x22 then map_option (\<lambda>(t, r'). (JStr t, r')) (scan_str r)
        else if c = CHR ''{'' then
          (let r1 = skip_ws r in
           if char_at r1 0 CHR ''}'' then Some (JObj [], drop 1 r1)
           else map_option (\<lambda>(ps, r'). (JObj (fold (\<lambda>(k, v) d. dict_set d k v) ps []), r'))
                  (parse_members n r1))
        else if c = CHR ''['' then
          (let r1 = skip_ws r in
           if char_at r1 0 CHR '']'' then Some (JList [], drop 1 r1)
           else map_option (\<lambda>(xs, r'). (JList xs, r')) (parse_elems n r1))
        else scan_lit s)"
| "parse_elems 0 s = None"
| "parse_elems (Suc n) s =
     (case parse_value n s of None \<Rightarrow> None | Some (x, r) \<Rightarrow>
       let r1 = skip_ws r in
       if char_at r1 0 CHR '']'' then Some ([x], drop 1 r1)
       else if char_at r1 0 CHR '','' then
         map_option (\<lambda>(xs, r'). (x # xs, r')) (parse_elems n (skip_ws (drop 1 r1)))
       else None)"
| "parse_members 0 s = None"
| "parse_members (Suc n) s =
     (if \<not> char_at s 0 CHR 0x22 then None
      else case scan_str (drop 1 s) of None \<Rightarrow> None | Some (k, r) \<Rightarrow>
        let r1 = skip_ws r in
        if \<not> char_at r1 0 CHR '':'' then None
        else case parse_value n (skip_ws (drop 1 r1)) of None \<Rightarrow> None | Some (v, r2) \<Rightarrow>
          let r3 = skip_ws r2 in
          if char_at r3 0 CHR ''}'' then Some ([(k, v)], drop 1 r3)
          else if char_at r3 0 CHR '','' then
            map_option (\<lambda>(ps, r'). ((k, v) # ps, r')) (parse_members n (skip_ws (drop 1 r3)))
          else None)"

definition loads :: "string \<Rightarrow> json option" where
  "loads s = (case parse_value (2 * length s + 2) (skip_ws s) of
      Some (v, r) \<Rightarrow> if skip_ws r = [] then Some v else None
    | None \<Rightarrow> None)"

text \<open>A text that is not valid raises \<^verbatim>\<open>ValueError\<close>.\<close>

definition loads_exn :: "string \<Rightarrow> exn + json" where
  "loads_exn s = (case loads s of Some v \<Rightarrow> Inr v | None \<Rightarrow> Inl (ValueError ''invalid JSON''))"

end
