(* ===== verification/CaptureImport.thy ===== *)
theory CaptureImport
  imports Billing Timestamps JsonParse
begin

text \<open>
  The batch importer (\<^verbatim>\<open>services/usage_capture_import.py\<close>): Capture blobs are listed,
  decoded and upserted into the usage store, one document per request.

  \<^verbatim>\<open>event_to_document\<close> and its helpers are pure functions whose exceptions are values.
  \<^verbatim>\<open>run_once\<close> is a computation over the locals it mutates (\<^verbatim>\<open>import_st\<close>: the outside
  world, the counters, the high-water mark), so that the \<^verbatim>\<open>try\<close> keeps what the loop had done
  when an exception ends it.  Blob Storage, Cosmos, the Avro reader, the two database tables and
  the clock are the record \<^verbatim>\<open>import_svc\<close> of functions over an abstract world.

  A \<^verbatim>\<open>datetime\<close> is the microseconds its fields denote with its offset, \<^verbatim>\<open>None\<close> when naive.
\<close>

section \<open>One event to one document\<close>

fun replace_Z :: "string \<Rightarrow> string" where
  "replace_Z [] = []"
| "replace_Z (c # s) = (if c = CHR ''Z'' then ''+00:00'' @ replace_Z s else c # replace_Z s)"

definition parse_ts :: "json \<Rightarrow> utc \<Rightarrow> exn + utc" where
  "parse_ts value now =
     (case value of
        JStr s \<Rightarrow>
          (case fromisoformat (replace_Z s) of
             Some (c, None) \<Rightarrow> Inr (utc_of c)
           | Some (c, Some off) \<Rightarrow> astimezone_utc c off
           | None \<Rightarrow> Inr now)
      | _ \<Rightarrow> Inr now)"

definition to_int :: "json \<Rightarrow> exn + int" where
  "to_int value =
     (case value of JInt n \<Rightarrow> Inr n | JFloat f \<Rightarrow> int_of_float f | _ \<Rightarrow> Inr 0)"

text \<open>\<^verbatim>\<open>markups.get(model, 0.0)\<close>: a list or an object is not hashable.\<close>

definition markup_of :: "(string, pyfloat) dict \<Rightarrow> json \<Rightarrow> exn + pyfloat" where
  "markup_of markups model =
     (case model of
        JStr s \<Rightarrow> Inr (case dict_get markups s of None \<Rightarrow> FFin 0 | Some m \<Rightarrow> m)
      | JList _ \<Rightarrow> Inl (TypeError ''unhashable type: list'')
      | JObj _ \<Rightarrow> Inl (TypeError ''unhashable type: dict'')
      | _ \<Rightarrow> Inr (FFin 0))"

definition any_tokens :: "token_counts \<Rightarrow> bool" where
  "any_tokens t \<longleftrightarrow> prompt_tok t \<noteq> 0 \<or> completion_tok t \<noteq> 0 \<or> cached_tok t \<noteq> 0 \<or> cache_write_tok t \<noteq> 0"

definition event_tokens :: "jdict \<Rightarrow> exn + token_counts" where
  "event_tokens event =
     bind_sum (tokens_from_copilot_usage (jget event ''copilot_usage'')) (\<lambda>tokens.
     if any_tokens tokens then Inr tokens
     else
       bind_sum (to_int (jget event ''input_tokens'')) (\<lambda>p.
       bind_sum (to_int (jget event ''output_tokens'')) (\<lambda>c.
       bind_sum (to_int (jget event ''cached_tokens'')) (\<lambda>k.
       Inr \<lparr>prompt_tok = p, completion_tok = c, cached_tok = k, cache_write_tok = 0\<rparr>))))"

definition event_to_document ::
  "jdict \<Rightarrow> (string, pyfloat) dict \<Rightarrow> utc \<Rightarrow> exn + jdict option" where
  "event_to_document event markups now =
     (let request_id = jget event ''request_id'' in
      if \<not> truthy request_id then Inr None
      else
        let subscription = py_or (jget event ''subscription'') (JStr ''unknown'');
            model = py_or (jget event ''model'') (JStr ''unknown'');
            copilot_usage = jget event ''copilot_usage'' in
        bind_sum (parse_ts (jget event ''ts'') now) (\<lambda>ts.
        bind_sum (event_tokens event) (\<lambda>tokens.
        bind_sum (markup_of markups model) (\<lambda>markup.
        bind_sum (cost_from_copilot_usage copilot_usage markup) (\<lambda>cost.
        bind_sum (to_int (jget event ''status'')) (\<lambda>status.
        bind_sum (to_int (jget event ''total_tokens'')) (\<lambda>total.
        Inr (Some
         [(''id'', JStr (py_str request_id)),
          (''pk'', JStr (py_str subscription @ ''_'' @ fmt_Ym ts)),
          (''ts'', JStr (iso_utc ts)),
          (''subscription'', subscription),
          (''api'', jget event ''api_id''),
          (''route'', model),
          (''served_model'', jget event ''served_model''),
          (''endpoint'', jget event ''endpoint''),
          (''streamed'', JBool (truthy (jget event ''streamed''))),
          (''status'', JInt status),
          (''end_user'', jget event ''end_user''),
          (''client_key_fp'', jget event ''client_key_fp''),
          (''via_apim'', JBool (truthy (jget event ''via_apim''))),
          (''hub_id'', py_or (jget event ''hub_id'') JNull),
          (''prompt_tok'', JInt (prompt_tok tokens)),
          (''completion_tok'', JInt (completion_tok tokens)),
          (''cached_tok'', JInt (cached_tok tokens)),
          (''cache_write_tok'', JInt (cache_write_tok tokens)),
          (''total_tok'', JInt total),
          (''estimated'', JBool (truthy (jget event ''estimated''))),
          (''cost_usd'', JFloat (case cost of Some c \<Rightarrow> cost_usd c | None \<Rightarrow> FFin 0)),
          (''billed_usd'', JFloat (case cost of Some c \<Rightarrow> billed_usd c | None \<Rightarrow> FFin 0)),
          (''cost_source'', JStr (if cost \<noteq> None then ''copilot_usage'' else ''unpriced'')),
          (''copilot_usage'', copilot_usage),
          (''usage'', jget event ''usage''),
          (''audit_blob'', py_or (jget event ''audit_blob'') JNull)])))))))) "

section \<open>Blobs to events\<close>

text \<open>The \<^verbatim>\<open>Body\<close> of a Capture record: absent (or the record is no mapping), bytes, text, or
  another type, on which \<^verbatim>\<open>json.loads\<close> raises a \<^verbatim>\<open>TypeError\<close> that is not caught.\<close>

datatype avro_body = BodyNone | BodyBytes string | BodyText string | BodyOther

definition decode_body :: "avro_body \<Rightarrow> exn + jdict option" where
  "decode_body body =
     (let parsed = (\<lambda>s. case loads s of Some (JObj d) \<Rightarrow> Some d | _ \<Rightarrow> None) in
      case body of
        BodyNone \<Rightarrow> Inr None
      | BodyBytes s \<Rightarrow> Inr (if utf8_valid s then parsed s else None)
      | BodyText s \<Rightarrow> Inr (parsed s)
      | BodyOther \<Rightarrow> Inl (TypeError ''the JSON object must be str, bytes or bytearray''))"

fun decode_bodies :: "avro_body list \<Rightarrow> exn + jdict list" where
  "decode_bodies [] = Inr []"
| "decode_bodies (b # bs) =
     bind_sum (decode_body b) (\<lambda>ev.
     bind_sum (decode_bodies bs) (\<lambda>out.
     Inr (case ev of None \<Rightarrow> out | Some d \<Rightarrow> d # out)))"

definition decode_avro :: "(string \<Rightarrow> exn + avro_body list) \<Rightarrow> string \<Rightarrow> exn + jdict list" where
  "decode_avro reader data = bind_sum (reader data) decode_bodies"

section \<open>A run\<close>

record blob =
  blob_name :: string
  last_modified :: utc

type_synonym datetime = "int \<times> int option"

text \<open>The services and the database tables, each call a computation over the world.\<close>

record 'w import_svc =
  list_blobs :: "('w, blob list) eff"
  download_blob :: "string \<Rightarrow> ('w, string) eff"
  avro_reader :: "string \<Rightarrow> exn + avro_body list"
  upsert_item :: "jdict \<Rightarrow> ('w, unit) eff"
  route_rows :: "('w, (string \<times> pyfloat option) list) eff"
  get_position :: "('w, string option) eff"
  put_position :: "string \<Rightarrow> ('w, unit) eff"
  clock :: "('w, utc) eff"

record run_stats =
  n_blobs :: int
  n_events :: int
  n_written :: int
  n_skipped :: int

record 'w import_st =
  world :: 'w
  stats :: run_stats
  high_water :: "datetime option"

definition no_stats :: run_stats where
  "no_stats = \<lparr>n_blobs = 0, n_events = 0, n_written = 0, n_skipped = 0\<rparr>"

definition OVERLAP :: int where
  "OVERLAP = 10 * 60 * 1000000"

definition MAX_BLOBS_PER_RUN :: nat where
  "MAX_BLOBS_PER_RUN = 500"

text \<open>A call to the world from inside the loop.\<close>

definition on_world :: "('w, 'a) eff \<Rightarrow> ('w import_st, 'a) eff" where
  "on_world m s = (case m (world s) of (r, w) \<Rightarrow> (r, s\<lparr>world := w\<rparr>))"

fun dict_of_rows :: "(string \<times> pyfloat option) list \<Rightarrow> (string, pyfloat) dict \<Rightarrow> (string, pyfloat) dict" where
  "dict_of_rows [] d = d"
| "dict_of_rows ((n, m) # rows) d =
     dict_of_rows rows (dict_set d n (case m of None \<Rightarrow> FFin 0 | Some f \<Rightarrow> if float_true f then f else FFin 0))"

definition route_markups :: "'w import_svc \<Rightarrow> ('w, (string, pyfloat) dict) eff" where
  "route_markups svc =
     catch_exn (bnd (route_rows svc) (\<lambda>rows. ret (dict_of_rows rows []))) (\<lambda>_. ret [])"

text \<open>An unparseable position is \<^verbatim>\<open>None\<close>; an error of the database is not caught, unless it
  is a \<^verbatim>\<open>ValueError\<close> or a \<^verbatim>\<open>TypeError\<close>.\<close>

definition is_value_or_type_error :: "exn \<Rightarrow> bool" where
  "is_value_or_type_error e = (case e of ValueError _ \<Rightarrow> True | TypeError _ \<Rightarrow> True | _ \<Rightarrow> False)"

definition read_watermark :: "'w import_svc \<Rightarrow> ('w, datetime option) eff" where
  "read_watermark svc =
     catch_exn
       (bnd (get_position svc) (\<lambda>row.
          case row of
            None \<Rightarrow> ret None
          | Some p \<Rightarrow>
              if p = [] then ret None
              else (case fromisoformat p of
                      None \<Rightarrow> raise (ValueError ''Invalid isoformat string'')
                    | Some (c, off) \<Rightarrow> ret (Some (utc_of c, off)))))
       (\<lambda>e. if is_value_or_type_error e then ret None else raise e)"

definition write_watermark :: "'w import_svc \<Rightarrow> utc \<Rightarrow> ('w, unit) eff" where
  "write_watermark svc position = best_effort (put_position svc (iso_utc position))"

text \<open>\<^verbatim>\<open>watermark - _OVERLAP\<close> and \<^verbatim>\<open>b.last_modified > since\<close> (the blob's time is aware).\<close>

definition minus_overlap :: "datetime \<Rightarrow> exn + datetime" where
  "minus_overlap wm =
     (if fst wm < OVERLAP then Inl (OverflowError ''date value out of range'')
      else Inr (fst wm - OVERLAP, snd wm))"

definition aware_gt :: "utc \<Rightarrow> datetime \<Rightarrow> exn + bool" where
  "aware_gt t d =
     (case snd d of
        None \<Rightarrow> Inl (TypeError ''can't compare offset-naive and offset-aware datetimes'')
      | Some off \<Rightarrow> Inr (fst d - off < t))"

fun filter_since :: "datetime option \<Rightarrow> blob list \<Rightarrow> exn + blob list" where
  "filter_since since [] = Inr []"
| "filter_since since (b # bs) =
     bind_sum (case since of None \<Rightarrow> Inr True | Some d \<Rightarrow> aware_gt (last_modified b) d) (\<lambda>keep.
     bind_sum (filter_since since bs) (\<lambda>rest.
     Inr (if keep then b # rest else rest)))"

definition pending_of :: "blob list \<Rightarrow> blob list" where
  "pending_of bs = take MAX_BLOBS_PER_RUN (sort_key last_modified bs)"

definition advance :: "utc \<Rightarrow> datetime option \<Rightarrow> exn + datetime option" where
  "advance t hw =
     (case hw of
        None \<Rightarrow> Inr (Some (t, Some 0))
      | Some d \<Rightarrow> bind_sum (aware_gt t d) (\<lambda>g. Inr (if g then Some (t, Some 0) else hw)))"

definition import_event ::
  "'w import_svc \<Rightarrow> (string, pyfloat) dict \<Rightarrow> jdict \<Rightarrow> ('w import_st, unit) eff" where
  "import_event svc markups event =
     bnd (on_world (clock svc)) (\<lambda>now.
     bnd (lift_sum (event_to_document event markups now)) (\<lambda>doc.
     case doc of
       None \<Rightarrow> mod_st (\<lambda>s. s\<lparr>stats := (stats s)\<lparr>n_skipped := n_skipped (stats s) + 1\<rparr>\<rparr>)
     | Some d \<Rightarrow>
         sq (on_world (upsert_item svc d))
            (mod_st (\<lambda>s. s\<lparr>stats := (stats s)\<lparr>n_written := n_written (stats s) + 1\<rparr>\<rparr>))))"

definition import_blob ::
  "'w import_svc \<Rightarrow> (string, pyfloat) dict \<Rightarrow> blob \<Rightarrow> ('w import_st, unit) eff" where
  "import_blob svc markups b =
     bnd (on_world (download_blob svc (blob_name b))) (\<lambda>data.
     bnd (lift_sum (decode_avro (avro_reader svc) data)) (\<lambda>events.
     sq (mod_st (\<lambda>s. s\<lparr>stats := (stats s)\<lparr>n_blobs := n_blobs (stats s) + 1,
                                        n_events := n_events (stats s) + int (length events)\<rparr>\<rparr>))
    (sq (for_each events (import_event svc markups))
    (bnd get_st (\<lambda>s.
     bnd (lift_sum (advance (last_modified b) (high_water s))) (\<lambda>hw.
     mod_st (\<lambda>s. s\<lparr>high_water := hw\<rparr>)))))))"

definition import_all ::
  "'w import_svc \<Rightarrow> datetime option \<Rightarrow> (string, pyfloat) dict \<Rightarrow> ('w import_st, unit) eff" where
  "import_all svc since markups =
     bnd (on_world (list_blobs svc)) (\<lambda>listed.
     bnd (lift_sum (filter_since since listed)) (\<lambda>fresh.
     for_each (pending_of fresh) (import_blob svc markups)))"

text \<open>\<^verbatim>\<open>high_water is not None and high_water != watermark\<close>; when it holds, the mark is the
  time of a blob, so the position written is UTC text.\<close>

definition same_instant :: "datetime \<Rightarrow> datetime \<Rightarrow> bool" where
  "same_instant a b =
     (case (snd a, snd b) of
        (Some x, Some y) \<Rightarrow> fst a - x = fst b - y
      | (None, None) \<Rightarrow> fst a = fst b
      | _ \<Rightarrow> False)"

definition mark_moved :: "datetime option \<Rightarrow> datetime option \<Rightarrow> utc option" where
  "mark_moved hw wm =
     (case hw of
        None \<Rightarrow> None
      | Some h \<Rightarrow> (case wm of
           None \<Rightarrow> Some (fst h)
         | Some m \<Rightarrow> if same_instant h m then None else Some (fst h)))"

definition run_once :: "bool \<Rightarrow> 'w import_svc \<Rightarrow> ('w, run_stats) eff" where
  "run_once configured svc =
     (if \<not> configured then ret no_stats
      else
        bnd (read_watermark svc) (\<lambda>watermark.
        bnd (case watermark of
               None \<Rightarrow> ret None
             | Some wm \<Rightarrow> bnd (lift_sum (minus_overlap wm)) (\<lambda>d. ret (Some d))) (\<lambda>since.
        bnd (route_markups svc) (\<lambda>markups.
        (\<lambda>w.
          case best_effort (import_all svc since markups)
                 \<lparr>world = w, stats = no_stats, high_water = watermark\<rparr> of
            (_, s) \<Rightarrow>
              (case mark_moved (high_water s) watermark of
                 None \<Rightarrow> ret (stats s) (world s)
               | Some t \<Rightarrow> sq (write_watermark svc t) (ret (stats s)) (world s)))))))"

end
