(* ===== verification/CaptureLife.thy ===== *)
theory CaptureLife
  imports CaptureImport
begin

text \<open>
  The importer over its whole life.  \<^verbatim>\<open>import_laws\<close> states what Blob Storage, Cosmos and the
  database promise, through what can be observed of a world (\<^verbatim>\<open>observer\<close>); \<^verbatim>\<open>run_once_ok\<close>
  says what one run may do, with any call failing; \<^verbatim>\<open>import_life\<close> are the worlds that occur and
  \<^verbatim>\<open>life_inv\<close> the invariant they keep.  \<^verbatim>\<open>mem_svc\<close> is an in-memory instance of the services.
  The last section is about single documents.
\<close>

section \<open>What the services promise\<close>

definition doc_key :: "jdict \<Rightarrow> string \<times> string" where
  "doc_key d = (py_str (jget d ''pk''), py_str (jget d ''id''))"

text \<open>What can be observed of a world: the blobs of the container, the stored position, and
  which documents (by partition key and id) the usage store holds.\<close>

record 'w observer =
  blobs_of :: "'w \<Rightarrow> blob list"
  position_of :: "'w \<Rightarrow> string option"
  holds :: "'w \<Rightarrow> string \<times> string \<Rightarrow> bool"

definition no_loss :: "'w observer \<Rightarrow> 'w \<Rightarrow> 'w \<Rightarrow> bool" where
  "no_loss ob w w' \<longleftrightarrow> blobs_of ob w' = blobs_of ob w \<and> (\<forall>k. holds ob w k \<longrightarrow> holds ob w' k)"

definition quiet :: "'w observer \<Rightarrow> ('w, 'a) eff \<Rightarrow> bool" where
  "quiet ob m \<longleftrightarrow> (\<forall>w. no_loss ob w (snd (m w)) \<and> position_of ob (snd (m w)) = position_of ob w)"

text \<open>The documented behaviour the importer relies on: listing returns the blobs, a blob's
  content does not change, a successful upsert leaves the document in the store, the database
  returns the position last committed; every call may fail.\<close>

definition import_laws :: "'w observer \<Rightarrow> (string \<Rightarrow> string) \<Rightarrow> 'w import_svc \<Rightarrow> bool" where
  "import_laws ob content svc \<longleftrightarrow>
     quiet ob (list_blobs svc) \<and> (\<forall>n. quiet ob (download_blob svc n)) \<and> (\<forall>d. quiet ob (upsert_item svc d))
     \<and> quiet ob (route_rows svc) \<and> quiet ob (get_position svc) \<and> quiet ob (clock svc)
     \<and> (\<forall>w bs w'. list_blobs svc w = (Inr bs, w') \<longrightarrow> bs = blobs_of ob w)
     \<and> (\<forall>n w d w'. download_blob svc n w = (Inr d, w') \<longrightarrow> d = content n)
     \<and> (\<forall>d w w'. upsert_item svc d w = (Inr (), w') \<longrightarrow> holds ob w' (doc_key d))
     \<and> (\<forall>w p w'. get_position svc w = (Inr p, w') \<longrightarrow> p = position_of ob w)
     \<and> (\<forall>p w. no_loss ob w (snd (put_position svc p w))
          \<and> position_of ob (snd (put_position svc p w)) \<in> {position_of ob w, Some p})"

text \<open>A blob has landed: each of its events is either one that has no request id, or its
  document is in the store.\<close>

definition event_landed :: "'w observer \<Rightarrow> 'w \<Rightarrow> jdict \<Rightarrow> bool" where
  "event_landed ob w e \<longleftrightarrow> (\<exists>markups now r. event_to_document e markups now = Inr r
     \<and> (case r of None \<Rightarrow> True | Some d \<Rightarrow> holds ob w (doc_key d)))"

definition landed :: "'w observer \<Rightarrow> (string \<Rightarrow> string) \<Rightarrow> 'w import_svc \<Rightarrow> 'w \<Rightarrow> blob \<Rightarrow> bool" where
  "landed ob content svc w b \<longleftrightarrow>
     (\<exists>es. decode_avro (avro_reader svc) (content (blob_name b)) = Inr es \<and> list_all (event_landed ob w) es)"

lemma event_landedI:
  "event_to_document e markups now = Inr r \<Longrightarrow> (\<And>d. r = Some d \<Longrightarrow> holds ob w (doc_key d))
     \<Longrightarrow> event_landed ob w e"
  unfolding event_landed_def
  by (rule exI [of _ markups], rule exI [of _ now], rule exI [of _ r]) (auto split: option.splits)

text \<open>Every blob of the container at least the overlap older than the instant has landed.\<close>

definition imported_up_to :: "'w observer \<Rightarrow> (string \<Rightarrow> string) \<Rightarrow> 'w import_svc \<Rightarrow> 'w \<Rightarrow> utc \<Rightarrow> bool" where
  "imported_up_to ob content svc w t \<longleftrightarrow>
     (\<forall>b \<in> set (blobs_of ob w). last_modified b \<le> t - OVERLAP \<longrightarrow> landed ob content svc w b)"

lemma no_loss_refl [simp]: "no_loss ob w w"
  by (simp add: no_loss_def)

lemma no_loss_trans: "no_loss ob a b \<Longrightarrow> no_loss ob b c \<Longrightarrow> no_loss ob a c"
  by (simp add: no_loss_def)

lemma event_landed_mono_holds:
  "event_landed ob w e \<Longrightarrow> (\<And>k. holds ob w k \<Longrightarrow> holds ob w' k) \<Longrightarrow> event_landed ob w' e"
  unfolding event_landed_def by (metis (mono_tags, lifting) option.case_eq_if)

lemma landed_mono_holds:
  "landed ob content svc w b \<Longrightarrow> (\<And>k. holds ob w k \<Longrightarrow> holds ob w' k) \<Longrightarrow> landed ob content svc w' b"
  unfolding landed_def by (metis (no_types, lifting) event_landed_mono_holds list_all_iff)

lemma event_landed_mono: "event_landed ob w e \<Longrightarrow> no_loss ob w w' \<Longrightarrow> event_landed ob w' e"
  unfolding no_loss_def by (erule event_landed_mono_holds) blast

lemma landed_mono: "landed ob content svc w b \<Longrightarrow> no_loss ob w w' \<Longrightarrow> landed ob content svc w' b"
  unfolding no_loss_def by (erule landed_mono_holds) blast

text \<open>The part of the state a run does not change before it writes the position.\<close>

definition same_run :: "'w observer \<Rightarrow> 'w \<Rightarrow> 'w import_st \<Rightarrow> bool" where
  "same_run ob w0 s \<longleftrightarrow> no_loss ob w0 (world s) \<and> position_of ob (world s) = position_of ob w0"

lemma wp_on_world:
  assumes "quiet ob m" and "same_run ob w0 s"
    and "\<And>a w. m (world s) = (Inr a, w) \<Longrightarrow> no_loss ob (world s) w
       \<Longrightarrow> same_run ob w0 (s\<lparr>world := w\<rparr>) \<Longrightarrow> Q a (s\<lparr>world := w\<rparr>)"
    and "\<And>e w. no_loss ob (world s) w \<Longrightarrow> same_run ob w0 (s\<lparr>world := w\<rparr>) \<Longrightarrow> E e (s\<lparr>world := w\<rparr>)"
  shows "wp (on_world m) Q E s"
proof -
  obtain r w where m: "m (world s) = (r, w)" by fastforce
  then have "no_loss ob (world s) w" and "position_of ob w = position_of ob (world s)"
    using assms(1) by (auto simp: quiet_def dest: spec [of _ "world s"])
  moreover from this have "same_run ob w0 (s\<lparr>world := w\<rparr>)"
    using assms(2) by (auto simp: same_run_def intro: no_loss_trans)
  ultimately show ?thesis
    using m assms(3,4) by (cases r) (auto simp: wp_def on_world_def)
qed

lemma import_laws_quiet:
  assumes "import_laws ob content svc"
  shows "quiet ob (list_blobs svc)" "quiet ob (download_blob svc n)" "quiet ob (upsert_item svc d)"
    "quiet ob (route_rows svc)" "quiet ob (get_position svc)" "quiet ob (clock svc)"
  using assms by (simp_all add: import_laws_def)

lemma import_laws_results:
  assumes "import_laws ob content svc"
  shows "list_blobs svc w = (Inr bs, w') \<Longrightarrow> bs = blobs_of ob w"
    "download_blob svc n w = (Inr d, w') \<Longrightarrow> d = content n"
    "upsert_item svc j w = (Inr (), w') \<Longrightarrow> holds ob w' (doc_key j)"
    "get_position svc w = (Inr p, w') \<Longrightarrow> p = position_of ob w"
    "no_loss ob w (snd (put_position svc q w))"
    "position_of ob (snd (put_position svc q w)) \<in> {position_of ob w, Some q}"
  using assms unfolding import_laws_def by blast+

lemma wp_import_event:
  assumes L: "import_laws ob content svc" and s: "same_run ob w0 s"
  shows "wp (import_event svc markups e)
     (\<lambda>_ t. same_run ob w0 t \<and> no_loss ob (world s) (world t) \<and> high_water t = high_water s \<and> event_landed ob (world t) e)
     (\<lambda>_ t. same_run ob w0 t \<and> no_loss ob (world s) (world t) \<and> high_water t = high_water s) s"
  (is "wp _ ?Q ?E s")
  unfolding import_event_def wp_bnd
proof (rule wp_on_world [OF import_laws_quiet(6) [OF L] s])
  fix now w1
  assume w1: "no_loss ob (world s) w1" "same_run ob w0 (s\<lparr>world := w1\<rparr>)"
  show "wp (lift_sum (event_to_document e markups now))
     (\<lambda>a. wp (case a of None \<Rightarrow> mod_st (\<lambda>s. s\<lparr>stats := (stats s)\<lparr>n_skipped := n_skipped (stats s) + 1\<rparr>\<rparr>)
       | Some d \<Rightarrow> sq (on_world (upsert_item svc d))
            (mod_st (\<lambda>s. s\<lparr>stats := (stats s)\<lparr>n_written := n_written (stats s) + 1\<rparr>\<rparr>))) ?Q ?E) ?E
     (s\<lparr>world := w1\<rparr>)"
  proof (cases "event_to_document e markups now")
    case (Inl x)
    then show ?thesis using w1 by (simp add: wp_rules)
  next
    case (Inr r)
    show ?thesis
    proof (cases r)
      case None
      then have "event_landed ob w1 e"
        using Inr by (auto intro: event_landedI)
      then show ?thesis
        using Inr None w1 by (simp add: wp_rules same_run_def)
    next
      case (Some d)
      have key: "holds ob w2 (doc_key d)" if "upsert_item svc d w1 = (Inr (), w2)" for w2
        by (rule import_laws_results(3) [OF L that])
      have "wp (on_world (upsert_item svc d))
         (\<lambda>_ t. same_run ob w0 t \<and> no_loss ob (world s) (world t) \<and> high_water t = high_water s \<and> holds ob (world t) (doc_key d))
         ?E (s\<lparr>world := w1\<rparr>)"
        by (rule wp_on_world [OF import_laws_quiet(3) [OF L] w1(2)])
           (use w1 key in \<open>auto intro: no_loss_trans\<close>)
      moreover have "event_landed ob w e" if "holds ob w (doc_key d)" for w
        using that Inr Some by (auto intro: event_landedI)
      ultimately show ?thesis
        using Inr Some by (auto simp: wp_rules same_run_def elim!: wp_conseq)
    qed
  qed
qed (use s in \<open>auto simp: same_run_def\<close>)

lemma wp_import_events:
  assumes L: "import_laws ob content svc" and s: "same_run ob w0 s"
  shows "wp (for_each es (import_event svc markups))
     (\<lambda>_ t. same_run ob w0 t \<and> no_loss ob (world s) (world t) \<and> high_water t = high_water s \<and> list_all (event_landed ob (world t)) es)
     (\<lambda>_ t. same_run ob w0 t \<and> no_loss ob (world s) (world t) \<and> high_water t = high_water s) s"
proof -
  let ?P = "\<lambda>ds t. same_run ob w0 t \<and> no_loss ob (world s) (world t) \<and> high_water t = high_water s
     \<and> list_all (event_landed ob (world t)) ds"
  have "wp (for_each es (import_event svc markups)) (\<lambda>_. ?P es) (\<lambda>_ t. \<exists>ds. prefix ds es \<and> ?P ds t) s"
  proof (rule wp_for_each_prefix)
    fix ds e t
    assume t: "?P ds t"
    show "wp (import_event svc markups e) (\<lambda>_. ?P (ds @ [e])) (\<lambda>_. ?P ds) t"
      by (rule wp_conseq [OF wp_import_event [OF L]])
         (use t in \<open>auto simp: list_all_iff intro: no_loss_trans event_landed_mono\<close>)
  qed (use s in simp)
  then show ?thesis
    by (rule wp_conseq) auto
qed

lemma wp_import_blob:
  assumes L: "import_laws ob content svc" and s: "same_run ob w0 s"
  shows "wp (import_blob svc markups b)
     (\<lambda>_ t. same_run ob w0 t \<and> no_loss ob (world s) (world t) \<and> landed ob content svc (world t) b
        \<and> advance (last_modified b) (high_water s) = Inr (high_water t))
     (\<lambda>_ t. same_run ob w0 t \<and> no_loss ob (world s) (world t) \<and> high_water t = high_water s) s"
  (is "wp _ ?Q ?E s")
  unfolding import_blob_def wp_bnd
proof (rule wp_on_world [OF import_laws_quiet(2) [OF L] s])
  fix data w1
  assume d: "download_blob svc (blob_name b) (world s) = (Inr data, w1)"
    and w1: "no_loss ob (world s) w1" "same_run ob w0 (s\<lparr>world := w1\<rparr>)"
  have data: "data = content (blob_name b)"
    by (rule import_laws_results(2) [OF L d])
  show "wp (lift_sum (decode_avro (avro_reader svc) data))
     (\<lambda>events. wp (sq (mod_st (\<lambda>s. s\<lparr>stats := (stats s)\<lparr>n_blobs := n_blobs (stats s) + 1,
            n_events := n_events (stats s) + int (length events)\<rparr>\<rparr>))
        (sq (for_each events (import_event svc markups))
        (bnd get_st (\<lambda>s. bnd (lift_sum (advance (last_modified b) (high_water s))) (\<lambda>hw.
         mod_st (\<lambda>s. s\<lparr>high_water := hw\<rparr>)))))) ?Q ?E) ?E (s\<lparr>world := w1\<rparr>)"
  proof (cases "decode_avro (avro_reader svc) data")
    case (Inl x)
    then show ?thesis using w1 by (simp add: wp_rules)
  next
    case (Inr es)
    have done_blob: "landed ob content svc w b" if "list_all (event_landed ob w) es" for w
      using that Inr data by (auto simp: landed_def)
    let ?s = "s\<lparr>world := w1, stats := (stats s)\<lparr>n_blobs := n_blobs (stats s) + 1,
            n_events := n_events (stats s) + int (length es)\<rparr>\<rparr>"
    have "same_run ob w0 ?s"
      using w1(2) by (simp add: same_run_def)
    from wp_import_events [OF L this, of es markups] show ?thesis
      using Inr w1(1) done_blob
      by (auto simp: wp_rules same_run_def split: sum.splits elim!: wp_conseq intro: no_loss_trans)
  qed
qed (use s in \<open>auto simp: same_run_def\<close>)

section \<open>A whole run\<close>

definition eligible :: "datetime option \<Rightarrow> utc \<Rightarrow> bool" where
  "eligible since t = (case since of None \<Rightarrow> True | Some d \<Rightarrow> aware_gt t d = Inr True)"

lemma filter_since_set:
  "filter_since since bs = Inr fs \<Longrightarrow> set fs = {b \<in> set bs. eligible since (last_modified b)}"
proof (induction bs arbitrary: fs)
  case (Cons b bs)
  then show ?case
    by (auto simp: eligible_def bind_sum_def split: sum.splits if_splits option.splits)
qed simp

lemma prefix_sorted_below:
  assumes "prefix ds (take n (sort_key f fs))" and "b \<in> set ds" and "b' \<in> set fs" and "f b' < (f b :: int)"
  shows "b' \<in> set ds"
proof -
  obtain rest where rest: "sort_key f fs = ds @ rest"
    using assms(1) by (metis append_assoc append_take_drop_id prefix_def)
  have "sorted (map f (ds @ rest))"
    unfolding rest [symmetric] by (rule sorted_sort_key)
  then have "f b \<le> f x" if "x \<in> set rest" for x
    using that assms(2) by (auto simp: sorted_append)
  moreover have "b' \<in> set (ds @ rest)"
    unfolding rest [symmetric] using assms(3) by simp
  ultimately show ?thesis
    using assms(4) by fastforce
qed

lemma advance_cases:
  "advance t hw = Inr hw' \<Longrightarrow> hw' = hw \<or> hw' = Some (t, Some 0)"
  by (auto simp: advance_def bind_sum_def split: option.splits sum.splits if_splits)

text \<open>Where the high-water mark may stand after the loop, however the loop ended.\<close>

definition mark_ok :: "'w observer \<Rightarrow> (string \<Rightarrow> string) \<Rightarrow> 'w import_svc \<Rightarrow> 'w \<Rightarrow> datetime option
    \<Rightarrow> datetime option \<Rightarrow> 'w import_st \<Rightarrow> bool" where
  "mark_ok ob content svc w0 since wm s \<longleftrightarrow> high_water s = wm
     \<or> (\<exists>b \<in> set (blobs_of ob w0). high_water s = Some (last_modified b, Some 0)
          \<and> (\<forall>b' \<in> set (blobs_of ob w0). eligible since (last_modified b') \<longrightarrow> last_modified b' < last_modified b
                \<longrightarrow> landed ob content svc (world s) b'))"

lemma wp_import_all:
  assumes L: "import_laws ob content svc" and s: "same_run ob w0 s" and hw: "high_water s = wm"
  shows "wp (best_effort (import_all svc since markups))
     (\<lambda>_ t. same_run ob w0 t \<and> mark_ok ob content svc w0 since wm t) E s"
  (is "wp _ (\<lambda>_. ?Q) E s")
proof -
  have loop: "wp (for_each (pending_of fs) (import_blob svc markups)) (\<lambda>_. ?Q) (\<lambda>_. ?Q) t"
    if fs: "set fs = {b \<in> set (blobs_of ob w0). eligible since (last_modified b)}"
      and t: "same_run ob w0 t" "high_water t = wm" for fs t
  proof -
    let ?P = "\<lambda>ds u. same_run ob w0 u \<and> (\<forall>b \<in> set ds. landed ob content svc (world u) b)
       \<and> (high_water u = wm \<or> (\<exists>b \<in> set ds. high_water u = Some (last_modified b, Some 0)))"
    have P_ok: "?Q u" if "prefix ds (pending_of fs)" and "?P ds u" for ds u
    proof -
      have below: "b' \<in> set ds"
        if "b \<in> set ds" "b' \<in> set fs" "last_modified b' < last_modified b" for b b'
        using that \<open>prefix ds (pending_of fs)\<close>
        by (auto simp: pending_of_def intro: prefix_sorted_below)
      have sub: "set ds \<subseteq> set fs"
        using set_mono_prefix [OF \<open>prefix ds (pending_of fs)\<close>]
          set_take_subset [of MAX_BLOBS_PER_RUN "sort_key last_modified fs"]
        by (auto simp: pending_of_def)
      then show ?thesis
        using \<open>?P ds u\<close> below fs unfolding mark_ok_def by blast
    qed
    have "wp (for_each (pending_of fs) (import_blob svc markups)) (\<lambda>_. ?P (pending_of fs))
       (\<lambda>_ u. \<exists>ds. prefix ds (pending_of fs) \<and> ?P ds u) t"
    proof (rule wp_for_each_prefix)
      fix ds b u
      assume u: "?P ds u"
      show "wp (import_blob svc markups b) (\<lambda>_. ?P (ds @ [b])) (\<lambda>_. ?P ds) u"
        by (rule wp_conseq [OF wp_import_blob [OF L]])
           (use u in \<open>auto dest!: advance_cases intro: landed_mono\<close>)
    qed (use t in simp)
    then show ?thesis
      by (rule wp_conseq) (use P_ok in blast)+
  qed
  have stay: "?Q u" if "same_run ob w0 u" "high_water u = wm" for u
    using that by (simp add: mark_ok_def)
  show ?thesis
    unfolding wp_best_effort import_all_def wp_bnd
  proof (rule wp_on_world [OF import_laws_quiet(1) [OF L] s])
    fix listed w1
    assume l: "list_blobs svc (world s) = (Inr listed, w1)" and w1: "same_run ob w0 (s\<lparr>world := w1\<rparr>)"
    have listed: "listed = blobs_of ob w0"
      using import_laws_results(1) [OF L l] s by (simp add: same_run_def no_loss_def)
    show "wp (lift_sum (filter_since since listed))
       (\<lambda>fs. wp (for_each (pending_of fs) (import_blob svc markups)) (\<lambda>_. ?Q) (\<lambda>_. ?Q)) (\<lambda>_. ?Q) (s\<lparr>world := w1\<rparr>)"
    proof (cases "filter_since since listed")
      case (Inr fs)
      then show ?thesis
        using loop [OF filter_since_set [OF Inr [unfolded listed]] w1] hw by (simp add: wp_rules)
    qed (use w1 hw stay in \<open>simp add: wp_rules\<close>)
  qed (use hw stay in auto)
qed

text \<open>The position as the next run reads it.\<close>

definition parse_position :: "string option \<Rightarrow> datetime option" where
  "parse_position p = (case p of None \<Rightarrow> None
     | Some s \<Rightarrow> if s = [] then None else map_option (\<lambda>(c, off). (utc_of c, off)) (fromisoformat s))"

definition rescan_from :: "datetime option \<Rightarrow> datetime option" where
  "rescan_from wm = map_option (\<lambda>d. (fst d - OVERLAP, snd d)) wm"

definition still :: "'w observer \<Rightarrow> 'w \<Rightarrow> 'w \<Rightarrow> bool" where
  "still ob w0 w \<longleftrightarrow> no_loss ob w0 w \<and> position_of ob w = position_of ob w0"

lemma wp_quiet:
  assumes "quiet ob m" and "still ob w0 w"
    and "\<And>a w'. m w = (Inr a, w') \<Longrightarrow> still ob w0 w' \<Longrightarrow> Q a w'"
    and "\<And>e w'. still ob w0 w' \<Longrightarrow> E e w'"
  shows "wp m Q E w"
proof -
  obtain r w' where m: "m w = (r, w')" by fastforce
  then have "still ob w0 w'"
    using assms(1,2) unfolding quiet_def still_def by (metis no_loss_trans snd_conv)
  then show ?thesis
    using m assms(3,4) by (cases r) (auto simp: wp_def)
qed

lemma wp_read_watermark:
  assumes L: "import_laws ob content svc" and w: "still ob w0 w"
  shows "wp (read_watermark svc) (\<lambda>wm u. still ob w0 u \<and> (wm = None \<or> wm = parse_position (position_of ob w0)))
     (\<lambda>_. still ob w0) w"
  unfolding read_watermark_def wp_catch wp_bnd
proof (rule wp_quiet [OF import_laws_quiet(5) [OF L] w])
  fix p u
  assume p: "get_position svc w = (Inr p, u)" and u: "still ob w0 u"
  have "p = position_of ob w0"
    using import_laws_results(4) [OF L p] w by (simp add: still_def)
  then show "wp (case p of None \<Rightarrow> ret None
      | Some p \<Rightarrow> if p = [] then ret None
          else (case fromisoformat p of None \<Rightarrow> raise (ValueError ''Invalid isoformat string'')
                | Some (c, off) \<Rightarrow> ret (Some (utc_of c, off))))
     (\<lambda>wm u. still ob w0 u \<and> (wm = None \<or> wm = parse_position (position_of ob w0)))
     (\<lambda>e. wp (if is_value_or_type_error e then ret None else raise e)
       (\<lambda>wm u. still ob w0 u \<and> (wm = None \<or> wm = parse_position (position_of ob w0))) (\<lambda>_. still ob w0)) u"
    using u by (auto simp: wp_rules parse_position_def is_value_or_type_error_def split: option.splits)
qed (auto simp: wp_rules)

lemma wp_route_markups:
  assumes L: "import_laws ob content svc" and w: "still ob w0 w"
  shows "wp (route_markups svc) (\<lambda>_. still ob w0) (\<lambda>_. still ob w0) w"
  unfolding route_markups_def wp_catch wp_bnd
  by (rule wp_quiet [OF import_laws_quiet(4) [OF L] w]) (simp_all add: wp_rules)

text \<open>What a run may do to the world.\<close>

definition run_ok :: "'w observer \<Rightarrow> (string \<Rightarrow> string) \<Rightarrow> 'w import_svc \<Rightarrow> 'w \<Rightarrow> 'w \<Rightarrow> bool" where
  "run_ok ob content svc w w' \<longleftrightarrow> no_loss ob w w'
     \<and> (position_of ob w' = position_of ob w
        \<or> (\<exists>b \<in> set (blobs_of ob w). position_of ob w' = Some (iso_utc (last_modified b))
             \<and> (\<forall>b' \<in> set (blobs_of ob w).
                  eligible (rescan_from (parse_position (position_of ob w))) (last_modified b')
                  \<longrightarrow> last_modified b' < last_modified b \<longrightarrow> landed ob content svc w' b')))"

lemma mark_moved_Some:
  "mark_moved hw wm = Some t \<Longrightarrow> hw \<noteq> wm \<and> hw \<noteq> None \<and> t = fst (the hw)"
  by (auto simp: mark_moved_def same_instant_def split: option.splits if_splits)

lemma still_run_ok: "still ob w w' \<Longrightarrow> run_ok ob content svc w w'"
  by (simp add: still_def run_ok_def)

lemma run_once_ok:
  assumes L: "import_laws ob content svc"
  shows "wp (run_once configured svc) (\<lambda>_. run_ok ob content svc w) (\<lambda>_. run_ok ob content svc w) w"
proof (cases configured)
  case False
  then show ?thesis by (simp add: run_once_def wp_rules still_run_ok still_def)
next
  case True
  let ?body = "\<lambda>since watermark markups u.
      case best_effort (import_all svc since markups) \<lparr>world = u, stats = no_stats, high_water = watermark\<rparr> of
        (_, s) \<Rightarrow> (case mark_moved (high_water s) watermark of None \<Rightarrow> ret (stats s) (world s)
           | Some t \<Rightarrow> sq (write_watermark svc t) (ret (stats s)) (world s))"
  have body: "wp (?body since wm markups) (\<lambda>_. run_ok ob content svc w) (\<lambda>_. run_ok ob content svc w) u"
    if u: "still ob w u" and wm: "wm = None \<or> wm = parse_position (position_of ob w)"
      and since: "since = rescan_from wm" for since wm markups u
  proof -
    let ?s0 = "\<lparr>world = u, stats = no_stats, high_water = wm\<rparr>"
    obtain r s where s: "best_effort (import_all svc since markups) ?s0 = (r, s)" by fastforce
    have "same_run ob w ?s0"
      using u by (simp add: same_run_def still_def)
    from wp_import_all [OF L this, of wm since markups "\<lambda>_ _. False"]
    have "wp (best_effort (import_all svc since markups))
        (\<lambda>_ t. same_run ob w t \<and> mark_ok ob content svc w since wm t) (\<lambda>_ _. False) ?s0"
      by simp
    then have run: "same_run ob w s" and mark: "mark_ok ob content svc w since wm s"
      using s by (auto simp: wp_def split: sum.splits)
    have still: "still ob w (world s)"
      using run by (simp add: still_def same_run_def)
    show ?thesis
    proof (cases "mark_moved (high_water s) wm")
      case None
      then show ?thesis
        using s still by (simp add: wp_def ret_def still_run_ok)
    next
      case (Some t)
      with mark obtain b where b: "b \<in> set (blobs_of ob w)" "t = last_modified b"
        and below: "\<And>b'. b' \<in> set (blobs_of ob w) \<Longrightarrow> eligible since (last_modified b')
            \<Longrightarrow> last_modified b' < last_modified b \<Longrightarrow> landed ob content svc (world s) b'"
        by (auto simp: mark_ok_def dest!: mark_moved_Some)
      have elig: "eligible since x" if "eligible (rescan_from (parse_position (position_of ob w))) x" for x
        using that wm since by (auto simp: rescan_from_def eligible_def)
      let ?w' = "snd (put_position svc (iso_utc t) (world s))"
      have "no_loss ob (world s) ?w'" and "position_of ob ?w' \<in> {position_of ob (world s), Some (iso_utc t)}"
        by (rule import_laws_results [OF L])+
      moreover from this have "landed ob content svc ?w' b'"
        if "b' \<in> set (blobs_of ob w)" "eligible since (last_modified b')" "last_modified b' < last_modified b" for b'
        using below [OF that] by (blast intro: landed_mono)
      ultimately have "run_ok ob content svc w ?w'"
        using still b elig unfolding run_ok_def still_def
        by (metis (no_types, lifting) insertE no_loss_trans singletonD)
      then have "wp (put_position svc (iso_utc t)) (\<lambda>_. run_ok ob content svc w) (\<lambda>_. run_ok ob content svc w) (world s)"
        by (simp add: wp_snd)
      then have "wp (sq (write_watermark svc t) (ret (stats s)))
          (\<lambda>_. run_ok ob content svc w) (\<lambda>_. run_ok ob content svc w) (world s)"
        unfolding write_watermark_def wp_sq wp_best_effort by (rule wp_conseq) (simp_all add: wp_rules)
      then show ?thesis
        using s Some by (simp add: wp_def)
    qed
  qed
  have w: "still ob w w" by (simp add: still_def)
  have since: "wp (case wm of None \<Rightarrow> ret None | Some d \<Rightarrow> bnd (lift_sum (minus_overlap d)) (\<lambda>d. ret (Some d)))
      (\<lambda>since v. since = rescan_from wm \<and> v = u) (\<lambda>_ v. v = u) u" for wm u
    by (auto simp: wp_rules minus_overlap_def rescan_from_def split: option.splits)
  have rest: "wp (bnd (case wm of None \<Rightarrow> ret None | Some d \<Rightarrow> bnd (lift_sum (minus_overlap d)) (\<lambda>d. ret (Some d)))
        (\<lambda>since. bnd (route_markups svc) (?body since wm)))
      (\<lambda>_. run_ok ob content svc w) (\<lambda>_. run_ok ob content svc w) u"
    if u: "still ob w u" and wm: "wm = None \<or> wm = parse_position (position_of ob w)" for wm u
    unfolding wp_bnd
  proof (rule wp_conseq [OF since])
    fix s v
    assume "s = rescan_from wm \<and> v = u"
    then show "wp (route_markups svc) (\<lambda>mk. wp (?body s wm mk)
        (\<lambda>_. run_ok ob content svc w) (\<lambda>_. run_ok ob content svc w)) (\<lambda>_. run_ok ob content svc w) v"
      using u wm by (auto intro!: wp_conseq [OF wp_route_markups [OF L u]] intro: body still_run_ok)
  qed (use u in \<open>simp add: still_run_ok\<close>)
  have "wp (read_watermark svc)
      (\<lambda>wm. wp (bnd (case wm of None \<Rightarrow> ret None | Some d \<Rightarrow> bnd (lift_sum (minus_overlap d)) (\<lambda>d. ret (Some d)))
          (\<lambda>since. bnd (route_markups svc) (?body since wm)))
        (\<lambda>_. run_ok ob content svc w) (\<lambda>_. run_ok ob content svc w)) (\<lambda>_. run_ok ob content svc w) w"
    by (rule wp_conseq [OF wp_read_watermark [OF L w]]) (auto intro: rest still_run_ok)
  then show ?thesis
    using True by (simp add: run_once_def wp_bnd)
qed

section \<open>The life of the importer\<close>

definition blob_time_ok :: "blob \<Rightarrow> bool" where
  "blob_time_ok b \<longleftrightarrow> 0 \<le> last_modified b \<and> last_modified b < MAX_UTC"

text \<open>The worlds that occur: the importer starts without a position; it runs, at any moment and
  with any failure of the services; between runs Capture adds blobs, whose times may lie behind
  the stored position by less than the overlap.\<close>

inductive import_life :: "'w observer \<Rightarrow> 'w import_svc \<Rightarrow> 'w \<Rightarrow> bool"
  for ob :: "'w observer" and svc :: "'w import_svc" where
    life_start: "position_of ob w = None \<Longrightarrow> list_all blob_time_ok (blobs_of ob w) \<Longrightarrow> import_life ob svc w"
  | life_run: "import_life ob svc w \<Longrightarrow> import_life ob svc (snd (run_once configured svc w))"
  | life_arrive: "import_life ob svc w \<Longrightarrow> position_of ob w' = position_of ob w
      \<Longrightarrow> (\<And>k. holds ob w k \<Longrightarrow> holds ob w' k)
      \<Longrightarrow> blobs_of ob w' = blobs_of ob w @ new
      \<Longrightarrow> list_all (\<lambda>b. blob_time_ok b \<and> eligible (rescan_from (parse_position (position_of ob w))) (last_modified b)) new
      \<Longrightarrow> import_life ob svc w'"

definition life_inv :: "'w observer \<Rightarrow> (string \<Rightarrow> string) \<Rightarrow> 'w import_svc \<Rightarrow> 'w \<Rightarrow> bool" where
  "life_inv ob content svc w \<longleftrightarrow> list_all blob_time_ok (blobs_of ob w)
     \<and> (position_of ob w = None
        \<or> (\<exists>t. 0 \<le> t \<and> t < MAX_UTC \<and> position_of ob w = Some (iso_utc t)
             \<and> (\<forall>b \<in> set (blobs_of ob w). last_modified b \<le> t - OVERLAP \<longrightarrow> landed ob content svc w b)))"

lemma parse_position_iso: "0 \<le> t \<Longrightarrow> t < MAX_UTC \<Longrightarrow> parse_position (Some (iso_utc t)) = Some (t, Some 0)"
  using fromisoformat_iso_utc [of t] civil_of_correct [of t]
  by (auto simp: parse_position_def fromisoformat_def)

lemma eligible_iso:
  "0 \<le> t \<Longrightarrow> t < MAX_UTC \<Longrightarrow> eligible (rescan_from (parse_position (Some (iso_utc t)))) x \<longleftrightarrow> t - OVERLAP < x"
  by (simp add: parse_position_iso rescan_from_def eligible_def aware_gt_def)

lemma eligible_start: "eligible (rescan_from (parse_position None)) x"
  by (simp add: parse_position_def rescan_from_def eligible_def)

lemma life_inv_run:
  assumes inv: "life_inv ob content svc w" and run: "run_ok ob content svc w w'"
  shows "life_inv ob content svc w'"
proof -
  have nl: "no_loss ob w w'" and blobs: "blobs_of ob w' = blobs_of ob w"
    using run by (simp_all add: run_ok_def no_loss_def)
  have ok: "list_all blob_time_ok (blobs_of ob w)"
    using inv by (simp add: life_inv_def)
  show ?thesis
  proof (cases "position_of ob w' = position_of ob w")
    case True
    then show ?thesis
      using inv blobs landed_mono [OF _ nl] unfolding life_inv_def by auto
  next
    case False
    with run obtain b where b: "b \<in> set (blobs_of ob w)" "position_of ob w' = Some (iso_utc (last_modified b))"
      and below: "\<And>b'. b' \<in> set (blobs_of ob w)
         \<Longrightarrow> eligible (rescan_from (parse_position (position_of ob w))) (last_modified b')
         \<Longrightarrow> last_modified b' < last_modified b \<Longrightarrow> landed ob content svc w' b'"
      unfolding run_ok_def by blast
    have "landed ob content svc w' b'"
      if b': "b' \<in> set (blobs_of ob w)" "last_modified b' \<le> last_modified b - OVERLAP" for b'
    proof (cases "eligible (rescan_from (parse_position (position_of ob w))) (last_modified b')")
      case True
      then show ?thesis
        using below [OF b'(1)] b'(2) by (simp add: OVERLAP_def)
    next
      case no: False
      have some: "position_of ob w \<noteq> None"
      proof
        assume "position_of ob w = None"
        then show False using no by (simp add: eligible_start)
      qed
      with inv obtain t where t: "0 \<le> t" "t < MAX_UTC" "position_of ob w = Some (iso_utc t)"
        and old: "\<And>x. x \<in> set (blobs_of ob w) \<Longrightarrow> last_modified x \<le> t - OVERLAP \<Longrightarrow> landed ob content svc w x"
        unfolding life_inv_def by blast
      have "last_modified b' \<le> t - OVERLAP"
        using no t by (simp add: eligible_iso)
      then show ?thesis
        using old [OF b'(1)] landed_mono [OF _ nl] by blast
    qed
    moreover have "blob_time_ok b"
      using ok b(1) by (auto simp: list_all_iff)
    ultimately show ?thesis
      using b blobs ok unfolding life_inv_def blob_time_ok_def by auto
  qed
qed

lemma life_inv_reachable:
  assumes L: "import_laws ob content svc" and life: "import_life ob svc w"
  shows "life_inv ob content svc w"
  using life
proof induction
  case (life_start w)
  then show ?case by (simp add: life_inv_def)
next
  case (life_run w configured)
  have "run_ok ob content svc w (snd (run_once configured svc w))"
    using run_once_ok [OF L, of configured w] unfolding wp_snd .
  with life_run.IH show ?case
    by (rule life_inv_run)
next
  case (life_arrive w w' new)
  have new: "blob_time_ok b \<and> eligible (rescan_from (parse_position (position_of ob w))) (last_modified b)"
    if "b \<in> set new" for b
    using that life_arrive.hyps(5) by (auto simp: list_all_iff)
  have ok: "list_all blob_time_ok (blobs_of ob w')"
    using life_arrive new by (auto simp: life_inv_def list_all_iff)
  show ?case
  proof (cases "position_of ob w")
    case None
    then show ?thesis
      using life_arrive ok by (simp add: life_inv_def)
  next
    case (Some p)
    with life_arrive.IH obtain t where t: "0 \<le> t" "t < MAX_UTC" "position_of ob w = Some (iso_utc t)"
      and old: "\<And>x. x \<in> set (blobs_of ob w) \<Longrightarrow> last_modified x \<le> t - OVERLAP \<Longrightarrow> landed ob content svc w x"
      unfolding life_inv_def by auto
    have "landed ob content svc w' b"
      if b: "b \<in> set (blobs_of ob w')" "last_modified b \<le> t - OVERLAP" for b
    proof -
      have "b \<notin> set new"
        using new [of b] b(2) t by (auto simp: eligible_iso)
      then have "landed ob content svc w b"
        using b life_arrive.hyps(4) by (auto intro: old)
      then show ?thesis
        by (rule landed_mono_holds) (rule life_arrive.hyps(3))
    qed
    then show ?thesis
      using t ok life_arrive.hyps(2) unfolding life_inv_def by auto
  qed
qed

text \<open>C1: no billing blob is lost.  In every world the importer can reach, with runs at any moment,
  any call to the services failing at any time, and blobs that appear late with a modification
  time up to ten minutes behind the stored position, every event of every blob older than the
  position minus the overlap is in the usage store (or has no request id).\<close>

theorem no_billing_blob_is_lost:
  assumes "import_laws ob content svc" and "import_life ob svc w" and "position_of ob w = Some p"
  shows "\<exists>t. p = iso_utc t \<and> imported_up_to ob content svc w t"
  using life_inv_reachable [OF assms(1,2)] assms(3) unfolding life_inv_def imported_up_to_def by auto

record mem_world =
  mem_blobs :: "blob list"
  mem_docs :: "jdict list"
  mem_pos :: "string option"

definition mem_content :: "string \<Rightarrow> string" where
  "mem_content n =
     (if n = ''b1'' then ''{\"request_id\":\"r1\",\"ts\":\"2026-08-01T00:00:00Z\",\"status\":200}''
      else if n = ''bad'' then ''{\"request_id\":\"r2\",\"status\":NaN}'' else ''not json'')"

definition mem_svc :: "mem_world import_svc" where
  "mem_svc = \<lparr>list_blobs = (\<lambda>w. (Inr (mem_blobs w), w)), download_blob = (\<lambda>n w. (Inr (mem_content n), w)),
     avro_reader = (\<lambda>s. Inr [BodyBytes s]), upsert_item = (\<lambda>d w. (Inr (), w\<lparr>mem_docs := d # mem_docs w\<rparr>)),
     route_rows = ret [], get_position = (\<lambda>w. (Inr (mem_pos w), w)),
     put_position = (\<lambda>p w. (Inr (), w\<lparr>mem_pos := Some p\<rparr>)), clock = ret 63922003200000000\<rparr>"

definition mem_observer :: "mem_world observer" where
  "mem_observer = \<lparr>blobs_of = mem_blobs, position_of = mem_pos,
     holds = (\<lambda>w k. k \<in> doc_key ` set (mem_docs w))\<rparr>"

lemma mem_laws: "import_laws mem_observer mem_content mem_svc"
  by (auto simp: import_laws_def mem_svc_def mem_observer_def quiet_def no_loss_def ret_def)

definition mem_start :: mem_world where
  "mem_start = \<lparr>mem_blobs =
     [\<lparr>blob_name = ''bad'', last_modified = 63922006800000000\<rparr>,
      \<lparr>blob_name = ''b2'', last_modified = 63922003200000000\<rparr>,
      \<lparr>blob_name = ''b1'', last_modified = 63921916800000000\<rparr>], mem_docs = [], mem_pos = None\<rparr>"

lemma mem_event:
  "loads (mem_content ''b1'') = Some (JObj [(''request_id'', JStr ''r1''), (''ts'', JStr ''2026-08-01T00:00:00Z''), (''status'', JInt 200)])"
  "loads (mem_content ''b2'') = None"
  "loads (mem_content ''bad'') = Some (JObj [(''request_id'', JStr ''r2''), (''status'', JFloat FNaN)])"
  "utf8_valid (mem_content ''b1'')" "utf8_valid (mem_content ''b2'')" "utf8_valid (mem_content ''bad'')"
  by code_simp+

lemma mem_ts: "parse_ts (JStr ''2026-08-01T00:00:00Z'') 63922003200000000 = Inr 63921139200000000"
  "parse_ts JNull now = Inr now"
  by code_simp (simp add: parse_ts_def)

definition mem_done :: mem_world where
  "mem_done = snd (run_once True mem_svc mem_start)"

lemma mem_done_position: "mem_pos mem_done = Some (iso_utc 63922003200000000)"
  by (simp add: mem_done_def run_once_def bnd_def ret_def read_watermark_def catch_exn_def mem_svc_def mem_start_def
      route_markups_def best_effort_def import_all_def on_world_def lift_sum_def pending_of_def MAX_BLOBS_PER_RUN_def
      import_blob_def decode_avro_def bind_sum_def decode_body_def mem_event sq_def mod_st_def get_st_def
      import_event_def event_to_document_def mem_ts event_tokens_def tokens_from_copilot_usage_def
      any_tokens_def zero_tokens_def to_int_def py_or_def markup_of_def cost_from_copilot_usage_def
      advance_def aware_gt_def mark_moved_def write_watermark_def Let_def)

lemma mem_done_life: "import_life mem_observer mem_svc mem_done"
  unfolding mem_done_def
  by (rule life_run, rule life_start)
    (simp_all add: mem_observer_def mem_start_def blob_time_ok_def MAX_UTC_def DAY_def)

theorem no_billing_blob_is_lost_witness:
  "\<exists>t. iso_utc 63922003200000000 = iso_utc t
     \<and> imported_up_to mem_observer mem_content mem_svc mem_done t"
proof (rule no_billing_blob_is_lost [OF mem_laws mem_done_life])
  show "position_of mem_observer mem_done = Some (iso_utc 63922003200000000)"
    by (simp add: mem_observer_def mem_done_position)
qed

text \<open>C3: one event that cannot be converted blocks the importer for good: from the moment its blob is
  listed, no reachable world has a position more than the overlap beyond that blob, so every
  later blob is imported again and again and the documents behind the cap of a run never are.\<close>

theorem poison_event_pins_the_watermark:
  assumes "import_laws ob content svc" and "import_life ob svc w"
    and "b \<in> set (blobs_of ob w)"
    and "decode_avro (avro_reader svc) (content (blob_name b)) = Inr es" and "e \<in> set es"
    and "\<And>markups now. \<exists>x. event_to_document e markups now = Inl x"
    and "position_of ob w = Some p"
  shows "\<exists>t. p = iso_utc t \<and> t < last_modified b + OVERLAP"
proof -
  have no: "\<not> landed ob content svc w b"
  proof
    assume "landed ob content svc w b"
    then have "event_landed ob w e"
      using assms(4,5) by (auto simp: landed_def list_all_iff)
    then obtain markups now r where "event_to_document e markups now = Inr r"
      by (auto simp: event_landed_def)
    then show False
      using assms(6) [of markups now] by simp
  qed
  obtain t where "p = iso_utc t"
    and "\<And>x. x \<in> set (blobs_of ob w) \<Longrightarrow> last_modified x \<le> t - OVERLAP \<Longrightarrow> landed ob content svc w x"
    using life_inv_reachable [OF assms(1,2)] assms(7) unfolding life_inv_def by auto
  moreover from this have "\<not> last_modified b \<le> t - OVERLAP"
    using no assms(3) by blast
  ultimately show ?thesis
    by (intro exI [of _ t]) simp
qed

lemma nan_status_raises:
  "\<exists>x. event_to_document [(''request_id'', JStr ''r2''), (''status'', JFloat FNaN)] markups now = Inl x"
  by (simp add: event_to_document_def event_tokens_def tokens_from_copilot_usage_def any_tokens_def zero_tokens_def
      to_int_def py_or_def markup_of_def cost_from_copilot_usage_def bind_sum_def parse_ts_def Let_def)

theorem poison_event_pins_the_watermark_witness:
  "\<exists>t. iso_utc 63922003200000000 = iso_utc t \<and> t < 63922006800000000 + OVERLAP"
proof -
  let ?b = "\<lparr>blob_name = ''bad'', last_modified = 63922006800000000\<rparr>"
  have "\<exists>t. iso_utc 63922003200000000 = iso_utc t \<and> t < last_modified ?b + OVERLAP"
  proof (rule poison_event_pins_the_watermark [OF mem_laws mem_done_life, where es = "[[(''request_id'', JStr ''r2''), (''status'', JFloat FNaN)]]"])
    have "run_ok mem_observer mem_content mem_svc mem_start mem_done"
      using run_once_ok [OF mem_laws, of True mem_start] by (simp add: wp_snd mem_done_def)
    then show "?b \<in> set (blobs_of mem_observer mem_done)"
      by (simp add: run_ok_def no_loss_def mem_observer_def mem_start_def)
    show "decode_avro (avro_reader mem_svc) (mem_content (blob_name ?b)) = Inr [[(''request_id'', JStr ''r2''), (''status'', JFloat FNaN)]]"
      using mem_event by (simp add: decode_avro_def mem_svc_def bind_sum_def decode_body_def)
    show "position_of mem_observer mem_done = Some (iso_utc 63922003200000000)"
      by (simp add: mem_observer_def mem_done_position)
  qed (simp, rule nan_status_raises)
  then show ?thesis by simp
qed

section \<open>The stored position\<close>

text \<open>The watermark survives its own storage: when the database returns the text that
  \<^verbatim>\<open>_write_watermark\<close> wrote for a UTC instant, the next run reads that very instant back,
  as an aware time with offset zero.\<close>

lemma watermark_roundtrip:
  assumes "0 \<le> t" and "t < MAX_UTC" and "get_position svc w = (Inr (Some (iso_utc t)), w')"
  shows "read_watermark svc w = (Inr (Some (t, Some 0)), w')"
proof -
  have "parse_position (Some (iso_utc t)) = Some (t, Some 0)"
    by (rule parse_position_iso [OF assms(1,2)])
  then obtain c where "iso_utc t \<noteq> []" "fromisoformat (iso_utc t) = Some (c, Some 0)" "utc_of c = t"
    by (auto simp: parse_position_def split: if_splits)
  then show ?thesis
    by (simp add: read_watermark_def catch_exn_def bnd_def assms(3) ret_def)
qed

lemma watermark_roundtrip_witness:
  "read_watermark mem_svc (mem_start\<lparr>mem_pos := Some (iso_utc 63922003200000000)\<rparr>)
     = (Inr (Some (63922003200000000, Some 0)), mem_start\<lparr>mem_pos := Some (iso_utc 63922003200000000)\<rparr>)"
  by (rule watermark_roundtrip) (simp_all add: MAX_UTC_def DAY_def mem_svc_def)

section \<open>Documents\<close>

lemma event_to_document_Some:
  assumes "event_to_document event markups now = Inr (Some d)"
  obtains ts tokens m cost status total where
    "parse_ts (jget event ''ts'') now = Inr ts" "event_tokens event = Inr tokens"
    "markup_of markups (py_or (jget event ''model'') (JStr ''unknown'')) = Inr m"
    "cost_from_copilot_usage (jget event ''copilot_usage'') m = Inr cost"
    "jget d ''id'' = JStr (py_str (jget event ''request_id''))"
    "jget d ''pk'' = JStr (py_str (jget d ''subscription'') @ ''_'' @ fmt_Ym ts)"
    "jget d ''ts'' = JStr (iso_utc ts)"
    "jget d ''cost_usd'' = JFloat (case cost of Some c \<Rightarrow> cost_usd c | None \<Rightarrow> FFin 0)"
    "jget d ''billed_usd'' = JFloat (case cost of Some c \<Rightarrow> billed_usd c | None \<Rightarrow> FFin 0)"
    "jget d ''cost_source'' = JStr (if cost \<noteq> None then ''copilot_usage'' else ''unpriced'')"
    "jget d ''prompt_tok'' = JInt (prompt_tok tokens)" "jget d ''completion_tok'' = JInt (completion_tok tokens)"
    "jget d ''cached_tok'' = JInt (cached_tok tokens)" "jget d ''cache_write_tok'' = JInt (cache_write_tok tokens)"
    "jget d ''subscription'' = py_or (jget event ''subscription'') (JStr ''unknown'')"
  using assms that
  by (auto simp: event_to_document_def bind_sum_def Let_def simp del: jget_or_Cons split: if_splits sum.splits)

text \<open>Importing an event again, whenever that happens, produces the same document, so the upsert by
  request id is a no-op: for an event whose timestamp parses, the result (document or exception)
  does not depend on the clock of the importing run.\<close>

lemma reimport_gives_the_same_document:
  assumes "jget event ''ts'' = JStr s" and "fromisoformat (replace_Z s) = Some c"
  shows "event_to_document event markups now = event_to_document event markups later"
proof -
  have "parse_ts (jget event ''ts'') now = parse_ts (jget event ''ts'') later"
    using assms by (cases c) (simp add: parse_ts_def split: option.splits)
  then show ?thesis
    by (simp only: event_to_document_def)
qed

lemma reimport_gives_the_same_document_witness:
  "event_to_document [(''request_id'', JStr ''r1''), (''ts'', JStr ''2026-08-01T00:00:00Z'')] [] 0 =
   event_to_document [(''request_id'', JStr ''r1''), (''ts'', JStr ''2026-08-01T00:00:00Z'')] [] 63922003200000000"
proof (rule reimport_gives_the_same_document)
  show "fromisoformat (replace_Z ''2026-08-01T00:00:00Z'') =
     Some (\<lparr>year = 2026, month = 8, day = 1, hour = 0, minute = 0, second = 0, micro = 0\<rparr>, Some 0)"
    by code_simp
qed simp

text \<open>The partition key of a document is its subscription and the month of its own timestamp, and
  the stored timestamp is UTC text.\<close>

lemma document_partition_is_its_month:
  assumes "event_to_document event markups now = Inr (Some d)"
  shows "\<exists>ts. jget d ''ts'' = JStr (iso_utc ts)
     \<and> jget d ''pk'' = JStr (py_str (jget d ''subscription'') @ ''_'' @ fmt_Ym ts)"
  using assms by (rule event_to_document_Some) blast

definition sample_event :: jdict where
  "sample_event = [(''request_id'', JStr ''r1''), (''subscription'', JStr ''sub-a''),
     (''copilot_usage'', JObj [(''token_details'', JList [JObj [(''token_type'', JStr ''input''), (''token_count'', JInt 12)]])])]"

definition sample_document :: jdict where
  "sample_document = (case event_to_document sample_event [] 63921139200000000 of Inr (Some d) \<Rightarrow> d | _ \<Rightarrow> [])"

lemma sample_tokens: "event_tokens sample_event = Inr (zero_tokens\<lparr>prompt_tok := 12\<rparr>)"
  by code_simp

lemma sample_document_eq: "event_to_document sample_event [] 63921139200000000 = Inr (Some sample_document)"
proof -
  have "\<exists>d. event_to_document sample_event [] 63921139200000000 = Inr (Some d)"
    unfolding event_to_document_def sample_tokens
    by (simp add: sample_event_def parse_ts_def py_or_def markup_of_def to_int_def
        cost_from_copilot_usage_def bind_sum_def Let_def)
  then show ?thesis by (auto simp: sample_document_def)
qed

text \<open>A document is marked unpriced exactly when upstream sent no numeric total, and then costs
  nothing; a document of a model without markup is billed at cost.\<close>

lemma document_prices:
  assumes "event_to_document event markups now = Inr (Some d)"
    and "markup_of markups (py_or (jget event ''model'') (JStr ''unknown'')) = Inr (FFin 0)"
  shows "(jget d ''cost_source'' = JStr ''unpriced'') = (nano_total (jget event ''copilot_usage'') = None)
     \<and> (jget d ''cost_usd'' = JFloat (FFin 0) \<or> jget d ''cost_source'' = JStr ''copilot_usage'')
     \<and> jget d ''billed_usd'' = jget d ''cost_usd''"
proof -
  from assms(1) show ?thesis
  proof (rule event_to_document_Some)
    fix m cost
    assume m: "markup_of markups (py_or (jget event ''model'') (JStr ''unknown'')) = Inr m"
      and cost: "cost_from_copilot_usage (jget event ''copilot_usage'') m = Inr cost"
      and d: "jget d ''cost_usd'' = JFloat (case cost of Some c \<Rightarrow> cost_usd c | None \<Rightarrow> FFin 0)"
        "jget d ''billed_usd'' = JFloat (case cost of Some c \<Rightarrow> billed_usd c | None \<Rightarrow> FFin 0)"
        "jget d ''cost_source'' = JStr (if cost \<noteq> None then ''copilot_usage'' else ''unpriced'')"
    have "m = FFin 0" using m assms(2) by simp
    have "billed_usd c = cost_usd c" if some: "cost = Some c" for c
    proof -
      obtain f where "c = round_pair (fdiv_lit f NANO_AIU_PER_USD) m USD_PLACES"
        by (rule cost_Some_round_pair [OF cost [unfolded some]])
      then show ?thesis
        using \<open>m = FFin 0\<close> by (simp add: round_pair_no_markup float_ok_fdiv_lit)
    qed
    moreover have "cost = None \<longleftrightarrow> nano_total (jget event ''copilot_usage'') = None"
      using cost cost_None_iff by (metis Inr_inject)
    ultimately show ?thesis
      using d by (cases cost) auto
  qed
qed

lemma document_prices_witness:
  "(jget sample_document ''cost_source'' = JStr ''unpriced'') = (nano_total (jget sample_event ''copilot_usage'') = None)
     \<and> (jget sample_document ''cost_usd'' = JFloat (FFin 0) \<or> jget sample_document ''cost_source'' = JStr ''copilot_usage'')
     \<and> jget sample_document ''billed_usd'' = jget sample_document ''cost_usd''"
  by (rule document_prices [OF sample_document_eq]) (simp add: sample_event_def py_or_def markup_of_def)

end
