(* ===== verification/JsonRoundtrip.thy ===== *)
theory JsonRoundtrip
  imports JsonParse
begin

text \<open>
  Reading back what \<^verbatim>\<open>json.dumps\<close> wrote: \<^verbatim>\<open>loads (dumps j)\<close> is \<^verbatim>\<open>j\<close> for values without
  floats whose texts are ASCII and whose objects have distinct keys.  The maps the provisioner
  keeps in an APIM named value are of this kind.
\<close>

section \<open>Strings\<close>

definition ascii :: "string \<Rightarrow> bool" where
  "ascii s \<longleftrightarrow> list_all (\<lambda>c. byte c < 128) s"

lemma byte_less_256 [simp]: "byte c < 256"
  by (simp add: byte_def)

lemma char_of_byte [simp]: "char_of (byte c) = c"
  by (simp add: byte_def)

lemma byte_char_of [simp]: "n < 256 \<Longrightarrow> byte (char_of n) = n"
  by (simp add: byte_def)

lemma code_points_ascii: "ascii s \<Longrightarrow> code_points s = map byte s"
  by (induction s) (auto simp: ascii_def)

lemma hex_val_digit: "n < 16 \<Longrightarrow> hex_val (hex_digit n) = Some n"
  by (simp add: hex_val_def hex_digit_def Let_def)

lemma hex4_sum:
  assumes "n < (65536 :: nat)"
  shows "((n div 4096 mod 16 * 16 + n div 256 mod 16) * 16 + n div 16 mod 16) * 16 + n mod 16 = n"
proof -
  have "n div 4096 mod 16 = n div 4096"
    using assms by simp
  moreover have "n div 4096 * 16 + n div 256 mod 16 = n div 256"
    using div_mult_mod_eq [of "n div 256" 16] by (simp add: div_mult2_eq [symmetric])
  moreover have "n div 256 * 16 + n div 16 mod 16 = n div 16"
    using div_mult_mod_eq [of "n div 16" 16] by (simp add: div_mult2_eq [symmetric])
  ultimately show ?thesis
    using div_mult_mod_eq [of n 16] by metis
qed

lemma hex4_val_digits:
  assumes "a < 16" "b < 16" "c < 16" "d < 16"
  shows "hex4_val ([hex_digit a, hex_digit b, hex_digit c, hex_digit d] @ r)
     = Some (((a * 16 + b) * 16 + c) * 16 + d, r)"
  using assms by (simp add: hex4_val_def hex_val_digit)

lemma hex4_val_hex4: "n < 65536 \<Longrightarrow> hex4_val (hex4 n @ r) = Some (n, r)"
  unfolding hex4_def by (subst hex4_val_digits) (simp_all only: hex4_sum mod_less_divisor zero_less_numeral)

lemma u_escape_low: "n < 55296 \<Longrightarrow> u_escape (hex4 n @ r) = Some (n, r)"
  by (simp add: u_escape_def hex4_val_hex4)

lemma byte_eq_iff: "n < 256 \<Longrightarrow> byte c = n \<longleftrightarrow> c = char_of n"
  by (metis byte_char_of char_of_byte)

lemma char_codes [simp]:
  "char_of (34 :: nat) = CHR 0x22" "char_of (92 :: nat) = CHR 0x5C" "char_of (10 :: nat) = CHR 0x0A"
  "char_of (13 :: nat) = CHR 0x0D" "char_of (9 :: nat) = CHR 0x09" "char_of (12 :: nat) = CHR 0x0C"
  "char_of (8 :: nat) = CHR 0x08"
  by code_simp+

lemma scan_str_quote: "scan_str (CHR 0x22 # s) = Some ([], s)"
  by (subst scan_str.simps) simp

lemma scan_str_plain:
  "c \<noteq> CHR 0x22 \<Longrightarrow> c \<noteq> CHR 0x5C \<Longrightarrow> 32 \<le> byte c
     \<Longrightarrow> scan_str (c # s) = map_option (\<lambda>(t, r). (c # t, r)) (scan_str s)"
  by (subst scan_str.simps) simp

lemma scan_str_simple:
  "simple_escape e = Some x
     \<Longrightarrow> scan_str (CHR 0x5C # e # s) = map_option (\<lambda>(t, r). (x # t, r)) (scan_str s)"
  by (subst scan_str.simps) (auto simp: simple_escape_def split: if_splits)

lemma scan_str_u:
  "u_escape s = Some (p, r)
     \<Longrightarrow> scan_str (CHR 0x5C # CHR ''u'' # s) = map_option (\<lambda>(t, r'). (utf8_encode p @ t, r')) (scan_str r)"
  by (subst scan_str.simps) simp

lemma scan_str_escape:
  assumes "byte c < 128"
  shows "scan_str (json_escape (byte c) @ s) = map_option (\<lambda>(t, r). (c # t, r)) (scan_str s)"
proof -
  let ?S = "{CHR 0x22, CHR 0x5C, CHR 0x0A, CHR 0x0D, CHR 0x09, CHR 0x0C, CHR 0x08}"
  have "32 \<le> byte c \<and> byte c \<le> 126 \<or> byte c < 32 \<or> byte c = 127"
    using assms by linarith
  then consider "c \<in> ?S"
    | "32 \<le> byte c" "byte c \<le> 126" "c \<noteq> CHR 0x22" "c \<noteq> CHR 0x5C"
    | "byte c < 32 \<or> byte c = 127" "c \<notin> ?S"
    by blast
  then show ?thesis
  proof cases
    case 1
    then have "list_ex (\<lambda>e. simple_escape e = Some c \<and> json_escape (byte c) = [CHR 0x5C, e])
        [CHR 0x22, CHR 0x5C, CHR ''n'', CHR ''r'', CHR ''t'', CHR ''f'', CHR ''b'']"
      by (auto simp: json_escape_def simple_escape_def byte_def)
    then obtain e where "simple_escape e = Some c" "json_escape (byte c) = [CHR 0x5C, e]"
      by (auto simp only: list_ex_iff)
    then show ?thesis
      by (simp add: scan_str_simple)
  next
    case 2
    then have "byte c \<noteq> 34" "byte c \<noteq> 92"
      by (simp_all add: byte_eq_iff)
    with 2 have "json_escape (byte c) = [c]"
      by (simp add: json_escape_def)
    with 2 show ?thesis
      by (simp add: scan_str_plain)
  next
    case 3
    then have "json_escape (byte c) = [CHR 0x5C, CHR ''u''] @ hex4 (byte c)"
      by (auto simp: json_escape_def byte_eq_iff)
    moreover have "utf8_encode (byte c) = [c]"
      using assms by (simp add: utf8_encode_def)
    ultimately show ?thesis
      using assms by (simp add: scan_str_u [OF u_escape_low])
  qed
qed

lemma scan_str_json:
  "ascii s \<Longrightarrow> scan_str (concat (map json_escape (map byte s)) @ CHR 0x22 # r) = Some (s, r)"
proof (induction s)
  case Nil
  then show ?case by (simp add: scan_str_quote)
next
  case (Cons c s)
  then show ?case by (simp add: ascii_def scan_str_escape)
qed

lemma scan_json_str: "ascii s \<Longrightarrow> json_str s @ r = CHR 0x22 # t \<Longrightarrow> scan_str t = Some (s, r)"
  using scan_str_json [of s r] by (auto simp: json_str_def code_points_ascii)

section \<open>Integers\<close>

lemma digits_str_snoc: "digits_str n = (if n < 10 then [] else digits_str (n div 10)) @ [digit_char n]"
  by (simp add: digits_str.simps [of n])

lemma digits_str_digits: "list_all (\<lambda>c. dig c \<noteq> None) (digits_str n)"
proof (induction n rule: digits_str.induct)
  case (1 n)
  then show ?case by (subst digits_str_snoc) auto
qed

lemma digits_from_digits_str: "0 \<le> n \<Longrightarrow> digits_from 0 (digits_str n) = Some n"
proof (induction n rule: digits_str.induct)
  case (1 n)
  show ?case
  proof (cases "n < 10")
    case True
    then show ?thesis using 1 by (simp add: digits_str.simps [of n])
  next
    case False
    then show ?thesis using 1 by (subst digits_str_snoc) (simp add: digits_from_append)
  qed
qed

lemma digits_str_head: "0 \<le> n \<Longrightarrow> \<exists>d t. digits_str n = digit_char d # t \<and> 0 \<le> d \<and> d < 10 \<and> (d = 0 \<longrightarrow> n = 0 \<and> t = [])"
proof (induction n rule: digits_str.induct)
  case (1 n)
  show ?case
  proof (cases "n < 10")
    case True
    then show ?thesis using 1 by (intro exI [of _ n]) (simp add: digits_str.simps [of n])
  next
    case False
    then have "0 \<le> n div 10"
      by simp
    then obtain d t where "digits_str (n div 10) = digit_char d # t" "0 \<le> d" "d < 10" "d = 0 \<longrightarrow> n div 10 = 0"
      using "1.IH" [OF False] by blast
    moreover have "n div 10 \<noteq> 0"
      using False by simp
    ultimately show ?thesis
      using False by (subst digits_str_snoc) auto
  qed
qed

text \<open>What may follow a value inside a text: nothing, or a character that no number continues with.\<close>

definition follows :: "string \<Rightarrow> bool" where
  "follows r \<longleftrightarrow> r = [] \<or> hd r \<in> {CHR '','', CHR ''}'', CHR '']''}"

lemma span_digits_str: "follows r \<Longrightarrow> span_digits (digits_str n @ r) = (digits_str n, r)"
proof -
  assume r: "follows r"
  have "takeWhile (\<lambda>c. dig c \<noteq> None) r = []" and "dropWhile (\<lambda>c. dig c \<noteq> None) r = r"
    using r by (cases r; auto simp: follows_def dig_def byte_def)+
  then show ?thesis
    using digits_str_digits [of n]
    by (simp add: span_digits_def takeWhile_append dropWhile_append list_all_iff)
qed


lemma digits_val_str: "0 \<le> n \<Longrightarrow> digits_val (digits_str n) = n"
  by (simp add: digits_val_def digits_from_digits_str)

lemma scan_frac_follows: "follows r \<Longrightarrow> scan_frac r = None" and scan_exp_follows: "follows r \<Longrightarrow> scan_exp r = None"
  by (auto simp: follows_def scan_frac_def scan_exp_def split: list.splits)

lemma char_at_0 [simp]: "char_at (c # s) 0 x = (c = x)"
  by (simp add: char_at_def)

lemma digit_char_distinct [simp]: "digit_char d \<noteq> CHR ''-''" "digit_char d \<noteq> CHR ''n''" "digit_char d \<noteq> CHR ''t''"
  "digit_char d \<noteq> CHR ''f''" "digit_char d \<noteq> CHR ''N''" "digit_char d \<noteq> CHR ''I''" "digit_char d \<noteq> CHR 0x22"
  "digit_char d \<noteq> CHR ''{''" "digit_char d \<noteq> CHR ''[''"
  by (rule digit_char_neq; simp add: byte_def)+

lemmas digit_char_distinct' [simp] = digit_char_distinct [THEN not_sym]

lemma digit_char_0: "digit_char 0 = CHR ''0''"
  by code_simp

lemma digit_char_0_iff: "0 \<le> d \<Longrightarrow> d < 10 \<Longrightarrow> digit_char d = CHR ''0'' \<longleftrightarrow> d = 0"
  using digit_char_eq_iff [of d 0] by (simp add: digit_char_0)

lemma scan_unsigned:
  assumes n: "0 \<le> n" and len: "length (digits_str n) \<le> MAX_INT_DIGITS" and r: "follows r"
  shows "(let (all_ds, _) = span_digits (digits_str n @ r);
            ds = (if char_at (digits_str n @ r) 0 CHR ''0'' then ''0'' else all_ds);
            r' = drop (length ds) (digits_str n @ r) in (ds, r')) = (digits_str n, r)"
proof -
  obtain d t where d: "digits_str n = digit_char d # t" "0 \<le> d" "d < 10" "d = 0 \<longrightarrow> n = 0 \<and> t = []"
    using digits_str_head [OF n] by blast
  show ?thesis
  proof (cases "d = 0")
    case True
    then have "digits_str n = ''0''"
      using d digit_char_0_iff [of d] by simp
    then show ?thesis
      using span_digits_str [OF r, of n] by (simp add: Let_def)
  next
    case False
    then have "\<not> char_at (digits_str n @ r) 0 CHR ''0''"
      using d digit_char_0_iff [of d] by simp
    then show ?thesis
      by (simp add: span_digits_str [OF r] Let_def)
  qed
qed

definition int_fits :: "int \<Rightarrow> bool" where
  "int_fits i \<longleftrightarrow> length (digits_str \<bar>i\<bar>) \<le> MAX_INT_DIGITS"

lemma scan_number_int:
  assumes "int_fits i" and r: "follows r"
  shows "scan_number (int_str i @ r) = Some (JInt i, r)"
proof -
  let ?n = "\<bar>i\<bar>"
  obtain d t where d: "digits_str ?n = digit_char d # t"
    using digits_str_head [of ?n] by auto
  have u: "span_digits (digits_str ?n @ r) = (digits_str ?n, r)"
    by (rule span_digits_str [OF r])
  have ds: "(if char_at (digits_str ?n @ r) 0 CHR ''0'' then ''0'' else digits_str ?n) = digits_str ?n"
    using scan_unsigned [of ?n r] assms by (auto simp: int_fits_def u Let_def split: if_splits)
  have neg: "char_at (int_str i @ r) 0 CHR ''-'' = (i < 0)"
    using d by (auto simp: int_str_def)
  have body: "(if i < 0 then drop 1 (int_str i @ r) else int_str i @ r) = digits_str ?n @ r"
    by (auto simp: int_str_def)
  have ne: "digits_str ?n \<noteq> []"
    using d by simp
  show ?thesis
    unfolding scan_number_def Let_def neg body u prod.case ds
    using assms ne by (simp add: scan_frac_follows scan_exp_follows digits_val_str int_fits_def)
qed

lemma scan_lit_int:
  assumes "int_fits i" and r: "follows r"
  shows "scan_lit (int_str i @ r) = Some (JInt i, r)"
proof -
  obtain d t where d: "digits_str \<bar>i\<bar> = digit_char d # t"
    using digits_str_head [of "\<bar>i\<bar>"] by auto
  define T where "T = int_str i @ r"
  have "T = (if i < 0 then CHR ''-'' # digit_char d # t @ r else digit_char d # t @ r)"
    using d by (auto simp: T_def int_str_def)
  then have "\<not> prefix ''null'' T" "\<not> prefix ''true'' T" "\<not> prefix ''false'' T"
    "\<not> prefix ''NaN'' T" "\<not> prefix ''Infinity'' T" "\<not> prefix ''-Infinity'' T"
    by (simp_all split: if_splits)
  then show ?thesis
    using scan_number_int [OF assms] by (simp add: scan_lit_def T_def)
qed

section \<open>Values\<close>

fun plain_json :: "json \<Rightarrow> bool" where
  "plain_json JNull = True"
| "plain_json (JBool b) = True"
| "plain_json (JInt i) = int_fits i"
| "plain_json (JFloat f) = False"
| "plain_json (JStr s) = ascii s"
| "plain_json (JList xs) = list_all plain_json xs"
| "plain_json (JObj d) = (distinct (map fst d) \<and> list_all (\<lambda>p. ascii (fst p) \<and> plain_json (snd p)) d)"

lemma fold_dict_set:
  "distinct (map fst acc @ map fst ps) \<Longrightarrow> fold (\<lambda>(k, v) d. dict_set d k v) ps acc = acc @ ps"
proof (induction ps arbitrary: acc)
  case (Cons p ps)
  have new: "k \<notin> fst ` set acc \<Longrightarrow> dict_set acc k v = acc @ [(k, v)]" for k v
    by (induction acc) auto
  show ?case
    using Cons.prems Cons.IH [of "acc @ [p]"] new [of "fst p" "snd p"] by (cases p) auto
qed simp

definition value_head :: "char \<Rightarrow> bool" where
  "value_head c \<longleftrightarrow> \<not> is_ws c \<and> c \<noteq> CHR '']'' \<and> c \<noteq> CHR ''}''"

lemma ws_chars [simp]:
  "\<not> is_ws CHR 0x22" "\<not> is_ws CHR ''{''" "\<not> is_ws CHR ''[''" "\<not> is_ws CHR '']''" "\<not> is_ws CHR ''}''"
  "\<not> is_ws CHR '',''" "\<not> is_ws CHR '':''" "\<not> is_ws CHR ''n''" "\<not> is_ws CHR ''t''" "\<not> is_ws CHR ''f''" "\<not> is_ws CHR ''-''"
  by (simp_all add: is_ws_def byte_def)

lemma digit_char_not_ws [simp]: "\<not> is_ws (digit_char d)"
  using byte_digit_range [of d] by (auto simp: is_ws_def)

lemma digit_char_brackets [simp]: "digit_char d \<noteq> CHR '']''" "digit_char d \<noteq> CHR ''}''"
  by (rule digit_char_neq; simp add: byte_def)+

lemma skip_ws_id: "\<not> is_ws c \<Longrightarrow> skip_ws (c # s) = c # s"
  by (simp add: skip_ws_def)

text \<open>\<^verbatim>\<open>json.dumps\<close> with text after each comma and colon; with the default separators it is a blank.\<close>

fun dumps_sep :: "string \<Rightarrow> json \<Rightarrow> string" where
  "dumps_sep sp (JList xs) = ''['' @ join (CHR '','' # sp) (map (dumps_sep sp) xs) @ '']''"
| "dumps_sep sp (JObj d) =
     ''{'' @ join (CHR '','' # sp) (map (\<lambda>(k, v). json_str k @ CHR '':'' # sp @ dumps_sep sp v) d) @ ''}''"
| "dumps_sep sp j = dumps j"

definition dumps_spaced :: "json \<Rightarrow> string" where
  "dumps_spaced = dumps_sep '' ''"

lemma skip_ws_spaces: "list_all is_ws sp \<Longrightarrow> skip_ws (sp @ s) = skip_ws s"
  by (induction sp) (simp_all add: skip_ws_def)

lemma dumps_sep_Nil: "dumps_sep [] j = dumps j"
proof (induction j)
  case (JList xs)
  then have "map (dumps_sep []) xs = map dumps xs"
    by simp
  then show ?case
    by (simp only: dumps_sep.simps dumps.simps)
next
  case (JObj d)
  then have "map (\<lambda>(k, v). json_str k @ CHR '':'' # [] @ dumps_sep [] v) d = map (\<lambda>(k, v). json_str k @ '':'' @ dumps v) d"
    by (auto simp: prod_set_simps intro: snds.intros)
  then show ?case
    by (simp only: dumps_sep.simps dumps.simps append.simps)
qed simp_all

lemma int_str_head: "\<exists>c t. int_str i = c # t \<and> (c = CHR ''-'' \<or> (\<exists>d. c = digit_char d))"
  using digits_str_head [of "\<bar>i\<bar>"] by (auto simp: int_str_def)

lemma dumps_head: "plain_json j \<Longrightarrow> \<exists>c t. dumps_sep sp j = c # t \<and> value_head c"
proof (cases j)
  case (JInt i)
  then show ?thesis using int_str_head [of i] by (auto simp: value_head_def)
qed (auto simp: value_head_def json_str_def)

lemma follows_simps [simp]: "follows []" "follows (CHR '','' # r)" "follows (CHR ''}'' # r)" "follows (CHR '']'' # r)"
  by (simp_all add: follows_def)

lemma parse_int: "int_fits i \<Longrightarrow> follows r \<Longrightarrow> parse_value (Suc n) (int_str i @ r) = Some (JInt i, r)"
  using int_str_head [of i] scan_lit_int [of i r] by (auto split: list.splits)

lemma parse_str: "ascii s \<Longrightarrow> parse_value (Suc n) (json_str s @ r) = Some (JStr s, r)"
  using scan_str_json [of s r] by (simp add: json_str_def code_points_ascii)

abbreviation pair_str :: "string \<Rightarrow> string \<times> json \<Rightarrow> string" where
  "pair_str sp p \<equiv> json_str (fst p) @ CHR '':'' # sp @ dumps_sep sp (snd p)"

lemma length_json_str: "2 \<le> length (json_str s)"
  by (simp add: json_str_def)

lemma dumps_obj: "dumps_sep sp (JObj d) = ''{'' @ join (CHR '','' # sp) (map (pair_str sp) d) @ ''}''"
  by (simp add: case_prod_unfold)

lemma parse_elems_join:
  assumes sp: "list_all is_ws sp" and "xs \<noteq> []"
    and "\<And>x n r. x \<in> set xs \<Longrightarrow> length (dumps_sep sp x) \<le> n \<Longrightarrow> follows r \<Longrightarrow> parse_value n (dumps_sep sp x @ r) = Some (x, r)"
    and "list_all plain_json xs" and "length (join (CHR '','' # sp) (map (dumps_sep sp) xs)) < n"
  shows "parse_elems n (join (CHR '','' # sp) (map (dumps_sep sp) xs) @ '']'' @ r) = Some (xs, r)"
  using assms(2-)
proof (induction xs arbitrary: n)
  case (Cons x xs)
  obtain m where n: "n = Suc m" using Cons.prems(4) by (cases n) auto
  show ?case
  proof (cases xs)
    case Nil
    have "parse_value m (dumps_sep sp x @ CHR '']'' # r) = Some (x, CHR '']'' # r)"
      using Cons.prems Nil n by (intro Cons.prems(2)) auto
    then show ?thesis
      using Nil n by (simp add: skip_ws_id)
  next
    case (Cons y ys)
    let ?rest = "join (CHR '','' # sp) (map (dumps_sep sp) xs) @ '']'' @ r"
    have j: "join (CHR '','' # sp) (map (dumps_sep sp) (x # xs)) = dumps_sep sp x @ CHR '','' # sp @ join (CHR '','' # sp) (map (dumps_sep sp) xs)"
      using Cons by simp
    have v: "parse_value m (dumps_sep sp x @ CHR '','' # sp @ ?rest) = Some (x, CHR '','' # sp @ ?rest)"
      using Cons.prems n j by (intro Cons.prems(2)) auto
    have tail: "parse_elems m ?rest = Some (xs, r)"
      using Cons Cons.prems n j by (intro Cons.IH) auto
    obtain c t where "dumps_sep sp y = c # t" "value_head c"
      using Cons.prems(3) Cons dumps_head [of y sp] by auto
    then have "skip_ws ?rest = ?rest"
      using Cons by (cases ys) (auto simp: skip_ws_id value_head_def)
    moreover have "join (CHR '','' # sp) (map (dumps_sep sp) (x # xs)) @ '']'' @ r = dumps_sep sp x @ CHR '','' # sp @ ?rest"
      unfolding j by simp
    ultimately show ?thesis
      unfolding n using v tail by (simp add: skip_ws_id skip_ws_spaces [OF sp] del: list.map join.simps)
  qed
qed simp

lemma parse_members_join:
  assumes sp: "list_all is_ws sp" and "ps \<noteq> []"
    and "\<And>p n r. p \<in> set ps \<Longrightarrow> length (dumps_sep sp (snd p)) \<le> n \<Longrightarrow> follows r
       \<Longrightarrow> parse_value n (dumps_sep sp (snd p) @ r) = Some (snd p, r)"
    and "list_all (\<lambda>p. ascii (fst p) \<and> plain_json (snd p)) ps"
    and "length (join (CHR '','' # sp) (map (pair_str sp) ps)) < n"
  shows "parse_members n (join (CHR '','' # sp) (map (pair_str sp) ps) @ ''}'' @ r) = Some (ps, r)"
  using assms(2-)
proof (induction ps arbitrary: n)
  case (Cons p ps)
  obtain m where n: "n = Suc m" using Cons.prems(4) by (cases n) auto
  obtain c t where vt: "dumps_sep sp (snd p) = c # t" "value_head c"
    using Cons.prems(3) dumps_head [of "snd p" sp] by auto
  have key: "scan_str (tl (json_str (fst p)) @ s) = Some (fst p, s)" for s
    using Cons.prems(3) scan_str_json [of "fst p" s] by (simp add: json_str_def code_points_ascii)
  have quote: "json_str (fst p) = CHR 0x22 # tl (json_str (fst p))"
    by (simp add: json_str_def)
  have step: "parse_members n (pair_str sp p @ s) =
      (case parse_value m (dumps_sep sp (snd p) @ s) of None \<Rightarrow> None | Some (v, r2) \<Rightarrow>
          let r3 = skip_ws r2 in
          if char_at r3 0 CHR ''}'' then Some ([(fst p, v)], drop 1 r3)
          else if char_at r3 0 CHR '','' then
            map_option (\<lambda>(ps, r'). ((fst p, v) # ps, r')) (parse_members m (skip_ws (drop 1 r3)))
          else None)" for s
    using vt by (subst quote) (simp add: n key skip_ws_id skip_ws_spaces [OF sp] value_head_def)
  show ?case
  proof (cases ps)
    case Nil
    have "parse_value m (dumps_sep sp (snd p) @ CHR ''}'' # r) = Some (snd p, CHR ''}'' # r)"
      using Cons.prems Nil n length_json_str [of "fst p"] by (intro Cons.prems(2)) auto
    moreover have "join (CHR '','' # sp) (map (pair_str sp) (p # ps)) @ ''}'' @ r = pair_str sp p @ CHR ''}'' # r"
      using Nil by simp
    ultimately show ?thesis
      using Nil step [of "CHR ''}'' # r"] by (simp add: skip_ws_id)
  next
    case (Cons q qs)
    let ?rest = "join (CHR '','' # sp) (map (pair_str sp) ps) @ ''}'' @ r"
    have j: "join (CHR '','' # sp) (map (pair_str sp) (p # ps)) = pair_str sp p @ CHR '','' # sp @ join (CHR '','' # sp) (map (pair_str sp) ps)"
      using Cons by simp
    have v: "parse_value m (dumps_sep sp (snd p) @ CHR '','' # sp @ ?rest) = Some (snd p, CHR '','' # sp @ ?rest)"
      using Cons.prems n j length_json_str [of "fst p"] by (intro Cons.prems(2)) auto
    have tail: "parse_members m ?rest = Some (ps, r)"
      using Cons Cons.prems n j by (intro Cons.IH) auto
    have "skip_ws ?rest = ?rest"
      using Cons by (cases qs) (auto simp: skip_ws_id json_str_def)
    moreover have "join (CHR '','' # sp) (map (pair_str sp) (p # ps)) @ ''}'' @ r = pair_str sp p @ CHR '','' # sp @ ?rest"
      unfolding j by simp
    ultimately show ?thesis
      using v tail step [of "CHR '','' # sp @ ?rest"] by (simp add: skip_ws_id skip_ws_spaces [OF sp] del: list.map join.simps)
  qed
qed simp

lemma parse_dumps:
  assumes sp: "list_all is_ws sp"
  shows "plain_json j \<Longrightarrow> length (dumps_sep sp j) \<le> n \<Longrightarrow> follows r \<Longrightarrow> parse_value n (dumps_sep sp j @ r) = Some (j, r)"
proof (induction j arbitrary: n r)
  case (JInt i)
  then show ?case using int_str_head [of i] by (cases n) (auto simp del: parse_value.simps intro: parse_int)
next
  case (JStr s)
  then show ?case
    using length_json_str [of s] by (cases n) (auto simp del: parse_value.simps intro: parse_str)
next
  case (JList xs)
  then obtain m where n: "n = Suc m" by (cases n) auto
  show ?case
  proof (cases xs)
    case (Cons y ys)
    let ?in = "join (CHR '','' # sp) (map (dumps_sep sp) xs) @ '']'' @ r"
    have "parse_elems m ?in = Some (xs, r)"
      using Cons JList n by (intro parse_elems_join sp) (auto simp: list_all_iff)
    moreover obtain c t where "dumps_sep sp y = c # t" "value_head c"
      using JList.prems(1) Cons dumps_head [of y sp] by auto
    then have "skip_ws ?in = ?in" "\<not> char_at ?in 0 CHR '']''"
      using Cons by (cases ys; auto simp: skip_ws_id value_head_def)+
    ultimately show ?thesis
      using n by simp
  qed (simp add: n skip_ws_id)
next
  case (JObj ps)
  then obtain m where n: "n = Suc m" by (cases n) auto
  show ?case
  proof (cases ps)
    case (Cons q qs)
    let ?in = "join (CHR '','' # sp) (map (pair_str sp) ps) @ ''}'' @ r"
    have elem: "parse_value k (dumps_sep sp (snd p) @ s) = Some (snd p, s)"
      if "p \<in> set ps" "length (dumps_sep sp (snd p)) \<le> k" "follows s" for p k s
      by (rule JObj.IH [OF that(1)])
        (use that JObj.prems(1) in \<open>auto simp: list_all_iff prod_set_simps intro: snds.intros\<close>)
    have "parse_members m ?in = Some (ps, r)"
      using Cons JObj.prems n elem
      by (intro parse_members_join sp) (simp_all add: dumps_obj del: dumps_sep.simps)
    moreover have "skip_ws ?in = ?in" "\<not> char_at ?in 0 CHR ''}''"
      using Cons by (cases qs; auto simp: skip_ws_id json_str_def)+
    moreover have "fold (\<lambda>(k, v) d. dict_set d k v) ps [] = ps"
      using JObj.prems(1) by (subst fold_dict_set) simp_all
    ultimately show ?thesis
      unfolding dumps_obj n by simp
  qed (simp add: n skip_ws_id)
next
  case JNull
  then show ?case by (cases n) (simp_all add: scan_lit_def)
next
  case (JBool b)
  then show ?case by (cases n; cases b) (simp_all add: scan_lit_def)
qed simp

lemma loads_dumps_sep:
  assumes "list_all is_ws sp" and j: "plain_json j"
  shows "loads (dumps_sep sp j) = Some j"
proof -
  obtain c t where "dumps_sep sp j = c # t" "\<not> is_ws c"
    using dumps_head [OF j, of sp] by (auto simp: value_head_def)
  then have "skip_ws (dumps_sep sp j) = dumps_sep sp j"
    by (simp add: skip_ws_id)
  then show ?thesis
    using parse_dumps [OF assms, of "2 * length (dumps_sep sp j) + 2" "[]"] by (simp add: loads_def skip_ws_def)
qed

lemma loads_dumps: "plain_json j \<Longrightarrow> loads (dumps j) = Some j"
  using loads_dumps_sep [of "[]" j] by (simp add: dumps_sep_Nil)

lemma loads_dumps_spaced: "plain_json j \<Longrightarrow> loads (dumps_spaced j) = Some j"
  unfolding dumps_spaced_def by (rule loads_dumps_sep) (simp_all add: is_ws_def byte_def)

end
