(* ===== verification/KeyLimits.thy ===== *)
theory KeyLimits
  imports JsonRoundtrip
begin

text \<open>
  Per-key limits and audit flags (\<^verbatim>\<open>services/apim_provisioner.py\<close>): one APIM named value
  holds a JSON map from subscription id to \<^verbatim>\<open>{t, qt, p, a}\<close>.  The pure merge functions come
  first, then the read-merge-write loops with their retry on a failed precondition.

  The named value itself is the record \<^verbatim>\<open>nv_svc\<close>: get returns the value and its ETag, put
  takes the text and the \<^verbatim>\<open>If-Match\<close> value.  \<^verbatim>\<open>key_entry\<close> is the abstract view of an entry;
  each merge function is an update of that view at the keys it names.  The locale
  \<^verbatim>\<open>entry_update\<close> is what the loops need of a merge function.
\<close>

section \<open>Merging\<close>

definition KEY_LIMITS_MAX_BYTES :: nat where
  "KEY_LIMITS_MAX_BYTES = 4000"

definition over_cap :: "nat \<Rightarrow> exn" where
  "over_cap n = ValueError (''per-key limits map would exceed 4000 bytes ('' @ int_str (int n) @ '')'')"

definition capped :: "jdict \<Rightarrow> exn + jdict" where
  "capped out = (let serialized = dumps (JObj out) in
     if KEY_LIMITS_MAX_BYTES < length serialized then Inl (over_cap (length serialized)) else Inr out)"

text \<open>\<^verbatim>\<open>if entry: out[k] = entry  else: out.pop(k, None)\<close>.\<close>

definition put_entry :: "jdict \<Rightarrow> string \<Rightarrow> jdict \<Rightarrow> jdict" where
  "put_entry out k entry = (if entry \<noteq> [] then dict_set out k (JObj entry) else dict_del out k)"

definition limit_entry :: "int option \<Rightarrow> string option \<Rightarrow> string option \<Rightarrow> jdict" where
  "limit_entry tpm quota_tier period =
     (case tpm of None \<Rightarrow> [] | Some t \<Rightarrow> [(''t'', JInt t)])
     @ (case quota_tier of None \<Rightarrow> [] | Some q \<Rightarrow> if q \<noteq> ''none'' then [(''qt'', JStr q)] else [])
     @ (case period of None \<Rightarrow> [] | Some p \<Rightarrow> [(''p'', JStr p)])"

definition merge_key_limit ::
  "jdict \<Rightarrow> string \<Rightarrow> int option \<Rightarrow> string option \<Rightarrow> string option \<Rightarrow> exn + jdict" where
  "merge_key_limit mapping sub_id tpm quota_tier period =
     (let entry = limit_entry tpm quota_tier period;
          entry' = (case dict_get mapping sub_id of
                      Some (JObj prior) \<Rightarrow>
                        if truthy (jget prior ''a'') then dict_set entry ''a'' (jget prior ''a'') else entry
                    | _ \<Rightarrow> entry)
      in capped (put_entry mapping sub_id entry'))"

text \<open>\<^verbatim>\<open>dict(x or {})\<close>: of an object its copy, of a falsy value the empty dictionary; any
  other number or bool is not iterable and a text is not a sequence of pairs.  Of a list, only
  one whose first item is no pair is modelled (the code never stores a list in the map).\<close>

definition dict_or_empty :: "json \<Rightarrow> exn + jdict" where
  "dict_or_empty v =
     (if \<not> truthy v then Inr []
      else case v of
        JObj d \<Rightarrow> Inr d
      | JStr _ \<Rightarrow> Inl (ValueError ''dictionary update sequence element #0 has length 1; 2 is required'')
      | JList _ \<Rightarrow> Inl (TypeError ''cannot convert dictionary update sequence element #0 to a sequence'')
      | _ \<Rightarrow> Inl (TypeError ''object is not iterable''))"

fun flag_entries :: "jdict \<Rightarrow> string list \<Rightarrow> bool \<Rightarrow> exn + jdict" where
  "flag_entries out [] enabled = Inr out"
| "flag_entries out (sub_id # sub_ids) enabled =
     (case dict_or_empty (jget out sub_id) of
        Inl e \<Rightarrow> Inl e
      | Inr d \<Rightarrow>
          flag_entries
            (put_entry out sub_id (if enabled then dict_set d ''a'' (JInt 1) else dict_del d ''a''))
            sub_ids enabled)"

definition merge_audit_flag :: "jdict \<Rightarrow> string list \<Rightarrow> bool \<Rightarrow> exn + jdict" where
  "merge_audit_flag mapping sub_ids enabled =
     (case flag_entries mapping sub_ids enabled of Inl e \<Rightarrow> Inl e | Inr out \<Rightarrow> capped out)"

definition remove_key_limit :: "jdict \<Rightarrow> string \<Rightarrow> jdict" where
  "remove_key_limit mapping sub_id = dict_del mapping sub_id"

section \<open>Equality of decoded values\<close>

text \<open>Python's \<^verbatim>\<open>==\<close>: bools, ints and floats compare as numbers, objects without order.  (A
  NaN equals itself here: the operands of the code's comparison share their untouched values,
  and containers compare identical items as equal.)\<close>

fun num_value :: "json \<Rightarrow> pyfloat option" where
  "num_value (JBool b) = Some (FFin (if b then 1 else 0))"
| "num_value (JInt i) = Some (FFin (of_int i))"
| "num_value (JFloat f) = Some f"
| "num_value _ = None"

lemma json_size_item: "x \<in> set xs \<Longrightarrow> size x < Suc (size_list size xs)"
  by (induction xs) auto

lemma json_size_field: "(k, v) \<in> set d \<Longrightarrow> size v < Suc (size_list (size_prod (\<lambda>x. 0) size) d)"
  by (induction d) auto

function json_eq :: "json \<Rightarrow> json \<Rightarrow> bool" where
  "json_eq a b =
     (case (a, b) of
        (JList xs, JList ys) \<Rightarrow> length xs = length ys \<and> list_all (\<lambda>(x, y). json_eq x y) (zip xs ys)
      | (JObj d, JObj e) \<Rightarrow>
          length d = length e
          \<and> list_all (\<lambda>(k, v). case dict_get e k of None \<Rightarrow> False | Some w \<Rightarrow> json_eq v w) d
      | (JNull, JNull) \<Rightarrow> True
      | (JStr s, JStr t) \<Rightarrow> s = t
      | _ \<Rightarrow> num_value a \<noteq> None \<and> num_value a = num_value b)"
  by pat_completeness auto
termination
  by (relation "measure (\<lambda>(a, b). size a)")
    (auto dest!: set_zip_leftD simp: json_size_item json_size_field)

declare json_eq.simps [simp del]

section \<open>The named value\<close>

record 'w nv_svc =
  nv_get :: "('w, string option \<times> string option) eff"
  nv_put :: "string \<Rightarrow> string \<Rightarrow> ('w, unit) eff"

definition decode_limits :: "string option \<Rightarrow> jdict" where
  "decode_limits value =
     (case value of None \<Rightarrow> [] | Some s \<Rightarrow>
        if s = [] then [] else (case loads s of Some (JObj d) \<Rightarrow> d | _ \<Rightarrow> []))"

definition read_key_limits :: "'w nv_svc \<Rightarrow> ('w, jdict \<times> string option) eff" where
  "read_key_limits svc =
     catch_exn (bnd (nv_get svc) (\<lambda>nv. ret (decode_limits (fst nv), snd nv)))
       (\<lambda>e. if is_resource_not_found e then ret ([], None) else raise e)"

definition write_key_limits :: "'w nv_svc \<Rightarrow> jdict \<Rightarrow> string option \<Rightarrow> ('w, unit) eff" where
  "write_key_limits svc mapping etag =
     nv_put svc (dumps (JObj mapping)) (if opt_true etag then opt_or_empty etag else ''*'')"

definition ensure_key_limits_nv :: "'w nv_svc \<Rightarrow> ('w, unit) eff" where
  "ensure_key_limits_nv svc =
     bnd (catch_exn (bnd (nv_get svc) (\<lambda>_. ret True))
            (\<lambda>e. if is_resource_not_found e then ret False else raise e))
       (\<lambda>found. if found then ret () else write_key_limits svc [] None)"

text \<open>\<^verbatim>\<open>for attempt in range(3)\<close>: read, merge (an exception escapes, \<^verbatim>\<open>None\<close> returns at once),
  write; a 412 is retried while attempts are left.  The three operations share this loop.\<close>

fun nv_loop :: "nat \<Rightarrow> 'w nv_svc \<Rightarrow> (jdict \<Rightarrow> exn + jdict option) \<Rightarrow> ('w, unit) eff" where
  "nv_loop 0 svc upd = ret ()"
| "nv_loop (Suc attempts) svc upd =
     bnd (read_key_limits svc) (\<lambda>(current, etag).
     bnd (lift_sum (upd current)) (\<lambda>next.
     case next of
       None \<Rightarrow> ret ()
     | Some merged \<Rightarrow>
         catch_exn (write_key_limits svc merged etag)
           (\<lambda>e. if is_http_response_error e \<and> exn_status_code e = Some 412 \<and> attempts \<noteq> 0
                then nv_loop attempts svc upd else raise e)))"

definition limit_update :: "string \<Rightarrow> int option \<Rightarrow> string option \<Rightarrow> string option \<Rightarrow> jdict \<Rightarrow> exn + jdict option" where
  "limit_update sub_id tpm tier period current =
     (case merge_key_limit current sub_id tpm tier period of Inl e \<Rightarrow> Inl e | Inr m \<Rightarrow> Inr (Some m))"

definition upsert_key_limits ::
  "'w nv_svc \<Rightarrow> string \<Rightarrow> int option \<Rightarrow> string option \<Rightarrow> string option \<Rightarrow> ('w, unit) eff" where
  "upsert_key_limits svc sub_id tpm tier period = nv_loop 3 svc (limit_update sub_id tpm tier period)"

definition audit_update :: "string list \<Rightarrow> bool \<Rightarrow> jdict \<Rightarrow> exn + jdict option" where
  "audit_update sub_ids enabled current =
     (case merge_audit_flag current sub_ids enabled of
        Inl e \<Rightarrow> Inl e
      | Inr merged \<Rightarrow> Inr (if json_eq (JObj merged) (JObj current) then None else Some merged))"

definition set_audit_flag :: "'w nv_svc \<Rightarrow> string list \<Rightarrow> bool \<Rightarrow> ('w, unit) eff" where
  "set_audit_flag svc sub_ids enabled =
     (if sub_ids = [] then ret () else nv_loop 3 svc (audit_update sub_ids enabled))"

definition removal_update :: "string \<Rightarrow> jdict \<Rightarrow> exn + jdict option" where
  "removal_update sub_id current =
     Inr (if dict_get current sub_id = None then None else Some (remove_key_limit current sub_id))"

definition remove_key_limits :: "'w nv_svc \<Rightarrow> string \<Rightarrow> ('w, unit) eff" where
  "remove_key_limits svc sub_id = nv_loop 3 svc (removal_update sub_id)"

section \<open>The abstract view\<close>

record key_entry =
  lim_tpm :: "json option"
  lim_tier :: "json option"
  lim_period :: "json option"
  lim_audit :: bool

definition entry_at :: "jdict \<Rightarrow> string \<Rightarrow> jdict" where
  "entry_at m k = (case dict_get m k of Some (JObj d) \<Rightarrow> d | _ \<Rightarrow> [])"

definition view :: "jdict \<Rightarrow> string \<Rightarrow> key_entry" where
  "view m k = (let d = entry_at m k in
     \<lparr>lim_tpm = dict_get d ''t'', lim_tier = dict_get d ''qt'', lim_period = dict_get d ''p'',
      lim_audit = truthy (jget d ''a'')\<rparr>)"

definition no_entry :: key_entry where
  "no_entry = \<lparr>lim_tpm = None, lim_tier = None, lim_period = None, lim_audit = False\<rparr>"

lemma capped_Inr: "capped out = Inr m \<Longrightarrow> m = out \<and> length (dumps (JObj m)) \<le> KEY_LIMITS_MAX_BYTES"
  by (auto simp: capped_def Let_def split: if_splits)

lemma entry_at_put:
  "dict_ok m \<Longrightarrow> entry_at (put_entry m k d) k' = (if k' = k then d else entry_at m k')"
  by (simp add: entry_at_def put_entry_def dict_simps)

lemma dict_ok_put_entry: "dict_ok m \<Longrightarrow> dict_ok (put_entry m k d)"
  by (simp add: put_entry_def dict_ok_set dict_ok_del)

lemma dict_get_put_entry_other: "dict_ok m \<Longrightarrow> k' \<noteq> k \<Longrightarrow> dict_get (put_entry m k d) k' = dict_get m k'"
  by (simp add: put_entry_def dict_simps)

lemma view_put_other: "dict_ok m \<Longrightarrow> k' \<noteq> k \<Longrightarrow> view (put_entry m k d) k' = view m k'"
  by (simp add: view_def entry_at_put)

lemma merge_key_limit_Inr:
  assumes "merge_key_limit m k tpm tier period = Inr m'"
  obtains d where "m' = put_entry m k d" and "length (dumps (JObj m')) \<le> KEY_LIMITS_MAX_BYTES"
    and "d = limit_entry tpm tier period
       \<or> d = dict_set (limit_entry tpm tier period) ''a'' (jget (entry_at m k) ''a'')"
    and "truthy (jget d ''a'') = truthy (jget (entry_at m k) ''a'')"
proof -
  let ?e = "limit_entry tpm tier period"
  have no_a: "jget ?e ''a'' = JNull"
    by (auto simp: limit_entry_def split: option.splits)
  show ?thesis
    using assms that no_a
    by (auto simp: merge_key_limit_def entry_at_def Let_def dest!: capped_Inr split: option.splits json.splits if_splits)
qed

lemma limit_entry_fields:
  "dict_get (limit_entry tpm tier period) ''t'' = map_option JInt tpm"
  "dict_get (limit_entry tpm tier period) ''qt'' = (if tier = Some ''none'' then None else map_option JStr tier)"
  "dict_get (limit_entry tpm tier period) ''p'' = map_option JStr period"
  by (auto simp: limit_entry_def split: option.splits)

text \<open>A limits update is an update of the view at its key: the limits given, the audit flag kept.\<close>

definition set_limits :: "int option \<Rightarrow> string option \<Rightarrow> string option \<Rightarrow> key_entry \<Rightarrow> key_entry" where
  "set_limits tpm tier period x =
     \<lparr>lim_tpm = map_option JInt tpm,
      lim_tier = (if tier = Some ''none'' then None else map_option JStr tier),
      lim_period = map_option JStr period, lim_audit = lim_audit x\<rparr>"

lemma view_merge_key_limit:
  assumes "dict_ok m" and "merge_key_limit m k tpm tier period = Inr m'"
  shows "view m' = (view m)(k := set_limits tpm tier period (view m k))"
proof
  fix x
  from assms(2) obtain d where m': "m' = put_entry m k d"
    and d: "d = limit_entry tpm tier period
       \<or> d = dict_set (limit_entry tpm tier period) ''a'' (jget (entry_at m k) ''a'')"
    and a: "truthy (jget d ''a'') = truthy (jget (entry_at m k) ''a'')"
    by (rule merge_key_limit_Inr)
  have fields: "dict_get d ''t'' = map_option JInt tpm" "dict_get d ''p'' = map_option JStr period"
    "dict_get d ''qt'' = (if tier = Some ''none'' then None else map_option JStr tier)"
    using d by (elim disjE; simp only: limit_entry_fields dict_get_set; simp)+
  show "view m' x = ((view m)(k := set_limits tpm tier period (view m k))) x"
  proof (cases "x = k")
    case True
    then have "entry_at m' x = d"
      using assms(1) m' by (simp add: entry_at_put)
    then show ?thesis
      using True a fields by (simp add: view_def set_limits_def Let_def)
  qed (simp add: assms(1) m' view_put_other)
qed

lemma dict_or_empty_entry: "dict_or_empty (jget m k) = Inr d \<Longrightarrow> d = entry_at m k"
  by (auto simp: dict_or_empty_def entry_at_def jget_def split: if_splits option.splits json.splits)

definition entries_ok :: "jdict \<Rightarrow> bool" where
  "entries_ok m \<longleftrightarrow> dict_ok m \<and> (\<forall>k. dict_ok (entry_at m k))"

lemma entries_ok_put: "entries_ok m \<Longrightarrow> dict_ok d \<Longrightarrow> entries_ok (put_entry m k d)"
  by (simp add: entries_ok_def entry_at_put dict_ok_put_entry)

lemma flag_entries_view:
  "entries_ok m \<Longrightarrow> flag_entries m ks b = Inr m' \<Longrightarrow>
     entries_ok m' \<and> view m' = (\<lambda>k. if k \<in> set ks then (view m k)\<lparr>lim_audit := b\<rparr> else view m k)"
proof (induction ks arbitrary: m)
  case (Cons k ks)
  let ?d = "if b then dict_set (entry_at m k) ''a'' (JInt 1) else dict_del (entry_at m k) ''a''"
  have ok: "dict_ok (entry_at m k)"
    using Cons.prems by (simp add: entries_ok_def)
  then have ok1: "entries_ok (put_entry m k ?d)"
    using Cons.prems by (intro entries_ok_put) (simp_all add: dict_ok_set dict_ok_del)
  have rest: "flag_entries (put_entry m k ?d) ks b = Inr m'"
    using Cons.prems(2) by (auto split: sum.splits dest: dict_or_empty_entry)
  have "view (put_entry m k ?d) = (view m)(k := (view m k)\<lparr>lim_audit := b\<rparr>)"
  proof
    fix x
    show "view (put_entry m k ?d) x = ((view m)(k := (view m k)\<lparr>lim_audit := b\<rparr>)) x"
    proof (cases "x = k")
      case True
      then have "entry_at (put_entry m k ?d) x = ?d"
        using Cons.prems(1) by (simp add: entry_at_put entries_ok_def)
      then show ?thesis
        using True ok by (cases b) (simp_all add: view_def jget_def dict_simps Let_def)
    next
      case False
      then show ?thesis
        using Cons.prems(1) by (simp add: view_put_other entries_ok_def)
    qed
  qed
  then show ?case
    using Cons.IH [OF ok1 rest] by (auto simp: fun_eq_iff)
qed simp

lemma view_merge_audit_flag:
  assumes "entries_ok m" and "merge_audit_flag m ks b = Inr m'"
  shows "view m' = (\<lambda>k. if k \<in> set ks then (view m k)\<lparr>lim_audit := b\<rparr> else view m k)"
proof -
  obtain out where "flag_entries m ks b = Inr out" "m' = out"
    using assms(2) by (auto simp: merge_audit_flag_def dest: capped_Inr split: sum.splits)
  then show ?thesis
    using flag_entries_view [OF assms(1)] by simp
qed

lemma view_remove: "dict_ok m \<Longrightarrow> view (remove_key_limit m k) = (view m)(k := no_entry)"
  by (auto simp: fun_eq_iff view_def remove_key_limit_def entry_at_def dict_simps no_entry_def Let_def)

section \<open>Maps that survive their own text\<close>

definition plain_map :: "jdict \<Rightarrow> bool" where
  "plain_map m \<longleftrightarrow> dict_ok m \<and> (\<forall>p \<in> set m. ascii (fst p) \<and> plain_json (snd p))"

lemma plain_JObj [simp]: "plain_json (JObj m) = plain_map m"
  by (simp add: plain_map_def dict_ok_def list_all_iff)

declare plain_json.simps(7) [simp del]

lemma plain_map_ok: "plain_map m \<Longrightarrow> dict_ok m"
  by (simp add: plain_map_def)

lemma set_dict_set: "set (dict_set m k v) \<subseteq> insert (k, v) (set m)"
  by (induction m) auto

lemma plain_map_set: "plain_map m \<Longrightarrow> ascii k \<Longrightarrow> plain_json v \<Longrightarrow> plain_map (dict_set m k v)"
  using dict_ok_set [of m k v] set_dict_set [of m k v] by (auto simp: plain_map_def)

lemma set_dict_del: "set (dict_del m k) \<subseteq> set m"
  by (induction m) auto

lemma plain_map_del: "plain_map m \<Longrightarrow> plain_map (dict_del m k)"
  using dict_ok_del [of m k] set_dict_del [of m k] by (auto simp: plain_map_def)

lemma plain_map_Nil [simp]: "plain_map []"
  by (simp add: plain_map_def)

lemma plain_map_entry: "plain_map m \<Longrightarrow> dict_get m k = Some v \<Longrightarrow> plain_json v"
  by (auto simp: plain_map_def dest!: map_of_SomeD)

lemma plain_entry_at: "plain_map m \<Longrightarrow> plain_map (entry_at m k)"
  using plain_map_entry [of m k] by (auto simp: entry_at_def split: option.splits json.splits)

lemma plain_jget: "plain_map m \<Longrightarrow> plain_json (jget m k)"
  using plain_map_entry [of m k] by (auto simp: jget_def split: option.splits)

lemma plain_entries_ok: "plain_map m \<Longrightarrow> entries_ok m"
  using plain_entry_at [of m] by (auto simp: entries_ok_def plain_map_ok)

lemma plain_put_entry: "plain_map m \<Longrightarrow> ascii k \<Longrightarrow> plain_map d \<Longrightarrow> plain_map (put_entry m k d)"
  by (simp add: put_entry_def plain_map_set plain_map_del)

definition plain_limits :: "string \<Rightarrow> int option \<Rightarrow> string option \<Rightarrow> string option \<Rightarrow> bool" where
  "plain_limits k tpm tier period \<longleftrightarrow> ascii k \<and> (case tpm of None \<Rightarrow> True | Some t \<Rightarrow> int_fits t)
     \<and> ascii (opt_or_empty tier) \<and> ascii (opt_or_empty period)"

lemma ascii_letters [simp]: "ascii ''a''" "ascii ''t''" "ascii ''qt''" "ascii ''p''"
  by (simp_all add: ascii_def byte_def)

lemma plain_limit_entry: "plain_limits k tpm tier period \<Longrightarrow> plain_map (limit_entry tpm tier period)"
  by (auto simp: limit_entry_def plain_limits_def opt_or_empty_def plain_map_def dict_ok_def split: option.splits)

lemma plain_merge_key_limit:
  assumes "plain_limits k tpm tier period" and "plain_map m" and "merge_key_limit m k tpm tier period = Inr m'"
  shows "plain_map m'"
proof -
  from assms(3) obtain d where "m' = put_entry m k d"
    and "d = limit_entry tpm tier period
       \<or> d = dict_set (limit_entry tpm tier period) ''a'' (jget (entry_at m k) ''a'')"
    by (rule merge_key_limit_Inr)
  moreover have "plain_map (dict_set (limit_entry tpm tier period) ''a'' (jget (entry_at m k) ''a''))"
    using assms(1,2) by (intro plain_map_set plain_limit_entry plain_jget plain_entry_at) simp_all
  ultimately show ?thesis
    using assms plain_limit_entry [OF assms(1)] by (auto simp: plain_limits_def intro: plain_put_entry)
qed

lemma int_fits_1 [simp]: "int_fits 1"
  by code_simp

lemma plain_flag_entries:
  "plain_map m \<Longrightarrow> list_all ascii ks \<Longrightarrow> flag_entries m ks b = Inr m'
     \<Longrightarrow> plain_map m' \<and> (\<forall>k. k \<notin> set ks \<longrightarrow> dict_get m' k = dict_get m k)"
proof (induction ks arbitrary: m)
  case (Cons k ks)
  let ?d = "if b then dict_set (entry_at m k) ''a'' (JInt 1) else dict_del (entry_at m k) ''a''"
  have "plain_map ?d"
    using plain_map_set [OF plain_entry_at [OF Cons.prems(1)], of "''a''" "JInt 1" k]
      plain_map_del [OF plain_entry_at [OF Cons.prems(1)], of k "''a''"]
    by simp
  then have ok: "plain_map (put_entry m k ?d)"
    using Cons.prems by (intro plain_put_entry) simp_all
  have rest: "flag_entries (put_entry m k ?d) ks b = Inr m'"
    using Cons.prems(3) by (auto split: sum.splits dest: dict_or_empty_entry)
  have "dict_ok m"
    using Cons.prems(1) by (rule plain_map_ok)
  then show ?case
    using Cons.IH [OF ok _ rest] Cons.prems(2) dict_get_put_entry_other [of m _ k] by simp
qed simp

section \<open>The retry loop\<close>

text \<open>What the loops rely on.  \<^verbatim>\<open>touched\<close> are the keys the update may change and \<^verbatim>\<open>good\<close>
  the condition on its arguments.\<close>

locale entry_update =
  fixes upd :: "jdict \<Rightarrow> exn + jdict option" and touched :: "string set" and good :: bool
  assumes upd_plain: "good \<Longrightarrow> plain_map m \<Longrightarrow> upd m = Inr (Some m') \<Longrightarrow> plain_map m'"
    and upd_frame: "good \<Longrightarrow> plain_map m \<Longrightarrow> upd m = Inr (Some m') \<Longrightarrow> k \<notin> touched \<Longrightarrow> dict_get m' k = dict_get m k"

text \<open>The documented behaviour of the named value: it exists, a read returns the value and its
  tag, a conditional write succeeds only on the current tag, equal tags mean equal values.
  Nothing is said of what other writers do between two calls.\<close>

definition nv_laws :: "('w \<Rightarrow> string option) \<Rightarrow> ('w \<Rightarrow> string) \<Rightarrow> 'w nv_svc \<Rightarrow> bool" where
  "nv_laws value_of tag_of svc \<longleftrightarrow>
     (\<forall>w v t w'. nv_get svc w = (Inr (v, t), w') \<longrightarrow> v = value_of w \<and> t = Some (tag_of w))
     \<and> (\<forall>w e w'. nv_get svc w = (Inl e, w') \<longrightarrow> \<not> is_resource_not_found e)
     \<and> (\<forall>w. tag_of w \<noteq> [] \<and> tag_of w \<noteq> ''*'')
     \<and> (\<forall>s t w w'. nv_put svc s t w = (Inr (), w') \<longrightarrow> (t = ''*'' \<or> t = tag_of w) \<and> value_of w' = Some s)
     \<and> (\<forall>w w'. tag_of w = tag_of w' \<longrightarrow> value_of w = value_of w')"

lemma read_key_limits_Inr:
  assumes "nv_laws value_of tag_of svc" and "read_key_limits svc w = (Inr (m, t), w')"
  shows "m = decode_limits (value_of w) \<and> t = Some (tag_of w)"
proof -
  obtain r w1 where g: "nv_get svc w = (r, w1)" by fastforce
  show ?thesis
  proof (cases r)
    case (Inl e)
    then have "\<not> is_resource_not_found e"
      using assms(1) g unfolding nv_laws_def by blast
    then show ?thesis
      using assms(2) g Inl by (simp add: read_key_limits_def catch_exn_def bnd_def raise_def)
  next
    case (Inr vt)
    moreover obtain v u where vt: "vt = (v, u)" by (cases vt)
    ultimately have "v = value_of w \<and> u = Some (tag_of w)"
      using assms(1) g unfolding nv_laws_def by blast
    then show ?thesis
      using assms(2) g Inr vt by (simp add: read_key_limits_def catch_exn_def bnd_def ret_def)
  qed
qed

lemma decode_dumps: "plain_map m \<Longrightarrow> decode_limits (Some (dumps (JObj m))) = m"
proof -
  assume "plain_map m"
  then have "loads (dumps (JObj m)) = Some (JObj m)"
    by (simp add: loads_dumps del: dumps.simps)
  moreover have "dumps (JObj m) \<noteq> []"
    by simp
  ultimately show ?thesis
    by (simp add: decode_limits_def del: dumps.simps)
qed

text \<open>A loop that returns either found nothing to do or wrote its update of the very value that
  was current when it wrote.\<close>

lemma nv_loop_returns:
  assumes L: "nv_laws value_of tag_of svc" and "nv_loop n svc upd w = (Inr (), w')" and "n \<noteq> 0"
  shows "(\<exists>w1. upd (decode_limits (value_of w1)) = Inr None)
     \<or> (\<exists>w1 m' t. upd (decode_limits (value_of w1)) = Inr (Some m') \<and> value_of w' = Some (dumps (JObj m'))
          \<and> nv_put svc (dumps (JObj m')) t w1 = (Inr (), w'))"
  using assms(2,3)
proof (induction n arbitrary: w)
  case (Suc n)
  obtain r w1 where r: "read_key_limits svc w = (r, w1)" by fastforce
  show ?case
  proof (cases r)
    case (Inl e)
    then show ?thesis using Suc.prems r by (simp add: bnd_def)
  next
    case (Inr ct)
    obtain cur tag where ct: "ct = (cur, tag)" by (cases ct)
    have cur: "cur = decode_limits (value_of w)" "tag = Some (tag_of w)"
      using read_key_limits_Inr [OF L] r Inr ct by blast+
    show ?thesis
    proof (cases "upd cur")
      case (Inl e)
      then show ?thesis using Suc.prems r Inr ct by (simp add: bnd_def lift_sum_def)
    next
      case u: (Inr nxt)
      show ?thesis
      proof (cases nxt)
        case None
        then show ?thesis using u cur by auto
      next
        case (Some m)
        obtain wr w2 where wr: "write_key_limits svc m tag w1 = (wr, w2)" by fastforce
        show ?thesis
        proof (cases wr)
          case (Inr x)
          have "(wr, w2) = (Inr (), w')"
            using Suc.prems r \<open>r = Inr ct\<close> ct u Some wr Inr by (simp add: bnd_def lift_sum_def catch_exn_def)
          then have put: "nv_put svc (dumps (JObj m)) (tag_of w) w1 = (Inr (), w')"
            using wr cur(2) L by (simp add: write_key_limits_def nv_laws_def opt_true_def opt_or_empty_def del: dumps.simps)
          then have "tag_of w = tag_of w1" and v: "value_of w' = Some (dumps (JObj m))"
            using L unfolding nv_laws_def by blast+
          then have "value_of w = value_of w1"
            using L unfolding nv_laws_def by blast
          then show ?thesis
            using u Some cur(1) put v by metis
        next
          case (Inl e)
          have "nv_loop n svc upd w2 = (Inr (), w')" "n \<noteq> 0"
            using Suc.prems(1) r \<open>r = Inr ct\<close> ct u Some wr Inl
            by (auto simp: bnd_def lift_sum_def catch_exn_def raise_def split: if_splits)
          then show ?thesis
            by (rule Suc.IH)
        qed
      qed
    qed
  qed
qed simp

context entry_update begin

text \<open>An update leaves the entries of all other keys as they were when it was written, so
  concurrent updates of different keys do not lose each other.\<close>

lemma loop_keeps_others:
  assumes L: "nv_laws value_of tag_of svc" and plain: "\<And>w. plain_map (decode_limits (value_of w))"
    and good and run: "nv_loop n svc upd w = (Inr (), w')" "n \<noteq> 0"
    and never: "\<And>m. plain_map m \<Longrightarrow> upd m \<noteq> Inr None"
  shows "\<exists>w1 m' t. upd (decode_limits (value_of w1)) = Inr (Some m') \<and> nv_put svc (dumps (JObj m')) t w1 = (Inr (), w')
     \<and> decode_limits (value_of w') = m'
     \<and> (\<forall>k. k \<notin> touched \<longrightarrow> dict_get m' k = dict_get (decode_limits (value_of w1)) k)"
  using nv_loop_returns [OF L run]
proof
  assume "\<exists>w1. upd (decode_limits (value_of w1)) = Inr None"
  then show ?thesis using never plain by blast
next
  assume "\<exists>w1 m' t. upd (decode_limits (value_of w1)) = Inr (Some m') \<and> value_of w' = Some (dumps (JObj m'))
          \<and> nv_put svc (dumps (JObj m')) t w1 = (Inr (), w')"
  then obtain w1 m' t where u: "upd (decode_limits (value_of w1)) = Inr (Some m')"
    and v: "value_of w' = Some (dumps (JObj m'))" and p: "nv_put svc (dumps (JObj m')) t w1 = (Inr (), w')"
    by blast
  have "decode_limits (value_of w') = m'"
    unfolding v by (rule decode_dumps [OF upd_plain [OF \<open>good\<close> plain u]])
  then show ?thesis
    using u p upd_frame [OF \<open>good\<close> plain u] by blast
qed

end

interpretation limits: entry_update "limit_update k tpm tier period" "{k}" "plain_limits k tpm tier period"
proof
  fix m m'
  assume good: "plain_limits k tpm tier period" and m: "plain_map m"
    and "limit_update k tpm tier period m = Inr (Some m')"
  then have u: "merge_key_limit m k tpm tier period = Inr m'"
    by (auto simp: limit_update_def split: sum.splits)
  show "plain_map m'"
    by (rule plain_merge_key_limit [OF good m u])
  fix x
  assume "x \<notin> {k}"
  moreover obtain d where "m' = put_entry m k d"
    by (rule merge_key_limit_Inr [OF u])
  ultimately show "dict_get m' x = dict_get m x"
    using m by (simp add: dict_get_put_entry_other plain_map_ok)
qed

interpretation audit: entry_update "audit_update ks b" "set ks" "list_all ascii ks"
proof
  fix m m'
  assume good: "list_all ascii ks" and m: "plain_map m" and "audit_update ks b m = Inr (Some m')"
  then have "flag_entries m ks b = Inr m'"
    by (auto simp: audit_update_def merge_audit_flag_def dest: capped_Inr split: sum.splits if_splits)
  from plain_flag_entries [OF m good this]
  show "plain_map m'" and "x \<notin> set ks \<Longrightarrow> dict_get m' x = dict_get m x" for x
    by simp_all
qed

interpretation removal: entry_update "removal_update k" "{k}" True
proof
  fix m m'
  assume m: "plain_map m" and "removal_update k m = Inr (Some m')"
  then have "m' = dict_del m k"
    by (auto simp: removal_update_def remove_key_limit_def split: if_splits)
  then show "plain_map m'" and "x \<notin> {k} \<Longrightarrow> dict_get m' x = dict_get m x" for x
    using plain_map_del [OF m] plain_map_ok [OF m] by (simp_all add: dict_simps)
qed

section \<open>Properties\<close>


text \<open>A world of one bit: the map is empty until the one update the instance accepts.\<close>

definition toy_nv :: "bool nv_svc" where
  "toy_nv = \<lparr>nv_get = (\<lambda>w. (Inr (Some (if w then ''{\"s1\":{\"t\":500}}'' else ''{}''), Some (if w then ''v2'' else ''v1'')), w)),
     nv_put = (\<lambda>s t w. if \<not> w \<and> t = ''v1'' \<and> s = ''{\"s1\":{\"t\":500}}'' then (Inr (), True)
                        else (Inl (HttpResponseError 412 ''precondition failed''), w))\<rparr>"

definition toy_value :: "bool \<Rightarrow> string option" where
  "toy_value w = Some (if w then ''{\"s1\":{\"t\":500}}'' else ''{}'')"

definition toy_tag :: "bool \<Rightarrow> string" where
  "toy_tag w = (if w then ''v2'' else ''v1'')"

lemma toy_laws: "nv_laws toy_value toy_tag toy_nv"
  by (auto simp: nv_laws_def toy_nv_def toy_value_def toy_tag_def split: if_splits)

lemma toy_decoded: "decode_limits (toy_value w) = (if w then [(''s1'', JObj [(''t'', JInt 500)])] else [])"
  by (cases w; simp add: toy_value_def; code_simp)

lemma int_fits_500 [simp]: "int_fits 500"
  by code_simp

lemma toy_update: "upsert_key_limits toy_nv ''s1'' (Some 500) None None False = (Inr (), True)"
proof -
  have "limit_update ''s1'' (Some 500) None None [] = Inr (Some [(''s1'', JObj [(''t'', JInt 500)])])"
    by code_simp
  moreover have "dumps (JObj [(''s1'', JObj [(''t'', JInt 500)])]) = ''{\"s1\":{\"t\":500}}''"
    by code_simp
  moreover have "read_key_limits toy_nv False = (Inr ([], Some ''v1''), False)"
    using toy_decoded [of False]
    by (simp add: read_key_limits_def toy_nv_def catch_exn_def bnd_def ret_def toy_value_def)
  ultimately show ?thesis
    by (simp add: upsert_key_limits_def numeral_3_eq_3 bnd_def lift_sum_def catch_exn_def write_key_limits_def
        toy_nv_def opt_true_def opt_or_empty_def del: dumps.simps)
qed


text \<open>Switching the audit flag of a tenant's keys changes that flag for exactly those keys: every
  limit, and every other key, reads as before.\<close>

lemma audit_flag_changes_only_audit:
  assumes "entries_ok m" and "merge_audit_flag m ks enabled = Inr m'"
  shows "view m' = (\<lambda>k. if k \<in> set ks then (view m k)\<lparr>lim_audit := enabled\<rparr> else view m k)"
  using assms by (rule view_merge_audit_flag)

definition sample_map :: jdict where
  "sample_map = [(''s1'', JObj [(''t'', JInt 500), (''a'', JInt 1)]), (''s2'', JObj [(''qt'', JStr ''small'')])]"

lemma sample_map_ok: "entries_ok sample_map"
  by (intro plain_entries_ok) (simp add: sample_map_def plain_map_def dict_ok_def; simp add: ascii_def byte_def)

lemma audit_flag_changes_only_audit_witness:
  "view [(''s1'', JObj [(''t'', JInt 500)]), (''s2'', JObj [(''qt'', JStr ''small'')])]
     = (\<lambda>k. if k \<in> set [''s1'', ''s9''] then (view sample_map k)\<lparr>lim_audit := False\<rparr> else view sample_map k)"
  by (rule audit_flag_changes_only_audit [OF sample_map_ok]) code_simp

text \<open>C5: a limits map that would outgrow the named value is refused before anything is written:
  the update raises a \<^verbatim>\<open>ValueError\<close> and the only call made was the read.\<close>

theorem over_cap_is_refused_before_writing:
  assumes "nv_get svc w = (Inr (value, tag), w1)"
    and "KEY_LIMITS_MAX_BYTES < length (dumps (JObj (put_entry (decode_limits value) k (limit_entry tpm tier period))))"
    and "entry_at (decode_limits value) k = []"
  shows "\<exists>msg. upsert_key_limits svc k tpm tier period w = (Inl (ValueError msg), w1)"
proof -
  have "read_key_limits svc w = (Inr (decode_limits value, tag), w1)"
    using assms(1) by (simp add: read_key_limits_def catch_exn_def bnd_def ret_def)
  moreover have "merge_key_limit (decode_limits value) k tpm tier period
      = capped (put_entry (decode_limits value) k (limit_entry tpm tier period))"
    using assms(3) by (auto simp: merge_key_limit_def entry_at_def Let_def jget_def split: option.splits json.splits)
  ultimately show ?thesis
    using assms(2)
    by (simp add: upsert_key_limits_def numeral_3_eq_3 bnd_def lift_sum_def limit_update_def capped_def over_cap_def
        del: dumps.simps)
qed

lemma json_escape_nonempty: "1 \<le> length (json_escape n)"
  by (simp add: json_escape_def)

lemma length_json_str_ge: "ascii s \<Longrightarrow> length s \<le> length (json_str s)"
proof -
  have "length s \<le> length (concat (map json_escape (map byte s)))"
  proof (induction s)
    case (Cons c s)
    then show ?case using json_escape_nonempty [of "byte c"] by simp
  qed simp
  then show "ascii s \<Longrightarrow> length s \<le> length (json_str s)"
    by (simp add: json_str_def code_points_ascii)
qed

theorem over_cap_is_refused_before_writing_witness:
  "\<exists>msg. upsert_key_limits toy_nv (replicate 4100 CHR ''a'') (Some 500) None None False = (Inl (ValueError msg), False)"
proof (rule over_cap_is_refused_before_writing)
  show "nv_get toy_nv False = (Inr (Some ''{}'', Some ''v1''), False)"
    by (simp add: toy_nv_def)
  have empty: "decode_limits (Some ''{}'') = []"
    by code_simp
  show "entry_at (decode_limits (Some ''{}'')) (replicate 4100 CHR ''a'') = []"
    by (simp add: empty entry_at_def)
  have "4100 \<le> length (json_str (replicate 4100 CHR ''a''))"
    using length_json_str_ge [of "replicate 4100 CHR ''a''"] by (simp add: ascii_def list_all_iff byte_def)
  then show "KEY_LIMITS_MAX_BYTES < length (dumps (JObj (put_entry (decode_limits (Some ''{}''))
      (replicate 4100 CHR ''a'') (limit_entry (Some 500) None None))))"
    by (simp add: empty put_entry_def limit_entry_def KEY_LIMITS_MAX_BYTES_def)
qed

end
