(* ===== verification/ApimPools.thy ===== *)
theory ApimPools
  imports Json
begin

text \<open>
  Backends and load-balanced pools (\<^verbatim>\<open>services/apim_provisioner.py\<close>): the provider table, a
  hub's backends, and the GET-modify-PUT of a pool's \<^verbatim>\<open>services\<close> list over ARM's REST
  surface.  ARM and the SDK client are the record \<^verbatim>\<open>arm_svc\<close>; a response is its status,
  ETag, decoded body and text.  Identifiers are ASCII, so \<^verbatim>\<open>lower\<close> is Python's.

  \<^verbatim>\<open>has_member\<close> is the abstract view of a pool; the lemmas show that joining and leaving
  change it as they should, for the hub concerned and for no other.
\<close>

section \<open>Providers\<close>

record provider_cfg =
  api_id :: string
  display :: string
  sub_header :: string
  backend :: string
  auth_header :: string
  bearer :: bool
  ops :: "(string \<times> string) list"

definition PROVIDER_APIS :: "(string, provider_cfg) dict" where
  "PROVIDER_APIS =
     [(''anthropic'', \<lparr>api_id = ''llm-anthropic'', display = ''LLM Anthropic'', sub_header = ''x-api-key'',
        backend = ''llm-anthropic'', auth_header = ''x-api-key'', bearer = False,
        ops = [(''messages'', ''/v1/messages''), (''count-tokens'', ''/v1/messages/count_tokens'')]\<rparr>),
      (''openai'', \<lparr>api_id = ''llm-openai'', display = ''LLM OpenAI'', sub_header = ''api-key'',
        backend = ''llm-openai'', auth_header = ''Authorization'', bearer = True,
        ops = [(''chat'', ''/v1/chat/completions''), (''responses'', ''/v1/responses'')]\<rparr>),
      (''google'', \<lparr>api_id = ''llm-google'', display = ''LLM Google'', sub_header = ''api-key'',
        backend = ''llm-google'', auth_header = ''Authorization'', bearer = True,
        ops = [(''chat'', ''/v1/chat/completions'')]\<rparr>),
      (''azure'', \<lparr>api_id = ''llm-azure'', display = ''LLM Azure OpenAI'', sub_header = ''api-key'',
        backend = ''llm-azure'', auth_header = ''api-key'', bearer = False,
        ops = [(''chat'', ''/openai/v1/chat/completions''), (''responses'', ''/openai/v1/responses'')]\<rparr>)]"

definition POOL_PROVIDERS :: "string list" where
  "POOL_PROVIDERS = [''openai'', ''anthropic'', ''google'']"

section \<open>ARM and the SDK\<close>

record arm_resp =
  resp_status :: int
  resp_etag :: "string option"
  resp_body :: json
  resp_text :: string

record breaker_rule =
  rule_name :: string
  failure_count :: int
  interval_seconds :: int
  status_ranges :: "(int \<times> int) list"
  trip_seconds :: int
  accept_retry_after :: bool

definition breaker_rules :: "breaker_rule list" where
  "breaker_rules =
     [\<lparr>rule_name = ''trip-on-429-or-5xx'', failure_count = 1, interval_seconds = 60,
       status_ranges = [(429, 429), (500, 599)], trip_seconds = 60, accept_retry_after = True\<rparr>]"

record backend_contract =
  be_url :: string
  be_header :: "(string \<times> string) option"
  be_breaker :: "breaker_rule list"

record 'w arm_svc =
  arm_base :: string
  arm_token :: "('w, string) eff"
  arm_get :: "string \<Rightarrow> ('w, arm_resp) eff"
  arm_put :: "string \<Rightarrow> jdict \<Rightarrow> string option \<Rightarrow> ('w, arm_resp) eff"
  arm_delete :: "string \<Rightarrow> string \<Rightarrow> ('w, arm_resp) eff"
  backend_put :: "string \<Rightarrow> backend_contract \<Rightarrow> ('w, string option) eff"
  backend_delete :: "string \<Rightarrow> ('w, unit) eff"
  policy_delete :: "string \<Rightarrow> ('w, unit) eff"

definition is_error :: "arm_resp \<Rightarrow> bool" where
  "is_error r \<longleftrightarrow> 400 \<le> resp_status r \<and> resp_status r \<le> 599"

definition raise_for_arm :: "arm_resp \<Rightarrow> ('w, unit) eff" where
  "raise_for_arm resp =
     (if \<not> is_error resp then ret ()
      else raise (HTTPStatusError (resp_status resp)
             (int_str (resp_status resp) @ '': '' @ py_take 1000 (resp_text resp))))"

definition backend_base :: "'w arm_svc \<Rightarrow> string" where
  "backend_base svc = arm_base svc @ ''/backends''"

definition ensure_provider_backend ::
  "'w arm_svc \<Rightarrow> string \<Rightarrow> string \<Rightarrow> string \<Rightarrow> string \<Rightarrow> bool \<Rightarrow> ('w, string) eff" where
  "ensure_provider_backend svc backend_id url auth secret is_bearer =
     (let header_val = (if is_bearer then ''Bearer '' @ secret else secret) in
      bnd (backend_put svc backend_id \<lparr>be_url = url, be_header = Some (auth, header_val), be_breaker = breaker_rules\<rparr>) (\<lambda>name.
      ret (if opt_true name then opt_or_empty name else backend_id)))"

text \<open>A backend of its own for a model route, with a header when the provider needs a key.\<close>

definition add_model_route ::
  "'w arm_svc \<Rightarrow> string \<Rightarrow> string \<Rightarrow> (string \<times> string) option \<Rightarrow> ('w, string) eff" where
  "add_model_route svc route_id backend_url header_auth =
     bnd (backend_put svc route_id \<lparr>be_url = backend_url, be_header = header_auth, be_breaker = breaker_rules\<rparr>) (\<lambda>name.
     ret (if opt_true name then opt_or_empty name else route_id))"

definition remove_backend :: "'w arm_svc \<Rightarrow> string \<Rightarrow> ('w, unit) eff" where
  "remove_backend svc backend_id =
     catch_exn (backend_delete svc backend_id) (\<lambda>e. if is_http_response_error e then ret () else raise e)"

definition detach_api_policy :: "'w arm_svc \<Rightarrow> string \<Rightarrow> ('w, unit) eff" where
  "detach_api_policy svc provider =
     (case dict_get PROVIDER_APIS provider of
        None \<Rightarrow> ret ()
      | Some cfg \<Rightarrow>
          catch_exn (policy_delete svc (api_id cfg)) (\<lambda>e. if is_resource_not_found e then ret () else raise e))"

section \<open>The services of a pool\<close>

definition attribute_error :: exn where
  "attribute_error = OtherError ''AttributeError''"

definition svc_suffix :: "string \<Rightarrow> string" where
  "svc_suffix backend_id = lower (''/backends/'' @ backend_id)"

text \<open>\<^verbatim>\<open>s.get("id", "").lower().endswith(svc_suffix)\<close>.\<close>

definition service_matches :: "string \<Rightarrow> json \<Rightarrow> exn + bool" where
  "service_matches sfx s =
     (case s of
        JObj d \<Rightarrow> (case jget_or d ''id'' (JStr []) of
             JStr i \<Rightarrow> Inr (ends_with (lower i) sfx)
           | _ \<Rightarrow> Inl attribute_error)
      | _ \<Rightarrow> Inl attribute_error)"

fun any_matches :: "string \<Rightarrow> json list \<Rightarrow> exn + bool" where
  "any_matches sfx [] = Inr False"
| "any_matches sfx (s # ss) =
     (case service_matches sfx s of
        Inl e \<Rightarrow> Inl e
      | Inr m \<Rightarrow> if m then Inr True else any_matches sfx ss)"

fun keep_others :: "string \<Rightarrow> json list \<Rightarrow> exn + json list" where
  "keep_others sfx [] = Inr []"
| "keep_others sfx (s # ss) =
     (case service_matches sfx s of
        Inl e \<Rightarrow> Inl e
      | Inr m \<Rightarrow> (case keep_others sfx ss of Inl e \<Rightarrow> Inl e
                  | Inr kept \<Rightarrow> Inr (if m then kept else s # kept)))"

text \<open>\<^verbatim>\<open>props = body.get("properties", {})\<close>, \<^verbatim>\<open>pool = props.get("pool") or {}\<close>,
  \<^verbatim>\<open>services = pool.get("services") or []\<close>.\<close>

definition props_of :: "json \<Rightarrow> exn + jdict" where
  "props_of body =
     (case body of
        JObj b \<Rightarrow> (case jget_or b ''properties'' (JObj []) of JObj p \<Rightarrow> Inr p | _ \<Rightarrow> Inl attribute_error)
      | _ \<Rightarrow> Inl attribute_error)"

definition pool_services :: "jdict \<Rightarrow> exn + jdict \<times> json list" where
  "pool_services props =
     (case py_or (jget props ''pool'') (JObj []) of
        JObj pool \<Rightarrow>
          (case py_or (jget pool ''services'') (JList []) of
             JList services \<Rightarrow> Inr (pool, services)
           | _ \<Rightarrow> Inl attribute_error)
      | _ \<Rightarrow> Inl attribute_error)"

definition session_affinity :: json where
  "session_affinity = JObj [(''sessionId'', JObj [(''source'', JStr ''Cookie''), (''name'', JStr ''SessionId'')])]"

definition setdefault :: "jdict \<Rightarrow> string \<Rightarrow> json \<Rightarrow> jdict" where
  "setdefault d k v = (if dict_get d k = None then dict_set d k v else d)"

definition member_of :: "'w arm_svc \<Rightarrow> string \<Rightarrow> json" where
  "member_of svc backend_id =
     JObj [(''id'', JStr (backend_base svc @ ''/'' @ backend_id)), (''priority'', JInt 1), (''weight'', JInt 1)]"

text \<open>The new properties of a pool that gains a member, \<^verbatim>\<open>None\<close> when it has it already.\<close>

definition joined_props :: "'w arm_svc \<Rightarrow> jdict \<Rightarrow> string \<Rightarrow> exn + jdict option" where
  "joined_props svc props backend_id =
     (case pool_services props of Inl e \<Rightarrow> Inl e | Inr (pool, services) \<Rightarrow>
     (case any_matches (svc_suffix backend_id) services of Inl e \<Rightarrow> Inl e | Inr found \<Rightarrow>
        if found then Inr None
        else
          let pool1 = dict_set pool ''services'' (JList (services @ [member_of svc backend_id]));
              pool2 = setdefault pool1 ''sessionAffinity'' session_affinity
          in Inr (Some (dict_set (dict_set props ''type'' (JStr ''Pool'')) ''pool'' (JObj pool2)))))"

text \<open>The first account of a pool.  Its description is \<^verbatim>\<open>pool_id.rsplit("-pool", 1)[0]\<close>.\<close>

fun before_last :: "string \<Rightarrow> string \<Rightarrow> string option" where
  "before_last sep [] = None"
| "before_last sep (c # s) =
     (case before_last sep s of
        Some h \<Rightarrow> Some (c # h)
      | None \<Rightarrow> if starts_with (c # s) sep then Some [] else None)"

definition pool_label :: "string \<Rightarrow> string" where
  "pool_label pool_id = (case before_last ''-pool'' pool_id of None \<Rightarrow> pool_id | Some h \<Rightarrow> h)"

definition new_pool_props :: "'w arm_svc \<Rightarrow> string \<Rightarrow> string \<Rightarrow> jdict" where
  "new_pool_props svc pool_id backend_id =
     [(''description'', JStr (''Hub pool for '' @ pool_label pool_id)), (''type'', JStr ''Pool''),
      (''pool'', JObj [(''services'', JList [member_of svc backend_id]), (''sessionAffinity'', session_affinity)])]"

definition pool_add_service :: "'w arm_svc \<Rightarrow> string \<Rightarrow> string \<Rightarrow> ('w, unit) eff" where
  "pool_add_service svc pool_id backend_id =
     bnd (arm_token svc) (\<lambda>_.
     bnd (arm_get svc pool_id) (\<lambda>r.
     if resp_status r = 200 then
       bnd (lift_sum (props_of (resp_body r))) (\<lambda>props.
       bnd (lift_sum (joined_props svc props backend_id)) (\<lambda>joined.
       case joined of
         None \<Rightarrow> ret ()
       | Some props' \<Rightarrow>
           bnd (arm_put svc pool_id props' (if opt_true (resp_etag r) then resp_etag r else None)) raise_for_arm))
     else if resp_status r = 404 then
       bnd (arm_put svc pool_id (new_pool_props svc pool_id backend_id) None) raise_for_arm
     else raise_for_arm r))"

text \<open>Leaving: nothing to do for a pool or a member that is absent, \<^verbatim>\<open>DropPool\<close> when the last
  member leaves, otherwise the properties to write.\<close>

datatype leave = NotMember | DropPool | WriteProps jdict

definition left_props :: "jdict \<Rightarrow> string \<Rightarrow> exn + leave" where
  "left_props props backend_id =
     (case pool_services props of Inl e \<Rightarrow> Inl e | Inr (pool, services) \<Rightarrow>
     (case keep_others (svc_suffix backend_id) services of Inl e \<Rightarrow> Inl e | Inr kept \<Rightarrow>
        if length kept = length services then Inr NotMember
        else if kept = [] then Inr DropPool
        else Inr (WriteProps (dict_set props ''pool'' (JObj (dict_set pool ''services'' (JList kept)))))))"

definition pool_remove_service :: "'w arm_svc \<Rightarrow> string \<Rightarrow> string \<Rightarrow> string option \<Rightarrow> ('w, unit) eff" where
  "pool_remove_service svc pool_id backend_id provider =
     bnd (arm_token svc) (\<lambda>_.
     bnd (arm_get svc pool_id) (\<lambda>r.
     if resp_status r = 404 then ret ()
     else
       sq (raise_for_arm r)
      (bnd (lift_sum (props_of (resp_body r))) (\<lambda>props.
       bnd (lift_sum (left_props props backend_id)) (\<lambda>step.
       let etag = (if opt_true (resp_etag r) then opt_or_empty (resp_etag r) else ''*'') in
       case step of
         NotMember \<Rightarrow> ret ()
       | DropPool \<Rightarrow>
           sq (if opt_true provider then detach_api_policy svc (opt_or_empty provider) else ret ())
          (bnd (arm_delete svc pool_id etag) (\<lambda>dr.
           if resp_status dr \<noteq> 404 then raise_for_arm dr else ret ()))
       | WriteProps props' \<Rightarrow> bnd (arm_put svc pool_id props' (Some etag)) raise_for_arm)))))"

section \<open>A hub in the three pools\<close>

definition pool_name :: "string \<Rightarrow> string" where
  "pool_name provider = ''llm-'' @ provider @ ''-pool''"

definition hub_backend :: "string \<Rightarrow> string \<Rightarrow> string" where
  "hub_backend provider account_id = ''llm-'' @ provider @ ''-'' @ account_id"

fun add_hub_from :: "'w arm_svc \<Rightarrow> string \<Rightarrow> string \<Rightarrow> string \<Rightarrow> string list \<Rightarrow> string list \<Rightarrow> ('w, string list) eff" where
  "add_hub_from svc account_id base hub_key [] created = ret created"
| "add_hub_from svc account_id base hub_key (provider # rest) created =
     (case dict_get PROVIDER_APIS provider of
        None \<Rightarrow> raise (KeyError provider)
      | Some cfg \<Rightarrow>
          let be_id = hub_backend provider account_id in
          sq (ensure_provider_backend svc be_id base (auth_header cfg) hub_key (bearer cfg))
         (sq (pool_add_service svc (pool_name provider) be_id)
             (add_hub_from svc account_id base hub_key rest (created @ [be_id]))))"

definition add_hub_to_pools :: "'w arm_svc \<Rightarrow> string \<Rightarrow> string \<Rightarrow> string \<Rightarrow> ('w, string list) eff" where
  "add_hub_to_pools svc account_id hub_fqdn hub_key =
     add_hub_from svc account_id (''https://'' @ hub_fqdn) hub_key POOL_PROVIDERS []"

definition remove_hub_from_pools :: "'w arm_svc \<Rightarrow> string \<Rightarrow> string list option \<Rightarrow> ('w, unit) eff" where
  "remove_hub_from_pools svc account_id backend_ids =
     sq (for_each POOL_PROVIDERS (\<lambda>provider.
           let be_id = hub_backend provider account_id in
           sq (pool_remove_service svc (pool_name provider) be_id (Some provider))
              (remove_backend svc be_id)))
        (for_each (case backend_ids of None \<Rightarrow> [] | Some ids \<Rightarrow> ids) (\<lambda>be_id.
           if \<not> ends_with be_id account_id then remove_backend svc be_id else ret ()))"

section \<open>Members\<close>

definition members :: "jdict \<Rightarrow> json list" where
  "members props = (case pool_services props of Inr (_, services) \<Rightarrow> services | Inl _ \<Rightarrow> [])"

definition has_member :: "jdict \<Rightarrow> string \<Rightarrow> bool" where
  "has_member props backend_id \<longleftrightarrow> list_ex (\<lambda>s. service_matches (svc_suffix backend_id) s = Inr True) (members props)"

lemma any_matches_Inr: "any_matches sfx ss = Inr b \<Longrightarrow> b = list_ex (\<lambda>s. service_matches sfx s = Inr True) ss"
  by (induction ss) (auto split: sum.splits if_splits)

lemma keep_others_Inr:
  "keep_others sfx ss = Inr kept \<Longrightarrow> kept = filter (\<lambda>s. service_matches sfx s = Inr False) ss
     \<and> (\<forall>s \<in> set ss. service_matches sfx s \<in> {Inr True, Inr False})"
  by (induction ss arbitrary: kept) (auto split: sum.splits if_splits)

lemma lower_append: "lower (s @ t) = lower s @ lower t"
  by (simp add: lower_def)

lemma member_matches: "service_matches (svc_suffix b) (member_of svc b) = Inr True"
proof -
  have "lower (backend_base svc @ ''/'' @ b) = lower (arm_base svc) @ svc_suffix b"
    by (simp add: svc_suffix_def backend_base_def lower_def)
  then show ?thesis
    by (simp add: service_matches_def member_of_def ends_with_def suffix_def)
qed

lemma members_dict_set_pool:
  "services \<noteq> [] \<Longrightarrow> dict_get pool ''services'' = Some (JList services)
     \<Longrightarrow> members (dict_set props ''pool'' (JObj pool)) = services"
  by (cases pool) (auto simp: members_def pool_services_def py_or_def jget_def dict_simps)

lemma members_joined:
  assumes "joined_props svc props b = Inr (Some props')"
  shows "members props' = members props @ [member_of svc b]" and "\<not> has_member props b"
proof -
  from assms obtain pool services where p: "pool_services props = Inr (pool, services)"
    and n: "any_matches (svc_suffix b) services = Inr False"
    and p': "props' = dict_set (dict_set props ''type'' (JStr ''Pool'')) ''pool''
       (JObj (setdefault (dict_set pool ''services'' (JList (services @ [member_of svc b]))) ''sessionAffinity'' session_affinity))"
    by (auto simp: joined_props_def Let_def split: sum.splits prod.splits if_splits)
  show "members props' = members props @ [member_of svc b]"
    unfolding p' using p by (subst members_dict_set_pool) (auto simp: setdefault_def dict_simps members_def)
  show "\<not> has_member props b"
    using p any_matches_Inr [OF n] by (simp add: has_member_def members_def)
qed

lemma joined_None: "joined_props svc props b = Inr None \<Longrightarrow> has_member props b"
  by (auto simp: joined_props_def has_member_def members_def Let_def dest!: any_matches_Inr
      split: sum.splits prod.splits if_splits)

lemma members_left:
  assumes "left_props props b = Inr (WriteProps props')"
  shows "members props' = filter (\<lambda>s. service_matches (svc_suffix b) s = Inr False) (members props)"
    and "members props' \<noteq> []"
    and "filter (\<lambda>s. service_matches (svc_suffix b) s \<noteq> Inr True) (members props')
       = filter (\<lambda>s. service_matches (svc_suffix b) s \<noteq> Inr True) (members props)"
proof -
  from assms obtain pool services kept where p: "pool_services props = Inr (pool, services)"
    and k: "keep_others (svc_suffix b) services = Inr kept" "kept \<noteq> []"
    and p': "props' = dict_set props ''pool'' (JObj (dict_set pool ''services'' (JList kept)))"
    by (auto simp: left_props_def split: sum.splits prod.splits if_splits)
  have m: "members props' = kept"
    unfolding p' using k(2) by (intro members_dict_set_pool) (simp_all add: dict_simps)
  show "members props' = filter (\<lambda>s. service_matches (svc_suffix b) s = Inr False) (members props)"
    using p keep_others_Inr [OF k(1)] m by (simp add: members_def)
  show "members props' \<noteq> []"
    using m k(2) by simp
  show "filter (\<lambda>s. service_matches (svc_suffix b) s \<noteq> Inr True) (members props')
       = filter (\<lambda>s. service_matches (svc_suffix b) s \<noteq> Inr True) (members props)"
    using p keep_others_Inr [OF k(1)] m by (auto simp: members_def intro!: filter_cong)
qed

lemma left_drop:
  assumes "left_props props b = Inr DropPool"
  shows "filter (\<lambda>s. service_matches (svc_suffix b) s \<noteq> Inr True) (members props) = []"
proof -
  from assms obtain pool services where p: "pool_services props = Inr (pool, services)"
    and k: "keep_others (svc_suffix b) services = Inr []"
    by (auto simp: left_props_def split: sum.splits prod.splits if_splits)
  show ?thesis
    using p keep_others_Inr [OF k, THEN conjunct1, symmetric] keep_others_Inr [OF k, THEN conjunct2]
    by (auto simp: members_def filter_empty_conv)
qed

lemma left_not_member: "left_props props b = Inr NotMember \<Longrightarrow> \<not> has_member props b"
proof -
  assume "left_props props b = Inr NotMember"
  then obtain pool services kept where p: "pool_services props = Inr (pool, services)"
    and k: "keep_others (svc_suffix b) services = Inr kept" "length kept = length services"
    by (auto simp: left_props_def split: sum.splits prod.splits if_splits)
  have "filter (\<lambda>s. service_matches (svc_suffix b) s = Inr False) services = services"
    using keep_others_Inr [OF k(1)] k(2) by (metis filter_True length_filter_less less_irrefl)
  then have "\<forall>s \<in> set services. service_matches (svc_suffix b) s = Inr False"
    by (simp add: filter_id_conv)
  then show ?thesis
    using p by (auto simp: has_member_def members_def list_ex_iff)
qed

section \<open>ARM as the provisioner sees it\<close>

text \<open>The documented behaviour of the pool resource, through the properties stored for each pool:
  a read returns them (404 when there is none, any other failure is an error status), a write
  or delete that succeeds takes effect on that pool only, one that fails has none, and the
  other calls do not touch pools.\<close>

definition arm_get_law :: "('w \<Rightarrow> string \<Rightarrow> jdict option) \<Rightarrow> 'w arm_svc \<Rightarrow> bool" where
  "arm_get_law pool_of svc \<longleftrightarrow>
     (\<forall>p w r w'. arm_get svc p w = (Inr r, w') \<longrightarrow>
        (case pool_of w p of
           None \<Rightarrow> resp_status r = 404 \<or> is_error r \<and> resp_status r \<noteq> 404
         | Some props \<Rightarrow> resp_status r = 200 \<and> props_of (resp_body r) = Inr props
                         \<or> is_error r \<and> resp_status r \<noteq> 404))"

definition arm_put_law :: "('w \<Rightarrow> string \<Rightarrow> jdict option) \<Rightarrow> 'w arm_svc \<Rightarrow> bool" where
  "arm_put_law pool_of svc \<longleftrightarrow>
     (\<forall>p props t w r w'. arm_put svc p props t w = (Inr r, w') \<longrightarrow>
        pool_of w' = (if is_error r then pool_of w else (pool_of w)(p := Some props)))
     \<and> (\<forall>p props t w e w'. arm_put svc p props t w = (Inl e, w') \<longrightarrow> pool_of w' = pool_of w)"

definition arm_delete_law :: "('w \<Rightarrow> string \<Rightarrow> jdict option) \<Rightarrow> 'w arm_svc \<Rightarrow> bool" where
  "arm_delete_law pool_of svc \<longleftrightarrow>
     (\<forall>p t w r w'. arm_delete svc p t w = (Inr r, w') \<longrightarrow>
        (if resp_status r = 404 then pool_of w p = None \<and> pool_of w' = pool_of w
         else if is_error r then pool_of w' = pool_of w
         else pool_of w' = (pool_of w)(p := None)))
     \<and> (\<forall>p t w e w'. arm_delete svc p t w = (Inl e, w') \<longrightarrow> pool_of w' = pool_of w)"

definition arm_laws :: "('w \<Rightarrow> string \<Rightarrow> jdict option) \<Rightarrow> 'w arm_svc \<Rightarrow> bool" where
  "arm_laws pool_of svc \<longleftrightarrow>
     keeps pool_of (arm_token svc) \<and> (\<forall>p. keeps pool_of (arm_get svc p))
     \<and> (\<forall>b c. keeps pool_of (backend_put svc b c)) \<and> (\<forall>b. keeps pool_of (backend_delete svc b))
     \<and> (\<forall>a. keeps pool_of (policy_delete svc a))
     \<and> arm_get_law pool_of svc \<and> arm_put_law pool_of svc \<and> arm_delete_law pool_of svc"

text \<open>What joining and leaving promise of one pool, and that they leave the other pools alone.\<close>

definition pool_has :: "('w \<Rightarrow> string \<Rightarrow> jdict option) \<Rightarrow> 'w \<Rightarrow> string \<Rightarrow> string \<Rightarrow> bool" where
  "pool_has pool_of w p b \<longleftrightarrow> (case pool_of w p of None \<Rightarrow> False | Some props \<Rightarrow> has_member props b)"

definition pool_services_at :: "('w \<Rightarrow> string \<Rightarrow> jdict option) \<Rightarrow> 'w \<Rightarrow> string \<Rightarrow> json list" where
  "pool_services_at pool_of w p = (case pool_of w p of None \<Rightarrow> [] | Some props \<Rightarrow> members props)"

definition others_same :: "('w \<Rightarrow> string \<Rightarrow> jdict option) \<Rightarrow> string \<Rightarrow> string \<Rightarrow> 'w \<Rightarrow> 'w \<Rightarrow> bool" where
  "others_same pool_of p b w w' \<longleftrightarrow>
     (\<forall>q. q \<noteq> p \<longrightarrow> pool_of w' q = pool_of w q)
     \<and> (let sel = filter (\<lambda>s. service_matches (svc_suffix b) s \<noteq> Inr True) in
        sel (pool_services_at pool_of w' p) = sel (pool_services_at pool_of w p))"

lemma others_same_refl: "pool_of w' = pool_of w \<Longrightarrow> others_same pool_of p b w w'"
  by (simp add: others_same_def pool_services_at_def)

lemma wp_raise_for_arm [wp_rules]:
  "wp (raise_for_arm r) Q E w =
     (if is_error r then E (HTTPStatusError (resp_status r) (int_str (resp_status r) @ '': '' @ py_take 1000 (resp_text r))) w
      else Q () w)"
  by (simp add: raise_for_arm_def wp_rules)

lemma wp_put:
  assumes L: "arm_laws pool_of svc"
    and "\<And>w'. pool_of w' = (pool_of w)(p := Some props) \<Longrightarrow> Q () w'"
    and "\<And>e w'. pool_of w' = pool_of w \<Longrightarrow> E e w'"
  shows "wp (bnd (arm_put svc p props t) raise_for_arm) Q E w"
  unfolding wp_bnd
proof (rule wpI_frame)
  fix r w' assume "arm_put svc p props t w = (Inr r, w')"
  then have "pool_of w' = (if is_error r then pool_of w else (pool_of w)(p := Some props))"
    using L by (simp add: arm_laws_def arm_put_law_def)
  then show "wp (raise_for_arm r) Q E w'"
    using assms(2,3) by (simp add: wp_rules split: if_splits)
next
  fix e w' assume "arm_put svc p props t w = (Inl e, w')"
  then have "pool_of w' = pool_of w"
    using L by (simp add: arm_laws_def arm_put_law_def)
  then show "E e w'" by (rule assms(3))
qed

lemma arm_laws_keeps:
  assumes "arm_laws pool_of svc"
  shows "keeps pool_of (arm_token svc)" "keeps pool_of (arm_get svc p)"
    "keeps pool_of (backend_put svc b c)" "keeps pool_of (backend_delete svc b)"
    "keeps pool_of (policy_delete svc a)"
  using assms by (simp_all add: arm_laws_def)

lemma arm_get_result:
  assumes "arm_laws pool_of svc" and "arm_get svc p w = (Inr r, w')"
  shows "case pool_of w p of
     None \<Rightarrow> resp_status r = 404 \<or> is_error r \<and> resp_status r \<noteq> 404
   | Some props \<Rightarrow> resp_status r = 200 \<and> props_of (resp_body r) = Inr props \<or> is_error r \<and> resp_status r \<noteq> 404"
proof -
  from assms(1) have "arm_get_law pool_of svc"
    by (simp add: arm_laws_def)
  from this [unfolded arm_get_law_def, rule_format, OF assms(2)] show ?thesis .
qed

lemma has_member_new: "has_member (new_pool_props svc p b) b" and members_new: "members (new_pool_props svc p b) = [member_of svc b]"
  using member_matches [of b svc]
  by (simp_all add: has_member_def members_def pool_services_def py_or_def new_pool_props_def)

lemma wp_pool_add:
  assumes L: "arm_laws pool_of svc"
  shows "wp (pool_add_service svc p b) (\<lambda>_ w'. pool_has pool_of w' p b \<and> others_same pool_of p b w w')
           (\<lambda>_ w'. pool_of w' = pool_of w) w"
  unfolding pool_add_service_def wp_bnd
proof (rule wp_keeps [OF arm_laws_keeps(1) [OF L]])
  fix tok w1 assume w1: "pool_of w1 = pool_of w"
  let ?Q = "\<lambda>_ w'. pool_has pool_of w' p b \<and> others_same pool_of p b w w'"
  let ?E = "\<lambda>_ w'. pool_of w' = pool_of w"
  show "wp (arm_get svc p) (\<lambda>r. wp (if resp_status r = 200 then
       bnd (lift_sum (props_of (resp_body r))) (\<lambda>props.
       bnd (lift_sum (joined_props svc props b)) (\<lambda>joined.
       case joined of None \<Rightarrow> ret ()
       | Some props' \<Rightarrow>
           bnd (arm_put svc p props' (if opt_true (resp_etag r) then resp_etag r else None)) raise_for_arm))
     else if resp_status r = 404 then bnd (arm_put svc p (new_pool_props svc p b) None) raise_for_arm
     else raise_for_arm r) ?Q ?E) ?E w1"
  proof (rule wp_keeps [OF arm_laws_keeps(2) [OF L]])
    fix r w2 assume g: "arm_get svc p w1 = (Inr r, w2)" and "pool_of w2 = pool_of w1"
    with w1 have w2: "pool_of w2 = pool_of w" by simp
    note res = arm_get_result [OF L g, unfolded w1]
    show "wp (if resp_status r = 200 then
       bnd (lift_sum (props_of (resp_body r))) (\<lambda>props.
       bnd (lift_sum (joined_props svc props b)) (\<lambda>joined.
       case joined of None \<Rightarrow> ret ()
       | Some props' \<Rightarrow>
           bnd (arm_put svc p props' (if opt_true (resp_etag r) then resp_etag r else None)) raise_for_arm))
     else if resp_status r = 404 then bnd (arm_put svc p (new_pool_props svc p b) None) raise_for_arm
     else raise_for_arm r) ?Q ?E w2"
    proof (cases "pool_of w p")
      case None
      then have st: "resp_status r \<noteq> 200"
        using res by (auto simp: is_error_def)
      have "?Q () w'" if "pool_of w' = (pool_of w2)(p := Some (new_pool_props svc p b))" for w'
        using that w2 None member_matches [of b svc]
        by (simp add: pool_has_def has_member_new others_same_def pool_services_at_def members_new)
      then have put: "wp (bnd (arm_put svc p (new_pool_props svc p b) None) raise_for_arm) ?Q ?E w2"
        using w2 by (intro wp_put [OF L]) auto
      then show ?thesis
        using st res None w2 by (auto simp: wp_rules simp del: wp_bnd)
    next
      case (Some props)
      show ?thesis
      proof (cases "resp_status r = 200")
        case True
        then have props: "props_of (resp_body r) = Inr props"
          using res Some by (auto simp: is_error_def)
        show ?thesis
        proof (cases "joined_props svc props b")
          case (Inl e)
          then show ?thesis using True props w2 by (simp add: wp_rules)
        next
          case (Inr j)
          show ?thesis
          proof (cases j)
            case None
            then have "has_member props b" using Inr joined_None by blast
            then show ?thesis
              using True props Inr None Some w2 by (simp add: wp_rules pool_has_def others_same_refl)
          next
            case j': (Some props')
            then have m: "members props' = members props @ [member_of svc b]"
              using Inr members_joined by blast
            have "?Q () w'" if "pool_of w' = (pool_of w2)(p := Some props')" for w'
              using that w2 Some m member_matches [of b svc]
              by (simp add: pool_has_def has_member_def others_same_def pool_services_at_def)
            then have "wp (bnd (arm_put svc p props' t) raise_for_arm) ?Q ?E w2" for t
              using w2 by (intro wp_put [OF L]) auto
            then show ?thesis
              using True props Inr j' by (simp add: wp_rules(6) wp_bnd wp_lift_sum)
          qed
        qed
      next
        case False
        then have "is_error r" "resp_status r \<noteq> 404"
          using res Some by auto
        then show ?thesis
          using False w2 by (simp add: wp_rules)
      qed
    qed
  qed (use w1 in simp)
qed simp

lemma wp_detach:
  assumes L: "arm_laws pool_of svc" and "\<And>w'. pool_of w' = pool_of w \<Longrightarrow> Q () w'"
    and "\<And>e w'. pool_of w' = pool_of w \<Longrightarrow> E e w'"
  shows "wp (if opt_true pr then detach_api_policy svc (opt_or_empty pr) else ret ()) Q E w"
  unfolding detach_api_policy_def
  by (auto simp: wp_rules assms(2,3) split: option.splits intro!: wp_keeps [OF arm_laws_keeps(5) [OF L]])

lemma wp_delete:
  assumes L: "arm_laws pool_of svc"
    and "\<And>w'. \<forall>q. pool_of w' q = (if q = p then None else pool_of w q) \<Longrightarrow> Q () w'"
    and "\<And>e w'. pool_of w' = pool_of w \<Longrightarrow> E e w'"
  shows "wp (bnd (arm_delete svc p t) (\<lambda>dr. if resp_status dr \<noteq> 404 then raise_for_arm dr else ret ())) Q E w"
  unfolding wp_bnd
proof (rule wpI_frame)
  fix r w' assume d: "arm_delete svc p t w = (Inr r, w')"
  have "if resp_status r = 404 then pool_of w p = None \<and> pool_of w' = pool_of w
        else if is_error r then pool_of w' = pool_of w else pool_of w' = (pool_of w)(p := None)"
    using L d by (simp add: arm_laws_def arm_delete_law_def)
  then show "wp (if resp_status r \<noteq> 404 then raise_for_arm r else ret ()) Q E w'"
    using assms(2,3) by (auto simp: wp_rules split: if_splits)
next
  fix e w' assume "arm_delete svc p t w = (Inl e, w')"
  then have "pool_of w' = pool_of w"
    using L by (simp add: arm_laws_def arm_delete_law_def)
  then show "E e w'" by (rule assms(3))
qed

text \<open>The part of leaving after the properties have been read.\<close>

lemma wp_leave:
  assumes L: "arm_laws pool_of svc" and w2: "pool_of w2 = pool_of w" and Some: "pool_of w p = Some props"
  shows "wp (bnd (lift_sum (left_props props b)) (\<lambda>step.
       case step of
         NotMember \<Rightarrow> ret ()
       | DropPool \<Rightarrow>
           sq (if opt_true pr then detach_api_policy svc (opt_or_empty pr) else ret ())
          (bnd (arm_delete svc p etag) (\<lambda>dr. if resp_status dr \<noteq> 404 then raise_for_arm dr else ret ()))
       | WriteProps props' \<Rightarrow> bnd (arm_put svc p props' (Some etag)) raise_for_arm))
     (\<lambda>_ w'. \<not> pool_has pool_of w' p b \<and> others_same pool_of p b w w') (\<lambda>_ w'. pool_of w' = pool_of w) w2"
  (is "wp _ ?Q ?E w2")
proof (cases "left_props props b")
  case (Inl e)
  then show ?thesis using w2 by (simp add: wp_rules)
next
  case (Inr step)
  show ?thesis
  proof (cases step)
    case NotMember
    then have "\<not> has_member props b"
      using Inr left_not_member by blast
    then show ?thesis
      using Inr NotMember Some w2 by (simp add: wp_rules pool_has_def others_same_refl)
  next
    case DropPool
    have gone: "?Q () w'" if "\<forall>q. pool_of w' q = (if q = p then None else pool_of w q)" for w'
      using that Some left_drop Inr DropPool
      by (simp add: pool_has_def others_same_def pool_services_at_def)
    have "wp (bnd (arm_delete svc p etag) (\<lambda>dr. if resp_status dr \<noteq> 404 then raise_for_arm dr else ret ())) ?Q ?E w3"
      if "pool_of w3 = pool_of w2" for w3
      using that w2 gone by (intro wp_delete [OF L]) simp_all
    then have "wp (sq (if opt_true pr then detach_api_policy svc (opt_or_empty pr) else ret ())
          (bnd (arm_delete svc p etag) (\<lambda>dr. if resp_status dr \<noteq> 404 then raise_for_arm dr else ret ()))) ?Q ?E w2"
      unfolding wp_sq using w2 by (intro wp_detach [OF L]) simp_all
    then show ?thesis
      using Inr DropPool by (simp add: wp_bnd wp_lift_sum)
  next
    case (WriteProps props')
    note m = members_left [OF Inr [unfolded WriteProps]]
    have "?Q () w'" if "pool_of w' = (pool_of w2)(p := Some props')" for w'
      using that w2 Some m by (simp add: pool_has_def has_member_def others_same_def pool_services_at_def list_ex_iff)
    then have "wp (bnd (arm_put svc p props' (Some etag)) raise_for_arm) ?Q ?E w2"
      using w2 by (intro wp_put [OF L]) simp_all
    then show ?thesis
      using Inr WriteProps by (simp add: wp_bnd wp_lift_sum)
  qed
qed

lemma wp_pool_remove:
  assumes L: "arm_laws pool_of svc"
  shows "wp (pool_remove_service svc p b pr) (\<lambda>_ w'. \<not> pool_has pool_of w' p b \<and> others_same pool_of p b w w')
           (\<lambda>_ w'. pool_of w' = pool_of w) w"
  unfolding pool_remove_service_def wp_bnd
proof (rule wp_keeps [OF arm_laws_keeps(1) [OF L]])
  fix tok w1 assume w1: "pool_of w1 = pool_of w"
  let ?Q = "\<lambda>_ w'. \<not> pool_has pool_of w' p b \<and> others_same pool_of p b w w'"
  let ?E = "\<lambda>_ w'. pool_of w' = pool_of w"
  let ?etag = "\<lambda>r. if opt_true (resp_etag r) then opt_or_empty (resp_etag r) else ''*''"
  let ?rest = "\<lambda>r. sq (raise_for_arm r)
      (bnd (lift_sum (props_of (resp_body r))) (\<lambda>props.
       bnd (lift_sum (left_props props b)) (\<lambda>step. let etag = ?etag r in
       case step of
         NotMember \<Rightarrow> ret ()
       | DropPool \<Rightarrow>
           sq (if opt_true pr then detach_api_policy svc (opt_or_empty pr) else ret ())
          (bnd (arm_delete svc p etag) (\<lambda>dr. if resp_status dr \<noteq> 404 then raise_for_arm dr else ret ()))
       | WriteProps props' \<Rightarrow> bnd (arm_put svc p props' (Some etag)) raise_for_arm)))"
  show "wp (arm_get svc p) (\<lambda>r. wp (if resp_status r = 404 then ret () else ?rest r) ?Q ?E) ?E w1"
  proof (rule wp_keeps [OF arm_laws_keeps(2) [OF L]])
    fix r w2 assume g: "arm_get svc p w1 = (Inr r, w2)" and "pool_of w2 = pool_of w1"
    with w1 have w2: "pool_of w2 = pool_of w" by simp
    note res = arm_get_result [OF L g, unfolded w1]
    show "wp (if resp_status r = 404 then ret () else ?rest r) ?Q ?E w2"
    proof (cases "pool_of w p")
      case None
      then show ?thesis
        using res w2 by (auto simp: wp_rules pool_has_def others_same_refl)
    next
      case (Some props)
      show ?thesis
      proof (cases "is_error r")
        case True
        then show ?thesis
          using res Some w2 by (auto simp: wp_rules is_error_def)
      next
        case False
        then have ok: "resp_status r = 200" "props_of (resp_body r) = Inr props"
          using res Some by auto
        show ?thesis
          using wp_leave [OF L w2 Some, of b pr "?etag r"] False ok
          by (simp add: wp_sq wp_raise_for_arm wp_bnd wp_lift_sum Let_def)
      qed
    qed
  qed (use w1 in simp)
qed simp

section \<open>Properties\<close>

definition no_members_lost :: "('w \<Rightarrow> string \<Rightarrow> jdict option) \<Rightarrow> string \<Rightarrow> 'w \<Rightarrow> 'w \<Rightarrow> bool" where
  "no_members_lost pool_of account_id w w' \<longleftrightarrow>
     (\<forall>provider \<in> set POOL_PROVIDERS.
        let sel = filter (\<lambda>s. service_matches (svc_suffix (hub_backend provider account_id)) s \<noteq> Inr True) in
        sel (pool_services_at pool_of w' (pool_name provider)) = sel (pool_services_at pool_of w (pool_name provider)))"

definition hub_in_no_pool :: "('w \<Rightarrow> string \<Rightarrow> jdict option) \<Rightarrow> string \<Rightarrow> 'w \<Rightarrow> bool" where
  "hub_in_no_pool pool_of account_id w \<longleftrightarrow>
     (\<forall>provider \<in> set POOL_PROVIDERS. \<not> pool_has pool_of w (pool_name provider) (hub_backend provider account_id))"

definition hub_in_every_pool :: "('w \<Rightarrow> string \<Rightarrow> jdict option) \<Rightarrow> string \<Rightarrow> 'w \<Rightarrow> bool" where
  "hub_in_every_pool pool_of account_id w \<longleftrightarrow>
     (\<forall>provider \<in> set POOL_PROVIDERS. pool_has pool_of w (pool_name provider) (hub_backend provider account_id))"

lemma pool_name_inj [simp]: "pool_name a = pool_name b \<longleftrightarrow> a = b"
  by (simp add: pool_name_def)

lemma pool_providers_distinct: "distinct POOL_PROVIDERS"
  by (simp add: POOL_PROVIDERS_def)

lemma no_members_lost_refl: "pool_of w' = pool_of w \<Longrightarrow> no_members_lost pool_of a w w'"
  by (simp add: no_members_lost_def pool_services_at_def)

lemma no_members_lost_step:
  assumes "no_members_lost pool_of a w w1" and "others_same pool_of (pool_name pr) (hub_backend pr a) w1 w2"
  shows "no_members_lost pool_of a w w2"
  unfolding no_members_lost_def Let_def
proof
  fix q assume q: "q \<in> set POOL_PROVIDERS"
  have "pool_services_at pool_of w2 (pool_name q) = pool_services_at pool_of w1 (pool_name q)" if "q \<noteq> pr"
    using that assms(2) by (simp add: others_same_def pool_services_at_def)
  then show "filter (\<lambda>s. service_matches (svc_suffix (hub_backend q a)) s \<noteq> Inr True) (pool_services_at pool_of w2 (pool_name q)) =
     filter (\<lambda>s. service_matches (svc_suffix (hub_backend q a)) s \<noteq> Inr True) (pool_services_at pool_of w (pool_name q))"
    using q assms by (cases "q = pr") (auto simp: no_members_lost_def others_same_def Let_def)
qed

lemma wp_remove_backend:
  assumes L: "arm_laws pool_of svc" and "\<And>w'. pool_of w' = pool_of w \<Longrightarrow> Q () w'"
    and "\<And>e w'. pool_of w' = pool_of w \<Longrightarrow> E e w'"
  shows "wp (remove_backend svc b) Q E w"
  unfolding remove_backend_def wp_catch
  by (rule wp_keeps [OF arm_laws_keeps(4) [OF L]]) (auto simp: wp_rules assms(2,3))

lemma pool_has_cong: "pool_of w' p = pool_of w p \<Longrightarrow> pool_has pool_of w' p b = pool_has pool_of w p b"
  by (simp add: pool_has_def)

lemma no_members_lost_trans:
  "no_members_lost pool_of a w w1 \<Longrightarrow> no_members_lost pool_of a w1 w2 \<Longrightarrow> no_members_lost pool_of a w w2"
  unfolding no_members_lost_def Let_def by simp

lemma others_same_pool: "others_same pool_of p b w w' \<Longrightarrow> q \<noteq> p \<Longrightarrow> pool_of w' q = pool_of w q"
  by (simp add: others_same_def)


lemma wp_add_hub_from:
  assumes L: "arm_laws pool_of svc"
  shows "distinct prs \<Longrightarrow> list_all (\<lambda>p. dict_get PROVIDER_APIS p \<noteq> None) prs \<Longrightarrow>
    wp (add_hub_from svc a base key prs created)
     (\<lambda>r t. r = created @ map (\<lambda>p. hub_backend p a) prs
        \<and> (\<forall>p \<in> set prs. pool_has pool_of t (pool_name p) (hub_backend p a))
        \<and> (\<forall>q. q \<notin> pool_name ` set prs \<longrightarrow> pool_of t q = pool_of w q)
        \<and> no_members_lost pool_of a w t) (\<lambda>_ _. True) w"
proof (induction prs arbitrary: created w)
  case Nil
  then show ?case by (simp add: wp_rules no_members_lost_refl)
next
  case (Cons p prs)
  then obtain cfg where cfg: "dict_get PROVIDER_APIS p = Some cfg" by auto
  let ?b = "hub_backend p a"
  let ?Q = "\<lambda>r t. r = created @ map (\<lambda>p. hub_backend p a) (p # prs)
        \<and> (\<forall>q \<in> set (p # prs). pool_has pool_of t (pool_name q) (hub_backend q a))
        \<and> (\<forall>q. q \<notin> pool_name ` set (p # prs) \<longrightarrow> pool_of t q = pool_of w q)
        \<and> no_members_lost pool_of a w t"
  have tail: "wp (add_hub_from svc a base key prs (created @ [?b])) ?Q (\<lambda>_ _. True) t"
    if "pool_has pool_of t (pool_name p) ?b" "others_same pool_of (pool_name p) ?b u t" "pool_of u = pool_of w" for t u
  proof (rule wp_conseq [OF Cons.IH])
    fix r v
    assume v: "r = (created @ [?b]) @ map (\<lambda>p. hub_backend p a) prs
        \<and> (\<forall>p \<in> set prs. pool_has pool_of v (pool_name p) (hub_backend p a))
        \<and> (\<forall>q. q \<notin> pool_name ` set prs \<longrightarrow> pool_of v q = pool_of t q) \<and> no_members_lost pool_of a t v"
    have "pool_of v (pool_name p) = pool_of t (pool_name p)"
    proof -
      have "pool_name p \<notin> pool_name ` set prs"
        using Cons.prems(1) by auto
      then show ?thesis using v by blast
    qed
    then have "pool_has pool_of v (pool_name p) ?b"
      using that(1) by (simp add: pool_has_def)
    moreover have "no_members_lost pool_of a w t"
      by (rule no_members_lost_step [OF no_members_lost_refl [OF that(3)] that(2)])
    then have "no_members_lost pool_of a w v"
      by (rule no_members_lost_trans) (use v in simp)
    ultimately show "?Q r v"
      using v that(2,3) by (auto simp: others_same_pool)
  qed (use Cons.prems in simp_all)
  have "wp (pool_add_service svc (pool_name p) ?b) (\<lambda>_. wp (add_hub_from svc a base key prs (created @ [?b])) ?Q (\<lambda>_ _. True))
      (\<lambda>_ _. True) u" if "pool_of u = pool_of w" for u
    by (rule wp_conseq [OF wp_pool_add [OF L]]) (use tail that in blast)+
  then have "wp (ensure_provider_backend svc ?b base (auth_header cfg) key (bearer cfg))
      (\<lambda>_. wp (pool_add_service svc (pool_name p) ?b) (\<lambda>_. wp (add_hub_from svc a base key prs (created @ [?b])) ?Q (\<lambda>_ _. True))
      (\<lambda>_ _. True)) (\<lambda>_ _. True) w"
    unfolding ensure_provider_backend_def Let_def wp_bnd
    by (intro wp_keeps [OF arm_laws_keeps(3) [OF L]]) (simp_all add: wp_rules)
  then show ?case
    by (simp add: cfg wp_fun_rules Let_def del: set_simps)
qed


text \<open>An ARM in memory: the world is the properties of each pool.\<close>

definition mem_arm :: "(string \<Rightarrow> jdict option) arm_svc" where
  "mem_arm = \<lparr>arm_base = ''https://management.azure.com/s'', arm_token = ret ''token'',
     arm_get = (\<lambda>p w. (Inr (case w p of
          None \<Rightarrow> \<lparr>resp_status = 404, resp_etag = None, resp_body = JNull, resp_text = ''not found''\<rparr>
        | Some props \<Rightarrow> \<lparr>resp_status = 200, resp_etag = Some ''e1'', resp_body = JObj [(''properties'', JObj props)], resp_text = []\<rparr>), w)),
     arm_put = (\<lambda>p props t w. (Inr \<lparr>resp_status = 200, resp_etag = None, resp_body = JNull, resp_text = []\<rparr>, w(p := Some props))),
     arm_delete = (\<lambda>p t w. (Inr \<lparr>resp_status = (if w p = None then 404 else 200), resp_etag = None, resp_body = JNull, resp_text = []\<rparr>, w(p := None))),
     backend_put = (\<lambda>b c. ret (Some b)), backend_delete = (\<lambda>b. ret ()), policy_delete = (\<lambda>a. ret ())\<rparr>"

lemma mem_arm_laws: "arm_laws id mem_arm"
  by (auto simp: arm_laws_def arm_get_law_def arm_put_law_def arm_delete_law_def keeps_def mem_arm_def ret_def
      is_error_def props_of_def jget_or_def split: option.splits if_splits)

definition mem_pools :: "string \<Rightarrow> jdict option" where
  "mem_pools = (\<lambda>_. None)(''llm-openai-pool'' := Some (new_pool_props mem_arm ''llm-openai-pool'' ''llm-openai-a1''))"

lemma mem_left: "left_props (new_pool_props mem_arm ''llm-openai-pool'' ''llm-openai-a1'') ''llm-openai-a1'' = Inr DropPool"
  by code_simp



end
