(* ===== verification/Rows.thy ===== *)
theory Rows
  imports PyFloat Timestamps
begin

text \<open>
  The control plane's data (\<^verbatim>\<open>models/enums.py\<close>, \<^verbatim>\<open>models/orm.py\<close>,
  \<^verbatim>\<open>models/schemas.py\<close>): one datatype per enum, one record per table, one record per
  request or response body.

  A table is the list of its rows.  \<^verbatim>\<open>tables\<close> is the metadata database, and
  \<^verbatim>\<open>constraints_ok\<close> what its keys, foreign keys and unique indexes guarantee.  A record
  field carries a prefix naming its table where the source's class does.  A \<^verbatim>\<open>datetime\<close> is
  microseconds since year 1, UTC.  \<^verbatim>\<open>updated_at\<close> and column widths are left out: no code
  reads the first, and an over-long value is one of the failures a commit may have.
\<close>

section \<open>Enums\<close>

datatype tenant_mode = RESELL | BYO | INTERNAL

datatype owner_scope = OWNER_PLATFORM | OWNER_TENANT

datatype auth_mode = MI | KV_SECRET

datatype budget_action = ALERT | BLOCK

datatype token_quota_period = HOURLY | DAILY | WEEKLY | MONTHLY | YEARLY

fun period_value :: "token_quota_period \<Rightarrow> string" where
  "period_value HOURLY = ''Hourly''"
| "period_value DAILY = ''Daily''"
| "period_value WEEKLY = ''Weekly''"
| "period_value MONTHLY = ''Monthly''"
| "period_value YEARLY = ''Yearly''"

datatype token_quota_tier = TIER_NONE | SMALL | MEDIUM | LARGE

fun tier_value :: "token_quota_tier \<Rightarrow> string" where
  "tier_value TIER_NONE = ''none''"
| "tier_value SMALL = ''small''"
| "tier_value MEDIUM = ''medium''"
| "tier_value LARGE = ''large''"

definition TOKEN_QUOTA_AMOUNTS :: "(token_quota_tier, int) dict" where
  "TOKEN_QUOTA_AMOUNTS = [(SMALL, 1000000), (MEDIUM, 10000000), (LARGE, 100000000)]"

datatype budget_scope = SCOPE_TENANT | SCOPE_PROJECT | SCOPE_KEY

datatype key_status = KEY_ACTIVE | KEY_SUSPENDED | KEY_EXPIRED

datatype tenant_status = TENANT_ACTIVE | TENANT_SUSPENDED

datatype provider = OPENAI | ANTHROPIC | GOOGLE | AZURE

fun provider_value :: "provider \<Rightarrow> string" where
  "provider_value OPENAI = ''openai''"
| "provider_value ANTHROPIC = ''anthropic''"
| "provider_value GOOGLE = ''google''"
| "provider_value AZURE = ''azure''"

datatype user_role = ADMIN | CUSTOMER

fun role_value :: "user_role \<Rightarrow> string" where
  "role_value ADMIN = ''admin''"
| "role_value CUSTOMER = ''customer''"

text \<open>\<^verbatim>\<open>UserRole(text)\<close>, whose \<^verbatim>\<open>ValueError\<close> is \<^verbatim>\<open>None\<close>.\<close>

definition role_of :: "string \<Rightarrow> user_role option" where
  "role_of s = (if s = ''admin'' then Some ADMIN else if s = ''customer'' then Some CUSTOMER else None)"

lemma role_of_value [simp]: "role_of (role_value r) = Some r"
  by (cases r) (simp_all add: role_of_def)

datatype deploy_status = PENDING | DEPLOYING | READY | FAILED | DELETING

fun deploy_value :: "deploy_status \<Rightarrow> string" where
  "deploy_value PENDING = ''pending''"
| "deploy_value DEPLOYING = ''deploying''"
| "deploy_value READY = ''ready''"
| "deploy_value FAILED = ''failed''"
| "deploy_value DELETING = ''deleting''"

definition VENDOR_PREFIXES :: "(string list \<times> string) list" where
  "VENDOR_PREFIXES =
     [([''claude''], ''Anthropic''),
      ([''gpt'', ''o1-'', ''o3-'', ''o4-'', ''chatgpt'', ''text-embedding''], ''OpenAI''),
      ([''gemini''], ''Google''),
      ([''grok''], ''xAI''),
      ([''kimi''], ''Moonshot''),
      ([''deepseek''], ''DeepSeek''),
      ([''mai-''], ''Microsoft''),
      ([''llama''], ''Meta''),
      ([''mistral'', ''codestral''], ''Mistral'')]"

fun vendor_in :: "string \<Rightarrow> (string list \<times> string) list \<Rightarrow> string option" where
  "vendor_in m [] = None"
| "vendor_in m ((pfs, vendor) # rest) =
     (if list_ex (starts_with m) pfs then Some vendor else vendor_in m rest)"

definition vendor_for_model :: "string \<Rightarrow> string option" where
  "vendor_for_model model_id = vendor_in (lower model_id) VENDOR_PREFIXES"

section \<open>Tables\<close>

record tenant =
  tn_id :: string
  tn_name :: string
  tn_mode :: tenant_mode
  tn_billing_account_id :: "string option"
  tn_apim_product_ids :: "string list"
  tn_status :: tenant_status
  tn_audit_enabled :: bool
  tn_created_at :: utc

record project =
  pj_id :: string
  pj_tenant_id :: string
  pj_name :: string
  pj_cost_center :: "string option"
  pj_created_at :: utc

record virtual_key =
  vk_id :: string
  vk_project_id :: string
  vk_apim_subscription_id :: "string option"
  vk_keyvault_ref :: "string option"
  vk_allowed_route_ids :: "string list"
  vk_tokens_per_minute :: "int option"
  vk_token_quota_tier :: "token_quota_tier option"
  vk_token_quota_period :: "token_quota_period option"
  vk_expires_at :: "utc option"
  vk_status :: key_status
  vk_created_at :: utc

record model_route =
  rt_id :: string
  rt_tenant_id :: "string option"
  rt_name :: string
  rt_provider :: provider
  rt_vendor :: "string option"
  rt_apim_backend_or_pool_id :: "string option"
  rt_deployment_name :: "string option"
  rt_api_version :: "string option"
  rt_owner_scope :: owner_scope
  rt_auth_mode :: auth_mode
  rt_price_in_per_1k :: pyfloat
  rt_price_out_per_1k :: pyfloat
  rt_markup_pct :: pyfloat
  rt_created_at :: utc

record budget =
  bg_id :: string
  bg_scope :: budget_scope
  bg_target_id :: string
  bg_period_type :: string
  bg_limit_usd :: pyfloat
  bg_spent_usd :: pyfloat
  bg_reset_at :: "utc option"
  bg_action :: budget_action
  bg_tenant_id :: "string option"

record user =
  us_id :: string
  us_username :: string
  us_password_hash :: string
  us_role :: user_role
  us_tenant_id :: "string option"
  us_disabled :: bool
  us_created_at :: utc

record github_account =
  ga_id :: string
  ga_github_login :: "string option"
  ga_github_user_id :: "string option"
  ga_oauth_token_kv_ref :: "string option"
  ga_hub_key_kv_ref :: "string option"
  ga_admin_token_kv_ref :: "string option"
  ga_status :: deploy_status
  ga_error_detail :: "string option"
  ga_device_code :: "string option"
  ga_resource_group :: "string option"
  ga_container_app_fqdn :: "string option"
  ga_tf_state_key :: "string option"
  ga_backend_ids :: "string list"
  ga_usage_events_dropped :: int
  ga_usage_events_lost :: int
  ga_audit_payloads_dropped :: int
  ga_hub_status_at :: "utc option"
  ga_hub_logged_in :: "bool option"
  ga_hub_drop_reason :: "string option"
  ga_created_at :: utc

record tables =
  tenants :: "tenant list"
  projects :: "project list"
  virtual_keys :: "virtual_key list"
  model_routes :: "model_route list"
  budgets :: "budget list"
  users :: "user list"
  github_accounts :: "github_account list"

definition no_tables :: tables where
  "no_tables = \<lparr>tenants = [], projects = [], virtual_keys = [], model_routes = [], budgets = [], users = [],
     github_accounts = []\<rparr>"

section \<open>Rows by key\<close>

text \<open>\<^verbatim>\<open>db.get\<close>, and the update of the row that was loaded.\<close>

definition row_by :: "('r \<Rightarrow> string) \<Rightarrow> string \<Rightarrow> 'r list \<Rightarrow> 'r option" where
  "row_by key i rows = List.find (\<lambda>r. key r = i) rows"

definition put_row :: "('r \<Rightarrow> string) \<Rightarrow> 'r \<Rightarrow> 'r list \<Rightarrow> 'r list" where
  "put_row key r rows = map (\<lambda>x. if key x = key r then r else x) rows"

lemma row_by_Some: "row_by key i rows = Some r \<Longrightarrow> r \<in> set rows \<and> key r = i"
  unfolding row_by_def by (auto simp: find_Some_iff)

lemma row_by_key: "row_by key i rows = Some r \<Longrightarrow> key r = i"
  using row_by_Some by fastforce

lemma row_by_mem: "row_by key i rows = Some r \<Longrightarrow> i \<in> key ` set rows"
  using row_by_Some by fastforce

lemma row_by_None: "row_by key i rows = None \<longleftrightarrow> i \<notin> key ` set rows"
  unfolding row_by_def by (auto simp: find_None_iff)

lemma row_by_in: "distinct (map key rows) \<Longrightarrow> r \<in> set rows \<Longrightarrow> row_by key (key r) rows = Some r"
proof (induction rows)
  case (Cons x rows)
  then show ?case by (auto simp: row_by_def)
qed simp

lemma keys_put_row [simp]: "map key (put_row key r rows) = map key rows"
  by (simp add: put_row_def comp_def)

lemma set_put_row: "x \<in> set (put_row key r rows) \<Longrightarrow> x = r \<or> x \<in> set rows \<and> key x \<noteq> key r"
  by (auto simp: put_row_def split: if_splits)

lemma put_row_mem: "key r \<in> key ` set rows \<Longrightarrow> r \<in> set (put_row key r rows)"
  by (auto simp: put_row_def image_iff)

lemma put_row_keeps: "x \<in> set rows \<Longrightarrow> key x \<noteq> key r \<Longrightarrow> x \<in> set (put_row key r rows)"
  by (auto simp: put_row_def image_iff)

text \<open>The rows of two lists hold the same values of \<^verbatim>\<open>g\<close> when an update leaves \<^verbatim>\<open>g\<close> alone.\<close>

lemma map_put_row:
  assumes "distinct (map key rows)" and "r0 \<in> set rows" and "key r0 = key r" and "g r0 = g r"
  shows "map g (put_row key r rows) = map g rows"
proof -
  have "g (if key x = key r then r else x) = g x" if "x \<in> set rows" for x
  proof (cases "key x = key r")
    case True
    then have "x = r0"
      using assms(1-3) that inj_onD [of key "set rows" x r0] by (simp add: distinct_map)
    then show ?thesis using assms(3,4) by simp
  qed simp
  then show ?thesis
    by (simp add: put_row_def)
qed

section \<open>Constraints\<close>

text \<open>Primary keys, the unique user name, the foreign keys, and the partial unique index on the
  names of platform routes.\<close>

definition platform_names :: "model_route list \<Rightarrow> string list" where
  "platform_names rs = map rt_name (filter (\<lambda>r. rt_owner_scope r = OWNER_PLATFORM \<and> rt_tenant_id r = None) rs)"

definition constraints_ok :: "tables \<Rightarrow> bool" where
  "constraints_ok t \<longleftrightarrow>
     distinct (map tn_id (tenants t)) \<and> distinct (map pj_id (projects t)) \<and> distinct (map vk_id (virtual_keys t))
   \<and> distinct (map rt_id (model_routes t)) \<and> distinct (map bg_id (budgets t)) \<and> distinct (map us_id (users t))
   \<and> distinct (map ga_id (github_accounts t)) \<and> distinct (map us_username (users t))
   \<and> list_all (\<lambda>p. pj_tenant_id p \<in> tn_id ` set (tenants t)) (projects t)
   \<and> list_all (\<lambda>k. vk_project_id k \<in> pj_id ` set (projects t)) (virtual_keys t)
   \<and> list_all (\<lambda>r. case rt_tenant_id r of None \<Rightarrow> True | Some i \<Rightarrow> i \<in> tn_id ` set (tenants t)) (model_routes t)
   \<and> distinct (platform_names (model_routes t))"

lemma constraints_distinct:
  "constraints_ok t \<Longrightarrow> distinct (map tn_id (tenants t))"
  "constraints_ok t \<Longrightarrow> distinct (map pj_id (projects t))"
  "constraints_ok t \<Longrightarrow> distinct (map vk_id (virtual_keys t))"
  "constraints_ok t \<Longrightarrow> distinct (map us_id (users t))"
  "constraints_ok t \<Longrightarrow> distinct (map us_username (users t))"
  "constraints_ok t \<Longrightarrow> distinct (map ga_id (github_accounts t))"
  "constraints_ok t \<Longrightarrow> distinct (map rt_id (model_routes t))"
  by (simp_all add: constraints_ok_def)

section \<open>Bodies\<close>

record login_request =
  lr_username :: string
  lr_password :: string

record token_response =
  tr_access_token :: string
  tr_role :: user_role
  tr_tenant_id :: "string option"

record user_create =
  uc_username :: string
  uc_password :: string
  uc_role :: user_role
  uc_tenant_id :: "string option"

record user_update =
  uu_role :: "user_role option"
  uu_tenant_id :: "string option"
  uu_disabled :: "bool option"

record password_reset =
  new_password :: string

record password_change =
  pc_old_password :: string
  pc_new_password :: string

record tenant_create =
  tc_name :: string
  tc_mode :: tenant_mode
  tc_billing_account_id :: "string option"

record tenant_update =
  tu_name :: "string option"
  tu_mode :: "tenant_mode option"
  tu_audit_enabled :: "bool option"

record project_create =
  jc_tenant_id :: string
  jc_name :: string
  jc_cost_center :: "string option"

record project_update =
  ju_name :: "string option"
  ju_cost_center :: "string option"

record virtual_key_create =
  kc_project_id :: string
  kc_allowed_route_ids :: "string list"
  kc_tokens_per_minute :: "int option"
  kc_token_quota_tier :: "token_quota_tier option"
  kc_token_quota_period :: "token_quota_period option"
  kc_expires_at :: "utc option"

text \<open>The validation of a new key: the bounds of \<^verbatim>\<open>tokens_per_minute\<close> and the pairing of tier and
  period.\<close>

definition quota_pair :: "virtual_key_create \<Rightarrow> bool" where
  "quota_pair b =
     (let has_tier = (kc_token_quota_tier b \<noteq> None \<and> kc_token_quota_tier b \<noteq> Some TIER_NONE);
          has_period = (kc_token_quota_period b \<noteq> None)
      in has_tier = has_period)"

definition valid_key_create :: "virtual_key_create \<Rightarrow> bool" where
  "valid_key_create b \<longleftrightarrow>
     (case kc_tokens_per_minute b of None \<Rightarrow> True | Some n \<Rightarrow> 0 < n \<and> n \<le> 100000000) \<and> quota_pair b"

record virtual_key_out =
  ko_id :: string
  ko_project_id :: string
  ko_apim_subscription_id :: "string option"
  ko_allowed_route_ids :: "string list"
  ko_tokens_per_minute :: "int option"
  ko_token_quota_tier :: "token_quota_tier option"
  ko_token_quota_period :: "token_quota_period option"
  ko_expires_at :: "utc option"
  ko_status :: key_status
  ko_created_at :: utc

record virtual_key_secret = virtual_key_out +
  ks_key_value :: string

record model_route_create =
  rc_name :: string
  rc_provider :: provider
  rc_tenant_id :: "string option"
  rc_deployment_name :: "string option"
  rc_api_version :: "string option"
  rc_backend_url :: "string option"
  rc_owner_scope :: owner_scope
  rc_auth_mode :: auth_mode
  rc_backend_secret :: "string option"
  rc_price_in_per_1k :: pyfloat
  rc_price_out_per_1k :: pyfloat
  rc_markup_pct :: pyfloat

record model_route_update =
  ru_name :: "string option"
  ru_deployment_name :: "string option"
  ru_api_version :: "string option"
  ru_price_in_per_1k :: "pyfloat option"
  ru_price_out_per_1k :: "pyfloat option"
  ru_markup_pct :: "pyfloat option"

record budget_create =
  bc_scope :: budget_scope
  bc_target_id :: string
  bc_limit_usd :: pyfloat
  bc_period_type :: string
  bc_action :: budget_action
  bc_tenant_id :: "string option"

end
