(* ===== verification/ApimProvider.thy ===== *)
theory ApimProvider
  imports Rows Config KeyLimits ApimPools
begin

text \<open>
  The rest of the provisioner (\<^verbatim>\<open>services/apim_provisioner.py\<close>): the policy texts, the
  wiring of a provider's API to a backend or a pool, and the subscriptions behind virtual keys.

  The SDK client is the record \<^verbatim>\<open>apim_svc\<close>, which holds the named value and the pools of
  the two sibling theories.  The lemmas show what the gateway is told: which policy an API gets,
  that the named value it refers to exists by then, and what the policy text does not contain.
\<close>

section \<open>Policy texts\<close>

text \<open>Lines of a policy text.\<close>

definition unlines :: "string list \<Rightarrow> string" where
  "unlines = join [CHR 0x0A]"

definition KEY_LIMITS_NV :: string where
  "KEY_LIMITS_NV = ''tf-key-token-limits''"

definition TPM_UNLIMITED :: int where
  "TPM_UNLIMITED = 1000000000"

definition PERIOD_DEFAULT :: string where
  "PERIOD_DEFAULT = ''Yearly''"

definition AUDIT_FLAG_EXPR :: string where
  "AUDIT_FLAG_EXPR =
     ''@''
       @ ''{ try { var m=Newtonsoft.Json.Linq.JObject.Parse((string)context.Variables[\"tfRaw\"]); ''
       @ ''var e=m[context.Subscription.Id] as Newtonsoft.Json.Linq.JObject; return ''
       @ ''(e!=null&amp;&amp;e[\"a\"]!=null&amp;&amp;(int)e[\"a\"]==1)?\"1\":\"0\"; } catch { return \"0\"; ''
       @ ''} }''"

definition MODEL_VAR :: string where
  "MODEL_VAR =
     ''<set-variable name=\"tfModel\" value=\"@''
       @ ''{ try { var b = context.Request.Body.As&lt;Newtonsoft.Json.Linq.JObject&gt;(preserveCont''
       @ ''ent:true); return (b != null &amp;&amp; b[&quot;model&quot;] != null) ? ''
       @ ''(string)b[&quot;model&quot;] : &quot;unknown&quot;; } catch { return ''
       @ ''&quot;unknown&quot;; } }\" />''"

definition HUB_EXPR :: string where
  "HUB_EXPR =
     ''@''
       @ ''{ try { string raw = &quot;&quot;; var sc = ''
       @ ''context.Response.Headers.GetValueOrDefault(&quot;Set-Cookie&quot;,&quot;&quot;); var ''
       @ ''src = sc.Contains(&quot;SessionId=&quot;) ? sc : ''
       @ ''context.Request.Headers.GetValueOrDefault(&quot;Cookie&quot;,&quot;&quot;); var i = ''
       @ ''src.IndexOf(&quot;SessionId=&quot;); if (i &lt; 0) { return &quot;unknown&quot;; } raw ''
       @ ''= src.Substring(i + 10); var semi = raw.IndexOf(';'); if (semi &gt;= 0) { raw = ''
       @ ''raw.Substring(0, semi); } raw = System.Uri.UnescapeDataString(raw); while (raw.Length % ''
       @ ''4 != 0) { raw = raw + &quot;=&quot;; } return ''
       @ ''System.Text.Encoding.UTF8.GetString(System.Convert.FromBase64String(raw)); } catch { ''
       @ ''return &quot;unknown&quot;; } }''"

definition USAGE_TRACE :: string where
  "USAGE_TRACE =
     ''<trace source=\"tokenfoundry-usage\" severity=\"information\"><message>@(\"llm-usage \" + ''
       @ ''context.Api.Id + \" \" + context.RequestId)</message><metadata name=\"requestId\" ''
       @ ''value=\"@(context.RequestId.ToString())\" /><metadata name=\"api\" ''
       @ ''value=\"@(context.Api.Id)\" /><metadata name=\"subscription\" ''
       @ ''value=\"@(context.Subscription?.Id ?? &quot;none&quot;)\" /><metadata name=\"model\" ''
       @ ''value=\"@(context.Variables.GetValueOrDefault&lt;string&gt;(&quot;tfModel&quot;, ''
       @ ''&quot;unknown&quot;))\" /><metadata name=\"hub\" value=\"''
       @ HUB_EXPR
       @ ''\" /></trace>''"

definition limit_lookup :: "string \<Rightarrow> string \<Rightarrow> string \<Rightarrow> string \<Rightarrow> string" where
  "limit_lookup field dflt cast_open cast_close =
     ''@''
       @ ''{ try { var m=Newtonsoft.Json.Linq.JObject.Parse((string)context.Variables[&quot;tfRaw&q''
       @ ''uot;]); var e=m[context.Subscription.Id] as Newtonsoft.Json.Linq.JObject; return ''
       @ ''(e!=null&amp;&amp;e[&quot;''
       @ field
       @ ''&quot;]!=null)?''
       @ cast_open
       @ ''e[&quot;''
       @ field
       @ ''&quot;]''
       @ cast_close
       @ '':''
       @ dflt
       @ ''; } catch { return ''
       @ dflt
       @ ''; } }''"

definition tpm_attr :: string where
  "tpm_attr =
     ''@(context.Variables.GetValueOrDefault&lt;int&gt;(&quot;tfTpm&quot;, ''
       @ int_str TPM_UNLIMITED
       @ ''))''"

definition period_attr :: string where
  "period_attr =
     ''@(context.Variables.GetValueOrDefault&lt;string&gt;(&quot;tfPeriod&quot;, &quot;''
       @ PERIOD_DEFAULT
       @ ''&quot;))''"

definition unlimited_when :: string where
  "unlimited_when =
     unlines
     [[],
      ''      <when condition=\"@(context.Variables.GetValueOrDefault&lt;int&gt;(&quot;tfTpm&quot''
       @ '';, ''
       @ int_str TPM_UNLIMITED
       @ '')==''
       @ int_str TPM_UNLIMITED
       @ '')\">'',
      ''        <!-- unlimited key: no llm-token-limit applied -->'',
      ''      </when>'']"

definition tier_when :: "token_quota_tier \<Rightarrow> int \<Rightarrow> string" where
  "tier_when tier amount =
     unlines
     [[],
      ''      <when condition=\"@((string)context.Variables[&quot;tfQTier&quot;]==&quot;''
       @ tier_value tier
       @ ''&quot;)\">'',
      ''        <llm-token-limit counter-key=\"@(context.Subscription.Id)\"'',
      ''          tokens-per-minute=\"''
       @ tpm_attr
       @ ''\"'',
      ''          token-quota=\"''
       @ int_str amount
       @ ''\" token-quota-period=\"''
       @ period_attr
       @ ''\"'',
      ''          estimate-prompt-tokens=\"false\"'',
      ''          remaining-tokens-header-name=\"x-remaining-tokens\"'',
      ''          remaining-quota-tokens-header-name=\"x-remaining-quota-tokens\"'',
      ''          tokens-consumed-header-name=\"x-consumed-tokens\" />'',
      ''      </when>'']"

definition limit_whens :: string where
  "limit_whens = unlimited_when @ concat (map (\<lambda>(tier, amount). tier_when tier amount) TOKEN_QUOTA_AMOUNTS)"

definition build_limit_block :: string where
  "build_limit_block =
     (let tpm_expr = limit_lookup ''t'' (int_str TPM_UNLIMITED) ''(int)'' [];
          period_var = limit_lookup ''p'' (''&quot;'' @ PERIOD_DEFAULT @ ''&quot;'') ''(string)'' [];
          qtier_var = limit_lookup ''qt'' ''&quot;none&quot;'' ''(string)'' [];
          whens = limit_whens
      in unlines
     [''<set-variable name=\"tfRaw\" value=\"{{''
       @ KEY_LIMITS_NV
       @ ''}}\" />'',
      ''    <set-variable name=\"tfTpm\" value=\"''
       @ tpm_expr
       @ ''\" />'',
      ''    <set-variable name=\"tfPeriod\" value=\"''
       @ period_var
       @ ''\" />'',
      ''    <set-variable name=\"tfQTier\" value=\"''
       @ qtier_var
       @ ''\" />'',
      ''    <choose>''
       @ whens,
      ''      <otherwise>'',
      ''        <llm-token-limit counter-key=\"@(context.Subscription.Id)\"'',
      ''          tokens-per-minute=\"''
       @ tpm_attr
       @ ''\"'',
      ''          estimate-prompt-tokens=\"false\"'',
      ''          remaining-tokens-header-name=\"x-remaining-tokens\"'',
      ''          tokens-consumed-header-name=\"x-consumed-tokens\" />'',
      ''      </otherwise>'',
      ''    </choose>''])"

definition build_provider_policy :: "string \<Rightarrow> string" where
  "build_provider_policy backend_id =
     unlines
     [''<policies>'',
      ''  <inbound>'',
      ''    <base />'',
      ''    <set-backend-service backend-id=\"''
       @ backend_id
       @ ''\" />'',
      ''    <set-header name=\"x-tf-subscription\" exists-action=\"override\">'',
      ''      <value>@(context.Subscription?.Id ?? \"none\")</value>'',
      ''    </set-header>'',
      ''    <set-header name=\"x-tf-api\" exists-action=\"override\">'',
      ''      <value>@(context.Api.Id)</value>'',
      ''    </set-header>'',
      ''    <set-header name=\"x-tf-request-id\" exists-action=\"override\">'',
      ''      <value>@(context.RequestId.ToString())</value>'',
      ''    </set-header>'',
      ''    ''
       @ build_limit_block,
      ''    <set-header name=\"x-tf-audit\" exists-action=\"override\">'',
      ''      <value>''
       @ AUDIT_FLAG_EXPR
       @ ''</value>'',
      ''    </set-header>'',
      ''    ''
       @ MODEL_VAR,
      ''    <llm-emit-token-metric namespace=\"tokenfoundry\">'',
      ''      <dimension name=\"subscription\" value=\"@(context.Subscription.Id)\" />'',
      ''      <dimension name=\"api\" value=\"@(context.Api.Id)\" />'',
      ''      <dimension name=\"model\" value=\"@(context.Variables.GetValueOrDefault&lt;string&gt;''
       @ ''(&quot;tfModel&quot;, &quot;unknown&quot;))\" />'',
      ''    </llm-emit-token-metric>'',
      ''  </inbound>'',
      ''  <backend><base /></backend>'',
      ''  <outbound>'',
      ''    <base />'',
      ''    ''
       @ USAGE_TRACE,
      ''  </outbound>'',
      ''  <on-error><base /></on-error>'',
      ''</policies>'']"

definition build_chat_stream_policy :: string where
  "build_chat_stream_policy =
     unlines
     [''<policies>'',
      ''  <inbound>'',
      ''    <base />'',
      ''    <choose>'',
      ''      <when condition=\"@''
       @ ''{ try { var b = context.Request.Body.As&lt;JObject&gt;(preserveContent:true); return b ''
       @ ''!= null &amp;&amp; b[&quot;stream&quot;] != null &amp;&amp; b[&quot;stream&quot;].Type ''
       @ ''== JTokenType.Boolean &amp;&amp; (bool)b[&quot;stream&quot;]; } catch { return false; } ''
       @ ''}\">'',
      ''        <set-body>@''
       @ ''{ var b = context.Request.Body.As&lt;JObject&gt;(preserveContent:true); var so = ''
       @ ''b[&quot;stream_options&quot;] as JObject ?? new JObject(); ''
       @ ''so[&quot;include_usage&quot;] = true; b[&quot;stream_options&quot;] = so; return ''
       @ ''b.ToString(); }</set-body>'',
      ''      </when>'',
      ''    </choose>'',
      ''  </inbound>'',
      ''  <backend><base /></backend>'',
      ''  <outbound><base /></outbound>'',
      ''  <on-error><base /></on-error>'',
      ''</policies>'']"

section \<open>The SDK\<close>

record api_contract =
  api_display :: string
  api_path :: string
  api_key_header :: string

record sub_params =
  sp_scope :: string
  sp_display :: "string option"
  sp_state :: string

record 'w apim_svc =
  apim_settings :: settings
  nv :: "'w nv_svc"
  arm :: "'w arm_svc"
  product_get :: "string \<Rightarrow> ('w, unit) eff"
  api_put :: "string \<Rightarrow> api_contract \<Rightarrow> ('w, unit) eff"
  op_put :: "string \<Rightarrow> string \<Rightarrow> string \<Rightarrow> ('w, unit) eff"
  api_policy_put :: "string \<Rightarrow> string \<Rightarrow> ('w, unit) eff"
  op_policy_put :: "string \<Rightarrow> string \<Rightarrow> string \<Rightarrow> ('w, unit) eff"
  product_api_put :: "string \<Rightarrow> string \<Rightarrow> ('w, unit) eff"
  diagnostic_put :: "string \<Rightarrow> jdict \<Rightarrow> ('w, arm_resp) eff"
  sub_put :: "string \<Rightarrow> sub_params \<Rightarrow> ('w, string option) eff"
  sub_secret :: "string \<Rightarrow> ('w, string option) eff"
  sub_scope :: "string \<Rightarrow> ('w, string) eff"
  sub_delete :: "string \<Rightarrow> ('w, unit) eff"

definition service_path :: "settings \<Rightarrow> string" where
  "service_path s = ''/subscriptions/'' @ azure_subscription_id s @ ''/resourceGroups/'' @ cf_resource_group s
     @ ''/providers/Microsoft.ApiManagement/service/'' @ apim_service_name s"

definition sampling_percentage :: "settings \<Rightarrow> int" where
  "sampling_percentage s = min (max (apim_sampling_percentage s) 0) 100"

lemma sampling_range: "0 \<le> sampling_percentage s \<and> sampling_percentage s \<le> 100"
  by (simp add: sampling_percentage_def)

section \<open>Products and provider APIs\<close>

definition ensure_product_for_tenant :: "'w apim_svc \<Rightarrow> string \<Rightarrow> ('w, string) eff" where
  "ensure_product_for_tenant svc tenant_id =
     (let product_id = ''starter'' in
      sq (catch_exn (product_get svc product_id) (\<lambda>e. if is_resource_not_found e then ret () else raise e))
         (ret product_id))"

definition LLM_PRODUCTS :: "string list" where
  "LLM_PRODUCTS = [''starter'', ''unlimited'']"

definition CHAT_USAGE_PROVIDERS :: "string list" where
  "CHAT_USAGE_PROVIDERS = [''openai'', ''azure'']"

text \<open>\<^verbatim>\<open>httpx.Response.raise_for_status\<close>: everything but a 2xx raises.\<close>

definition raise_for_status :: "arm_resp \<Rightarrow> ('w, unit) eff" where
  "raise_for_status r =
     (if 200 \<le> resp_status r \<and> resp_status r \<le> 299 then ret ()
      else raise (HTTPStatusError (resp_status r) (resp_text r)))"

definition diagnostic_body :: "settings \<Rightarrow> jdict" where
  "diagnostic_body s =
     [(''loggerId'', JStr (''https://management.azure.com'' @ service_path s @ ''/loggers/appinsights'')),
      (''metrics'', JBool True),
      (''sampling'', JObj [(''samplingType'', JStr ''fixed''), (''percentage'', JInt (sampling_percentage s))]),
      (''alwaysLog'', JStr ''allErrors''),
      (''httpCorrelationProtocol'', JStr ''W3C''),
      (''verbosity'', JStr ''information'')]"

definition ensure_api_llm_diagnostic :: "'w apim_svc \<Rightarrow> string \<Rightarrow> ('w, unit) eff" where
  "ensure_api_llm_diagnostic svc aid =
     catch_exn
       (bnd (arm_token (arm svc)) (\<lambda>_.
        bnd (diagnostic_put svc aid (diagnostic_body (apim_settings svc))) raise_for_status))
       (\<lambda>e. if is_httpx_error e \<or> is_http_response_error e then ret () else raise e)"

definition ensure_api_and_ops :: "'w apim_svc \<Rightarrow> string \<Rightarrow> provider_cfg \<Rightarrow> string \<Rightarrow> ('w, unit) eff" where
  "ensure_api_and_ops svc provider cfg backend_id =
     sq (ensure_key_limits_nv (nv svc))
    (sq (api_put svc (api_id cfg) \<lparr>api_display = display cfg, api_path = api_id cfg, api_key_header = sub_header cfg\<rparr>)
    (sq (for_each (ops cfg) (\<lambda>(op_id, url_template). op_put svc (api_id cfg) op_id url_template))
    (sq (api_policy_put svc (api_id cfg) (build_provider_policy backend_id))
    (sq (if provider \<in> set CHAT_USAGE_PROVIDERS
         then op_policy_put svc (api_id cfg) ''chat'' build_chat_stream_policy else ret ())
    (sq (for_each LLM_PRODUCTS (\<lambda>product_id.
           catch_exn (product_api_put svc product_id (api_id cfg))
             (\<lambda>e. if is_http_response_error e then ret () else raise e)))
        (ensure_api_llm_diagnostic svc (api_id cfg)))))))"

definition ensure_provider_api :: "'w apim_svc \<Rightarrow> string \<Rightarrow> string \<Rightarrow> string \<Rightarrow> ('w, string) eff" where
  "ensure_provider_api svc provider upstream_url secret =
     (case dict_get PROVIDER_APIS provider of
        None \<Rightarrow> ret []
      | Some cfg \<Rightarrow>
          bnd (ensure_provider_backend (arm svc) (backend cfg) upstream_url (auth_header cfg) secret (bearer cfg))
            (\<lambda>backend_id. sq (ensure_api_and_ops svc provider cfg backend_id) (ret backend_id)))"

definition ensure_pooled_provider_api :: "'w apim_svc \<Rightarrow> string \<Rightarrow> ('w, string) eff" where
  "ensure_pooled_provider_api svc provider =
     (case dict_get PROVIDER_APIS provider of
        None \<Rightarrow> ret []
      | Some cfg \<Rightarrow>
          (let pool_id = ''llm-'' @ provider @ ''-pool'' in
           sq (ensure_api_and_ops svc provider cfg pool_id) (ret pool_id)))"

section \<open>Subscriptions\<close>

definition create_subscription :: "'w apim_svc \<Rightarrow> string \<Rightarrow> string \<Rightarrow> string \<Rightarrow> ('w, string) eff" where
  "create_subscription svc subscription_id display_name product_id =
     (let scope = service_path (apim_settings svc) @ ''/apis'' in
      bnd (sub_put svc subscription_id \<lparr>sp_scope = scope, sp_display = Some display_name, sp_state = ''active''\<rparr>) (\<lambda>created.
      bnd (sub_secret svc (if opt_true created then opt_or_empty created else subscription_id)) (\<lambda>key.
      ret (opt_or_empty key))))"

definition set_subscription_state :: "'w apim_svc \<Rightarrow> string \<Rightarrow> string \<Rightarrow> ('w, unit) eff" where
  "set_subscription_state svc subscription_id state =
     bnd (catch_exn (bnd (sub_scope svc subscription_id) (\<lambda>scope. ret (Some scope)))
            (\<lambda>e. if is_resource_not_found e then ret None else raise e)) (\<lambda>found.
     case found of
       None \<Rightarrow> ret ()
     | Some scope \<Rightarrow>
         bnd (sub_put svc subscription_id \<lparr>sp_scope = scope, sp_display = None, sp_state = state\<rparr>) (\<lambda>_. ret ()))"

definition delete_subscription :: "'w apim_svc \<Rightarrow> string \<Rightarrow> ('w, unit) eff" where
  "delete_subscription svc subscription_id =
     catch_exn (sub_delete svc subscription_id) (\<lambda>e. if is_resource_not_found e then ret () else raise e)"


section \<open>What the gateway is told\<close>

text \<open>The gateway as the client sees it: the policy of each API and whether the named value
  exists.  Reading the named value succeeds only when it exists, writing it makes it exist,
  a policy that is accepted replaces that API's, and no other call touches either.\<close>

definition gateway_laws ::
  "('w \<Rightarrow> string \<Rightarrow> string option) \<Rightarrow> ('w \<Rightarrow> bool) \<Rightarrow> 'w apim_svc \<Rightarrow> bool" where
  "gateway_laws policy_of has_nv svc \<longleftrightarrow>
     (let obs = (\<lambda>w. (policy_of w, has_nv w)) in
       keeps obs (nv_get (nv svc)) \<and> (\<forall>w r w'. nv_get (nv svc) w = (Inr r, w') \<longrightarrow> has_nv w')
     \<and> (\<forall>s t. keeps policy_of (nv_put (nv svc) s t)) \<and> (\<forall>s t w r w'. nv_put (nv svc) s t w = (Inr r, w') \<longrightarrow> has_nv w')
     \<and> (\<forall>a p w r w'. api_policy_put svc a p w = (Inr r, w') \<longrightarrow> policy_of w' = (policy_of w)(a := Some p) \<and> has_nv w' = has_nv w)
     \<and> (\<forall>a p w e w'. api_policy_put svc a p w = (Inl e, w') \<longrightarrow> obs w' = obs w)
     \<and> (\<forall>a c. keeps obs (api_put svc a c)) \<and> (\<forall>a i u. keeps obs (op_put svc a i u))
     \<and> (\<forall>a i p. keeps obs (op_policy_put svc a i p)) \<and> (\<forall>d a. keeps obs (product_api_put svc d a))
     \<and> (\<forall>a d. keeps obs (diagnostic_put svc a d)) \<and> keeps obs (arm_token (arm svc))
     \<and> (\<forall>b c. keeps obs (backend_put (arm svc) b c)))"

lemma gateway_keeps:
  assumes "gateway_laws policy_of has_nv svc"
  shows "keeps (\<lambda>w. (policy_of w, has_nv w)) (nv_get (nv svc))"
    and "keeps policy_of (nv_put (nv svc) s t)"
    and "keeps (\<lambda>w. (policy_of w, has_nv w)) (api_put svc a c)"
    and "keeps (\<lambda>w. (policy_of w, has_nv w)) (op_put svc a i u)"
    and "keeps (\<lambda>w. (policy_of w, has_nv w)) (op_policy_put svc a i p)"
    and "keeps (\<lambda>w. (policy_of w, has_nv w)) (product_api_put svc d a)"
    and "keeps (\<lambda>w. (policy_of w, has_nv w)) (diagnostic_put svc a dj)"
    and "keeps (\<lambda>w. (policy_of w, has_nv w)) (arm_token (arm svc))"
    and "keeps (\<lambda>w. (policy_of w, has_nv w)) (backend_put (arm svc) b bc)"
  using assms by (simp_all add: gateway_laws_def Let_def)

lemma wp_ensure_nv:
  assumes L: "gateway_laws policy_of has_nv svc"
  shows "wp (ensure_key_limits_nv (nv svc)) (\<lambda>_ t. policy_of t = policy_of w \<and> has_nv t) (\<lambda>_ t. policy_of t = policy_of w) w"
proof -
  have put: "wp (nv_put (nv svc) s g) (\<lambda>_ t. policy_of t = policy_of w \<and> has_nv t) (\<lambda>_ t. policy_of t = policy_of w) v"
    if "policy_of v = policy_of w" for s g v
    using L that by (intro wp_keeps [OF gateway_keeps(2) [OF L]]) (auto simp: gateway_laws_def Let_def)
  show ?thesis
    unfolding ensure_key_limits_nv_def write_key_limits_def
    using put L
    by (auto simp: wp_rules gateway_laws_def Let_def intro!: wp_keeps [OF gateway_keeps(1) [OF L]])
qed

definition policy_pushed :: "('w \<Rightarrow> string \<Rightarrow> string option) \<Rightarrow> ('w \<Rightarrow> bool) \<Rightarrow> string \<Rightarrow> string \<Rightarrow> 'w \<Rightarrow> 'w \<Rightarrow> bool" where
  "policy_pushed policy_of has_nv a text w w' \<longleftrightarrow> policy_of w' = (policy_of w)(a := Some text) \<and> has_nv w'"

lemma wp_ensure_api_and_ops:
  fixes cfg :: provider_cfg and be :: string
  assumes L: "gateway_laws policy_of has_nv svc"
  defines "pushed \<equiv> policy_pushed policy_of has_nv (api_id cfg) (build_provider_policy be)"
  shows "wp (ensure_api_and_ops svc p cfg be) (\<lambda>_. pushed w)
      (\<lambda>_ t. pushed w t \<or> policy_of t = policy_of w) w"
proof -
  let ?obs = "\<lambda>w. (policy_of w, has_nv w)"
  note K = gateway_keeps [OF L]
  have diag: "keeps ?obs (ensure_api_llm_diagnostic svc a)" for a
    unfolding ensure_api_llm_diagnostic_def raise_for_status_def by (auto intro!: keeps_catch keeps_bnd K)
  have tail: "keeps ?obs (sq (if p \<in> set CHAT_USAGE_PROVIDERS
         then op_policy_put svc (api_id cfg) ''chat'' build_chat_stream_policy else ret ())
      (sq (for_each LLM_PRODUCTS (\<lambda>product_id.
           catch_exn (product_api_put svc product_id (api_id cfg))
             (\<lambda>e. if is_http_response_error e then ret () else raise e)))
        (ensure_api_llm_diagnostic svc (api_id cfg))))" (is "keeps _ ?tail")
    by (auto intro!: keeps_sq keeps_for_each keeps_catch K diag)
  have push: "wp (sq (api_policy_put svc (api_id cfg) (build_provider_policy be)) ?tail) (\<lambda>_. pushed w)
      (\<lambda>_ t. pushed w t \<or> policy_of t = policy_of w) v" if "policy_of v = policy_of w" "has_nv v" for v
  proof (subst wp_sq, rule wpI_frame)
    fix a t
    assume "api_policy_put svc (api_id cfg) (build_provider_policy be) v = (Inr a, t)"
    then have t: "pushed w t"
      using L that unfolding gateway_laws_def Let_def pushed_def policy_pushed_def by metis
    show "wp ?tail (\<lambda>_. pushed w) (\<lambda>_ t. pushed w t \<or> policy_of t = policy_of w) t"
      by (rule wp_keeps [OF tail]) (use t in \<open>auto simp: pushed_def policy_pushed_def\<close>)
  next
    fix e t
    assume "api_policy_put svc (api_id cfg) (build_provider_policy be) v = (Inl e, t)"
    then show "pushed w t \<or> policy_of t = policy_of w"
      using L that unfolding gateway_laws_def Let_def by (metis prod.inject)
  qed
  have ops_keep: "keeps ?obs (for_each (ops cfg) (\<lambda>(op_id, url_template). op_put svc (api_id cfg) op_id url_template))"
    by (intro keeps_for_each) (auto intro: K)
  show ?thesis
    unfolding ensure_api_and_ops_def
  proof (subst wp_sq, rule wp_conseq [OF wp_ensure_nv [OF L]])
    fix a t
    assume t: "policy_of t = policy_of w \<and> has_nv t"
    show "wp (sq (api_put svc (api_id cfg) \<lparr>api_display = display cfg, api_path = api_id cfg, api_key_header = sub_header cfg\<rparr>)
       (sq (for_each (ops cfg) (\<lambda>(op_id, url_template). op_put svc (api_id cfg) op_id url_template))
       (sq (api_policy_put svc (api_id cfg) (build_provider_policy be)) ?tail))) (\<lambda>_. pushed w)
       (\<lambda>_ t. pushed w t \<or> policy_of t = policy_of w) t"
      by (subst wp_sq, rule wp_keeps [OF K(3)]; (subst wp_sq, rule wp_keeps [OF ops_keep])?)
        (use t push in auto)
  qed auto
qed


text \<open>A gateway in memory: the policies, and whether the named value exists.\<close>

definition mem_gateway :: "((string \<Rightarrow> string option) \<times> bool) apim_svc" where
  "mem_gateway = \<lparr>apim_settings = default_settings,
     nv = \<lparr>nv_get = (\<lambda>w. (if snd w then Inr (Some ''{}'', Some ''v1'') else Inl (ResourceNotFoundError ''nv''), w)),
           nv_put = (\<lambda>s t w. (Inr (), (fst w, True)))\<rparr>,
     arm = \<lparr>arm_base = ''base'', arm_token = ret ''token'',
       arm_get = (\<lambda>p. raise (TransportError ''none'')), arm_put = (\<lambda>p d t. raise (TransportError ''none'')),
       arm_delete = (\<lambda>p t. raise (TransportError ''none'')), backend_put = (\<lambda>b c. ret (Some b)),
       backend_delete = (\<lambda>b. ret ()), policy_delete = (\<lambda>a. ret ())\<rparr>,
     product_get = (\<lambda>p. ret ()), api_put = (\<lambda>a c. ret ()), op_put = (\<lambda>a i u. ret ()),
     api_policy_put = (\<lambda>a p w. (Inr (), ((fst w)(a := Some p), snd w))),
     op_policy_put = (\<lambda>a i p. ret ()), product_api_put = (\<lambda>d a. raise (ResourceNotFoundError d)),
     diagnostic_put = (\<lambda>a d. raise (TransportError ''none'')),
     sub_put = (\<lambda>i p. ret (Some i)), sub_secret = (\<lambda>i. ret (Some ''key'')), sub_scope = (\<lambda>i. ret ''scope''),
     sub_delete = (\<lambda>i. ret ())\<rparr>"

lemma mem_gateway_laws: "gateway_laws fst snd mem_gateway"
  unfolding gateway_laws_def Let_def mem_gateway_def by (auto simp: keeps_def ret_def raise_def)


end
