(* ===== verification/Session.thy ===== *)
theory Session
  imports ApimProvider
begin

text \<open>
  A request's view of the system: the committed database, the session's working copy, and the
  world outside (\<^verbatim>\<open>db.py\<close>, \<^verbatim>\<open>services/keyvault.py\<close>, and the clients the handlers use).

  \<^verbatim>\<open>request\<close> gives a handler a fresh session and closes it afterwards, so that whatever was not
  committed is gone; \<^verbatim>\<open>commit\<close> is one transaction, which the database may refuse.  A request
  runs to its end before the next one starts, as far as the tables go; the world it talks to
  may change in any way during every call.
\<close>

section \<open>Services\<close>

record 'w services =
  sv_settings :: settings
  db_write :: "('w, unit) eff"
  clock :: "'w \<Rightarrow> utc"
  uuid_hex12 :: "'w \<Rightarrow> string \<times> 'w"
  apim :: "'w apim_svc"
  kv_set :: "string \<Rightarrow> string \<Rightarrow> ('w, string option) eff"
  kv_get :: "string \<Rightarrow> ('w, string option) eff"
  kv_delete :: "string \<Rightarrow> ('w, unit) eff"
  random_salt :: "'w \<Rightarrow> string \<times> 'w"
  pbkdf2 :: "string \<Rightarrow> string \<Rightarrow> int \<Rightarrow> string"
  jwt_encode :: "string \<Rightarrow> string \<Rightarrow> jdict \<Rightarrow> exn + string"
  jwt_decode :: "string \<Rightarrow> string \<Rightarrow> utc \<Rightarrow> string \<Rightarrow> jdict option"

record 'w sys =
  committed :: tables
  session :: tables
  world :: 'w

type_synonym ('w, 'a) act = "('w sys, 'a) eff"

section \<open>The session\<close>

definition cloud :: "('w, 'a) eff \<Rightarrow> ('w, 'a) act" where
  "cloud m s = (case m (world s) of (r, w) \<Rightarrow> (r, s\<lparr>world := w\<rparr>))"

definition query :: "(tables \<Rightarrow> 'a) \<Rightarrow> ('w, 'a) act" where
  "query f s = (Inr (f (session s)), s)"

definition edit :: "(tables \<Rightarrow> tables) \<Rightarrow> ('w, unit) act" where
  "edit f s = (Inr (), s\<lparr>session := f (session s)\<rparr>)"

definition commit :: "'w services \<Rightarrow> ('w, unit) act" where
  "commit svc =
     sq (cloud (db_write svc))
        (\<lambda>s. if constraints_ok (session s) then (Inr (), s\<lparr>committed := session s\<rparr>)
             else (Inl (IntegrityError ''constraint violated''), s))"

definition rollback :: "('w, unit) act" where
  "rollback s = (Inr (), s\<lparr>session := committed s\<rparr>)"

definition request :: "('w, 'a) act \<Rightarrow> ('w, 'a) act" where
  "request h s = (case h (s\<lparr>session := committed s\<rparr>) of (r, t) \<Rightarrow> (r, t\<lparr>session := committed t\<rparr>))"

definition get_now :: "'w services \<Rightarrow> ('w, utc) act" where
  "get_now svc = cloud (\<lambda>w. (Inr (clock svc w), w))"

definition new_id :: "'w services \<Rightarrow> string \<Rightarrow> ('w, string) act" where
  "new_id svc pre = cloud (\<lambda>w. case uuid_hex12 svc w of (h, w') \<Rightarrow> (Inr (pre @ ''_'' @ h), w'))"

definition load_or_404 :: "(tables \<Rightarrow> 'r list) \<Rightarrow> ('r \<Rightarrow> string) \<Rightarrow> string \<Rightarrow> string \<Rightarrow> ('w, 'r) act" where
  "load_or_404 rows key i what =
     bnd (query (\<lambda>t. row_by key i (rows t))) (\<lambda>found.
     case found of None \<Rightarrow> raise (HTTPException 404 (what @ '' not found'')) | Some r \<Rightarrow> ret r)"

section \<open>Reasoning about requests\<close>

text \<open>A call to the outside may return or raise anything, but the tables stay.\<close>

lemma wp_cloud [wp_rules]:
  "wp (cloud m) Q E s = wp m (\<lambda>a w. Q a (s\<lparr>world := w\<rparr>)) (\<lambda>e w. E e (s\<lparr>world := w\<rparr>)) (world s)"
  by (simp add: wp_def cloud_def split: prod.splits sum.splits)

lemma wp_query [wp_rules]: "wp (query f) Q E s = Q (f (session s)) s"
  by (simp add: wp_def query_def)

lemma wp_edit [wp_rules]: "wp (edit f) Q E s = Q () (s\<lparr>session := f (session s)\<rparr>)"
  by (simp add: wp_def edit_def)

lemma wp_rollback [wp_rules]: "wp rollback Q E s = Q () (s\<lparr>session := committed s\<rparr>)"
  by (simp add: wp_def rollback_def)

lemma wp_commit [wp_rules]:
  "wp (commit svc) Q E s =
     wp (db_write svc)
       (\<lambda>_ w. if constraints_ok (session s) then Q () (s\<lparr>world := w, committed := session s\<rparr>)
              else E (IntegrityError ''constraint violated'') (s\<lparr>world := w\<rparr>))
       (\<lambda>e w. E e (s\<lparr>world := w\<rparr>)) (world s)"
proof -
  have check: "wp (\<lambda>s. if constraints_ok (session s) then (Inr (), s\<lparr>committed := session s\<rparr>)
                else (Inl (IntegrityError ''constraint violated''), s)) Q E t
      = (if constraints_ok (session t) then Q () (t\<lparr>committed := session t\<rparr>)
         else E (IntegrityError ''constraint violated'') t)" for t :: "'a sys"
    by (simp add: wp_def)
  show ?thesis
    by (simp add: commit_def wp_rules check)
qed

lemma wp_get_now [wp_rules]: "wp (get_now svc) Q E s = Q (clock svc (world s)) s"
  by (simp add: get_now_def wp_cloud) (simp add: wp_def)

lemma wp_load [wp_rules]:
  "wp (load_or_404 rows key i what) Q E s =
     (case row_by key i (rows (session s)) of
        None \<Rightarrow> E (HTTPException 404 (what @ '' not found'')) s | Some r \<Rightarrow> Q r s)"
  by (simp add: load_or_404_def wp_rules split: option.splits)

lemma wp_any: "(\<And>a w. Q a w) \<Longrightarrow> (\<And>e w. E e w) \<Longrightarrow> wp m Q E w"
  by (simp add: wpI_frame)

lemma wp_new_id: "(\<And>i w. Q (pre @ ''_'' @ i) (s\<lparr>world := w\<rparr>)) \<Longrightarrow> wp (new_id svc pre) Q E s"
  by (simp add: new_id_def wp_cloud) (simp add: wp_def split: prod.splits)

lemma request_wp:
  assumes "request h s = (r, s')"
    and "wp h (\<lambda>a t. Q (Inr a) (committed t)) (\<lambda>e t. Q (Inl e) (committed t)) (s\<lparr>session := committed s\<rparr>)"
  shows "Q r (committed s') \<and> session s' = committed s'"
proof -
  obtain t where "h (s\<lparr>session := committed s\<rparr>) = (r, t)" "s' = t\<lparr>session := committed t\<rparr>"
    using assms(1) by (auto simp: request_def split: prod.splits)
  then show ?thesis
    using assms(2) by (cases r) (auto simp: wp_def)
qed

lemma wp_cloudI:
  "(\<And>a w. Q a (s\<lparr>world := w\<rparr>)) \<Longrightarrow> (\<And>e w. E e (s\<lparr>world := w\<rparr>)) \<Longrightarrow> wp (cloud m) Q E s"
  by (simp add: wp_cloud wp_any)

lemma wp_commitI:
  "(\<And>w. constraints_ok (session s) \<Longrightarrow> Q () (s\<lparr>world := w, committed := session s\<rparr>)) \<Longrightarrow> (\<And>e w. E e (s\<lparr>world := w\<rparr>))
     \<Longrightarrow> wp (commit svc) Q E s"
  by (simp add: wp_commit wp_any)

lemmas handler_intros = wp_new_id wp_cloudI wp_commitI

lemmas handler_rules = wp_ret wp_raise wp_bnd wp_sq wp_catch wp_lift_sum wp_best_effort wp_if wp_option wp_query wp_edit
  wp_rollback wp_get_now wp_load

text \<open>A handler that writes atomically: when it returns, the committed tables are related to the old
  ones as \<^verbatim>\<open>R\<close> says; when it raises, they are the old ones.\<close>

definition atomic_write :: "('a \<Rightarrow> tables \<Rightarrow> tables \<Rightarrow> bool) \<Rightarrow> ('w, 'a) act \<Rightarrow> bool" where
  "atomic_write R h \<longleftrightarrow>
     (\<forall>s. session s = committed s \<longrightarrow>
        wp h (\<lambda>a t. R a (committed s) (committed t)) (\<lambda>_ t. committed t = committed s) s)"

lemma atomic_writeI:
  "(\<And>s. session s = committed s \<Longrightarrow>
      wp h (\<lambda>a t. R a (committed s) (committed t)) (\<lambda>_ t. committed t = committed s) s) \<Longrightarrow> atomic_write R h"
  by (simp add: atomic_write_def)

lemma atomic_request:
  assumes "atomic_write R h" and "request h s = (r, s')"
  shows "case r of Inr a \<Rightarrow> R a (committed s) (committed s') | Inl _ \<Rightarrow> committed s' = committed s"
proof -
  have "wp h (\<lambda>a t. R a (committed s) (committed t)) (\<lambda>_ t. committed t = committed s) (s\<lparr>session := committed s\<rparr>)"
    using assms(1) [unfolded atomic_write_def, rule_format, of "s\<lparr>session := committed s\<rparr>"] by simp
  from request_wp [OF assms(2), where Q = "\<lambda>r t. case r of Inr a \<Rightarrow> R a (committed s) t | Inl _ \<Rightarrow> t = committed s"] this
  show ?thesis by simp
qed

lemma atomic_write_mono:
  "atomic_write R h \<Longrightarrow> (\<And>a t u. R a t u \<Longrightarrow> R' a t u) \<Longrightarrow> atomic_write R' h"
  unfolding atomic_write_def by (blast intro: wp_conseq)

section \<open>Key Vault\<close>

definition set_secret :: "'w services \<Rightarrow> string \<Rightarrow> string \<Rightarrow> ('w, string) eff" where
  "set_secret svc name v =
     bnd (kv_set svc name v) (\<lambda>i.
     ret (if opt_true i then opt_or_empty i else keyvault_uri (sv_settings svc) @ ''/secrets/'' @ name))"

definition get_secret :: "'w services \<Rightarrow> string \<Rightarrow> ('w, string option) eff" where
  "get_secret svc name = kv_get svc name"

definition delete_secret :: "'w services \<Rightarrow> string \<Rightarrow> ('w, unit) eff" where
  "delete_secret svc name = kv_delete svc name"

definition subscription_key_name :: "string \<Rightarrow> string" where
  "subscription_key_name virtual_key_id = dashed virtual_key_id"

definition backend_secret_name :: "string \<Rightarrow> string" where
  "backend_secret_name route_id = dashed (''route-'' @ route_id @ ''-backend'')"

text \<open>Secret names satisfy Key Vault's rule: no underscore is left in them.\<close>

lemma dashed_no_underscore: "CHR ''_'' \<notin> set (dashed s)"
  by (auto simp: dashed_def)

section \<open>Services in memory\<close>

text \<open>For evaluation at concrete inputs: a fixed clock and random source, a Key Vault that accepts
  everything, a hash that is readable, and tokens that are their claims in JSON.\<close>

definition toy_now :: utc where
  "toy_now = 63890000000000000"

definition toy_encode :: "string \<Rightarrow> string \<Rightarrow> jdict \<Rightarrow> exn + string" where
  "toy_encode secret alg claims =
     (if plain_json (JObj claims) then Inr (''eyJ'' @ dumps (JObj claims)) else Inl (OtherError ''JWTError''))"

definition toy_decode :: "(utc \<Rightarrow> int) \<Rightarrow> string \<Rightarrow> string \<Rightarrow> utc \<Rightarrow> string \<Rightarrow> jdict option" where
  "toy_decode seconds secret alg t tok =
     (case loads (drop 3 tok) of
        Some (JObj c) \<Rightarrow> (case jget c ''exp'' of JInt e \<Rightarrow> if e < seconds t then None else Some c | _ \<Rightarrow> None)
      | _ \<Rightarrow> None)"

definition mem_services :: "(utc \<Rightarrow> int) \<Rightarrow> 'w apim_svc \<Rightarrow> 'w services" where
  "mem_services seconds a = \<lparr>sv_settings = default_settings, db_write = ret (), clock = (\<lambda>w. toy_now),
     uuid_hex12 = (\<lambda>w. (''0123456789ab'', w)), apim = a, kv_set = (\<lambda>n v. ret (Some n)), kv_get = (\<lambda>n. ret (Some n)),
     kv_delete = (\<lambda>n. ret ()), random_salt = (\<lambda>w. (''salt'', w)), pbkdf2 = (\<lambda>p s i. p @ s),
     jwt_encode = toy_encode, jwt_decode = toy_decode seconds\<rparr>"

lemma toy_encode_decode:
  assumes "toy_encode secret alg claims = Inr tok" and "jget claims ''exp'' = JInt e"
  shows "toy_decode seconds secret alg t tok = (if e < seconds t then None else Some claims)"
  using assms loads_dumps [of "JObj claims"]
  by (auto simp: toy_encode_def toy_decode_def simp del: dumps.simps plain_json.simps split: if_splits)

lemma toy_encode_eyJ: "toy_encode secret alg claims = Inr tok \<Longrightarrow> \<not> starts_with tok ''dev:''"
  by (auto simp: toy_encode_def starts_with_def simp del: dumps.simps plain_json.simps split: if_splits)

end
