(* ===== verification/Identity.thy ===== *)
theory Identity
  imports Session
begin

text \<open>
  Passwords, tokens, and who the caller is (\<^verbatim>\<open>services/passwords.py\<close>,
  \<^verbatim>\<open>services/tokens.py\<close>, \<^verbatim>\<open>api/auth.py\<close>, \<^verbatim>\<open>api/login.py\<close>).

  PBKDF2 and the signing of JWTs are functions of the services record; a byte string is a list
  of characters.  The lemmas show that a stored hash accepts the password it was made from, that
  a token carries the identity it was issued for until it expires, and that only an admin role
  passes \<^verbatim>\<open>require_admin\<close>.
\<close>

section \<open>Passwords\<close>

definition hex_of_nat :: "nat \<Rightarrow> char" where
  "hex_of_nat n = char_of (if n < 10 then 48 + n else 87 + n)"

text \<open>\<^verbatim>\<open>bytes.hex\<close>, and \<^verbatim>\<open>bytes.fromhex\<close>, which skips white space between the pairs.\<close>

fun to_hex :: "string \<Rightarrow> string" where
  "to_hex [] = []"
| "to_hex (c # s) = hex_of_nat (byte c div 16) # hex_of_nat (byte c mod 16) # to_hex s"

definition hex_value :: "char \<Rightarrow> nat option" where
  "hex_value c = (let n = byte c in
     if 48 \<le> n \<and> n \<le> 57 then Some (n - 48)
     else if 97 \<le> n \<and> n \<le> 102 then Some (n - 87)
     else if 65 \<le> n \<and> n \<le> 70 then Some (n - 55) else None)"

definition is_space :: "char \<Rightarrow> bool" where
  "is_space c = (byte c \<in> {9, 10, 11, 12, 13, 32})"

fun from_hex :: "string \<Rightarrow> string option" where
  "from_hex [] = Some []"
| "from_hex [c] = (if is_space c then Some [] else None)"
| "from_hex (c # d # s) =
     (if is_space c then from_hex (d # s)
      else case (hex_value c, hex_value d) of
        (Some h, Some l) \<Rightarrow> map_option (\<lambda>r. char_of (16 * h + l) # r) (from_hex s)
      | _ \<Rightarrow> None)"

text \<open>\<^verbatim>\<open>s.split(sep, n)\<close> and \<^verbatim>\<open>int(s)\<close> on ASCII text: white space around, an optional sign,
  digits with single underscores between them.\<close>

fun split_at :: "char \<Rightarrow> string \<Rightarrow> string \<times> string option" where
  "split_at sep [] = ([], None)"
| "split_at sep (c # s) =
     (if c = sep then ([], Some s) else (case split_at sep s of (h, t) \<Rightarrow> (c # h, t)))"

fun split_max :: "char \<Rightarrow> nat \<Rightarrow> string \<Rightarrow> string list" where
  "split_max sep 0 s = [s]"
| "split_max sep (Suc n) s =
     (case split_at sep s of (h, None) \<Rightarrow> [h] | (h, Some t) \<Rightarrow> h # split_max sep n t)"

fun digit_groups :: "bool \<Rightarrow> int \<Rightarrow> string \<Rightarrow> int option" where
  "digit_groups after_digit acc [] = (if after_digit then Some acc else None)"
| "digit_groups after_digit acc (c # s) =
     (if 48 \<le> byte c \<and> byte c \<le> 57 then digit_groups True (acc * 10 + int (byte c - 48)) s
      else if c = CHR ''_'' \<and> after_digit then digit_groups False acc s else None)"

definition str_space :: "char \<Rightarrow> bool" where
  "str_space c \<longleftrightarrow> is_space c \<or> 28 \<le> byte c \<and> byte c \<le> 31"

definition strip :: "string \<Rightarrow> string" where
  "strip s = rev (dropWhile str_space (rev (dropWhile str_space s)))"

text \<open>More than 4300 digits are a \<^verbatim>\<open>ValueError\<close> too.\<close>

definition py_int_of_str :: "string \<Rightarrow> int option" where
  "py_int_of_str s =
     (if 4300 < length (filter (\<lambda>c. 48 \<le> byte c \<and> byte c \<le> 57) s) then None
      else case strip s of
        [] \<Rightarrow> None
      | c # t \<Rightarrow>
          if c = CHR ''-'' then map_option uminus (digit_groups False 0 t)
          else if c = CHR ''+'' then digit_groups False 0 t
          else digit_groups False 0 (c # t))"

definition ALGO :: string where
  "ALGO = ''pbkdf2_sha256''"

definition ITERATIONS :: int where
  "ITERATIONS = 240000"

definition encode_hash :: "int \<Rightarrow> string \<Rightarrow> string \<Rightarrow> string" where
  "encode_hash iterations salt digest =
     ALGO @ ''$'' @ int_str iterations @ ''$'' @ to_hex salt @ ''$'' @ to_hex digest"

definition hash_password :: "'w services \<Rightarrow> string \<Rightarrow> ('w, string) eff" where
  "hash_password svc password w =
     (case random_salt svc w of (salt, w') \<Rightarrow>
        (Inr (encode_hash ITERATIONS salt (pbkdf2 svc password salt ITERATIONS)), w'))"

text \<open>The iteration count is checked by \<^verbatim>\<open>hashlib\<close>, outside the \<^verbatim>\<open>try\<close>.\<close>

definition verify_password :: "'w services \<Rightarrow> string \<Rightarrow> string \<Rightarrow> exn + bool" where
  "verify_password svc password encoded =
     (case split_max CHR ''$'' 3 encoded of
        [algo, iter_str, salt_hex, hash_hex] \<Rightarrow>
          if algo \<noteq> ALGO then Inr False
          else (case (py_int_of_str iter_str, from_hex salt_hex, from_hex hash_hex) of
                  (Some iterations, Some salt, Some expected) \<Rightarrow>
                    if iterations < 1 then Inl (ValueError ''iteration value must be greater than 0.'')
                    else if 2 ^ 63 \<le> iterations then Inl (OverflowError ''Python int too large to convert to C long'')
                    else Inr (pbkdf2 svc password salt iterations = expected)
                | _ \<Rightarrow> Inr False)
      | _ \<Rightarrow> Inr False)"

section \<open>Tokens\<close>

definition EPOCH :: utc where
  "EPOCH = 719162 * DAY"

definition unix_time :: "utc \<Rightarrow> int" where
  "unix_time t = (t - EPOCH) div 1000000"

definition claims_of :: "settings \<Rightarrow> utc \<Rightarrow> string \<Rightarrow> string \<Rightarrow> string option \<Rightarrow> jdict" where
  "claims_of cf now subject role tenant_id =
     [(''sub'', JStr subject), (''role'', JStr role), (''tenant_id'', opt_str_json tenant_id),
      (''iat'', JInt (unix_time now)),
      (''exp'', JInt (unix_time (now + jwt_expire_minutes cf * 60000000)))]"

definition issue_token :: "'w services \<Rightarrow> string \<Rightarrow> string \<Rightarrow> string option \<Rightarrow> ('w, string) act" where
  "issue_token svc subject role tenant_id =
     bnd (get_now svc) (\<lambda>now.
     if now + jwt_expire_minutes (sv_settings svc) * 60000000 \<ge> MAX_UTC
       \<or> now + jwt_expire_minutes (sv_settings svc) * 60000000 < 0
     then raise (OverflowError ''date value out of range'')
     else lift_sum (jwt_encode svc (jwt_secret (sv_settings svc)) (jwt_algorithm (sv_settings svc))
            (claims_of (sv_settings svc) now subject role tenant_id)))"

definition decode_token :: "'w services \<Rightarrow> string \<Rightarrow> ('w, jdict option) act" where
  "decode_token svc token =
     bnd (get_now svc) (\<lambda>now.
     ret (jwt_decode svc (jwt_secret (sv_settings svc)) (jwt_algorithm (sv_settings svc)) now token))"

section \<open>The caller\<close>

record principal =
  pr_subject :: json
  pr_role :: user_role
  pr_tenant_id :: json

text \<open>\<^verbatim>\<open>token.split(":", 2)\<close> into exactly three; an unknown role is a \<^verbatim>\<open>ValueError\<close> that nobody catches.\<close>

definition decode_local_dev :: "string \<Rightarrow> exn + principal" where
  "decode_local_dev token =
     (case split_max CHR '':'' 2 token of
        [_, role, tenant] \<Rightarrow>
          (case role_of role of
             None \<Rightarrow> Inl (ValueError (repr_str role @ '' is not a valid UserRole''))
           | Some r \<Rightarrow> Inr \<lparr>pr_subject = JStr ''dev-user'', pr_role = r,
                          pr_tenant_id = (if tenant \<noteq> [] then JStr tenant else JNull)\<rparr>)
      | _ \<Rightarrow> Inl (HTTPException 401 ''bad dev token''))"

definition principal_of_claims :: "jdict \<Rightarrow> principal" where
  "principal_of_claims claims =
     \<lparr>pr_subject = jget_or claims ''sub'' (JStr ''unknown''),
      pr_role = (case jget_or claims ''role'' (JStr ''customer'') of
                   JStr s \<Rightarrow> (case role_of s of Some r \<Rightarrow> r | None \<Rightarrow> CUSTOMER)
                 | _ \<Rightarrow> CUSTOMER),
      pr_tenant_id = jget claims ''tenant_id''\<rparr>"

definition decode_jwt :: "'w services \<Rightarrow> string \<Rightarrow> ('w, principal) act" where
  "decode_jwt svc token =
     bnd (decode_token svc token) (\<lambda>claims.
     case claims of
       None \<Rightarrow> raise (HTTPException 401 ''invalid token'')
     | Some c \<Rightarrow> ret (principal_of_claims c))"

definition get_principal :: "'w services \<Rightarrow> string \<Rightarrow> ('w, principal) act" where
  "get_principal svc authorization =
     (if \<not> starts_with (lower authorization) ''bearer '' then raise (HTTPException 401 ''missing bearer token'')
      else
        let token = drop 7 authorization in
        if is_local (sv_settings svc) \<and> starts_with token ''dev:'' then lift_sum (decode_local_dev token)
        else decode_jwt svc token)"

definition require_admin :: "'w services \<Rightarrow> string \<Rightarrow> ('w, principal) act" where
  "require_admin svc authorization =
     bnd (get_principal svc authorization) (\<lambda>p.
     if pr_role p \<noteq> ADMIN then raise (HTTPException 403 ''admin role required'') else ret p)"

definition tenant_scope :: "'w services \<Rightarrow> string \<Rightarrow> ('w, json) act" where
  "tenant_scope svc authorization =
     bnd (get_principal svc authorization) (\<lambda>p.
     if pr_tenant_id p = JNull then raise (HTTPException 403 ''no tenant bound to principal'')
     else ret (pr_tenant_id p))"

definition as_admin :: "'w services \<Rightarrow> string \<Rightarrow> (principal \<Rightarrow> ('w, 'a) act) \<Rightarrow> ('w, 'a) act" where
  "as_admin svc authorization h = request (bnd (require_admin svc authorization) h)"

section \<open>Login\<close>

definition user_named :: "string \<Rightarrow> tables \<Rightarrow> user option" where
  "user_named n t = row_by us_username n (users t)"

definition login :: "'w services \<Rightarrow> login_request \<Rightarrow> ('w, token_response) act" where
  "login svc body =
     bnd (query (user_named (lr_username body))) (\<lambda>found.
     bnd (case found of
            None \<Rightarrow> ret False
          | Some user \<Rightarrow> lift_sum (verify_password svc (lr_password body) (us_password_hash user))) (\<lambda>good.
     case found of
       None \<Rightarrow> raise (HTTPException 401 ''invalid username or password'')
     | Some user \<Rightarrow>
         if \<not> good then raise (HTTPException 401 ''invalid username or password'')
         else if us_disabled user then raise (HTTPException 401 ''account disabled'')
         else
           bnd (issue_token svc (us_username user) (role_value (us_role user)) (us_tenant_id user)) (\<lambda>token.
           ret \<lparr>tr_access_token = token, tr_role = us_role user, tr_tenant_id = us_tenant_id user\<rparr>)))"

definition me :: "'w services \<Rightarrow> string \<Rightarrow> ('w, principal) act" where
  "me svc authorization = get_principal svc authorization"

section \<open>Facts about passwords\<close>

lemma byte_nibbles: "byte c div 16 < 16 \<and> byte c mod 16 < 16"
  using less_mult_imp_div_less [of "byte c" 16 16] byte_less_256 [of c] by simp

lemma byte_hex_of_nat: "n < 16 \<Longrightarrow> byte (hex_of_nat n) = (if n < 10 then 48 + n else 87 + n)"
  by (auto simp: hex_of_nat_def byte_def)

lemma hex_value_hex [simp]: "n < 16 \<Longrightarrow> hex_value (hex_of_nat n) = Some n"
  by (auto simp: hex_value_def byte_hex_of_nat Let_def)

lemma hex_not_space [simp]: "n < 16 \<Longrightarrow> \<not> is_space (hex_of_nat n)"
  by (auto simp: is_space_def byte_hex_of_nat)

lemma from_to_hex [simp]: "from_hex (to_hex s) = Some s"
proof (induction s)
  case (Cons c s)
  then show ?case
    using byte_nibbles [of c] by simp
qed simp

lemma to_hex_no_dollar: "CHR ''$'' \<notin> set (to_hex s)"
proof -
  have "hex_of_nat n \<noteq> CHR ''$''" if "n < 16" for n
    using byte_hex_of_nat [OF that] by (auto simp: byte_def split: if_splits)
  then have "CHR ''$'' \<noteq> hex_of_nat (byte c div 16)" "CHR ''$'' \<noteq> hex_of_nat (byte c mod 16)" for c
    using byte_nibbles [of c] by metis+
  then show ?thesis
    by (induction s) auto
qed

lemma split_at_notin: "sep \<notin> set h \<Longrightarrow> split_at sep (h @ sep # t) = (h, Some t)"
  by (induction h) auto

lemma split_at_none: "sep \<notin> set h \<Longrightarrow> split_at sep h = (h, None)"
  by (induction h) auto

lemma verify_encoded:
  "verify_password svc password (encode_hash ITERATIONS salt digest) = Inr (pbkdf2 svc password salt ITERATIONS = digest)"
proof -
  have i: "int_str ITERATIONS = ''240000''"
    by code_simp
  have "split_max CHR ''$'' 3 (encode_hash ITERATIONS salt digest) = [ALGO, ''240000'', to_hex salt, to_hex digest]"
    using split_at_notin [OF to_hex_no_dollar, of salt "to_hex digest"]
    by (simp add: encode_hash_def i ALGO_def numeral_3_eq_3)
  moreover have "py_int_of_str ''240000'' = Some ITERATIONS"
    by code_simp
  ultimately show ?thesis
    by (simp add: verify_password_def ITERATIONS_def)
qed

text \<open>A stored password is accepted with the password it was made from, and another one is
  accepted only if PBKDF2 maps it to the same digest under the same salt.\<close>

lemma password_roundtrip:
  "case hash_password svc password w of
     (Inr encoded, _) \<Rightarrow> verify_password svc password encoded = Inr True
       \<and> (\<forall>other. verify_password svc other encoded
            = Inr (pbkdf2 svc other (fst (random_salt svc w)) ITERATIONS
                 = pbkdf2 svc password (fst (random_salt svc w)) ITERATIONS))
   | (Inl _, _) \<Rightarrow> False"
  by (simp add: hash_password_def verify_encoded split: prod.splits)

section \<open>Facts about sessions\<close>

text \<open>What \<^verbatim>\<open>jose\<close> documents: decoding an encoded token gives its claims until they expire.  An
  encoded token starts with the base64 of a JSON object, so never with \<^verbatim>\<open>dev:\<close>.\<close>

definition jwt_laws :: "'w services \<Rightarrow> bool" where
  "jwt_laws svc \<longleftrightarrow>
     (\<forall>secret alg claims tok. jwt_encode svc secret alg claims = Inr tok \<longrightarrow>
        \<not> starts_with tok ''dev:''
      \<and> (\<forall>t e. jget claims ''exp'' = JInt e \<longrightarrow>
            jwt_decode svc secret alg t tok = (if e < unix_time t then None else Some claims)))"

definition bearer_of :: "string \<Rightarrow> string" where
  "bearer_of token = ''Bearer '' @ token"

lemma bearer_of_starts: "starts_with (lower (bearer_of token)) ''bearer ''"
proof -
  have "lower ''Bearer '' = ''bearer ''" by code_simp
  then show ?thesis
    by (simp add: bearer_of_def lower_def starts_with_def)
qed

definition session_principal :: "user \<Rightarrow> principal" where
  "session_principal u = \<lparr>pr_subject = JStr (us_username u), pr_role = us_role u, pr_tenant_id = opt_str_json (us_tenant_id u)\<rparr>"

definition session_end :: "'w services \<Rightarrow> utc \<Rightarrow> int" where
  "session_end svc now = unix_time (now + jwt_expire_minutes (sv_settings svc) * 60000000)"

lemma principal_of_issued:
  "principal_of_claims (claims_of cf now (us_username u) (role_value (us_role u)) (us_tenant_id u)) = session_principal u"
  by (simp add: principal_of_claims_def claims_of_def session_principal_def jget_def jget_or_def)

lemma issue_token_Inr:
  assumes L: "jwt_laws svc"
    and "issue_token svc (us_username u) (role_value (us_role u)) (us_tenant_id u) s = (Inr tok, s')"
  shows "s' = s \<and> get_principal svc (bearer_of tok) s2 =
     (if unix_time (clock svc (world s2)) \<le> session_end svc (clock svc (world s))
      then (Inr (session_principal u), s2) else (Inl (HTTPException 401 ''invalid token''), s2))"
proof -
  let ?cf = "sv_settings svc" and ?now = "clock svc (world s)"
  let ?claims = "claims_of ?cf ?now (us_username u) (role_value (us_role u)) (us_tenant_id u)"
  have e: "jwt_encode svc (jwt_secret ?cf) (jwt_algorithm ?cf) ?claims = Inr tok" and "s' = s"
    using assms(2)
    by (auto simp: issue_token_def bnd_def get_now_def cloud_def lift_sum_def raise_def split: if_splits)
  have "jget ?claims ''exp'' = JInt (session_end svc ?now)"
    by (simp add: claims_of_def jget_def session_end_def)
  then have "jwt_decode svc (jwt_secret ?cf) (jwt_algorithm ?cf) t tok
      = (if session_end svc ?now < unix_time t then None else Some ?claims)" and "\<not> starts_with tok ''dev:''" for t
    using L e unfolding jwt_laws_def by blast+
  then show ?thesis
    using bearer_of_starts [of tok] \<open>s' = s\<close>
    by (auto simp: get_principal_def decode_jwt_def decode_token_def bnd_def get_now_def cloud_def ret_def raise_def
        principal_of_issued bearer_of_def Let_def)
qed

text \<open>C10: a login succeeds only for an enabled account whose stored hash accepts the password,
  changes no table, and its token speaks for exactly that account, with the role and tenant it had
  at login, until the configured lifetime is over and for nobody after that.\<close>

theorem login_speaks_for_the_account:
  assumes "jwt_laws svc" and "request (login svc body) s = (Inr resp, s')"
  shows "\<exists>u \<in> set (users (committed s)). us_username u = lr_username body \<and> \<not> us_disabled u
     \<and> verify_password svc (lr_password body) (us_password_hash u) = Inr True
     \<and> tr_role resp = us_role u \<and> tr_tenant_id resp = us_tenant_id u \<and> committed s' = committed s
     \<and> (\<forall>s2. get_principal svc (bearer_of (tr_access_token resp)) s2 =
          (if unix_time (clock svc (world s2)) \<le> session_end svc (clock svc (world s))
           then (Inr (session_principal u), s2) else (Inl (HTTPException 401 ''invalid token''), s2)))"
proof -
  let ?s = "s\<lparr>session := committed s\<rparr>"
  obtain t where run: "login svc body ?s = (Inr resp, t)" and s': "s' = t\<lparr>session := committed t\<rparr>"
    using assms(2) by (auto simp: request_def split: prod.splits)
  obtain u where u: "user_named (lr_username body) (committed s) = Some u"
    using run by (auto simp: login_def bnd_def query_def ret_def raise_def split: option.splits)
  have v: "verify_password svc (lr_password body) (us_password_hash u) = Inr True" and d: "\<not> us_disabled u"
    using run u
    by (auto simp: login_def bnd_def query_def ret_def raise_def lift_sum_def split: sum.splits if_splits)
  obtain tok v' where i: "issue_token svc (us_username u) (role_value (us_role u)) (us_tenant_id u) ?s = (Inr tok, v')"
    and r: "resp = \<lparr>tr_access_token = tok, tr_role = us_role u, tr_tenant_id = us_tenant_id u\<rparr>" and "t = v'"
    using run u v d
    by (auto simp: login_def bnd_def query_def ret_def lift_sum_def split: prod.splits sum.splits)
  have "v' = ?s"
    using issue_token_Inr [OF assms(1) i] by blast
  moreover have "get_principal svc (bearer_of tok) s2 =
     (if unix_time (clock svc (world s2)) \<le> session_end svc (clock svc (world s))
      then (Inr (session_principal u), s2) else (Inl (HTTPException 401 ''invalid token''), s2))" for s2
    using issue_token_Inr [OF assms(1) i, of s2] by simp
  moreover have "u \<in> set (users (committed s))" "us_username u = lr_username body"
    using u row_by_Some by (fastforce simp: user_named_def)+
  ultimately show ?thesis
    using v d s' r \<open>t = v'\<close> by auto
qed

text \<open>Who an \<^verbatim>\<open>Authorization\<close> header makes an admin.\<close>

definition admin_header :: "'w services \<Rightarrow> string \<Rightarrow> utc \<Rightarrow> bool" where
  "admin_header svc authorization now \<longleftrightarrow>
     starts_with (lower authorization) ''bearer ''
   \<and> (let token = drop 7 authorization in
      if is_local (sv_settings svc) \<and> starts_with token ''dev:''
      then (case split_max CHR '':'' 2 token of [_, role, _] \<Rightarrow> role = ''admin'' | _ \<Rightarrow> False)
      else (case jwt_decode svc (jwt_secret (sv_settings svc)) (jwt_algorithm (sv_settings svc)) now token of
              None \<Rightarrow> False | Some c \<Rightarrow> jget c ''role'' = JStr ''admin''))"

lemma role_of_admin: "role_of r = Some ADMIN \<longleftrightarrow> r = ''admin''"
  by (simp add: role_of_def)

lemma claims_admin: "pr_role (principal_of_claims c) = ADMIN \<Longrightarrow> jget c ''role'' = JStr ''admin''"
  by (auto simp: principal_of_claims_def jget_def jget_or_def role_of_admin split: option.splits json.splits if_splits)

lemma dev_admin:
  "decode_local_dev token = Inr p \<Longrightarrow> pr_role p = ADMIN
     \<Longrightarrow> (case split_max CHR '':'' 2 token of [_, role, _] \<Rightarrow> role = ''admin'' | _ \<Rightarrow> False)"
  by (auto simp: decode_local_dev_def role_of_admin split: list.splits option.splits)

lemma wp_require_admin:
  assumes "\<And>p. pr_role p = ADMIN \<Longrightarrow> admin_header svc hdr (clock svc (world s)) \<Longrightarrow> Q p s" and "\<And>e. E e s"
  shows "wp (require_admin svc hdr) Q E s"
  using assms claims_admin dev_admin
  by (auto simp: require_admin_def get_principal_def decode_jwt_def decode_token_def wp_rules admin_header_def Let_def
      split: option.splits sum.splits)

text \<open>C9: nobody but an admin reaches an admin endpoint: without a valid token whose role claim is
  \<^verbatim>\<open>admin\<close> (or, in the local environment only, a development token that says so), the request ends
  in an error, whatever the handler, and no table and nothing outside has changed.\<close>

theorem admin_endpoints_need_an_admin:
  assumes "\<not> admin_header svc hdr (clock svc (world s))"
  shows "\<exists>e. as_admin svc hdr h s = (Inl e, s\<lparr>session := committed s\<rparr>)"
proof -
  let ?s = "s\<lparr>session := committed s\<rparr>"
  have "wp (bnd (require_admin svc hdr) h) (\<lambda>_ _. False) (\<lambda>_ t. t = ?s) ?s"
    unfolding wp_bnd by (rule wp_require_admin) (use assms in simp_all)
  then obtain e where "bnd (require_admin svc hdr) h ?s = (Inl e, ?s)"
    by (auto simp: wp_def split: prod.splits sum.splits)
  then show ?thesis
    by (simp add: as_admin_def request_def)
qed

section \<open>Witnesses\<close>

abbreviation toy_services :: "((string \<Rightarrow> string option) \<times> bool) services" where
  "toy_services \<equiv> mem_services unix_time mem_gateway"

lemma toy_jwt_laws: "jwt_laws (mem_services unix_time a)"
  using toy_encode_decode toy_encode_eyJ by (simp add: jwt_laws_def mem_services_def)

definition toy_user :: "string \<Rightarrow> user_role \<Rightarrow> string option \<Rightarrow> user" where
  "toy_user n r t = \<lparr>us_id = ''usr_'' @ n, us_username = n, us_password_hash = encode_hash ITERATIONS ''salt'' ''pwsalt'',
     us_role = r, us_tenant_id = t, us_disabled = False, us_created_at = 0\<rparr>"

definition toy_system :: "user list \<Rightarrow> ((string \<Rightarrow> string option) \<times> bool) sys" where
  "toy_system us = \<lparr>committed = no_tables\<lparr>users := us\<rparr>, session = no_tables, world = (\<lambda>_. None, True)\<rparr>"

theorem login_speaks_for_the_account_witness:
  "\<exists>resp s'. request (login toy_services \<lparr>lr_username = ''eve'', lr_password = ''pw''\<rparr>) (toy_system [toy_user ''eve'' CUSTOMER (Some ''tn_1'')])
        = (Inr resp, s')
     \<and> get_principal toy_services (bearer_of (tr_access_token resp)) s'
        = (Inr \<lparr>pr_subject = JStr ''eve'', pr_role = CUSTOMER, pr_tenant_id = JStr ''tn_1''\<rparr>, s')"
proof -
  let ?s = "toy_system [toy_user ''eve'' CUSTOMER (Some ''tn_1'')]"
  let ?body = "\<lparr>lr_username = ''eve'', lr_password = ''pw''\<rparr>"
  have plain: "plain_json (JObj (claims_of default_settings toy_now ''eve'' ''customer'' (Some ''tn_1'')))"
    by code_simp
  have range: "\<not> toy_now + jwt_expire_minutes default_settings * 60000000 \<ge> MAX_UTC"
    "\<not> toy_now + jwt_expire_minutes default_settings * 60000000 < 0"
    by code_simp+
  have life: "unix_time toy_now \<le> session_end toy_services toy_now"
    by code_simp
  obtain resp s' where run: "request (login toy_services ?body) ?s = (Inr resp, s')"
    using plain range
    by (auto simp: request_def login_def bnd_def query_def user_named_def row_by_def toy_system_def no_tables_def
        toy_user_def lift_sum_def ret_def issue_token_def get_now_def cloud_def mem_services_def toy_encode_def
        verify_encoded raise_def simp del: plain_json.simps dumps.simps split: if_splits)
  have v: "world s' = world ?s" "clock toy_services w = toy_now" for w
    using run
    by (auto simp: request_def login_def bnd_def query_def user_named_def row_by_def toy_system_def no_tables_def
        toy_user_def lift_sum_def ret_def issue_token_def get_now_def cloud_def mem_services_def toy_encode_def
        verify_encoded raise_def simp del: plain_json.simps dumps.simps split: if_splits)
  show ?thesis
    using login_speaks_for_the_account [OF toy_jwt_laws run] run v life
    by (auto simp: toy_system_def toy_user_def session_principal_def opt_str_json_def)
qed

theorem admin_endpoints_need_an_admin_witness:
  "\<exists>e. as_admin toy_services ''Bearer dev:customer:tn_1'' (\<lambda>_. edit (\<lambda>_. no_tables)) (toy_system [toy_user ''eve'' ADMIN None])
     = (Inl e, (toy_system [toy_user ''eve'' ADMIN None])\<lparr>session := committed (toy_system [toy_user ''eve'' ADMIN None])\<rparr>)"
proof (rule admin_endpoints_need_an_admin)
  have "starts_with (lower ''Bearer dev:customer:tn_1'') ''bearer ''" "is_local default_settings"
    "split_max CHR '':'' 2 (drop 7 ''Bearer dev:customer:tn_1'') = [''dev'', ''customer'', ''tn_1'']"
    "starts_with (drop 7 ''Bearer dev:customer:tn_1'') ''dev:''"
    by code_simp+
  then show "\<not> admin_header toy_services ''Bearer dev:customer:tn_1''
      (clock toy_services (world (toy_system [toy_user ''eve'' ADMIN None])))"
    by (simp add: admin_header_def mem_services_def)
qed

end
