(* ===== verification/UsersApi.thy ===== *)
theory UsersApi
  imports Identity
begin

text \<open>
  User management (\<^verbatim>\<open>api/users.py\<close>) and the first admin (\<^verbatim>\<open>init_db.py\<close>, \<^verbatim>\<open>_seed_admin\<close>).

  \<^verbatim>\<open>user_request\<close> lists the operations that write the users table, \<^verbatim>\<open>serve_user\<close> runs one,
  and \<^verbatim>\<open>user_step\<close> is the step relation of the table.  The lemmas show which invariants every
  step keeps, and which the guards do not give.
\<close>

section \<open>Handlers\<close>

definition require_tenant_for_customer :: "user_role \<Rightarrow> string option \<Rightarrow> ('w, unit) act" where
  "require_tenant_for_customer role tenant_id =
     (if role = CUSTOMER then
        if \<not> opt_true tenant_id then raise (HTTPException 400 ''customer users must be bound to a tenant'')
        else
          bnd (query (\<lambda>t. row_by tn_id (opt_or_empty tenant_id) (tenants t))) (\<lambda>found.
          if found = None then raise (HTTPException 404 ''tenant not found'') else ret ())
      else ret ())"

definition list_users :: "principal \<Rightarrow> ('w, user list) act" where
  "list_users _ = query users"

definition create_user :: "'w services \<Rightarrow> user_create \<Rightarrow> principal \<Rightarrow> ('w, user) act" where
  "create_user svc body _ =
     bnd (query (user_named (uc_username body))) (\<lambda>existing.
     if existing \<noteq> None then raise (HTTPException 409 ''username already exists'')
     else
       sq (require_tenant_for_customer (uc_role body) (uc_tenant_id body))
      (bnd (new_id svc ''usr'') (\<lambda>uid.
       bnd (cloud (hash_password svc (uc_password body))) (\<lambda>h.
       bnd (get_now svc) (\<lambda>now.
       let user = \<lparr>us_id = uid, us_username = uc_username body, us_password_hash = h, us_role = uc_role body,
             us_tenant_id = (if uc_role body = CUSTOMER then uc_tenant_id body else None),
             us_disabled = False, us_created_at = now\<rparr> in
       sq (edit (\<lambda>t. t\<lparr>users := users t @ [user]\<rparr>))
      (sq (commit svc) (ret user)))))))"

definition update_user :: "'w services \<Rightarrow> string \<Rightarrow> user_update \<Rightarrow> principal \<Rightarrow> ('w, user) act" where
  "update_user svc user_id body pr =
     bnd (load_or_404 users us_id user_id ''user'') (\<lambda>user.
     let is_self = (JStr (us_username user) = pr_subject pr);
         new_role = (case uu_role body of Some r \<Rightarrow> r | None \<Rightarrow> us_role user);
         new_tenant = (case uu_tenant_id body of Some t \<Rightarrow> Some t | None \<Rightarrow> us_tenant_id user) in
     if is_self \<and> uu_role body \<noteq> None \<and> uu_role body \<noteq> Some ADMIN
     then raise (HTTPException 400 ''cannot demote yourself'')
     else if is_self \<and> uu_disabled body = Some True
     then raise (HTTPException 400 ''cannot disable yourself'')
     else
       sq (require_tenant_for_customer new_role new_tenant)
      (let user' = user\<lparr>us_role := new_role,
             us_tenant_id := (if new_role = CUSTOMER then new_tenant else None),
             us_disabled := (case uu_disabled body of Some d \<Rightarrow> d | None \<Rightarrow> us_disabled user)\<rparr> in
       sq (edit (\<lambda>t. t\<lparr>users := put_row us_id user' (users t)\<rparr>))
      (sq (commit svc) (ret user'))))"

definition reset_password :: "'w services \<Rightarrow> string \<Rightarrow> password_reset \<Rightarrow> principal \<Rightarrow> ('w, user) act" where
  "reset_password svc user_id body _ =
     bnd (load_or_404 users us_id user_id ''user'') (\<lambda>user.
     bnd (cloud (hash_password svc (new_password body))) (\<lambda>h.
     let user' = user\<lparr>us_password_hash := h\<rparr> in
     sq (edit (\<lambda>t. t\<lparr>users := put_row us_id user' (users t)\<rparr>))
    (sq (commit svc) (ret user'))))"

definition admin_count :: "tables \<Rightarrow> nat" where
  "admin_count t = length (filter (\<lambda>u. us_role u = ADMIN) (users t))"

definition delete_user :: "'w services \<Rightarrow> string \<Rightarrow> principal \<Rightarrow> ('w, unit) act" where
  "delete_user svc user_id pr =
     bnd (load_or_404 users us_id user_id ''user'') (\<lambda>user.
     if JStr (us_username user) = pr_subject pr then raise (HTTPException 400 ''cannot delete yourself'')
     else
       bnd (query admin_count) (\<lambda>n.
       if us_role user = ADMIN \<and> n \<le> 1 then raise (HTTPException 400 ''cannot delete the last admin'')
       else
         sq (edit (\<lambda>t. t\<lparr>users := filter (\<lambda>u. us_id u \<noteq> user_id) (users t)\<rparr>))
            (commit svc)))"

definition change_my_password :: "'w services \<Rightarrow> password_change \<Rightarrow> principal \<Rightarrow> ('w, unit) act" where
  "change_my_password svc body pr =
     bnd (query (\<lambda>t. case pr_subject pr of JStr n \<Rightarrow> user_named n t | _ \<Rightarrow> None)) (\<lambda>found.
     case found of
       None \<Rightarrow> raise (HTTPException 401 ''current password incorrect'')
     | Some user \<Rightarrow>
         bnd (lift_sum (verify_password svc (pc_old_password body) (us_password_hash user))) (\<lambda>good.
         if \<not> good then raise (HTTPException 401 ''current password incorrect'')
         else
           bnd (cloud (hash_password svc (pc_new_password body))) (\<lambda>h.
           let user' = user\<lparr>us_password_hash := h\<rparr> in
           sq (edit (\<lambda>t. t\<lparr>users := put_row us_id user' (users t)\<rparr>))
              (commit svc))))"

text \<open>Several replicas may seed at once: losing the race is an \<^verbatim>\<open>IntegrityError\<close>, which is rolled back.\<close>

definition seed_admin :: "'w services \<Rightarrow> ('w, unit) act" where
  "seed_admin svc =
     (let cf = sv_settings svc in
      if admin_password cf = [] then ret ()
      else
        catch_exn
          (bnd (query (user_named (admin_username cf))) (\<lambda>existing.
           if existing \<noteq> None then ret ()
           else
             bnd (new_id svc ''usr'') (\<lambda>uid.
             bnd (cloud (hash_password svc (admin_password cf))) (\<lambda>h.
             bnd (get_now svc) (\<lambda>now.
             let admin = \<lparr>us_id = uid, us_username = admin_username cf, us_password_hash = h, us_role = ADMIN,
                   us_tenant_id = None, us_disabled = False, us_created_at = now\<rparr> in
             sq (edit (\<lambda>t. t\<lparr>users := users t @ [admin]\<rparr>)) (commit svc))))))
          (\<lambda>e. case e of IntegrityError _ \<Rightarrow> rollback | _ \<Rightarrow> raise e))"

section \<open>What each handler writes\<close>

text \<open>An account is bound as it should be: a customer to a named tenant, an admin to none.\<close>

definition bound :: "user \<Rightarrow> bool" where
  "bound u \<longleftrightarrow> (case us_role u of CUSTOMER \<Rightarrow> opt_true (us_tenant_id u) | ADMIN \<Rightarrow> us_tenant_id u = None)"

definition tenant_exists :: "user \<Rightarrow> tables \<Rightarrow> bool" where
  "tenant_exists u t \<longleftrightarrow> (us_role u = CUSTOMER \<longrightarrow> opt_or_empty (us_tenant_id u) \<in> tn_id ` set (tenants t))"

lemma wp_require_tenant [wp_rules]:
  "wp (require_tenant_for_customer r i) Q E s =
     (if r = CUSTOMER then
        if \<not> opt_true i then E (HTTPException 400 ''customer users must be bound to a tenant'') s
        else if opt_or_empty i \<in> tn_id ` set (tenants (session s)) then Q () s
        else E (HTTPException 404 ''tenant not found'') s
      else Q () s)"
  by (auto simp: require_tenant_for_customer_def wp_rules row_by_None)

lemma create_user_writes:
  "atomic_write (\<lambda>u a b. b = a\<lparr>users := users a @ [u]\<rparr> \<and> constraints_ok b \<and> bound u \<and> tenant_exists u a
     \<and> us_username u = uc_username body \<and> us_role u = uc_role body \<and> \<not> us_disabled u
     \<and> uc_username body \<notin> us_username ` set (users a)) (create_user svc body p)"
  unfolding create_user_def Let_def
  by (rule atomic_writeI)
    (auto simp: handler_rules wp_require_tenant user_named_def row_by_None bound_def tenant_exists_def
      intro!: handler_intros split: user_role.splits)

definition enabled_admin :: "user \<Rightarrow> bool" where
  "enabled_admin u \<longleftrightarrow> us_role u = ADMIN \<and> \<not> us_disabled u"

lemma update_user_writes:
  "atomic_write (\<lambda>u' a b. b = a\<lparr>users := put_row us_id u' (users a)\<rparr> \<and> constraints_ok b \<and> bound u' \<and> tenant_exists u' a
     \<and> (\<exists>u. row_by us_id i (users a) = Some u \<and> us_id u' = us_id u \<and> us_username u' = us_username u
           \<and> us_password_hash u' = us_password_hash u
           \<and> (JStr (us_username u) = pr_subject p \<and> enabled_admin u \<longrightarrow> enabled_admin u')))
     (update_user svc i body p)"
  unfolding update_user_def Let_def
  by (rule atomic_writeI)
    (auto simp: handler_rules wp_require_tenant bound_def tenant_exists_def enabled_admin_def
      intro!: handler_intros split: user_role.splits option.splits)

lemma reset_password_writes:
  "atomic_write (\<lambda>u' a b. b = a\<lparr>users := put_row us_id u' (users a)\<rparr> \<and> constraints_ok b
     \<and> (\<exists>u. row_by us_id i (users a) = Some u \<and> u' = u\<lparr>us_password_hash := us_password_hash u'\<rparr>))
     (reset_password svc i body p)"
  unfolding reset_password_def Let_def
  by (rule atomic_writeI) (auto simp: handler_rules intro!: handler_intros split: option.splits)

lemma delete_user_writes:
  "atomic_write (\<lambda>_ a b. b = a\<lparr>users := filter (\<lambda>u. us_id u \<noteq> i) (users a)\<rparr> \<and> constraints_ok b
     \<and> (\<exists>u. row_by us_id i (users a) = Some u \<and> JStr (us_username u) \<noteq> pr_subject p
           \<and> (us_role u = ADMIN \<longrightarrow> 1 < admin_count a)))
     (delete_user svc i p)"
  unfolding delete_user_def
  by (rule atomic_writeI) (auto simp: handler_rules intro!: handler_intros split: option.splits)

lemma change_my_password_writes:
  "atomic_write (\<lambda>_ a b. constraints_ok b
     \<and> (\<exists>u. pr_subject p = JStr (us_username u) \<and> user_named (us_username u) a = Some u
           \<and> verify_password svc (pc_old_password body) (us_password_hash u) = Inr True
           \<and> (\<exists>h. b = a\<lparr>users := put_row us_id (u\<lparr>us_password_hash := h\<rparr>) (users a)\<rparr>)))
     (change_my_password svc body p)"
proof (rule atomic_writeI)
  fix s :: "'a sys"
  assume s: "session s = committed s"
  show "wp (change_my_password svc body p) (\<lambda>_ t. constraints_ok (committed t)
     \<and> (\<exists>u. pr_subject p = JStr (us_username u) \<and> user_named (us_username u) (committed s) = Some u
           \<and> verify_password svc (pc_old_password body) (us_password_hash u) = Inr True
           \<and> (\<exists>h. committed t = (committed s)\<lparr>users := put_row us_id (u\<lparr>us_password_hash := h\<rparr>) (users (committed s))\<rparr>)))
     (\<lambda>_ t. committed t = committed s) s"
  proof (cases "case pr_subject p of JStr n \<Rightarrow> user_named n (committed s) | _ \<Rightarrow> None")
    case None
    then show ?thesis
      using s by (cases "pr_subject p") (simp_all add: change_my_password_def handler_rules)
  next
    case (Some u)
    then have u: "pr_subject p = JStr (us_username u)" "user_named (us_username u) (committed s) = Some u"
      using row_by_Some by (fastforce simp: user_named_def split: json.splits)+
    show ?thesis
      using s u unfolding change_my_password_def Let_def
      by (auto simp: handler_rules intro!: handler_intros exI [of _ u]
          split: sum.splits) (rule exI, rule refl)
  qed
qed

lemma seed_admin_writes:
  "atomic_write (\<lambda>_ a b. b = a \<or> constraints_ok b
     \<and> b = a\<lparr>users := users b\<rparr> \<and> (\<exists>u. users b = users a @ [u] \<and> bound u \<and> enabled_admin u \<and> us_username u = admin_username (sv_settings svc)))
     (seed_admin svc)"
  unfolding seed_admin_def Let_def
  by (rule atomic_writeI)
    (auto simp: handler_rules bound_def enabled_admin_def intro!: handler_intros split: exn.splits)

section \<open>Requests on accounts\<close>

datatype user_request =
    CreateUser user_create
  | UpdateUser string user_update
  | ResetPassword string password_reset
  | DeleteUser string
  | ChangeMyPassword password_change

definition drop_result :: "('w, 'a) act \<Rightarrow> ('w, unit) act" where
  "drop_result m = bnd m (\<lambda>_. ret ())"

lemma drop_result_writes: "atomic_write R m \<Longrightarrow> atomic_write (\<lambda>_ a b. \<exists>x. R x a b) (drop_result m)"
  unfolding atomic_write_def drop_result_def wp_bnd wp_ret_fun by (blast intro: wp_conseq)

fun serve_user :: "'w services \<Rightarrow> user_request \<Rightarrow> principal \<Rightarrow> ('w, unit) act" where
  "serve_user svc (CreateUser body) p = drop_result (create_user svc body p)"
| "serve_user svc (UpdateUser i body) p = drop_result (update_user svc i body p)"
| "serve_user svc (ResetPassword i body) p = drop_result (reset_password svc i body p)"
| "serve_user svc (DeleteUser i) p = delete_user svc i p"
| "serve_user svc (ChangeMyPassword body) p = change_my_password svc body p"

text \<open>What every one of them may do to the table: add a bound account, replace one by a bound account
  or by itself with another password, or drop one that is not the caller.\<close>

definition user_change :: "principal \<Rightarrow> tables \<Rightarrow> tables \<Rightarrow> bool" where
  "user_change p a b \<longleftrightarrow> b = a\<lparr>users := users b\<rparr> \<and> constraints_ok b
     \<and> ((\<exists>u. users b = users a @ [u] \<and> bound u \<and> tenant_exists u a)
      \<or> (\<exists>u u'. u \<in> set (users a) \<and> users b = put_row us_id u' (users a) \<and> us_id u' = us_id u
            \<and> us_username u' = us_username u \<and> (bound u \<longrightarrow> bound u')
            \<and> (JStr (us_username u) = pr_subject p \<and> enabled_admin u \<longrightarrow> enabled_admin u'))
      \<or> (\<exists>u \<in> set (users a). users b = filter (\<lambda>x. us_id x \<noteq> us_id u) (users a) \<and> JStr (us_username u) \<noteq> pr_subject p))"

lemma set_hash_same [simp]:
  "bound (u\<lparr>us_password_hash := h\<rparr>) = bound u" "enabled_admin (u\<lparr>us_password_hash := h\<rparr>) = enabled_admin u"
  by (cases "us_role u"; simp add: bound_def enabled_admin_def)+

lemma serve_user_writes: "atomic_write (\<lambda>_. user_change p) (serve_user svc req p)"
proof (cases req)
  case (CreateUser body)
  show ?thesis
    unfolding CreateUser serve_user.simps
    by (rule atomic_write_mono [OF drop_result_writes [OF create_user_writes]]) (auto simp: user_change_def)
next
  case (UpdateUser i body)
  show ?thesis
    unfolding UpdateUser serve_user.simps
  proof (rule atomic_write_mono [OF drop_result_writes [OF update_user_writes]], elim exE conjE)
    fix a b u' u
    assume b: "b = a\<lparr>users := put_row us_id u' (users a)\<rparr>" "constraints_ok b" "bound u'"
      and u: "row_by us_id i (users a) = Some u" "us_id u' = us_id u" "us_username u' = us_username u"
        "JStr (us_username u) = pr_subject p \<and> enabled_admin u \<longrightarrow> enabled_admin u'"
    have "u \<in> set (users a)"
      using row_by_Some [OF u(1)] by simp
    then show "user_change p a b"
      unfolding user_change_def using b u by (intro conjI disjI2 disjI1 exI [of _ u] exI [of _ u']) auto
  qed
next
  case (ResetPassword i body)
  show ?thesis
    unfolding ResetPassword serve_user.simps
  proof (rule atomic_write_mono [OF drop_result_writes [OF reset_password_writes]], elim exE conjE)
    fix a b u' u
    assume b: "b = a\<lparr>users := put_row us_id u' (users a)\<rparr>" "constraints_ok b"
      and u: "row_by us_id i (users a) = Some u" "u' = u\<lparr>us_password_hash := us_password_hash u'\<rparr>"
    have "us_id u' = us_id u" "us_username u' = us_username u" "bound u' = bound u" "enabled_admin u' = enabled_admin u"
      by (subst u(2); simp)+
    moreover have "u \<in> set (users a)"
      using row_by_Some [OF u(1)] by simp
    ultimately show "user_change p a b"
      unfolding user_change_def using b by (intro conjI disjI2 disjI1 exI [of _ u] exI [of _ u']) auto
  qed
next
  case (DeleteUser i)
  show ?thesis
    unfolding DeleteUser serve_user.simps
    by (rule atomic_write_mono [OF delete_user_writes]) (auto simp: user_change_def dest!: row_by_Some)
next
  case (ChangeMyPassword body)
  show ?thesis
    unfolding ChangeMyPassword serve_user.simps
  proof (rule atomic_write_mono [OF change_my_password_writes], elim exE conjE)
    fix a b u h
    assume "constraints_ok b" "user_named (us_username u) a = Some u"
      and b: "b = a\<lparr>users := put_row us_id (u\<lparr>us_password_hash := h\<rparr>) (users a)\<rparr>"
    moreover have "u \<in> set (users a)"
      using row_by_Some calculation(2) by (fastforce simp: user_named_def)
    ultimately show "user_change p a b"
      unfolding user_change_def
      by (intro conjI disjI2 disjI1 exI [of _ u] exI [of _ "u\<lparr>us_password_hash := h\<rparr>"]) simp_all
  qed
qed

definition all_bound :: "tables \<Rightarrow> bool" where
  "all_bound t \<longleftrightarrow> list_all bound (users t)"

lemma user_change_bound: "user_change p a b \<Longrightarrow> all_bound a \<Longrightarrow> all_bound b"
  by (auto simp: user_change_def all_bound_def list_all_iff dest!: set_put_row)

text \<open>C11: an administrator cannot lock the platform out by an account operation of their own: while
  the caller is an enabled admin of the users table, the same account is one after the request,
  whatever it did, and so somebody can still administer.\<close>

theorem acting_admin_stays:
  assumes "constraints_ok (committed s)" and "adm \<in> set (users (committed s))" and "enabled_admin adm"
    and "pr_subject p = JStr (us_username adm)" and "request (serve_user svc req p) s = (r, s')"
  shows "\<exists>adm' \<in> set (users (committed s')). us_id adm' = us_id adm \<and> enabled_admin adm'"
proof (cases r)
  case (Inl e)
  then have "committed s' = committed s"
    using atomic_request [OF serve_user_writes assms(5)] by simp
  then show ?thesis using assms by auto
next
  case (Inr x)
  then have c: "user_change p (committed s) (committed s')"
    using atomic_request [OF serve_user_writes assms(5)] by simp
  let ?a = "users (committed s)" and ?b = "users (committed s')"
  have d: "distinct (map us_id ?a)"
    using assms(1) by (simp add: constraints_distinct)
  consider (add) u where "?b = ?a @ [u]"
    | (upd) u u' where "u \<in> set ?a" "?b = put_row us_id u' ?a" "us_id u' = us_id u"
        "JStr (us_username u) = pr_subject p \<and> enabled_admin u \<longrightarrow> enabled_admin u'"
    | (del) u where "u \<in> set ?a" "?b = filter (\<lambda>x. us_id x \<noteq> us_id u) ?a" "JStr (us_username u) \<noteq> pr_subject p"
    using c unfolding user_change_def by blast
  then show ?thesis
  proof cases
    case add
    then show ?thesis using assms by auto
  next
    case upd
    show ?thesis
    proof (cases "us_id adm = us_id u")
      case True
      then have "adm = u"
        using d upd(1) assms(2) inj_onD [of us_id "set ?a" adm u] by (simp add: distinct_map)
      then have "enabled_admin u'"
        using upd(4) assms(3,4) by simp
      then show ?thesis
        using upd True put_row_mem [of us_id u' ?a] by (intro bexI [of _ u']) auto
    next
      case False
      then show ?thesis
        using upd assms by (intro bexI [of _ adm]) (auto intro: put_row_keeps)
    qed
  next
    case del
    have "us_id adm \<noteq> us_id u"
    proof
      assume "us_id adm = us_id u"
      then have "adm = u"
        using d del(1) assms(2) inj_onD [of us_id "set ?a" adm u] by (simp add: distinct_map)
      then show False using del(3) assms(4) by simp
    qed
    then show ?thesis using del assms by auto
  qed
qed

section \<open>At concrete inputs\<close>

abbreviation eve :: user where
  "eve \<equiv> toy_user ''eve'' ADMIN None"

abbreviation bob :: user where
  "bob \<equiv> toy_user ''bob'' ADMIN None"

definition disable :: user_update where
  "disable = \<lparr>uu_role = None, uu_tenant_id = None, uu_disabled = Some True\<rparr>"

lemma toy_issue:
  assumes "plain_json (JObj (claims_of default_settings toy_now (us_username u) (role_value (us_role u)) (us_tenant_id u)))"
  obtains tok where "issue_token toy_services (us_username u) (role_value (us_role u)) (us_tenant_id u) s = (Inr tok, s)"
    and "\<And>s2. get_principal toy_services (bearer_of tok) s2 = (Inr (session_principal u), s2)"
proof -
  have range: "\<not> toy_now + jwt_expire_minutes default_settings * 60000000 \<ge> MAX_UTC"
    "\<not> toy_now + jwt_expire_minutes default_settings * 60000000 < 0"
    by code_simp+
  have life: "unix_time toy_now \<le> session_end toy_services toy_now"
    by code_simp
  have run: "\<exists>tok. issue_token toy_services (us_username u) (role_value (us_role u)) (us_tenant_id u) s = (Inr tok, s)"
    using assms range
    by (simp add: issue_token_def bnd_def get_now_def cloud_def lift_sum_def mem_services_def toy_encode_def
        del: plain_json.simps dumps.simps)
  then obtain tok where t: "issue_token toy_services (us_username u) (role_value (us_role u)) (us_tenant_id u) s = (Inr tok, s)"
    by blast
  have clocks: "clock toy_services w = toy_now" for w
    by (simp add: mem_services_def)
  show ?thesis
    by (rule that [OF t]) (use issue_token_Inr [OF toy_jwt_laws t] clocks life in auto)
qed

lemma toy_disable:
  assumes "row_by us_id i (users (committed s)) = Some u" and "us_role u = ADMIN" and "us_username u \<noteq> us_username v"
    and "constraints_ok ((committed s)\<lparr>users := put_row us_id (u\<lparr>us_role := ADMIN, us_tenant_id := None, us_disabled := True\<rparr>) (users (committed s))\<rparr>)"
    and "get_principal toy_services hdr = (\<lambda>s. (Inr (session_principal v), s))" and "us_role v = ADMIN"
  shows "\<exists>s'. as_admin toy_services hdr (serve_user toy_services (UpdateUser i disable)) s = (Inr (), s')
     \<and> committed s' = (committed s)\<lparr>users := put_row us_id (u\<lparr>us_role := ADMIN, us_tenant_id := None, us_disabled := True\<rparr>) (users (committed s))\<rparr>"
  using assms
  by (simp add: as_admin_def request_def require_admin_def bnd_def ret_def session_principal_def drop_result_def
      update_user_def load_or_404_def query_def Let_def disable_def require_tenant_for_customer_def sq_def edit_def
      commit_def cloud_def mem_services_def)


theorem acting_admin_stays_witness:
  "\<exists>s'. request (serve_user toy_services (DeleteUser ''usr_bob'') (session_principal eve)) (toy_system [eve, bob]) = (Inr (), s')
     \<and> (\<exists>adm' \<in> set (users (committed s')). us_id adm' = ''usr_eve'' \<and> enabled_admin adm')"
proof -
  let ?s = "toy_system [eve, bob]"
  obtain s' where run: "request (serve_user toy_services (DeleteUser ''usr_bob'') (session_principal eve)) ?s = (Inr (), s')"
    by (simp add: request_def delete_user_def bnd_def load_or_404_def query_def ret_def toy_system_def no_tables_def row_by_def
        toy_user_def session_principal_def admin_count_def sq_def edit_def commit_def cloud_def mem_services_def
        constraints_ok_def platform_names_def)
  have "constraints_ok (committed ?s)"
    by (simp add: toy_system_def no_tables_def constraints_ok_def platform_names_def toy_user_def)
  then have "\<exists>adm' \<in> set (users (committed s')). us_id adm' = us_id eve \<and> enabled_admin adm'"
    by (rule acting_admin_stays [OF _ _ _ _ run])
      (simp_all add: toy_system_def enabled_admin_def session_principal_def toy_user_def)
  then show ?thesis
    using run by (auto simp: toy_user_def)
qed

end
