(* ===== verification/TenantsApi.thy ===== *)
theory TenantsApi
  imports Identity
begin

text \<open>
  Tenants, projects and virtual keys (\<^verbatim>\<open>api/tenants.py\<close>, \<^verbatim>\<open>api/keys.py\<close>).

  Every handler commits once, at its end, so a failure leaves the tables as they were
  (\<^verbatim>\<open>atomic_write\<close>); what a success writes is stated per handler.  Deleting a tenant or a
  project is refused while it has keys; deleting a key goes through whatever the cloud answers.
\<close>

section \<open>Tenants\<close>

definition create_tenant :: "'w services \<Rightarrow> tenant_create \<Rightarrow> principal \<Rightarrow> ('w, tenant) act" where
  "create_tenant svc body _ =
     bnd (new_id svc ''tn'') (\<lambda>tid.
     bnd (catch_exn
            (bnd (cloud (ensure_product_for_tenant (apim svc) tid)) (\<lambda>product_id. ret [product_id]))
            (\<lambda>_. ret [])) (\<lambda>product_ids.
     bnd (get_now svc) (\<lambda>now.
     let tenant = \<lparr>tn_id = tid, tn_name = tc_name body, tn_mode = tc_mode body,
           tn_billing_account_id = tc_billing_account_id body, tn_apim_product_ids = product_ids,
           tn_status = TENANT_ACTIVE, tn_audit_enabled = False, tn_created_at = now\<rparr> in
     sq (edit (\<lambda>t. t\<lparr>tenants := tenants t @ [tenant]\<rparr>))
    (sq (commit svc) (ret tenant)))))"

definition list_tenants :: "principal \<Rightarrow> ('w, tenant list) act" where
  "list_tenants _ = query tenants"

text \<open>The keys of a tenant: the join of keys and projects.\<close>

definition tenant_keys :: "string \<Rightarrow> tables \<Rightarrow> virtual_key list" where
  "tenant_keys i t =
     filter (\<lambda>k. case row_by pj_id (vk_project_id k) (projects t) of None \<Rightarrow> False | Some p \<Rightarrow> pj_tenant_id p = i)
       (virtual_keys t)"

definition apply_audit_flag :: "'w services \<Rightarrow> tenant \<Rightarrow> bool \<Rightarrow> ('w, unit) act" where
  "apply_audit_flag svc tenant enabled =
     bnd (query (\<lambda>t. map (\<lambda>k. opt_or_empty (vk_apim_subscription_id k))
            (filter (\<lambda>k. opt_true (vk_apim_subscription_id k)) (tenant_keys (tn_id tenant) t)))) (\<lambda>sub_ids.
     catch_exn (cloud (set_audit_flag (nv (apim svc)) sub_ids enabled))
       (\<lambda>exc. raise (HTTPException 502 (''failed to apply audit flag at the gateway: '' @ exn_str exc))))"

definition update_tenant :: "'w services \<Rightarrow> string \<Rightarrow> tenant_update \<Rightarrow> principal \<Rightarrow> ('w, tenant) act" where
  "update_tenant svc tenant_id body _ =
     bnd (load_or_404 tenants tn_id tenant_id ''tenant'') (\<lambda>tenant.
     let t1 = (case tu_name body of Some n \<Rightarrow> tenant\<lparr>tn_name := n\<rparr> | None \<Rightarrow> tenant);
         t2 = (case tu_mode body of Some m \<Rightarrow> t1\<lparr>tn_mode := m\<rparr> | None \<Rightarrow> t1) in
     sq (edit (\<lambda>t. t\<lparr>tenants := put_row tn_id t2 (tenants t)\<rparr>))
    (bnd (case tu_audit_enabled body of
            None \<Rightarrow> ret t2
          | Some a \<Rightarrow>
              if a = tn_audit_enabled t2 then ret t2
              else
                let t3 = t2\<lparr>tn_audit_enabled := a\<rparr> in
                sq (apply_audit_flag svc t2 a)
               (sq (edit (\<lambda>t. t\<lparr>tenants := put_row tn_id t3 (tenants t)\<rparr>)) (ret t3))) (\<lambda>t4.
     sq (commit svc) (ret t4))))"

text \<open>\<^verbatim>\<open>db.delete\<close> of a tenant: the ORM takes its projects and their keys along, the database its
  routes.\<close>

definition without_tenant :: "string \<Rightarrow> tables \<Rightarrow> tables" where
  "without_tenant i t =
     t\<lparr>tenants := filter (\<lambda>x. tn_id x \<noteq> i) (tenants t),
       projects := filter (\<lambda>p. pj_tenant_id p \<noteq> i) (projects t),
       virtual_keys := filter (\<lambda>k. k \<notin> set (tenant_keys i t)) (virtual_keys t),
       model_routes := filter (\<lambda>r. rt_tenant_id r \<noteq> Some i) (model_routes t)\<rparr>"

definition delete_tenant :: "'w services \<Rightarrow> string \<Rightarrow> principal \<Rightarrow> ('w, unit) act" where
  "delete_tenant svc tenant_id _ =
     bnd (load_or_404 tenants tn_id tenant_id ''tenant'') (\<lambda>tenant.
     bnd (query (\<lambda>t. length (tenant_keys tenant_id t))) (\<lambda>live.
     if live \<noteq> 0
     then raise (HTTPException 409 (''tenant has '' @ int_str (int live) @ '' key(s); delete those first''))
     else sq (edit (without_tenant tenant_id)) (commit svc)))"

definition ensure_tenant_product :: "'w services \<Rightarrow> string \<Rightarrow> principal \<Rightarrow> ('w, tenant) act" where
  "ensure_tenant_product svc tenant_id _ =
     bnd (load_or_404 tenants tn_id tenant_id ''tenant'') (\<lambda>tenant.
     if tn_apim_product_ids tenant \<noteq> [] then ret tenant
     else
       bnd (cloud (ensure_product_for_tenant (apim svc) tenant_id)) (\<lambda>product_id.
       let t1 = tenant\<lparr>tn_apim_product_ids := [product_id]\<rparr> in
       sq (edit (\<lambda>t. t\<lparr>tenants := put_row tn_id t1 (tenants t)\<rparr>))
      (sq (commit svc) (ret t1))))"

section \<open>Projects\<close>

definition create_project :: "'w services \<Rightarrow> project_create \<Rightarrow> principal \<Rightarrow> ('w, project) act" where
  "create_project svc body _ =
     bnd (load_or_404 tenants tn_id (jc_tenant_id body) ''tenant'') (\<lambda>_.
     bnd (new_id svc ''pj'') (\<lambda>pid.
     bnd (get_now svc) (\<lambda>now.
     let project = \<lparr>pj_id = pid, pj_tenant_id = jc_tenant_id body, pj_name = jc_name body,
           pj_cost_center = jc_cost_center body, pj_created_at = now\<rparr> in
     sq (edit (\<lambda>t. t\<lparr>projects := projects t @ [project]\<rparr>))
    (sq (commit svc) (ret project)))))"

definition list_projects :: "string option \<Rightarrow> principal \<Rightarrow> ('w, project list) act" where
  "list_projects tenant_id _ =
     query (\<lambda>t. if opt_true tenant_id then filter (\<lambda>p. pj_tenant_id p = opt_or_empty tenant_id) (projects t)
                else projects t)"

definition update_project :: "'w services \<Rightarrow> string \<Rightarrow> project_update \<Rightarrow> principal \<Rightarrow> ('w, project) act" where
  "update_project svc project_id body _ =
     bnd (load_or_404 projects pj_id project_id ''project'') (\<lambda>project.
     let p1 = (case ju_name body of Some n \<Rightarrow> project\<lparr>pj_name := n\<rparr> | None \<Rightarrow> project);
         p2 = (case ju_cost_center body of Some c \<Rightarrow> p1\<lparr>pj_cost_center := Some c\<rparr> | None \<Rightarrow> p1) in
     sq (edit (\<lambda>t. t\<lparr>projects := put_row pj_id p2 (projects t)\<rparr>))
    (sq (commit svc) (ret p2)))"

definition delete_project :: "'w services \<Rightarrow> string \<Rightarrow> principal \<Rightarrow> ('w, unit) act" where
  "delete_project svc project_id _ =
     bnd (load_or_404 projects pj_id project_id ''project'') (\<lambda>project.
     bnd (query (\<lambda>t. length (filter (\<lambda>k. vk_project_id k = project_id) (virtual_keys t)))) (\<lambda>live.
     if live \<noteq> 0
     then raise (HTTPException 409 (''project has '' @ int_str (int live) @ '' key(s); delete those first''))
     else
       sq (edit (\<lambda>t. t\<lparr>projects := filter (\<lambda>p. pj_id p \<noteq> project_id) (projects t),
                       virtual_keys := filter (\<lambda>k. vk_project_id k \<noteq> project_id) (virtual_keys t)\<rparr>))
          (commit svc)))"

section \<open>Virtual keys\<close>

text \<open>Newest first; the sort is stable, as PostgreSQL's order of equal times is not specified.\<close>

definition list_keys :: "string option \<Rightarrow> principal \<Rightarrow> ('w, virtual_key list) act" where
  "list_keys project_id _ =
     query (\<lambda>t. rev (sort_key vk_created_at
       (if opt_true project_id then filter (\<lambda>k. vk_project_id k = opt_or_empty project_id) (virtual_keys t)
        else virtual_keys t)))"

definition publish_limits :: "'w services \<Rightarrow> string \<Rightarrow> virtual_key_create \<Rightarrow> tenant \<Rightarrow> ('w, unit) eff" where
  "publish_limits svc key_id body tenant =
     sq (upsert_key_limits (nv (apim svc)) key_id (kc_tokens_per_minute body)
           (map_option tier_value (kc_token_quota_tier body)) (map_option period_value (kc_token_quota_period body)))
        (if tn_audit_enabled tenant then set_audit_flag (nv (apim svc)) [key_id] True else ret ())"

definition undo_issuance :: "'w services \<Rightarrow> string \<Rightarrow> ('w, unit) eff" where
  "undo_issuance svc key_id =
     sq (best_effort (delete_subscription (apim svc) key_id))
        (best_effort (delete_secret svc (subscription_key_name key_id)))"

definition key_out :: "virtual_key \<Rightarrow> string \<Rightarrow> virtual_key_secret" where
  "key_out vk key_value = \<lparr>ko_id = vk_id vk, ko_project_id = vk_project_id vk,
     ko_apim_subscription_id = vk_apim_subscription_id vk, ko_allowed_route_ids = vk_allowed_route_ids vk,
     ko_tokens_per_minute = vk_tokens_per_minute vk, ko_token_quota_tier = vk_token_quota_tier vk,
     ko_token_quota_period = vk_token_quota_period vk, ko_expires_at = vk_expires_at vk, ko_status = vk_status vk,
     ko_created_at = vk_created_at vk, ks_key_value = key_value\<rparr>"

text \<open>The issuance proper, once project, tenant and product are known.\<close>

definition issue_key ::
  "'w services \<Rightarrow> virtual_key_create \<Rightarrow> project \<Rightarrow> tenant \<Rightarrow> string \<Rightarrow> ('w, virtual_key_secret) act" where
  "issue_key svc body project tenant product_id =
     bnd (new_id svc ''vk'') (\<lambda>key_id.
     bnd (cloud (create_subscription (apim svc) key_id
            (tn_name tenant @ ''/'' @ pj_name project @ ''/'' @ key_id) product_id)) (\<lambda>key_value.
     bnd (cloud (set_secret svc (subscription_key_name key_id) key_value)) (\<lambda>kv_ref.
     sq (catch_exn (cloud (publish_limits svc key_id body tenant))
           (\<lambda>exc. sq (cloud (undo_issuance svc key_id))
                     (raise (HTTPException 502 (''failed to apply key limits: '' @ exn_str exc)))))
    (bnd (get_now svc) (\<lambda>now.
     let vk = \<lparr>vk_id = key_id, vk_project_id = pj_id project, vk_apim_subscription_id = Some key_id,
           vk_keyvault_ref = Some kv_ref, vk_allowed_route_ids = kc_allowed_route_ids body,
           vk_tokens_per_minute = kc_tokens_per_minute body, vk_token_quota_tier = kc_token_quota_tier body,
           vk_token_quota_period = kc_token_quota_period body, vk_expires_at = kc_expires_at body,
           vk_status = KEY_ACTIVE, vk_created_at = now\<rparr> in
     sq (edit (\<lambda>t. t\<lparr>virtual_keys := virtual_keys t @ [vk]\<rparr>))
    (sq (commit svc) (ret (key_out vk key_value))))))))"

definition create_key :: "'w services \<Rightarrow> virtual_key_create \<Rightarrow> principal \<Rightarrow> ('w, virtual_key_secret) act" where
  "create_key svc body _ =
     bnd (load_or_404 projects pj_id (kc_project_id body) ''project'') (\<lambda>project.
     bnd (query (\<lambda>t. row_by tn_id (pj_tenant_id project) (tenants t))) (\<lambda>found.
     let none = raise (HTTPException 409 ''tenant has no APIM product provisioned'') in
     case found of
       None \<Rightarrow> none
     | Some tenant \<Rightarrow>
         (case tn_apim_product_ids tenant of
            [] \<Rightarrow> none
          | product_id # _ \<Rightarrow> issue_key svc body project tenant product_id)))"

definition suspend_key :: "'w services \<Rightarrow> string \<Rightarrow> principal \<Rightarrow> ('w, virtual_key) act" where
  "suspend_key svc key_id _ =
     bnd (load_or_404 virtual_keys vk_id key_id ''key'') (\<lambda>vk.
     sq (if opt_true (vk_apim_subscription_id vk)
         then cloud (set_subscription_state (apim svc) (opt_or_empty (vk_apim_subscription_id vk)) ''suspended'')
         else ret ())
    (let vk' = vk\<lparr>vk_status := KEY_SUSPENDED\<rparr> in
     sq (edit (\<lambda>t. t\<lparr>virtual_keys := put_row vk_id vk' (virtual_keys t)\<rparr>))
    (sq (commit svc) (ret vk'))))"

definition delete_key :: "'w services \<Rightarrow> string \<Rightarrow> principal \<Rightarrow> ('w, unit) act" where
  "delete_key svc key_id _ =
     bnd (load_or_404 virtual_keys vk_id key_id ''key'') (\<lambda>vk.
     sq (if opt_true (vk_apim_subscription_id vk) then
           let sub = opt_or_empty (vk_apim_subscription_id vk) in
           sq (best_effort (cloud (delete_subscription (apim svc) sub)))
              (best_effort (cloud (remove_key_limits (nv (apim svc)) sub)))
         else ret ())
    (sq (best_effort (cloud (delete_secret svc (subscription_key_name key_id))))
    (sq (edit (\<lambda>t. t\<lparr>virtual_keys := filter (\<lambda>k. vk_id k \<noteq> key_id) (virtual_keys t)\<rparr>))
        (commit svc))))"

section \<open>What each handler writes\<close>

lemma put_row_twice: "key r' = key r \<Longrightarrow> put_row key r' (put_row key r rows) = put_row key r' rows"
  by (simp add: put_row_def)

lemma create_tenant_writes:
  "atomic_write (\<lambda>x a b. b = a\<lparr>tenants := tenants a @ [x]\<rparr> \<and> constraints_ok b \<and> tn_name x = tc_name body
     \<and> \<not> tn_audit_enabled x \<and> length (tn_apim_product_ids x) \<le> 1) (create_tenant svc body p)"
  unfolding create_tenant_def Let_def
  by (rule atomic_writeI) (auto simp: handler_rules intro!: handler_intros)

lemma update_tenant_writes:
  "atomic_write (\<lambda>x a b. b = a\<lparr>tenants := put_row tn_id x (tenants a)\<rparr> \<and> constraints_ok b
     \<and> (\<exists>x0 \<in> set (tenants a). tn_id x0 = i \<and> tn_id x = i \<and> tn_apim_product_ids x = tn_apim_product_ids x0))
     (update_tenant svc i body p)"
  unfolding update_tenant_def Let_def apply_audit_flag_def
  by (rule atomic_writeI)
    (auto simp: handler_rules put_row_twice intro!: handler_intros split: option.splits; blast dest: row_by_Some)

lemma delete_tenant_writes:
  "atomic_write (\<lambda>_ a b. b = without_tenant i a \<and> constraints_ok b \<and> tenant_keys i a = []
     \<and> i \<in> tn_id ` set (tenants a)) (delete_tenant svc i p)"
  unfolding delete_tenant_def
  by (rule atomic_writeI) (auto simp: handler_rules intro!: handler_intros split: option.splits; blast dest: row_by_Some)

lemma ensure_tenant_product_writes:
  "atomic_write (\<lambda>x a b. tn_apim_product_ids x \<noteq> [] \<and> (\<exists>x0 \<in> set (tenants a). tn_id x0 = i \<and> tn_id x = i)
     \<and> (b = a \<or> b = a\<lparr>tenants := put_row tn_id x (tenants a)\<rparr> \<and> constraints_ok b))
     (ensure_tenant_product svc i p)"
  unfolding ensure_tenant_product_def Let_def
  by (rule atomic_writeI) (auto simp: handler_rules intro!: handler_intros split: option.splits; blast dest: row_by_Some)

lemma create_project_writes:
  "atomic_write (\<lambda>x a b. b = a\<lparr>projects := projects a @ [x]\<rparr> \<and> constraints_ok b
     \<and> pj_tenant_id x \<in> tn_id ` set (tenants a)) (create_project svc body p)"
  unfolding create_project_def Let_def
  by (rule atomic_writeI)
    ((rule handler_intros | clarsimp simp: handler_rules  split: option.splits list.splits | intro conjI allI impI
      | blast dest: row_by_Some intro: row_by_mem)+)

lemma update_project_writes:
  "atomic_write (\<lambda>x a b. b = a\<lparr>projects := put_row pj_id x (projects a)\<rparr> \<and> constraints_ok b
     \<and> (\<exists>x0 \<in> set (projects a). pj_id x0 = i \<and> pj_id x = i \<and> pj_tenant_id x = pj_tenant_id x0))
     (update_project svc i body p)"
  unfolding update_project_def Let_def
  by (rule atomic_writeI) (auto simp: handler_rules intro!: handler_intros split: option.splits; blast dest: row_by_Some)

lemma delete_project_writes:
  "atomic_write (\<lambda>_ a b. b = a\<lparr>projects := filter (\<lambda>x. pj_id x \<noteq> i) (projects a)\<rparr> \<and> constraints_ok b
     \<and> (\<forall>k \<in> set (virtual_keys a). vk_project_id k \<noteq> i)) (delete_project svc i p)"
  unfolding delete_project_def
  by (rule atomic_writeI)
    (auto simp: handler_rules filter_empty_conv filter_True intro!: handler_intros split: option.splits)

text \<open>What a new key is: an active row with its own id as subscription and exactly the limits that
  were asked for.\<close>

definition issued_for :: "virtual_key_create \<Rightarrow> project \<Rightarrow> virtual_key \<Rightarrow> bool" where
  "issued_for body p k \<longleftrightarrow>
     vk_project_id k = pj_id p \<and> vk_apim_subscription_id k = Some (vk_id k) \<and> vk_status k = KEY_ACTIVE
   \<and> vk_tokens_per_minute k = kc_tokens_per_minute body \<and> vk_token_quota_tier k = kc_token_quota_tier body
   \<and> vk_token_quota_period k = kc_token_quota_period body"

lemma issue_key_writes:
  "atomic_write (\<lambda>out a b. b = a\<lparr>virtual_keys := virtual_keys b\<rparr> \<and> constraints_ok b
     \<and> (\<exists>k. virtual_keys b = virtual_keys a @ [k] \<and> issued_for body p k \<and> out = key_out k (ks_key_value out)))
     (issue_key svc body p x product_id)"
  unfolding issue_key_def Let_def
  by (rule atomic_writeI) (auto simp: handler_rules issued_for_def key_out_def intro!: handler_intros)

lemma create_key_writes:
  "atomic_write (\<lambda>out a b. b = a\<lparr>virtual_keys := virtual_keys b\<rparr> \<and> constraints_ok b
     \<and> (\<exists>p x k. row_by pj_id (kc_project_id body) (projects a) = Some p
          \<and> row_by tn_id (pj_tenant_id p) (tenants a) = Some x \<and> tn_apim_product_ids x \<noteq> []
          \<and> virtual_keys b = virtual_keys a @ [k] \<and> issued_for body p k \<and> out = key_out k (ks_key_value out)))
     (create_key svc body pr)" (is "atomic_write ?R _")
proof (rule atomic_writeI)
  fix s :: "'a sys"
  assume s: "session s = committed s"
  let ?Q = "\<lambda>a t. ?R a (committed s) (committed t)" and ?E = "\<lambda>_ t. committed t = committed s"
  have "wp (issue_key svc body p x product_id) ?Q ?E s"
    if "row_by pj_id (kc_project_id body) (projects (committed s)) = Some p"
      "row_by tn_id (pj_tenant_id p) (tenants (committed s)) = Some x" "tn_apim_product_ids x = product_id # ps" for p x product_id ps
    using issue_key_writes [of body p svc x product_id, unfolded atomic_write_def, rule_format, OF s] that
    by (auto elim!: wp_conseq)
  then show "wp (create_key svc body pr) ?Q ?E s"
    unfolding create_key_def Let_def
    by (auto simp: handler_rules s split: option.splits list.splits)
qed

lemma suspend_key_writes:
  "atomic_write (\<lambda>k' a b. b = a\<lparr>virtual_keys := put_row vk_id k' (virtual_keys a)\<rparr> \<and> constraints_ok b
     \<and> (\<exists>k \<in> set (virtual_keys a). vk_id k = i \<and> k' = k\<lparr>vk_status := KEY_SUSPENDED\<rparr>)) (suspend_key svc i p)"
  unfolding suspend_key_def Let_def
  by (rule atomic_writeI) (auto simp: handler_rules intro!: handler_intros split: option.splits; blast dest: row_by_Some)

lemma delete_key_writes:
  "atomic_write (\<lambda>_ a b. b = a\<lparr>virtual_keys := filter (\<lambda>k. vk_id k \<noteq> i) (virtual_keys a)\<rparr> \<and> constraints_ok b
     \<and> i \<in> vk_id ` set (virtual_keys a)) (delete_key svc i p)"
  unfolding delete_key_def Let_def
  by (rule atomic_writeI) (auto simp: handler_rules intro!: handler_intros split: option.splits; blast dest: row_by_Some)

section \<open>Deletions\<close>

definition database_up :: "'w services \<Rightarrow> bool" where
  "database_up svc \<longleftrightarrow> (\<forall>w. \<exists>w'. db_write svc w = (Inr (), w'))"

lemma wp_commit_up:
  assumes "database_up svc" and "constraints_ok (session s)"
    and "\<And>w. Q () (s\<lparr>world := w, committed := session s\<rparr>)"
  shows "wp (commit svc) Q E s"
proof -
  obtain w where "db_write svc (world s) = (Inr (), w)"
    using assms(1) by (auto simp: database_up_def)
  then show ?thesis
    using assms(2,3) by (simp add: wp_commit) (simp add: wp_def)
qed

lemma map_filter_key: "map key (filter (\<lambda>r. key r \<noteq> i) rows) = filter (\<lambda>k. k \<noteq> i) (map key rows)"
  by (simp add: filter_map comp_def)

lemma distinct_platform_filter:
  "distinct (platform_names rs) \<Longrightarrow> distinct (platform_names (filter P rs))"
proof -
  assume d: "distinct (platform_names rs)"
  let ?plat = "\<lambda>r. rt_owner_scope r = OWNER_PLATFORM \<and> rt_tenant_id r = None"
  have "filter ?plat (filter P rs) = filter P (filter ?plat rs)"
    by (simp add: conj_commute)
  then show ?thesis
    using d by (simp only: platform_names_def distinct_map_filter)
qed

lemma image_filter_key: "key ` {x \<in> A. key x \<noteq> i} = key ` A - {i}"
  by auto

lemma constraints_delete_key:
  "constraints_ok t \<Longrightarrow> constraints_ok (t\<lparr>virtual_keys := filter (\<lambda>k. vk_id k \<noteq> i) (virtual_keys t)\<rparr>)"
  by (auto simp: constraints_ok_def map_filter_key list_all_iff split: option.splits)

lemma tenant_of_key:
  "constraints_ok t \<Longrightarrow> k \<in> set (virtual_keys t) \<Longrightarrow> \<exists>p \<in> set (projects t). row_by pj_id (vk_project_id k) (projects t) = Some p \<and> pj_id p = vk_project_id k"
proof -
  assume c: "constraints_ok t" and k: "k \<in> set (virtual_keys t)"
  then obtain p where "p \<in> set (projects t)" "pj_id p = vk_project_id k"
    by (auto simp: constraints_ok_def list_all_iff)
  then show ?thesis
    using row_by_in [OF constraints_distinct(2) [OF c]] by fastforce
qed

lemma constraints_without_tenant:
  assumes c: "constraints_ok t" and "tenant_keys i t = []"
  shows "constraints_ok (without_tenant i t)" and "virtual_keys (without_tenant i t) = virtual_keys t"
proof -
  show v: "virtual_keys (without_tenant i t) = virtual_keys t"
    using assms(2) by (simp add: without_tenant_def)
  have "vk_project_id k \<in> pj_id ` set (filter (\<lambda>p. pj_tenant_id p \<noteq> i) (projects t))" if k: "k \<in> set (virtual_keys t)" for k
  proof -
    obtain p where p: "p \<in> set (projects t)" "row_by pj_id (vk_project_id k) (projects t) = Some p" "pj_id p = vk_project_id k"
      using tenant_of_key [OF c k] by blast
    have "pj_tenant_id p \<noteq> i"
    proof
      assume "pj_tenant_id p = i"
      then have "k \<in> set (tenant_keys i t)"
        using p k by (simp add: tenant_keys_def)
      then show False using assms(2) by simp
    qed
    then show ?thesis using p by force
  qed
  then show "constraints_ok (without_tenant i t)"
    using c v assms(2)
    by (auto simp: constraints_ok_def without_tenant_def map_filter_key list_all_iff distinct_map_filter image_filter_key
        intro!: distinct_platform_filter split: option.splits)
qed

text \<open>C13: deleting a tenant does one of three things: it fails with 404 when there is none, with 409
  while any key of it exists, and otherwise removes the tenant, its projects and its routes, and
  nothing else; no key is ever revoked by it and no foreign key is left dangling.\<close>

theorem delete_tenant_outcome:
  assumes "constraints_ok (committed s)" and "database_up svc" and "request (delete_tenant svc i p) s = (r, s')"
  shows "(if i \<notin> tn_id ` set (tenants (committed s)) then r = Inl (HTTPException 404 ''tenant not found'') \<and> committed s' = committed s
     else if tenant_keys i (committed s) \<noteq> [] then (\<exists>m. r = Inl (HTTPException 409 m)) \<and> committed s' = committed s
     else r = Inr () \<and> committed s' = without_tenant i (committed s))
    \<and> virtual_keys (committed s') = virtual_keys (committed s) \<and> constraints_ok (committed s')"
proof -
  let ?t = "committed s"
  let ?P = "\<lambda>r t. (if i \<notin> tn_id ` set (tenants ?t) then r = Inl (HTTPException 404 ''tenant not found'') \<and> t = ?t
     else if tenant_keys i ?t \<noteq> [] then (\<exists>m. r = Inl (HTTPException 409 m)) \<and> t = ?t
     else r = Inr () \<and> t = without_tenant i ?t)"
  have "wp (delete_tenant svc i p) (\<lambda>a t. ?P (Inr a) (committed t)) (\<lambda>e t. ?P (Inl e) (committed t)) (s\<lparr>session := ?t\<rparr>)"
    unfolding delete_tenant_def
    using constraints_without_tenant [OF assms(1), of i]
    by (auto simp: handler_rules row_by_None dest: row_by_Some intro!: wp_commit_up [OF assms(2)] split: option.splits)
  from request_wp [OF assms(3) this] have P: "?P r (committed s')"
    by blast
  then show ?thesis
    using constraints_without_tenant [OF assms(1), of i] assms(1) by (auto split: if_splits)
qed

text \<open>Revoking a key cannot be blocked by the cloud: whatever API Management and Key Vault
  answer, deleting an existing key returns and exactly its row is gone.\<close>

lemma delete_key_goes_through:
  assumes "constraints_ok (committed s)" and "database_up svc" and "i \<in> vk_id ` set (virtual_keys (committed s))"
  shows "\<exists>s'. request (delete_key svc i p) s = (Inr (), s')
     \<and> committed s' = (committed s)\<lparr>virtual_keys := filter (\<lambda>k. vk_id k \<noteq> i) (virtual_keys (committed s))\<rparr>"
proof -
  let ?t' = "(committed s)\<lparr>virtual_keys := filter (\<lambda>k. vk_id k \<noteq> i) (virtual_keys (committed s))\<rparr>"
  obtain r s' where run: "request (delete_key svc i p) s = (r, s')" by fastforce
  obtain k where k: "row_by vk_id i (virtual_keys (committed s)) = Some k"
    using assms(3) row_by_None [of vk_id i "virtual_keys (committed s)"] by (cases "row_by vk_id i (virtual_keys (committed s))") auto
  have "wp (delete_key svc i p) (\<lambda>_ t. committed t = ?t') (\<lambda>_ _. False) (s\<lparr>session := committed s\<rparr>)"
    unfolding delete_key_def Let_def
    by (auto simp: handler_rules k constraints_delete_key [OF assms(1)] intro!: wp_cloudI wp_commit_up [OF assms(2)])
  then have "(case r of Inr _ \<Rightarrow> committed s' = ?t' | Inl _ \<Rightarrow> False)"
    by (intro conjunct1 [OF request_wp [OF run, where Q = "\<lambda>r t. case r of Inr _ \<Rightarrow> t = ?t' | Inl _ \<Rightarrow> False"]]) simp
  then show ?thesis
    using run by (cases r) auto
qed

section \<open>At concrete inputs\<close>

definition toy_key :: virtual_key where
  "toy_key = \<lparr>vk_id = ''vk_1'', vk_project_id = ''pj_1'', vk_apim_subscription_id = Some ''vk_1'',
     vk_keyvault_ref = None, vk_allowed_route_ids = [], vk_tokens_per_minute = None, vk_token_quota_tier = None,
     vk_token_quota_period = None, vk_expires_at = None, vk_status = KEY_ACTIVE, vk_created_at = 0\<rparr>"

definition sample_tables :: tables where
  "sample_tables = no_tables\<lparr>
     tenants := [\<lparr>tn_id = ''tn_1'', tn_name = ''acme'', tn_mode = RESELL, tn_billing_account_id = None,
       tn_apim_product_ids = [''starter''], tn_status = TENANT_ACTIVE, tn_audit_enabled = False, tn_created_at = 0\<rparr>],
     projects := [\<lparr>pj_id = ''pj_1'', pj_tenant_id = ''tn_1'', pj_name = ''web'', pj_cost_center = None, pj_created_at = 0\<rparr>],
     virtual_keys := [toy_key]\<rparr>"

definition sample_system :: "((string \<Rightarrow> string option) \<times> bool) sys" where
  "sample_system = \<lparr>committed = sample_tables, session = no_tables, world = (\<lambda>_. None, True)\<rparr>"

lemma sample_ok: "constraints_ok (committed sample_system)"
  by (simp add: sample_system_def sample_tables_def no_tables_def constraints_ok_def platform_names_def toy_key_def)

lemma toy_database_up: "database_up (mem_services f a)"
  by (simp add: database_up_def mem_services_def ret_def)

definition toy_admin :: principal where
  "toy_admin = \<lparr>pr_subject = JStr ''eve'', pr_role = ADMIN, pr_tenant_id = JNull\<rparr>"

lemma delete_key_goes_through_witness:
  "\<exists>s'. request (delete_key toy_services ''vk_1'' toy_admin) sample_system = (Inr (), s') \<and> virtual_keys (committed s') = []"
proof -
  have k: "''vk_1'' \<in> vk_id ` set (virtual_keys (committed sample_system))"
    by (simp add: sample_system_def sample_tables_def toy_key_def)
  obtain s' where "request (delete_key toy_services ''vk_1'' toy_admin) sample_system = (Inr (), s')"
    "committed s' = (committed sample_system)\<lparr>virtual_keys := filter (\<lambda>k. vk_id k \<noteq> ''vk_1'') (virtual_keys (committed sample_system))\<rparr>"
    using delete_key_goes_through [where svc = toy_services and p = toy_admin, OF sample_ok toy_database_up k] by blast
  then show ?thesis
    by (intro exI [of _ s']) (simp add: sample_system_def sample_tables_def toy_key_def)
qed

theorem delete_tenant_outcome_witness:
  "\<exists>s' m. request (delete_tenant toy_services ''tn_1'' toy_admin) sample_system
      = (Inl (HTTPException 409 m), s') \<and> committed s' = committed sample_system"
proof -
  obtain r s' where run: "request (delete_tenant toy_services ''tn_1'' toy_admin) sample_system = (r, s')" by fastforce
  have "''tn_1'' \<in> tn_id ` set (tenants (committed sample_system))" "tenant_keys ''tn_1'' (committed sample_system) \<noteq> []"
    by (simp_all add: sample_system_def sample_tables_def no_tables_def tenant_keys_def row_by_def toy_key_def)
  then show ?thesis
    using delete_tenant_outcome [OF sample_ok toy_database_up run] run by auto
qed

end
