(* ===== verification/RoutesApi.thy ===== *)
theory RoutesApi
  imports TenantsApi
begin

text \<open>
  Model routes and budgets (\<^verbatim>\<open>api/routes.py\<close>, \<^verbatim>\<open>api/budgets.py\<close>) and the enforcement of
  budgets (\<^verbatim>\<open>services/budget_enforcer.py\<close>).

  The lemmas on enforcement say which keys a spend suspends: those in the scope of an exceeded
  \<^verbatim>\<open>BLOCK\<close> budget that are not suspended yet and have a subscription, no other.
\<close>

section \<open>Routes\<close>

definition add_route :: "'w services \<Rightarrow> model_route_create \<Rightarrow> principal \<Rightarrow> ('w, model_route) act" where
  "add_route svc body _ =
     bnd (new_id svc ''rt'') (\<lambda>route_id.
     bnd (if opt_true (rc_backend_url body) \<and> opt_true (rc_backend_secret body) then
            let secret = opt_or_empty (rc_backend_secret body) in
            bnd (cloud (set_secret svc (backend_secret_name route_id) secret)) (\<lambda>_.
            bnd (cloud (ensure_provider_api (apim svc) (provider_value (rc_provider body))
                   (opt_or_empty (rc_backend_url body)) secret)) (\<lambda>b. ret (Some b)))
          else ret None) (\<lambda>backend_id.
     bnd (get_now svc) (\<lambda>now.
     let route = \<lparr>rt_id = route_id, rt_tenant_id = rc_tenant_id body, rt_name = rc_name body,
           rt_provider = rc_provider body, rt_vendor = vendor_for_model (rc_name body),
           rt_apim_backend_or_pool_id = backend_id, rt_deployment_name = rc_deployment_name body,
           rt_api_version = rc_api_version body, rt_owner_scope = rc_owner_scope body,
           rt_auth_mode = rc_auth_mode body, rt_price_in_per_1k = rc_price_in_per_1k body,
           rt_price_out_per_1k = rc_price_out_per_1k body, rt_markup_pct = rc_markup_pct body,
           rt_created_at = now\<rparr> in
     sq (edit (\<lambda>t. t\<lparr>model_routes := model_routes t @ [route]\<rparr>))
    (sq (commit svc) (ret route)))))"

definition list_routes :: "principal \<Rightarrow> ('w, model_route list) act" where
  "list_routes _ = query model_routes"

definition route_edits :: "model_route_update \<Rightarrow> model_route \<Rightarrow> model_route" where
  "route_edits body r =
     (let r1 = (case ru_name body of Some n \<Rightarrow> r\<lparr>rt_name := n\<rparr> | None \<Rightarrow> r);
          r2 = (case ru_deployment_name body of Some d \<Rightarrow> r1\<lparr>rt_deployment_name := Some d\<rparr> | None \<Rightarrow> r1);
          r3 = (case ru_api_version body of Some v \<Rightarrow> r2\<lparr>rt_api_version := Some v\<rparr> | None \<Rightarrow> r2);
          r4 = (case ru_price_in_per_1k body of Some x \<Rightarrow> r3\<lparr>rt_price_in_per_1k := x\<rparr> | None \<Rightarrow> r3);
          r5 = (case ru_price_out_per_1k body of Some x \<Rightarrow> r4\<lparr>rt_price_out_per_1k := x\<rparr> | None \<Rightarrow> r4)
      in case ru_markup_pct body of Some m \<Rightarrow> r5\<lparr>rt_markup_pct := m\<rparr> | None \<Rightarrow> r5)"

definition update_route :: "'w services \<Rightarrow> string \<Rightarrow> model_route_update \<Rightarrow> principal \<Rightarrow> ('w, model_route) act" where
  "update_route svc route_id body _ =
     bnd (load_or_404 model_routes rt_id route_id ''route'') (\<lambda>route.
     let route' = route_edits body route in
     sq (edit (\<lambda>t. t\<lparr>model_routes := put_row rt_id route' (model_routes t)\<rparr>))
    (sq (commit svc) (ret route')))"

definition delete_route :: "'w services \<Rightarrow> string \<Rightarrow> principal \<Rightarrow> ('w, unit) act" where
  "delete_route svc route_id _ =
     bnd (load_or_404 model_routes rt_id route_id ''route'') (\<lambda>route.
     sq (best_effort (cloud (delete_secret svc (backend_secret_name route_id))))
    (sq (edit (\<lambda>t. t\<lparr>model_routes := filter (\<lambda>r. rt_id r \<noteq> route_id) (model_routes t)\<rparr>))
        (commit svc)))"

section \<open>Budgets\<close>

definition create_budget :: "'w services \<Rightarrow> budget_create \<Rightarrow> principal \<Rightarrow> ('w, budget) act" where
  "create_budget svc body _ =
     bnd (new_id svc ''bg'') (\<lambda>bid.
     let budget = \<lparr>bg_id = bid, bg_scope = bc_scope body, bg_target_id = bc_target_id body,
           bg_period_type = bc_period_type body, bg_limit_usd = bc_limit_usd body, bg_spent_usd = FFin 0,
           bg_reset_at = None, bg_action = bc_action body, bg_tenant_id = bc_tenant_id body\<rparr> in
     sq (edit (\<lambda>t. t\<lparr>budgets := budgets t @ [budget]\<rparr>))
    (sq (commit svc) (ret budget)))"

definition list_budgets :: "principal \<Rightarrow> ('w, budget list) act" where
  "list_budgets _ = query budgets"

definition keys_in_scope :: "budget \<Rightarrow> tables \<Rightarrow> virtual_key list" where
  "keys_in_scope budget t =
     (case bg_scope budget of
        SCOPE_KEY \<Rightarrow> filter (\<lambda>k. vk_id k = bg_target_id budget) (virtual_keys t)
      | SCOPE_PROJECT \<Rightarrow> filter (\<lambda>k. vk_project_id k = bg_target_id budget) (virtual_keys t)
      | SCOPE_TENANT \<Rightarrow>
          let project_ids = map pj_id (filter (\<lambda>p. pj_tenant_id p = bg_target_id budget) (projects t))
          in filter (\<lambda>k. vk_project_id k \<in> set project_ids) (virtual_keys t))"

definition skip_key :: "virtual_key \<Rightarrow> bool" where
  "skip_key key \<longleftrightarrow> vk_status key = KEY_SUSPENDED \<or> \<not> opt_true (vk_apim_subscription_id key)"

fun suspend_each :: "'w services \<Rightarrow> virtual_key list \<Rightarrow> bool \<Rightarrow> ('w, bool) act" where
  "suspend_each svc [] any_enforced = ret any_enforced"
| "suspend_each svc (key # keys) any_enforced =
     (if skip_key key then suspend_each svc keys any_enforced
      else
        sq (cloud (set_subscription_state (apim svc) (opt_or_empty (vk_apim_subscription_id key)) ''suspended''))
       (sq (edit (\<lambda>t. t\<lparr>virtual_keys := put_row vk_id (key\<lparr>vk_status := KEY_SUSPENDED\<rparr>) (virtual_keys t)\<rparr>))
           (suspend_each svc keys True)))"

definition suspend_keys_for_budget :: "'w services \<Rightarrow> budget \<Rightarrow> ('w, bool) act" where
  "suspend_keys_for_budget svc budget =
     bnd (query (keys_in_scope budget)) (\<lambda>keys. suspend_each svc keys False)"

text \<open>\<^verbatim>\<open>(budget.spent_usd or 0.0) + amount\<close>; the budget is a row of the session.\<close>

definition spend_on :: "budget \<Rightarrow> pyfloat \<Rightarrow> budget" where
  "spend_on budget amount = budget\<lparr>bg_spent_usd := fadd (bg_spent_usd budget) amount\<rparr>"

definition add_spend :: "'w services \<Rightarrow> budget \<Rightarrow> pyfloat \<Rightarrow> ('w, bool) act" where
  "add_spend svc budget amount_usd =
     (let budget' = spend_on budget amount_usd in
      sq (edit (\<lambda>t. t\<lparr>budgets := put_row bg_id budget' (budgets t)\<rparr>))
     (if flt (bg_spent_usd budget') (bg_limit_usd budget') then sq (commit svc) (ret False)
      else if bg_action budget' = ALERT then sq (commit svc) (ret False)
      else
        bnd (suspend_keys_for_budget svc budget') (\<lambda>enforced.
        sq (commit svc) (ret enforced))))"

section \<open>What each handler writes\<close>

lemma add_route_writes:
  "atomic_write (\<lambda>r a b. b = a\<lparr>model_routes := model_routes a @ [r]\<rparr> \<and> constraints_ok b
     \<and> rt_vendor r = vendor_for_model (rc_name body) \<and> rt_name r = rc_name body) (add_route svc body p)"
  unfolding add_route_def Let_def
  by (rule atomic_writeI) (auto simp: handler_rules intro!: handler_intros)

lemma update_route_writes:
  "atomic_write (\<lambda>r' a b. b = a\<lparr>model_routes := put_row rt_id r' (model_routes a)\<rparr> \<and> constraints_ok b
     \<and> (\<exists>r. row_by rt_id i (model_routes a) = Some r \<and> r' = route_edits body r)) (update_route svc i body p)"
  unfolding update_route_def Let_def
  by (rule atomic_writeI) (auto simp: handler_rules intro!: handler_intros split: option.splits)

lemma delete_route_writes:
  "atomic_write (\<lambda>_ a b. b = a\<lparr>model_routes := filter (\<lambda>r. rt_id r \<noteq> i) (model_routes a)\<rparr> \<and> constraints_ok b)
     (delete_route svc i p)"
  unfolding delete_route_def
  by (rule atomic_writeI) (auto simp: handler_rules intro!: handler_intros split: option.splits)

lemma create_budget_writes:
  "atomic_write (\<lambda>g a b. b = a\<lparr>budgets := budgets a @ [g]\<rparr> \<and> constraints_ok b \<and> bg_spent_usd g = FFin 0)
     (create_budget svc body p)"
  unfolding create_budget_def Let_def
  by (rule atomic_writeI) (auto simp: handler_rules intro!: handler_intros)

section \<open>Enforcement\<close>

definition suspended :: "virtual_key \<Rightarrow> virtual_key" where
  "suspended k = k\<lparr>vk_status := KEY_SUSPENDED\<rparr>"

definition enforce :: "virtual_key list \<Rightarrow> virtual_key list \<Rightarrow> virtual_key list" where
  "enforce scope rows = map (\<lambda>k. if k \<in> set scope \<and> \<not> skip_key k then suspended k else k) rows"

lemma vk_id_suspended [simp]: "vk_id (suspended k) = vk_id k"
  by (simp add: suspended_def)

lemma enforce_Nil [simp]: "enforce [] rows = rows"
  by (simp add: enforce_def)

lemma enforce_skip: "skip_key k \<Longrightarrow> enforce (k # ks) rows = enforce ks rows"
  by (auto simp: enforce_def)

lemma enforce_step:
  assumes "distinct (map vk_id rows)" and "k \<in> set rows" and "vk_id k \<notin> vk_id ` set ks" and "\<not> skip_key k"
  shows "enforce ks (put_row vk_id (suspended k) rows) = enforce (k # ks) rows"
proof -
  have one: "x = k" if "x \<in> set rows" "vk_id x = vk_id k" for x
    using inj_onD [of vk_id "set rows" x k] assms(1,2) that by (simp add: distinct_map)
  have "suspended k \<notin> set ks"
    using assms(3) by (metis image_eqI vk_id_suspended)
  then show ?thesis
    using assms(4) by (auto simp: enforce_def put_row_def dest: one)
qed

lemma wp_suspend_each:
  assumes "distinct (map vk_id (virtual_keys (session s)))" and "set ks \<subseteq> set (virtual_keys (session s))"
    and "distinct (map vk_id ks)"
  shows "wp (suspend_each svc ks any)
     (\<lambda>r t. committed t = committed s
        \<and> session t = (session s)\<lparr>virtual_keys := enforce ks (virtual_keys (session s))\<rparr>
        \<and> (r \<longleftrightarrow> any \<or> list_ex (\<lambda>k. \<not> skip_key k) ks))
     (\<lambda>_ t. committed t = committed s) s"
  using assms
proof (induction ks arbitrary: s any)
  case Nil
  then show ?case by (simp add: wp_rules)
next
  case (Cons k ks)
  show ?case
  proof (cases "skip_key k")
    case True
    then show ?thesis
      using Cons.IH [of s any] Cons.prems by (simp add: enforce_skip)
  next
    case False
    let ?rows = "virtual_keys (session s)"
    have fresh: "vk_id k \<notin> vk_id ` set ks" using Cons.prems(3) by simp
    have tail: "wp (suspend_each svc ks True)
        (\<lambda>r t. committed t = committed s \<and> session t = (session s)\<lparr>virtual_keys := enforce (k # ks) ?rows\<rparr>
             \<and> (r \<longleftrightarrow> any \<or> list_ex (\<lambda>k. \<not> skip_key k) (k # ks)))
        (\<lambda>_ t. committed t = committed s)
        (s\<lparr>world := w, session := (session s)\<lparr>virtual_keys := put_row vk_id (suspended k) ?rows\<rparr>\<rparr>)" (is "wp _ _ _ ?s1") for w
    proof (rule wp_conseq [OF Cons.IH [of ?s1 True]])
      show "set ks \<subseteq> set (virtual_keys (session ?s1))"
        using Cons.prems(2) fresh by (auto intro!: put_row_keeps) (metis image_eqI)
      show "distinct (map vk_id (virtual_keys (session ?s1)))" "distinct (map vk_id ks)"
        using Cons.prems by simp_all
    qed (use False enforce_step [OF Cons.prems(1) _ fresh False] Cons.prems(2) in auto)
    show ?thesis
      using tail False by (simp add: wp_rules suspended_def) (simp add: wp_any)
  qed
qed

lemma bg_spend_on [simp]: "bg_limit_usd (spend_on g x) = bg_limit_usd g" "bg_action (spend_on g x) = bg_action g"
  by (simp_all add: spend_on_def)

lemma keys_in_scope_spend [simp]: "keys_in_scope (spend_on g x) t = keys_in_scope g t"
  by (cases "bg_scope g") (simp_all add: keys_in_scope_def spend_on_def)

lemma keys_in_scope_budgets [simp]: "keys_in_scope g (t\<lparr>budgets := bs\<rparr>) = keys_in_scope g t"
  by (cases "bg_scope g") (simp_all add: keys_in_scope_def)

lemma keys_in_scope_filter: "\<exists>P. keys_in_scope g t = filter P (virtual_keys t)"
  by (cases "bg_scope g") (auto simp: keys_in_scope_def Let_def)

definition exceeded :: "budget \<Rightarrow> pyfloat \<Rightarrow> bool" where
  "exceeded g x \<longleftrightarrow> \<not> flt (bg_spent_usd (spend_on g x)) (bg_limit_usd g) \<and> bg_action g = BLOCK"

lemma add_spend_writes:
  assumes c: "distinct (map vk_id (virtual_keys (committed s)))" and s: "session s = committed s"
  shows "wp (add_spend svc g x)
     (\<lambda>r t. committed t = (committed s)
        \<lparr>budgets := put_row bg_id (spend_on g x) (budgets (committed s)),
         virtual_keys := (if exceeded g x then enforce (keys_in_scope g (committed s)) (virtual_keys (committed s))
                          else virtual_keys (committed s))\<rparr>
        \<and> (r \<longleftrightarrow> exceeded g x \<and> list_ex (\<lambda>k. \<not> skip_key k) (keys_in_scope g (committed s))))
     (\<lambda>_ t. committed t = committed s) s"
proof -
  obtain P where P: "keys_in_scope g (committed s) = filter P (virtual_keys (committed s))"
    using keys_in_scope_filter by blast
  let ?s1 = "s\<lparr>session := (committed s)\<lparr>budgets := put_row bg_id (spend_on g x) (budgets (committed s))\<rparr>\<rparr>"
  have each: "wp (suspend_each svc (keys_in_scope g (committed s)) False)
     (\<lambda>r t. committed t = committed s
        \<and> session t = (session ?s1)\<lparr>virtual_keys := enforce (keys_in_scope g (committed s)) (virtual_keys (committed s))\<rparr>
        \<and> (r \<longleftrightarrow> list_ex (\<lambda>k. \<not> skip_key k) (keys_in_scope g (committed s))))
     (\<lambda>_ t. committed t = committed s) ?s1"
    using wp_suspend_each [of ?s1 "keys_in_scope g (committed s)" svc False] c P by (simp add: distinct_map_filter)
  have "wp (suspend_keys_for_budget svc (spend_on g x))
      (\<lambda>enforced. wp (sq (commit svc) (ret enforced))
        (\<lambda>r t. committed t = (committed s)
            \<lparr>budgets := put_row bg_id (spend_on g x) (budgets (committed s)),
             virtual_keys := enforce (keys_in_scope g (committed s)) (virtual_keys (committed s))\<rparr>
          \<and> r = list_ex (\<lambda>k. \<not> skip_key k) (keys_in_scope g (committed s)))
        (\<lambda>_ t. committed t = committed s)) (\<lambda>_ t. committed t = committed s) ?s1"
    unfolding suspend_keys_for_budget_def
    by (simp add: handler_rules) (rule wp_conseq [OF each]; auto simp: wp_sq wp_ret_fun intro!: wp_commitI)
  then show ?thesis
    using s by (cases "bg_action g")
      (auto simp: add_spend_def Let_def handler_rules exceeded_def spend_on_def intro!: wp_commitI)
qed


definition sample_budget :: budget where
  "sample_budget = \<lparr>bg_id = ''bg_1'', bg_scope = SCOPE_KEY, bg_target_id = ''vk_1'', bg_period_type = ''monthly'',
     bg_limit_usd = FFin 10, bg_spent_usd = FFin 9, bg_reset_at = None, bg_action = BLOCK, bg_tenant_id = Some ''tn_1''\<rparr>"


end
