(* ===== verification/ControlPlane.thy ===== *)
theory ControlPlane
  imports UsersApi RoutesApi
begin

text \<open>
  The control plane as one state machine: every endpoint that writes the metadata tables, with
  its authorization, the seeding of the admin, budget spending, and whatever else happens in
  the world between requests.

  \<^verbatim>\<open>api_step\<close> is the step relation.  The locale \<^verbatim>\<open>api_invariant\<close> is the contract of a table
  invariant: every write keeps it; then every reachable state has it.  It is interpreted for
  the database's own constraints, for the binding of accounts to tenants, and for the
  validity of stored key limits.
\<close>

section \<open>Requests\<close>

datatype api_request =
    CreateTenant tenant_create
  | UpdateTenant string tenant_update
  | DeleteTenant string
  | EnsureTenantProduct string
  | CreateProject project_create
  | UpdateProject string project_update
  | DeleteProject string
  | CreateKey virtual_key_create
  | SuspendKey string
  | DeleteKey string
  | AddRoute model_route_create
  | UpdateRoute string model_route_update
  | DeleteRoute string
  | CreateBudget budget_create
  | Account user_request

text \<open>A body that does not validate is answered with 422 before the handler runs.\<close>

fun serve :: "'w services \<Rightarrow> api_request \<Rightarrow> principal \<Rightarrow> ('w, unit) act" where
  "serve svc (CreateTenant body) p = drop_result (create_tenant svc body p)"
| "serve svc (UpdateTenant i body) p = drop_result (update_tenant svc i body p)"
| "serve svc (DeleteTenant i) p = delete_tenant svc i p"
| "serve svc (EnsureTenantProduct i) p = drop_result (ensure_tenant_product svc i p)"
| "serve svc (CreateProject body) p = drop_result (create_project svc body p)"
| "serve svc (UpdateProject i body) p = drop_result (update_project svc i body p)"
| "serve svc (DeleteProject i) p = delete_project svc i p"
| "serve svc (CreateKey body) p =
     (if valid_key_create body then drop_result (create_key svc body p)
      else raise (HTTPException 422 ''validation error''))"
| "serve svc (SuspendKey i) p = drop_result (suspend_key svc i p)"
| "serve svc (DeleteKey i) p = delete_key svc i p"
| "serve svc (AddRoute body) p = drop_result (add_route svc body p)"
| "serve svc (UpdateRoute i body) p = drop_result (update_route svc i body p)"
| "serve svc (DeleteRoute i) p = delete_route svc i p"
| "serve svc (CreateBudget body) p = drop_result (create_budget svc body p)"
| "serve svc (Account req) p = serve_user svc req p"

fun needs_admin :: "api_request \<Rightarrow> bool" where
  "needs_admin (Account (ChangeMyPassword _)) = False"
| "needs_admin _ = True"

definition handle :: "'w services \<Rightarrow> string \<Rightarrow> api_request \<Rightarrow> ('w, unit) act" where
  "handle svc authorization req =
     request (bnd (if needs_admin req then require_admin svc authorization else get_principal svc authorization)
                (serve svc req))"

section \<open>What requests write\<close>

text \<open>Every write of the interface, as a relation between the tables before and after.\<close>

inductive table_change :: "tables \<Rightarrow> tables \<Rightarrow> bool" where
  nothing: "table_change a a"
| tenant_new: "constraints_ok b \<Longrightarrow> b = a\<lparr>tenants := tenants a @ [x]\<rparr> \<Longrightarrow> table_change a b"
| tenant_put: "constraints_ok b \<Longrightarrow> b = a\<lparr>tenants := put_row tn_id x (tenants a)\<rparr> \<Longrightarrow> table_change a b"
| tenant_gone: "constraints_ok b \<Longrightarrow> b = without_tenant i a \<Longrightarrow> tenant_keys i a = [] \<Longrightarrow> table_change a b"
| project_any: "constraints_ok b \<Longrightarrow> b = a\<lparr>projects := ps\<rparr> \<Longrightarrow> table_change a b"
| key_new: "constraints_ok b \<Longrightarrow> b = a\<lparr>virtual_keys := virtual_keys a @ [k]\<rparr> \<Longrightarrow> issued_for body p k
     \<Longrightarrow> valid_key_create body \<Longrightarrow> table_change a b"
| key_put: "constraints_ok b \<Longrightarrow> b = a\<lparr>virtual_keys := put_row vk_id (suspended k) (virtual_keys a)\<rparr>
     \<Longrightarrow> k \<in> set (virtual_keys a) \<Longrightarrow> table_change a b"
| key_gone: "constraints_ok b \<Longrightarrow> b = a\<lparr>virtual_keys := filter (\<lambda>k. vk_id k \<noteq> i) (virtual_keys a)\<rparr> \<Longrightarrow> table_change a b"
| route_any: "constraints_ok b \<Longrightarrow> b = a\<lparr>model_routes := rs\<rparr> \<Longrightarrow> table_change a b"
| budget_new: "constraints_ok b \<Longrightarrow> b = a\<lparr>budgets := budgets a @ [g]\<rparr> \<Longrightarrow> table_change a b"
| account: "user_change p a b \<Longrightarrow> table_change a b"

lemma atomic_drop: "atomic_write R m \<Longrightarrow> (\<And>x a b. R x a b \<Longrightarrow> table_change a b) \<Longrightarrow> atomic_write (\<lambda>_. table_change) (drop_result m)"
  by (rule atomic_write_mono [OF drop_result_writes]) blast+

lemma serve_writes: "atomic_write (\<lambda>_. table_change) (serve svc req p)"
proof (cases req)
  case (CreateTenant body)
  then show ?thesis
    by (auto intro: table_change.intros atomic_drop [OF create_tenant_writes])
next
  case (UpdateTenant i body)
  then show ?thesis
    by (auto intro: table_change.intros atomic_drop [OF update_tenant_writes])
next
  case (DeleteTenant i)
  then show ?thesis
    by (auto intro: table_change.intros atomic_write_mono [OF delete_tenant_writes])
next
  case (EnsureTenantProduct i)
  then show ?thesis
    by (auto intro: table_change.intros atomic_drop [OF ensure_tenant_product_writes])
next
  case (CreateProject body)
  then show ?thesis
    by (auto intro: table_change.intros atomic_drop [OF create_project_writes])
next
  case (UpdateProject i body)
  then show ?thesis
    by (auto intro: table_change.intros atomic_drop [OF update_project_writes])
next
  case (DeleteProject i)
  then show ?thesis
    by (auto intro: table_change.intros atomic_write_mono [OF delete_project_writes])
next
  case (CreateKey body)
  have "atomic_write (\<lambda>_. table_change) (raise e :: ('a, unit) act)" for e
    by (simp add: atomic_write_def wp_raise)
  moreover have "atomic_write (\<lambda>_. table_change) (drop_result (create_key svc body p))" if v: "valid_key_create body"
  proof (rule atomic_drop [OF create_key_writes], elim conjE exE)
    fix a b pj x k
    assume "b = a\<lparr>virtual_keys := virtual_keys b\<rparr>" "virtual_keys b = virtual_keys a @ [k]" "constraints_ok b" "issued_for body pj k"
    then show "table_change a b"
      using v by (intro key_new [where k = k]) auto
  qed
  ultimately show ?thesis
    using CreateKey by simp
next
  case (SuspendKey i)
  show ?thesis
    unfolding SuspendKey serve.simps
    by (rule atomic_drop [OF suspend_key_writes]) (auto intro: key_put simp: suspended_def)
next
  case (DeleteKey i)
  then show ?thesis
    by (auto intro: table_change.intros atomic_write_mono [OF delete_key_writes])
next
  case (AddRoute body)
  then show ?thesis
    by (auto intro: table_change.intros atomic_drop [OF add_route_writes])
next
  case (UpdateRoute i body)
  then show ?thesis
    by (auto intro: table_change.intros atomic_drop [OF update_route_writes])
next
  case (DeleteRoute i)
  then show ?thesis
    by (auto intro: table_change.intros atomic_write_mono [OF delete_route_writes])
next
  case (CreateBudget body)
  then show ?thesis
    by (auto intro: table_change.intros atomic_drop [OF create_budget_writes])
next
  case (Account r)
  then show ?thesis
    by (auto intro: table_change.intros atomic_write_mono [OF serve_user_writes])
qed

lemma keeps_get_principal: "keeps (\<lambda>s. (committed s, session s)) (get_principal svc hdr)"
  unfolding get_principal_def decode_jwt_def decode_token_def Let_def
  by (rule keeps_wp) (auto simp: wp_rules split: option.splits sum.splits)

lemma keeps_require_admin: "keeps (\<lambda>s. (committed s, session s)) (require_admin svc hdr)"
  unfolding require_admin_def by (auto intro!: keeps_bnd keeps_get_principal)

lemma guarded_writes:
  assumes "keeps (\<lambda>s. (committed s, session s)) g" and "\<And>p. atomic_write R (h p)"
  shows "atomic_write R (bnd g h)"
proof (rule atomic_writeI)
  fix s :: "'a sys"
  assume s: "session s = committed s"
  show "wp (bnd g h) (\<lambda>a t. R a (committed s) (committed t)) (\<lambda>_ t. committed t = committed s) s"
    unfolding wp_bnd
  proof (rule wp_keeps [OF assms(1)])
    fix p and w' :: "'a sys"
    assume "(committed w', session w') = (committed s, session s)"
    then have "session w' = committed w'" "committed w' = committed s"
      using s by simp_all
    then show "wp (h p) (\<lambda>a t. R a (committed s) (committed t)) (\<lambda>_ t. committed t = committed s) w'"
      using assms(2) [of p, unfolded atomic_write_def, rule_format, of w'] by simp
  qed simp
qed

lemma handle_writes:
  assumes "handle svc hdr req s = (r, s')"
  shows "case r of Inr _ \<Rightarrow> table_change (committed s) (committed s') | Inl _ \<Rightarrow> committed s' = committed s"
proof -
  have "atomic_write (\<lambda>_. table_change)
      (bnd (if needs_admin req then require_admin svc hdr else get_principal svc hdr) (serve svc req))"
    by (intro guarded_writes) (auto intro: keeps_get_principal keeps_require_admin serve_writes)
  from atomic_request [OF this] show ?thesis
    using assms by (simp add: handle_def)
qed


section \<open>Steps\<close>

inductive api_step :: "'w services \<Rightarrow> 'w sys \<Rightarrow> 'w sys \<Rightarrow> bool" for svc where
  served: "handle svc hdr req s = (r, s') \<Longrightarrow> api_step svc s s'"
| logged_in: "request (login svc body) s = (r, s') \<Longrightarrow> api_step svc s s'"
| seeded: "request (seed_admin svc) s = (r, s') \<Longrightarrow> api_step svc s s'"
| spent: "g \<in> set (budgets (committed s)) \<Longrightarrow> request (add_spend svc g x) s = (r, s') \<Longrightarrow> api_step svc s s'"
| elsewhere: "committed s' = committed s \<Longrightarrow> api_step svc s s'"

inductive_cases api_stepE: "api_step svc s s'"

text \<open>What a step does to the committed tables.\<close>

definition spent_change :: "tables \<Rightarrow> tables \<Rightarrow> bool" where
  "spent_change a b \<longleftrightarrow> constraints_ok b
     \<and> b = a\<lparr>budgets := budgets b, virtual_keys := virtual_keys b\<rparr>
     \<and> (\<exists>scope. virtual_keys b = enforce scope (virtual_keys a))"

definition seed_change :: "tables \<Rightarrow> tables \<Rightarrow> bool" where
  "seed_change a b \<longleftrightarrow> constraints_ok b \<and> b = a\<lparr>users := users b\<rparr> \<and> (\<exists>u. users b = users a @ [u] \<and> bound u)"

lemma login_keeps: "keeps committed (login svc body)"
proof (rule keeps_wp)
  fix s :: "'a sys"
  show "wp (login svc body) (\<lambda>_ t. committed t = committed s) (\<lambda>_ t. committed t = committed s) s"
    unfolding login_def issue_token_def
    by (cases "user_named (lr_username body) (session s)") (auto simp: wp_rules split: sum.splits)
qed

lemma spend_change:
  assumes c: "constraints_ok (committed s)" and run: "request (add_spend svc g x) s = (r, s')"
  shows "committed s' = committed s \<or> spent_change (committed s) (committed s')"
proof -
  let ?R = "\<lambda>b. b = committed s \<or> spent_change (committed s) b"
  have w: "wp (add_spend svc g x) (\<lambda>_ t. constraints_ok (committed t)) (\<lambda>_ _. True) u" for u
  proof -
    have commits: "wp (commit svc) (\<lambda>_ t. constraints_ok (committed t)) (\<lambda>_ _. True) v" for v
      by (rule wp_commitI) simp_all
    have tail: "wp (bnd m (\<lambda>r. sq (commit svc) (ret r))) (\<lambda>_ t. constraints_ok (committed t)) (\<lambda>_ _. True) v"
      for m :: "('a, bool) act" and v
      unfolding wp_bnd by (rule wp_any) (simp_all add: wp_sq wp_ret_fun commits)
    show ?thesis
      unfolding add_spend_def Let_def by (simp add: wp_sq wp_edit wp_ret_fun commits tail)
  qed
  let ?s = "s\<lparr>session := committed s\<rparr>"
  have "wp (add_spend svc g x) (\<lambda>_ t. ?R (committed t)) (\<lambda>_ t. ?R (committed t)) ?s"
  proof (rule wpI_frame)
    fix a t
    assume t: "add_spend svc g x ?s = (Inr a, t)"
    have ok: "constraints_ok (committed t)"
      by (rule wp_Inr [OF w t])
    have "committed t = (committed s)
        \<lparr>budgets := put_row bg_id (spend_on g x) (budgets (committed s)),
         virtual_keys := (if exceeded g x then enforce (keys_in_scope g (committed s)) (virtual_keys (committed s))
                          else virtual_keys (committed s))\<rparr>"
      using wp_Inr [OF add_spend_writes t] constraints_distinct(3) [OF c] by (cases "exceeded g x") simp_all
    then have "committed t = (committed s)\<lparr>budgets := budgets (committed t), virtual_keys := virtual_keys (committed t)\<rparr>
        \<and> (\<exists>scope. virtual_keys (committed t) = enforce scope (virtual_keys (committed s)))"
      by (cases "exceeded g x") (auto intro: exI [of _ "[]"])
    then show "?R (committed t)"
      using ok by (simp add: spent_change_def)
  next
    fix e t
    assume t: "add_spend svc g x ?s = (Inl e, t)"
    then show "?R (committed t)"
      using wp_Inl [OF add_spend_writes t] constraints_distinct(3) [OF c] by simp
  qed
  from request_wp [OF run, where Q = "\<lambda>_. ?R"] this show ?thesis by simp
qed

locale api_invariant =
  fixes inv :: "tables \<Rightarrow> bool"
  assumes request_keeps: "constraints_ok a \<Longrightarrow> inv a \<Longrightarrow> table_change a b \<Longrightarrow> inv b"
    and spend_keeps: "constraints_ok a \<Longrightarrow> inv a \<Longrightarrow> spent_change a b \<Longrightarrow> inv b"
    and seed_keeps: "constraints_ok a \<Longrightarrow> inv a \<Longrightarrow> seed_change a b \<Longrightarrow> inv b"
begin

lemma step_keeps:
  assumes "api_step svc s s'" and "constraints_ok (committed s)" and "inv (committed s)"
  shows "inv (committed s')"
  using assms(1)
proof (rule api_stepE)
  fix hdr req r
  assume "handle svc hdr req s = (r, s')"
  from handle_writes [OF this] show ?thesis
    using assms(2,3) request_keeps by (cases r) auto
next
  fix body r
  assume "request (login svc body) s = (r, s')"
  then have "committed s' = committed s"
    using login_keeps [of svc body] by (auto simp: request_def keeps_def split: prod.splits dest!: spec [of _ "s\<lparr>session := committed s\<rparr>"])
  then show ?thesis using assms(3) by simp
next
  fix r
  assume "request (seed_admin svc) s = (r, s')"
  from atomic_request [OF seed_admin_writes this] show ?thesis
    using assms(2,3) seed_keeps [of "committed s" "committed s'"]
    by (cases r) (auto simp: seed_change_def)
next
  fix g x r
  assume "request (add_spend svc g x) s = (r, s')"
  from spend_change [OF assms(2) this] show ?thesis
    using assms(2,3) spend_keeps by auto
qed (use assms(3) in simp)

end

interpretation constraints: api_invariant constraints_ok
  by unfold_locales (auto simp: spent_change_def seed_change_def user_change_def elim: table_change.cases)

lemma reachable_constraints: "(api_step svc)\<^sup>*\<^sup>* s s' \<Longrightarrow> constraints_ok (committed s) \<Longrightarrow> constraints_ok (committed s')"
  by (induction rule: rtranclp_induct) (auto intro: constraints.step_keeps)

context api_invariant begin

lemma reachable_keeps:
  "(api_step svc)\<^sup>*\<^sup>* s s' \<Longrightarrow> constraints_ok (committed s) \<Longrightarrow> inv (committed s) \<Longrightarrow> inv (committed s')"
  by (induction rule: rtranclp_induct) (auto intro: step_keeps reachable_constraints)

end

lemma users_unchanged:
  "table_change a b \<Longrightarrow> users b = users a \<or> (\<exists>p. user_change p a b)"
  by (elim table_change.cases) (auto simp: without_tenant_def)

interpretation bound: api_invariant all_bound
proof
  fix a b
  assume "all_bound a" and "table_change a b"
  then show "all_bound b"
    using users_unchanged [of a b] user_change_bound by (auto simp: all_bound_def)
next
  fix a b
  assume "all_bound a" and "spent_change a b"
  then show "all_bound b"
    by (metis all_bound_def spent_change_def tables.ext_inject tables.surjective tables.update_convs(3) tables.update_convs(5))
next
  fix a b
  assume "all_bound a" and "seed_change a b"
  then show "all_bound b"
    by (auto simp: all_bound_def seed_change_def)
qed

text \<open>The limits stored with a key.\<close>

definition limits_valid :: "virtual_key \<Rightarrow> bool" where
  "limits_valid k \<longleftrightarrow>
     (case vk_tokens_per_minute k of None \<Rightarrow> True | Some n \<Rightarrow> 0 < n \<and> n \<le> 100000000)
   \<and> (vk_token_quota_tier k \<noteq> None \<and> vk_token_quota_tier k \<noteq> Some TIER_NONE) = (vk_token_quota_period k \<noteq> None)"

definition keys_valid :: "tables \<Rightarrow> bool" where
  "keys_valid t \<longleftrightarrow> list_all limits_valid (virtual_keys t)"

lemma limits_valid_suspended [simp]: "limits_valid (suspended k) = limits_valid k"
  by (simp add: limits_valid_def suspended_def)

lemma issued_valid: "issued_for body p k \<Longrightarrow> valid_key_create body \<Longrightarrow> limits_valid k"
  by (simp add: issued_for_def valid_key_create_def quota_pair_def limits_valid_def Let_def)

lemma keys_valid_enforce: "list_all limits_valid rows \<Longrightarrow> list_all limits_valid (enforce scope rows)"
  by (auto simp: enforce_def list_all_iff)

interpretation key_limits: api_invariant keys_valid
proof
  fix a b
  assume v: "keys_valid a" and "table_change a b"
  from this(2) show "keys_valid b"
  proof cases
    case (key_new k body p)
    then show ?thesis
      using v issued_valid by (simp add: keys_valid_def)
  next
    case (key_put k)
    then show ?thesis
      using v by (auto simp: keys_valid_def list_all_iff dest!: set_put_row)
  next
    case (account p)
    then have "b = a\<lparr>users := users b\<rparr>"
      by (simp add: user_change_def)
    then have "virtual_keys b = virtual_keys a"
      by (metis tables.select_convs(3) tables.surjective tables.update_convs(6))
    then show ?thesis using v by (simp add: keys_valid_def)
  qed (use v in \<open>auto simp: keys_valid_def list_all_iff without_tenant_def\<close>)
next
  fix a b
  assume "keys_valid a" and "spent_change a b"
  then show "keys_valid b"
    by (auto simp: keys_valid_def spent_change_def intro!: keys_valid_enforce)
next
  fix a b
  assume "keys_valid a" and "seed_change a b"
  then show "keys_valid b"
    by (metis keys_valid_def seed_change_def tables.select_convs(3) tables.surjective tables.update_convs(6))
qed

text \<open>C16: customers belong to a tenant, admins to none.  In every state that any sequence of requests,
  logins, seedings and spends can reach, every customer account names a tenant and no admin
  account does, so a customer's session always has a scope and an admin's never has one.\<close>

theorem accounts_stay_bound:
  assumes "(api_step svc)\<^sup>*\<^sup>* s s'" and "constraints_ok (committed s)" and "all_bound (committed s)"
  shows "list_all (\<lambda>u. case us_role u of CUSTOMER \<Rightarrow> opt_true (us_tenant_id u) | ADMIN \<Rightarrow> us_tenant_id u = None)
     (users (committed s'))"
  using bound.reachable_keeps [OF assms] by (simp add: all_bound_def bound_def [abs_def])

text \<open>C17: every key in the database carries limits the gateway can apply: in every reachable state a
  key's rate is absent or between 1 and 100 million, and it has a quota period exactly when
  it has a quota tier.\<close>

theorem stored_limits_stay_valid:
  assumes "(api_step svc)\<^sup>*\<^sup>* s s'" and "constraints_ok (committed s)" and "keys_valid (committed s)"
  shows "list_all (\<lambda>k. (case vk_tokens_per_minute k of None \<Rightarrow> True | Some n \<Rightarrow> 0 < n \<and> n \<le> 100000000)
     \<and> (vk_token_quota_tier k \<noteq> None \<and> vk_token_quota_tier k \<noteq> Some TIER_NONE) = (vk_token_quota_period k \<noteq> None))
     (virtual_keys (committed s'))"
  using key_limits.reachable_keeps [OF assms] by (simp add: keys_valid_def limits_valid_def [abs_def])

section \<open>At concrete inputs\<close>

text \<open>How a handler runs on services that answer.\<close>

lemma run_ret: "bnd (ret a) f = f a"
  by (simp add: fun_eq_iff bnd_def ret_def)

lemma run_assoc: "bnd (bnd m f) g = bnd m (\<lambda>a. bnd (f a) g)"
  by (simp add: fun_eq_iff bnd_def split: prod.splits sum.splits)

lemma run_query: "bnd (query q) h s = h (q (session s)) s"
  by (simp add: bnd_def query_def)

lemma run_edit: "bnd (edit e) f s = f () (s\<lparr>session := e (session s)\<rparr>)"
  by (simp add: bnd_def edit_def)

lemma run_load: "row_by key i (rows (session s)) = Some r \<Longrightarrow> bnd (load_or_404 rows key i what) k s = k r s"
  by (simp add: bnd_def load_or_404_def query_def ret_def)

lemmas run_rules = run_ret run_assoc run_query run_edit run_load

lemma run_commit: "constraints_ok (session s) \<Longrightarrow> bnd (commit toy_services) f s = f () (s\<lparr>committed := session s\<rparr>)"
  by (simp add: commit_def sq_def bnd_def ret_def cloud_def mem_services_def)

lemma toy_calls:
  "get_now toy_services = ret toy_now"
  "new_id toy_services p = ret (p @ ''_0123456789ab'')"
  "cloud (hash_password toy_services pw) = ret (encode_hash ITERATIONS ''salt'' (pw @ ''salt''))"
  "cloud (set_subscription_state (apim toy_services) i st) = ret ()"
  by (simp_all add: fun_eq_iff mem_services_def cloud_def ret_def get_now_def new_id_def hash_password_def
      set_subscription_state_def mem_gateway_def bnd_def catch_exn_def)

lemma dev_admin_header: "require_admin toy_services ''Bearer dev:admin:'' s
   = (Inr \<lparr>pr_subject = JStr ''dev-user'', pr_role = ADMIN, pr_tenant_id = JNull\<rparr>, s)"
proof -
  have "starts_with (lower ''Bearer dev:admin:'') ''bearer ''" "is_local default_settings"
    "starts_with (drop 7 ''Bearer dev:admin:'') ''dev:''"
    "decode_local_dev (drop 7 ''Bearer dev:admin:'') = Inr \<lparr>pr_subject = JStr ''dev-user'', pr_role = ADMIN, pr_tenant_id = JNull\<rparr>"
    by code_simp+
  then show ?thesis
    by (simp add: require_admin_def get_principal_def bnd_def lift_sum_def ret_def mem_services_def Let_def)
qed

definition sample_body :: user_create where
  "sample_body = \<lparr>uc_username = ''eve'', uc_password = ''pw'', uc_role = CUSTOMER, uc_tenant_id = Some ''tn_1''\<rparr>"

theorem accounts_stay_bound_witness:
  "\<exists>s'. handle toy_services ''Bearer dev:admin:'' (Account (CreateUser sample_body)) sample_system = (Inr (), s')
     \<and> map us_tenant_id (users (committed s')) = [Some ''tn_1'']
     \<and> list_all (\<lambda>u. case us_role u of CUSTOMER \<Rightarrow> opt_true (us_tenant_id u) | ADMIN \<Rightarrow> us_tenant_id u = None)
         (users (committed s'))"
proof -
  have look: "user_named ''eve'' sample_tables = None" "users sample_tables = []"
    "row_by tn_id ''tn_1'' (tenants sample_tables) \<noteq> None"
    by (simp_all add: user_named_def row_by_def sample_tables_def no_tables_def)
  have ok: "constraints_ok (sample_tables\<lparr>users := [u]\<rparr>)" for u
    by (simp add: sample_tables_def no_tables_def constraints_ok_def platform_names_def toy_key_def)
  let ?u = "\<lparr>us_id = ''usr_0123456789ab'', us_username = ''eve'', us_password_hash = encode_hash ITERATIONS ''salt'' ''pwsalt'',
      us_role = CUSTOMER, us_tenant_id = Some ''tn_1'', us_disabled = False, us_created_at = toy_now\<rparr>"
  let ?s1 = "\<lparr>committed = sample_tables\<lparr>users := [?u]\<rparr>, session = sample_tables\<lparr>users := [?u]\<rparr>,
      world = (\<lambda>_. None, True)\<rparr>"
  from look(3) obtain x where x: "row_by tn_id ''tn_1'' (tenants sample_tables) = Some x"
    by blast
  have "create_user toy_services sample_body p
      \<lparr>committed = sample_tables, session = sample_tables, world = (\<lambda>_. None, True)\<rparr> = (Inr ?u, ?s1)" for p
    using look(1,2) x ok [of ?u]
    by (simp add: create_user_def sample_body_def require_tenant_for_customer_def opt_true_def opt_or_empty_def
        sq_def run_rules run_commit toy_calls Let_def) (simp add: ret_def)
  then have run: "handle toy_services ''Bearer dev:admin:'' (Account (CreateUser sample_body)) sample_system = (Inr (), ?s1)"
    by (simp add: handle_def request_def bnd_def dev_admin_header drop_result_def ret_def sample_system_def)
  have us: "map us_tenant_id (users (committed ?s1)) = [Some ''tn_1'']"
    by simp
  have "all_bound (committed sample_system)"
    by (simp add: all_bound_def sample_system_def sample_tables_def no_tables_def)
  note inv = accounts_stay_bound [OF r_into_rtranclp [of "api_step toy_services", OF served [OF run]] sample_ok this]
  show ?thesis
    by (rule exI [of _ ?s1], intro conjI) (rule run, rule us, rule inv)
qed

theorem stored_limits_stay_valid_witness:
  "\<exists>s'. handle toy_services ''Bearer dev:admin:'' (SuspendKey ''vk_1'') sample_system = (Inr (), s')
     \<and> map vk_status (virtual_keys (committed s')) = [KEY_SUSPENDED]
     \<and> list_all (\<lambda>k. (case vk_tokens_per_minute k of None \<Rightarrow> True | Some n \<Rightarrow> 0 < n \<and> n \<le> 100000000)
         \<and> (vk_token_quota_tier k \<noteq> None \<and> vk_token_quota_tier k \<noteq> Some TIER_NONE) = (vk_token_quota_period k \<noteq> None))
         (virtual_keys (committed s'))"
proof -
  have key: "row_by vk_id ''vk_1'' [toy_key] = Some toy_key" "opt_true (vk_apim_subscription_id toy_key)"
    "virtual_keys sample_tables = [toy_key]" "vk_id (toy_key\<lparr>vk_status := KEY_SUSPENDED\<rparr>) = vk_id toy_key"
    by (simp_all add: sample_tables_def row_by_def toy_key_def opt_true_def)
  have ok: "constraints_ok (sample_tables\<lparr>virtual_keys := [toy_key\<lparr>vk_status := KEY_SUSPENDED\<rparr>]\<rparr>)"
    by (simp add: sample_tables_def no_tables_def constraints_ok_def platform_names_def toy_key_def)
  let ?k = "toy_key\<lparr>vk_status := KEY_SUSPENDED\<rparr>"
  let ?s1 = "\<lparr>committed = sample_tables\<lparr>virtual_keys := [?k]\<rparr>, session = sample_tables\<lparr>virtual_keys := [?k]\<rparr>,
      world = (\<lambda>_. None, True)\<rparr>"
  have "suspend_key toy_services ''vk_1'' p
      \<lparr>committed = sample_tables, session = sample_tables, world = (\<lambda>_. None, True)\<rparr> = (Inr ?k, ?s1)" for p
    using ok
    by (simp add: suspend_key_def key sq_def run_rules run_commit toy_calls put_row_def Let_def) (simp add: ret_def)
  then have run: "handle toy_services ''Bearer dev:admin:'' (SuspendKey ''vk_1'') sample_system = (Inr (), ?s1)"
    by (simp add: handle_def request_def bnd_def dev_admin_header drop_result_def ret_def sample_system_def)
  have st: "map vk_status (virtual_keys (committed ?s1)) = [KEY_SUSPENDED]"
    by simp
  have "keys_valid (committed sample_system)"
    by (simp add: keys_valid_def limits_valid_def sample_system_def sample_tables_def toy_key_def)
  note inv = stored_limits_stay_valid [OF r_into_rtranclp [of "api_step toy_services", OF served [OF run]] sample_ok this]
  show ?thesis
    by (rule exI [of _ ?s1], intro conjI) (rule run, rule st, rule inv)
qed

end
