(* ===== verification/Http.thy ===== *)
theory Http
  imports Identity JsonRoundtrip
begin

text \<open>
  The HTTP client and the small pieces of the standard library that the deploy side uses:
  requests and responses (\<^verbatim>\<open>httpx\<close>), attribute and item access on decoded JSON, base64, and the
  services of the hub deployment.  The server behind a request is a parameter; a response body
  that is not JSON raises when it is decoded.
\<close>

section \<open>Requests and responses\<close>

record http_req =
  rq_method :: string
  rq_url :: string
  rq_headers :: "(string \<times> string) list"
  rq_params :: jdict
  rq_form :: jdict
  rq_json :: "json option"

record http_resp =
  hr_status :: int
  hr_text :: string
  hr_json :: "json option"

definition http_get :: "string \<Rightarrow> (string \<times> string) list \<Rightarrow> jdict \<Rightarrow> http_req" where
  "http_get url headers ps =
     \<lparr>rq_method = ''GET'', rq_url = url, rq_headers = headers, rq_params = ps, rq_form = [], rq_json = None\<rparr>"

definition http_send :: "string \<Rightarrow> string \<Rightarrow> (string \<times> string) list \<Rightarrow> jdict \<Rightarrow> http_req" where
  "http_send m url headers body =
     \<lparr>rq_method = m, rq_url = url, rq_headers = headers, rq_params = [], rq_form = [], rq_json = Some (JObj body)\<rparr>"

definition http_form :: "string \<Rightarrow> (string \<times> string) list \<Rightarrow> jdict \<Rightarrow> http_req" where
  "http_form url headers form =
     \<lparr>rq_method = ''POST'', rq_url = url, rq_headers = headers, rq_params = [], rq_form = form, rq_json = None\<rparr>"

declare bind_sum_simps [simp]

definition body_of :: "http_resp \<Rightarrow> exn + json" where
  "body_of r = (case hr_json r of None \<Rightarrow> Inl (ValueError ''invalid JSON'') | Some j \<Rightarrow> Inr j)"

definition http_ok :: "http_resp \<Rightarrow> bool" where
  "http_ok r \<longleftrightarrow> 200 \<le> hr_status r \<and> hr_status r \<le> 299"

definition check_status :: "http_resp \<Rightarrow> ('w, unit) eff" where
  "check_status r = (if http_ok r then ret () else raise (HTTPStatusError (hr_status r) (hr_text r)))"

section \<open>Access to decoded JSON\<close>

text \<open>\<^verbatim>\<open>v.get(k, d)\<close>, \<^verbatim>\<open>v[k]\<close>, \<^verbatim>\<open>for x in v\<close>, \<^verbatim>\<open>s in v\<close> and \<^verbatim>\<open>int(v)\<close> of any value, with what
  each raises.\<close>

definition j_get :: "json \<Rightarrow> string \<Rightarrow> json \<Rightarrow> exn + json" where
  "j_get v k d = (case v of JObj o' \<Rightarrow> Inr (jget_or o' k d) | _ \<Rightarrow> Inl attribute_error)"

definition j_item :: "json \<Rightarrow> string \<Rightarrow> exn + json" where
  "j_item v k =
     (case v of
        JObj o' \<Rightarrow> (case dict_get o' k of Some x \<Rightarrow> Inr x | None \<Rightarrow> Inl (KeyError k))
      | _ \<Rightarrow> Inl (TypeError ''not subscriptable by a string''))"

definition j_iter :: "json \<Rightarrow> exn + json list" where
  "j_iter v =
     (case v of
        JList xs \<Rightarrow> Inr xs
      | JObj o' \<Rightarrow> Inr (map (\<lambda>p. JStr (fst p)) o')
      | JStr s \<Rightarrow> Inr (map (\<lambda>c. JStr [c]) s)
      | _ \<Rightarrow> Inl (TypeError ''not iterable''))"

definition j_contains :: "string \<Rightarrow> json \<Rightarrow> exn + bool" where
  "j_contains s v =
     (case v of
        JStr t \<Rightarrow> Inr (sublist s t)
      | JList xs \<Rightarrow> Inr (JStr s \<in> set xs)
      | JObj o' \<Rightarrow> Inr (dict_get o' s \<noteq> None)
      | _ \<Rightarrow> Inl (TypeError ''argument is not iterable''))"

definition j_int :: "json \<Rightarrow> exn + int" where
  "j_int v =
     (case v of
        JInt i \<Rightarrow> Inr i
      | JBool b \<Rightarrow> Inr (if b then 1 else 0)
      | JFloat f \<Rightarrow> int_of_float f
      | JStr s \<Rightarrow> (case py_int_of_str s of Some i \<Rightarrow> Inr i | None \<Rightarrow> Inl (ValueError ''invalid literal for int()''))
      | _ \<Rightarrow> Inl (TypeError ''int() argument''))"

text \<open>A value that is used as text further on; one that is not text raises there.\<close>

definition j_text :: "json \<Rightarrow> exn + string" where
  "j_text v = (case v of JStr s \<Rightarrow> Inr s | _ \<Rightarrow> Inl (TypeError ''not a string''))"

text \<open>\<^verbatim>\<open>json.dumps(d)\<close> of a flat dictionary, with the default separators.\<close>

definition dumps_flat :: "jdict \<Rightarrow> string" where
  "dumps_flat d = ''{'' @ join '', '' (map (\<lambda>(k, v). json_str k @ '': '' @ dumps v) d) @ ''}''"

text \<open>\<^verbatim>\<open>s.split(sep)\<close>, \<^verbatim>\<open>s.replace(old, new)\<close>, \<^verbatim>\<open>s.rstrip(c)\<close>.\<close>

definition split_all :: "char \<Rightarrow> string \<Rightarrow> string list" where
  "split_all sep s = split_max sep (length s) s"

function replace_all :: "string \<Rightarrow> string \<Rightarrow> string \<Rightarrow> string" where
  "replace_all old new [] = []"
| "replace_all old new (c # s) =
     (if old \<noteq> [] \<and> prefix old (c # s) then new @ replace_all old new (drop (length old) (c # s))
      else c # replace_all old new s)"
  by pat_completeness auto
termination
  by (relation "measure (\<lambda>(old, new, s). length s)") (auto simp: less_Suc_eq_le Suc_le_eq diff_le_self le_diff_conv)

definition rstrip :: "char \<Rightarrow> string \<Rightarrow> string" where
  "rstrip c s = rev (dropWhile (\<lambda>x. x = c) (rev s))"

section \<open>Base64\<close>

text \<open>The decoder of \<^verbatim>\<open>binascii.a2b_base64\<close> in its lenient mode, on the URL-safe alphabet
  (\<^verbatim>\<open>u\<close>, where the two standard symbols still count) or the standard one: characters outside the alphabet are skipped, padding ends the input once a quad has two characters.
  Each step keeps the position in the quad, the bits left over and the pads seen.\<close>

definition b64_value :: "bool \<Rightarrow> char \<Rightarrow> nat option" where
  "b64_value u c = (let b = byte c in
     if 65 \<le> b \<and> b \<le> 90 then Some (b - 65)
     else if 97 \<le> b \<and> b \<le> 122 then Some (b - 71)
     else if 48 \<le> b \<and> b \<le> 57 then Some (b + 4)
     else if b = 43 \<or> u \<and> b = 45 then Some 62
     else if b = 47 \<or> u \<and> b = 95 then Some 63
     else None)"

fun b64_loop :: "bool \<Rightarrow> nat \<Rightarrow> nat \<Rightarrow> nat \<Rightarrow> string \<Rightarrow> string option" where
  "b64_loop u q left pads [] = (if q = 0 then Some [] else None)"
| "b64_loop u q left pads (c # s) =
     (if c = CHR ''='' then
        (if 2 \<le> q then (if 4 \<le> q + (pads + 1) then Some [] else b64_loop u q left (pads + 1) s)
         else b64_loop u q left pads s)
      else case b64_value u c of
        None \<Rightarrow> b64_loop u q left pads s
      | Some v \<Rightarrow>
          if q = 0 then b64_loop u 1 v 0 s
          else if q = 1 then map_option ((#) (char_of (left * 4 + v div 16))) (b64_loop u 2 (v mod 16) 0 s)
          else if q = 2 then map_option ((#) (char_of (left * 16 + v div 4))) (b64_loop u 3 (v mod 4) 0 s)
          else map_option ((#) (char_of (left * 64 + v))) (b64_loop u 0 0 0 s))"

definition b64_decode :: "bool \<Rightarrow> string \<Rightarrow> string option" where
  "b64_decode u s = (if list_all (\<lambda>c. byte c < 128) s then b64_loop u 0 0 0 s else None)"

text \<open>The encoder, without padding, as token issuers write it, and with it.\<close>

definition b64_char :: "bool \<Rightarrow> nat \<Rightarrow> char" where
  "b64_char u v = char_of (if v < 26 then v + 65 else if v < 52 then v + 71 else if v < 62 then v - 4
     else if v = 62 then (if u then 45 else 43) else if u then 95 else 47)"

fun b64_encode :: "bool \<Rightarrow> string \<Rightarrow> string" where
  "b64_encode u (a # b # c # s) =
     [b64_char u (byte a div 4), b64_char u (byte a mod 4 * 16 + byte b div 16),
      b64_char u (byte b mod 16 * 4 + byte c div 64), b64_char u (byte c mod 64)] @ b64_encode u s"
| "b64_encode u [a, b] =
     [b64_char u (byte a div 4), b64_char u (byte a mod 4 * 16 + byte b div 16), b64_char u (byte b mod 16 * 4)]"
| "b64_encode u [a] = [b64_char u (byte a div 4), b64_char u (byte a mod 4 * 16)]"
| "b64_encode u [] = []"

definition b64_pad :: "string \<Rightarrow> string" where
  "b64_pad s = s @ replicate ((4 - length s mod 4) mod 4) CHR ''=''"

lemma b64_char_byte: "v < 64 \<Longrightarrow> byte (b64_char u v) =
    (if v < 26 then v + 65 else if v < 52 then v + 71 else if v < 62 then v - 4 else if v = 62 then (if u then 45 else 43) else if u then 95 else 47)"
  by (simp add: b64_char_def)

lemma b64_value_char [simp]: "v < 64 \<Longrightarrow> b64_value u (b64_char u v) = Some v"
  by (cases "v < 26"; cases "v < 52"; cases "v < 62"; cases "v = 62") (auto simp: b64_value_def b64_char_byte Let_def)

lemma b64_char_not_pad [simp]: "v < 64 \<Longrightarrow> b64_char u v \<noteq> CHR ''=''"
  using b64_value_char [of v u] by (auto simp: b64_value_def byte_def)

lemma b64_char_not_dot: "v < 64 \<Longrightarrow> b64_char u v \<noteq> CHR ''.''"
  using b64_value_char [of v u] by (auto simp: b64_value_def byte_def)

lemma byte_parts:
  "byte a div 4 < 64" "byte a mod 4 * 16 + byte b div 16 < 64" "byte b mod 16 * 4 + byte c div 64 < 64" "byte c mod 64 < 64"
  "byte a mod 4 * 16 < 64" "byte b mod 16 * 4 < 64"
  using byte_less_256 [of a] byte_less_256 [of b] byte_less_256 [of c] by (simp_all del: byte_less_256)

lemma byte_div_256: "byte b div 16 div 16 = 0" "byte c div 64 div 4 = 0"
  "byte b div 16 mod 16 = byte b div 16" "byte c div 64 mod 4 = byte c div 64"
  using byte_less_256 [of b] byte_less_256 [of c] by (simp_all del: byte_less_256)

lemma byte_joined: "byte b div 16 * 16 + byte b mod 16 = byte b" "byte c div 64 * 64 + byte c mod 64 = byte c"
  by simp_all

text \<open>Decoding a padded encoding gives the text back.\<close>

lemma b64_loop_encode: "b64_loop u 0 0 0 (b64_encode u s @ replicate ((4 - length (b64_encode u s) mod 4) mod 4) CHR ''='') = Some s"
proof (induction u s rule: b64_encode.induct)
  case (1 u a b c s)
  then show ?case
    by (simp add: byte_parts byte_div_256 byte_joined)
next
  case (2 u a b)
  show ?case
    by (simp add: byte_parts byte_div_256 byte_joined)
next
  case (3 u a)
  have "replicate 2 CHR ''='' = ''==''" by (simp add: numeral_2_eq_2)
  then show ?case
    by (simp add: byte_parts byte_div_256 byte_joined)
qed simp

lemma ascii_b64_char: "v < 64 \<Longrightarrow> byte (b64_char u v) < 128"
  by (auto simp: b64_char_byte)

lemma ascii_b64_encode: "list_all (\<lambda>c. byte c < 128) (b64_encode u s)"
  by (induction u s rule: b64_encode.induct) (simp_all add: ascii_b64_char byte_parts)

lemma b64_decode_pad: "b64_decode u (b64_pad (b64_encode u s)) = Some s"
  using b64_loop_encode [of u s] ascii_b64_encode [of u s]
  by (auto simp: b64_decode_def b64_pad_def list_all_iff byte_def)

lemma b64_encode_no_dot: "CHR ''.'' \<notin> set (b64_encode u s)"
proof -
  have "b64_char u v \<noteq> CHR ''.''" if "v < 64" for v
    using b64_char_not_dot [OF that] .
  then show ?thesis
    by (induction u s rule: b64_encode.induct) (auto simp: byte_parts dest: sym)
qed

end
