(* ===== verification/HubDeploy.thy ===== *)
theory HubDeploy
  imports Http
begin

text \<open>
  Deploying a hub through a GitHub workflow (\<^verbatim>\<open>services/terraform_runner.py\<close>), with the newest
  image asked of the registry (\<^verbatim>\<open>services/acr.py\<close>) and published as a repository variable
  (\<^verbatim>\<open>services/github_repo.py\<close>).

  The two waiting loops run until a deadline on the clock.  They are loops with fuel here, one
  more iteration than the timeout has pauses; with a clock that does not run backwards and
  pauses that last as long as asked, more fuel changes nothing.
\<close>

section \<open>Services\<close>

record 'w hub_svc =
  core :: "'w services"
  http :: "http_req \<Rightarrow> ('w, http_resp) eff"
  azure_token :: "('w, string) eff"
  blob_download :: "string \<Rightarrow> ('w, string) eff"
  sealed_box :: "string \<Rightarrow> string \<Rightarrow> ('w, string) eff"
  token_urlsafe :: "nat \<Rightarrow> 'w \<Rightarrow> string \<times> 'w"
  token_hex :: "nat \<Rightarrow> 'w \<Rightarrow> string \<times> 'w"
  pause :: "int \<Rightarrow> ('w, unit) eff"

abbreviation stg :: "'w hub_svc \<Rightarrow> settings" where
  "stg svc \<equiv> sv_settings (core svc)"

definition draw :: "('w \<Rightarrow> 'a \<times> 'w) \<Rightarrow> ('w, 'a) eff" where
  "draw f w = (case f w of (a, w') \<Rightarrow> (Inr a, w'))"

definition read_clock :: "'w hub_svc \<Rightarrow> ('w, utc) eff" where
  "read_clock svc w = (Inr (clock (core svc) w), w)"

definition EM_DASH :: string where
  "EM_DASH = [CHR 0xE2, CHR 0x80, CHR 0x94]"

section \<open>The registry\<close>

text \<open>The tenant id in the payload of a token.\<close>

definition tenant_of :: "string \<Rightarrow> exn + string" where
  "tenant_of jwt =
     (case split_all CHR ''.'' jwt of
        _ # payload # _ \<Rightarrow>
          (case b64_decode True (b64_pad payload) of
             None \<Rightarrow> Inl (ValueError ''Incorrect padding'')
           | Some raw \<Rightarrow>
               bind_sum (loads_exn raw) (\<lambda>claims.
               bind_sum (j_item claims ''tid'') (\<lambda>tid. Inr (py_str tid))))
      | _ \<Rightarrow> Inl (OtherError ''IndexError''))"

definition first_item :: "json \<Rightarrow> exn + json" where
  "first_item v =
     (case v of
        JList (x # _) \<Rightarrow> Inr x
      | JStr (c # _) \<Rightarrow> Inr (JStr [c])
      | JObj _ \<Rightarrow> Inl (KeyError ''0'')
      | _ \<Rightarrow> Inl (TypeError ''not subscriptable''))"

definition newest_tag :: "'w hub_svc \<Rightarrow> string \<Rightarrow> string \<Rightarrow> ('w, string option) eff" where
  "newest_tag svc registry repository =
     (let host = registry @ ''.azurecr.io''; url = ''https://'' @ host in
      catch_exn
        (bnd (azure_token svc) (\<lambda>arm_tok.
         bnd (lift_sum (tenant_of arm_tok)) (\<lambda>tid.
         bnd (http svc (http_form (url @ ''/oauth2/exchange'') []
                [(''grant_type'', JStr ''access_token''), (''service'', JStr host), (''tenant'', JStr tid),
                 (''access_token'', JStr arm_tok)])) (\<lambda>refresh.
         if hr_status refresh \<noteq> 200 then ret None
         else
           bnd (lift_sum (bind_sum (body_of refresh) (\<lambda>b. j_item b ''refresh_token''))) (\<lambda>rtok.
           bnd (http svc (http_form (url @ ''/oauth2/token'') []
                  [(''grant_type'', JStr ''refresh_token''), (''service'', JStr host),
                   (''scope'', JStr (''repository:'' @ repository @ '':pull'')), (''refresh_token'', rtok)])) (\<lambda>access.
           if hr_status access \<noteq> 200 then ret None
           else
             bnd (lift_sum (bind_sum (body_of access) (\<lambda>b. j_item b ''access_token''))) (\<lambda>atok.
             bnd (http svc (http_get (url @ ''/acr/v1/'' @ repository @ ''/_tags'')
                    [(''Authorization'', ''Bearer '' @ py_str atok)]
                    [(''orderby'', JStr ''timedesc''), (''n'', JInt 1)])) (\<lambda>tags.
             if hr_status tags \<noteq> 200 then ret None
             else
               bnd (lift_sum (bind_sum (body_of tags) (\<lambda>b. j_get b ''tags'' JNull))) (\<lambda>got.
               let found = py_or got (JList []) in
               if \<not> truthy found then ret None
               else
                 bnd (lift_sum (bind_sum (first_item found) (\<lambda>t. j_item t ''name''))) (\<lambda>name.
                 ret (Some (py_str name))))))))))))
        (\<lambda>_. ret None))"

section \<open>Repository secrets and variables\<close>

record gh_repo =
  gh_owner :: string
  gh_name :: string
  gh_token :: string

definition repo_base :: "gh_repo \<Rightarrow> string" where
  "repo_base g = ''https://api.github.com/repos/'' @ gh_owner g @ ''/'' @ gh_name g"

definition repo_headers :: "string \<Rightarrow> (string \<times> string) list" where
  "repo_headers tok =
     [(''Authorization'', ''Bearer '' @ tok), (''Accept'', ''application/vnd.github+json''),
      (''X-GitHub-Api-Version'', ''2022-11-28'')]"

definition encrypt_secret :: "'w hub_svc \<Rightarrow> string \<Rightarrow> string \<Rightarrow> ('w, string) eff" where
  "encrypt_secret svc public_key_b64 secret_value =
     (case b64_decode False public_key_b64 of
        None \<Rightarrow> raise (ValueError ''Incorrect padding'')
      | Some pub \<Rightarrow>
          bnd (sealed_box svc pub secret_value) (\<lambda>ciphertext. ret (b64_pad (b64_encode False ciphertext))))"

text \<open>The public key is fetched once and carried along.\<close>

definition get_public_key :: "'w hub_svc \<Rightarrow> gh_repo \<Rightarrow> (json \<times> json) option \<Rightarrow> ('w, json \<times> json) eff" where
  "get_public_key svc g cached =
     (case cached of
        Some k \<Rightarrow> ret k
      | None \<Rightarrow>
          bnd (http svc (http_get (repo_base g @ ''/actions/secrets/public-key'') (repo_headers (gh_token g)) [])) (\<lambda>r.
          if hr_status r \<noteq> 200 then
            raise (GitHubRepoError (''could not read repo public key ('' @ int_str (hr_status r) @ ''): ''
                     @ py_take 300 (hr_text r)))
          else
            lift_sum (bind_sum (body_of r) (\<lambda>data.
              bind_sum (j_item data ''key_id'') (\<lambda>key_id.
              bind_sum (j_item data ''key'') (\<lambda>key. Inr (key_id, key)))))))"

definition set_repo_secret ::
  "'w hub_svc \<Rightarrow> gh_repo \<Rightarrow> (json \<times> json) option \<Rightarrow> string \<Rightarrow> string \<Rightarrow> ('w, (json \<times> json) option) eff" where
  "set_repo_secret svc g cached name v =
     bnd (get_public_key svc g cached) (\<lambda>(key_id, key).
     bnd (lift_sum (j_text key)) (\<lambda>key_b64.
     bnd (encrypt_secret svc key_b64 v) (\<lambda>enc.
     bnd (http svc (http_send ''PUT'' (repo_base g @ ''/actions/secrets/'' @ name) (repo_headers (gh_token g))
            [(''encrypted_value'', JStr enc), (''key_id'', key_id)])) (\<lambda>r.
     if hr_status r \<notin> {201, 204} then
       raise (GitHubRepoError (''failed to set secret '' @ name @ '' ('' @ int_str (hr_status r) @ ''): ''
                @ py_take 300 (hr_text r)))
     else ret (Some (key_id, key))))))"

definition set_variable :: "'w hub_svc \<Rightarrow> gh_repo \<Rightarrow> string \<Rightarrow> string \<Rightarrow> ('w, unit) eff" where
  "set_variable svc g name v =
     (let url = repo_base g @ ''/actions/variables''; headers = repo_headers (gh_token g);
          body = [(''name'', JStr name), (''value'', JStr v)] in
      bnd (http svc (http_get (url @ ''/'' @ name) headers [])) (\<lambda>exists'.
      bnd (if hr_status exists' = 200
           then bnd (http svc (http_send ''PATCH'' (url @ ''/'' @ name) headers body)) (\<lambda>r. ret (r, 204))
           else bnd (http svc (http_send ''POST'' url headers body)) (\<lambda>r. ret (r, 201))) (\<lambda>(r, ok_code).
      if hr_status r \<noteq> ok_code then
        raise (GitHubRepoError (''failed to set variable '' @ name @ '' ('' @ int_str (hr_status r) @ ''): ''
                 @ py_take 300 (hr_text r)))
      else ret ())))"

fun push_secrets ::
  "'w hub_svc \<Rightarrow> gh_repo \<Rightarrow> (json \<times> json) option \<Rightarrow> (string, string) dict \<Rightarrow> ('w, unit) eff" where
  "push_secrets svc g cached [] = ret ()"
| "push_secrets svc g cached ((name, v) # rest) =
     bnd (set_repo_secret svc g cached name v) (\<lambda>cached'. push_secrets svc g cached' rest)"

definition push :: "'w hub_svc \<Rightarrow> gh_repo \<Rightarrow> (string, string) dict \<Rightarrow> (string, string) dict \<Rightarrow> ('w, unit) eff" where
  "push svc g secrets variables =
     sq (push_secrets svc g None secrets)
        (for_each variables (\<lambda>(name, v). set_variable svc g name v))"

section \<open>The workflow\<close>

definition FIND_RUN_TIMEOUT :: int where
  "FIND_RUN_TIMEOUT = 120"

definition RUN_POLL_TIMEOUT :: int where
  "RUN_POLL_TIMEOUT = 1800"

definition POLL_INTERVAL :: int where
  "POLL_INTERVAL = 10"

definition HUB_REPOSITORY :: string where
  "HUB_REPOSITORY = ''gitmodel''"

definition BOOTSTRAP_PAT_SECRET :: string where
  "BOOTSTRAP_PAT_SECRET = ''github-bootstrap-pat''"

definition new_admin_token :: "'w hub_svc \<Rightarrow> ('w, string) eff" where
  "new_admin_token svc = draw (token_urlsafe svc 32)"

definition new_hub_key :: "'w hub_svc \<Rightarrow> ('w, string) eff" where
  "new_hub_key svc = bnd (draw (token_urlsafe svc 32)) (\<lambda>t. ret (''sk-hub-'' @ t))"

definition jobinput_name :: "string \<Rightarrow> string" where
  "jobinput_name account_id = ''gh-'' @ dashed account_id @ ''-jobinput''"

definition fqdn_from_url :: "string \<Rightarrow> string" where
  "fqdn_from_url app_url = rstrip CHR ''/'' (replace_all ''http://'' [] (replace_all ''https://'' [] app_url))"

definition github_token :: "'w hub_svc \<Rightarrow> ('w, string) eff" where
  "github_token svc =
     bnd (get_secret (core svc) (github_token_secret (stg svc))) (\<lambda>tok.
     if \<not> opt_true tok then
       raise (TerraformError (''GitHub token not found in Key Vault (secret '' @ github_token_secret (stg svc) @ '')''))
     else ret (opt_or_empty tok))"

definition github_headers :: "'w hub_svc \<Rightarrow> ('w, (string \<times> string) list) eff" where
  "github_headers svc = bnd (github_token svc) (\<lambda>tok. ret (repo_headers tok))"

definition actions_base :: "settings \<Rightarrow> string" where
  "actions_base s = ''https://api.github.com/repos/'' @ github_repo_owner s @ ''/'' @ github_repo_name s @ ''/actions''"

definition workflow_base :: "settings \<Rightarrow> string" where
  "workflow_base s = actions_base s @ ''/workflows/'' @ github_workflow_file s"

definition job_input :: "string \<Rightarrow> string \<Rightarrow> string \<Rightarrow> string \<Rightarrow> string" where
  "job_input account_id oauth_token admin_token hub_api_key =
     dumps_flat [(''account_id'', JStr account_id), (''oauth_token'', JStr oauth_token),
       (''admin_token'', JStr admin_token), (''hub_api_key'', JStr hub_api_key)]"

definition write_jobinput :: "'w hub_svc \<Rightarrow> string \<Rightarrow> string \<Rightarrow> string \<Rightarrow> string \<Rightarrow> ('w, unit) eff" where
  "write_jobinput svc account_id oauth_token admin_token hub_api_key =
     bnd (set_secret (core svc) (jobinput_name account_id) (job_input account_id oauth_token admin_token hub_api_key))
       (\<lambda>_. ret ())"

definition trigger_workflow :: "'w hub_svc \<Rightarrow> string \<Rightarrow> string \<Rightarrow> string \<Rightarrow> ('w, unit) eff" where
  "trigger_workflow svc account_id action correlation_id =
     bnd (github_headers svc) (\<lambda>headers.
     bnd (http svc (http_send ''POST'' (workflow_base (stg svc) @ ''/dispatches'') headers
            [(''ref'', JStr (github_ref (stg svc))),
             (''inputs'', JObj [(''account_id'', JStr account_id), (''action'', JStr action),
                               (''correlation_id'', JStr correlation_id)])])) (\<lambda>r.
     if hr_status r \<notin> {201, 204} then
       raise (TerraformError (''workflow_dispatch failed ('' @ int_str (hr_status r) @ ''): '' @ py_take 300 (hr_text r)))
     else ret ()))"

text \<open>A loop that tries until something turns up or the deadline has passed.\<close>

fun until_deadline ::
  "nat \<Rightarrow> 'w hub_svc \<Rightarrow> utc \<Rightarrow> int \<Rightarrow> ('w, 'a option) eff \<Rightarrow> exn \<Rightarrow> ('w, 'a) eff" where
  "until_deadline 0 svc deadline secs attempt timeout = raise (OtherError ''no fuel left'')"
| "until_deadline (Suc n) svc deadline secs attempt timeout =
     bnd (read_clock svc) (\<lambda>t.
     if t < deadline then
       bnd attempt (\<lambda>found.
       case found of
         Some a \<Rightarrow> ret a
       | None \<Rightarrow> sq (pause svc secs) (until_deadline n svc deadline secs attempt timeout))
     else raise timeout)"

text \<open>The runs listed, in order, up to the one that carries the correlation id.\<close>

fun scan_runs :: "string \<Rightarrow> json list \<Rightarrow> exn + int option" where
  "scan_runs correlation_id [] = Inr None"
| "scan_runs correlation_id (run # runs) =
     bind_sum (j_get run ''name'' (JStr [])) (\<lambda>nm.
     bind_sum (if truthy nm then Inr nm else j_get run ''display_title'' (JStr [])) (\<lambda>name.
     bind_sum (j_contains correlation_id name) (\<lambda>hit.
     if hit then bind_sum (j_item run ''id'') (\<lambda>i. bind_sum (j_int i) (\<lambda>n. Inr (Some n)))
     else scan_runs correlation_id runs)))"

definition find_attempt :: "'w hub_svc \<Rightarrow> string \<Rightarrow> string \<Rightarrow> ('w, int option) eff" where
  "find_attempt svc correlation_id since_iso =
     bnd (github_headers svc) (\<lambda>headers.
     bnd (http svc (http_get (workflow_base (stg svc) @ ''/runs'') headers
            [(''event'', JStr ''workflow_dispatch''), (''created'', JStr (''>='' @ since_iso)), (''per_page'', JInt 30)])) (\<lambda>r.
     sq (check_status r)
        (lift_sum (bind_sum (body_of r) (\<lambda>b.
                   bind_sum (j_get b ''workflow_runs'' (JList [])) (\<lambda>runs.
                   bind_sum (j_iter runs) (scan_runs correlation_id)))))))"

definition find_run_with :: "nat \<Rightarrow> 'w hub_svc \<Rightarrow> string \<Rightarrow> string \<Rightarrow> ('w, int) eff" where
  "find_run_with fuel svc correlation_id since_iso =
     bnd (read_clock svc) (\<lambda>t.
     until_deadline fuel svc (t + FIND_RUN_TIMEOUT * 1000000) 5 (find_attempt svc correlation_id since_iso)
       (TerraformError (''could not find the triggered run for corr='' @ correlation_id @ '' within ''
          @ int_str FIND_RUN_TIMEOUT @ ''s'')))"

definition find_run :: "'w hub_svc \<Rightarrow> string \<Rightarrow> string \<Rightarrow> ('w, int) eff" where
  "find_run = find_run_with 25"

definition run_url :: "settings \<Rightarrow> int \<Rightarrow> string" where
  "run_url s run_id = actions_base s @ ''/runs/'' @ int_str run_id"

text \<open>What one answer about a run says: still running, done, or failed.\<close>

definition run_verdict :: "int \<Rightarrow> string \<Rightarrow> json \<Rightarrow> exn + unit option" where
  "run_verdict run_id account_id data =
     bind_sum (j_get data ''status'' (JStr [])) (\<lambda>st.
     bind_sum (j_get data ''conclusion'' (JStr [])) (\<lambda>conclusion.
     if st = JStr ''completed'' then
       (if conclusion = JStr ''success'' then Inr (Some ())
        else bind_sum (j_get data ''html_url'' (JStr ''GitHub Actions'')) (\<lambda>link.
          Inl (TerraformError (''deploy run '' @ int_str run_id @ '' for '' @ account_id @ '' ended '' @ py_str conclusion
                 @ '' '' @ EM_DASH @ '' see '' @ py_str link))))
     else Inr None))"

definition poll_attempt :: "'w hub_svc \<Rightarrow> int \<Rightarrow> string \<Rightarrow> ('w, unit option) eff" where
  "poll_attempt svc run_id account_id =
     bnd (github_headers svc) (\<lambda>headers.
     bnd (http svc (http_get (run_url (stg svc) run_id) headers [])) (\<lambda>r.
     sq (check_status r)
        (lift_sum (bind_sum (body_of r) (run_verdict run_id account_id)))))"

definition poll_run_with :: "nat \<Rightarrow> 'w hub_svc \<Rightarrow> int \<Rightarrow> string \<Rightarrow> ('w, unit) eff" where
  "poll_run_with fuel svc run_id account_id =
     bnd (read_clock svc) (\<lambda>t.
     until_deadline fuel svc (t + RUN_POLL_TIMEOUT * 1000000) POLL_INTERVAL (poll_attempt svc run_id account_id)
       (TerraformError (''deploy run '' @ int_str run_id @ '' for '' @ account_id @ '' did not finish within ''
          @ int_str RUN_POLL_TIMEOUT @ ''s'')))"

definition poll_run :: "'w hub_svc \<Rightarrow> int \<Rightarrow> string \<Rightarrow> ('w, unit) eff" where
  "poll_run = poll_run_with 181"

text \<open>The outputs of a state; outputs that are not text are refused where they are used.\<close>

definition output_value :: "json \<Rightarrow> string \<Rightarrow> exn + json" where
  "output_value outputs name =
     bind_sum (j_get outputs name JNull) (\<lambda>entry. j_get (py_or entry (JObj [])) ''value'' (JStr []))"

definition state_outputs :: "string \<Rightarrow> string \<Rightarrow> exn + string \<times> string" where
  "state_outputs account_id raw =
     bind_sum (loads_exn raw) (\<lambda>state.
     bind_sum (j_get state ''outputs'' (JObj [])) (\<lambda>outputs.
     bind_sum (output_value outputs ''app_url'') (\<lambda>app_url.
     bind_sum (output_value outputs ''resource_group'') (\<lambda>rg.
     if \<not> truthy app_url then
       Inl (TerraformError (''state blob for '' @ account_id @ '' has no app_url output (deploy may have failed)''))
     else bind_sum (j_text app_url) (\<lambda>u. bind_sum (j_text rg) (\<lambda>g. Inr (u, g)))))))"

definition read_state_outputs :: "'w hub_svc \<Rightarrow> string \<Rightarrow> ('w, string \<times> string) eff" where
  "read_state_outputs svc account_id =
     bnd (blob_download svc (''https://'' @ tfstate_storage_account (stg svc) @ ''.blob.core.windows.net/''
            @ tfstate_container (stg svc) @ ''/hubs/'' @ account_id @ ''.tfstate'')) (\<lambda>raw.
     lift_sum (state_outputs account_id raw))"

text \<open>The image variable is refreshed before a dispatch.\<close>

fun is_repo_error :: "exn \<Rightarrow> bool" where
  "is_repo_error (GitHubRepoError _) = True"
| "is_repo_error _ = False"

definition refresh_hub_image_ref :: "'w hub_svc \<Rightarrow> ('w, unit) eff" where
  "refresh_hub_image_ref svc =
     bnd (if acr_name (stg svc) \<noteq> [] then newest_tag svc (acr_name (stg svc)) HUB_REPOSITORY else ret None) (\<lambda>found.
     let tag = (if opt_true found then opt_or_empty found else hub_image_tag (stg svc)) in
     if tag = [] then ret ()
     else
       bnd (get_secret (core svc) BOOTSTRAP_PAT_SECRET) (\<lambda>pat.
       if \<not> opt_true pat then ret ()
       else
         catch_exn
           (set_variable svc \<lparr>gh_owner = github_repo_owner (stg svc), gh_name = github_repo_name (stg svc),
              gh_token = opt_or_empty pat\<rparr> ''HUB_IMAGE_REF'' (''gitmodel:'' @ tag))
           (\<lambda>e. if is_repo_error e \<or> is_httpx_error e then ret () else raise e)))"

definition fmt_second :: "utc \<Rightarrow> string" where
  "fmt_second t = (let c = civil_of t in
     hour_str c @ '':'' @ pad_str 2 (minute c) @ '':'' @ pad_str 2 (second c) @ ''Z'')"

record hub_outputs =
  out_app_url :: string
  out_resource_group :: string
  out_admin_token :: string
  out_hub_api_key :: string

definition run_workflow :: "'w hub_svc \<Rightarrow> string \<Rightarrow> string \<Rightarrow> string \<Rightarrow> ('w, unit) eff" where
  "run_workflow svc account_id action prefix' =
     bnd (read_clock svc) (\<lambda>t.
     bnd (draw (token_hex svc 4)) (\<lambda>h.
     let correlation_id = prefix' @ h in
     sq (trigger_workflow svc account_id action correlation_id)
    (bnd (find_run svc correlation_id (fmt_second t)) (\<lambda>run_id.
     poll_run svc run_id account_id))))"

definition deploy_hub :: "'w hub_svc \<Rightarrow> string \<Rightarrow> string \<Rightarrow> ('w, hub_outputs) eff" where
  "deploy_hub svc account_id oauth_token =
     bnd (new_admin_token svc) (\<lambda>adm.
     bnd (new_hub_key svc) (\<lambda>key.
     sq (write_jobinput svc account_id oauth_token adm key)
    (sq (refresh_hub_image_ref svc)
    (sq (run_workflow svc account_id ''apply'' (account_id @ ''-''))
    (bnd (read_state_outputs svc account_id) (\<lambda>(app_url, rg).
     ret \<lparr>out_app_url = app_url, out_resource_group = rg, out_admin_token = adm, out_hub_api_key = key\<rparr>))))))"

definition destroy_hub :: "'w hub_svc \<Rightarrow> string \<Rightarrow> string \<Rightarrow> ('w, unit) eff" where
  "destroy_hub svc account_id oauth_token =
     sq (write_jobinput svc account_id oauth_token ''x'' ''x'')
        (run_workflow svc account_id ''destroy'' (account_id @ ''-destroy-''))"

section \<open>The tenant of a token\<close>

lemma split_token:
  assumes "CHR ''.'' \<notin> set h" and "CHR ''.'' \<notin> set p"
  shows "\<exists>rest. split_all CHR ''.'' (h @ ''.'' @ p @ ''.'' @ sig) = h # p # rest"
proof -
  obtain n where n: "length (h @ ''.'' @ p @ ''.'' @ sig) = Suc (Suc n)"
    by simp
  have "split_at CHR ''.'' (h @ ''.'' @ p @ ''.'' @ sig) = (h, Some (p @ ''.'' @ sig))"
    "split_at CHR ''.'' (p @ ''.'' @ sig) = (p, Some sig)"
    using assms split_at_notin [of "CHR ''.''"] by simp_all
  then show ?thesis
    unfolding split_all_def n by simp
qed

text \<open>The tenant sent to the registry is the one in the token.  From a token whose payload is the
  unpadded URL-safe base64 of its claims in JSON, the \<^verbatim>\<open>tid\<close> claim is read back, whatever the
  header, the signature and the other claims are.\<close>

lemma tenant_roundtrip:
  assumes "CHR ''.'' \<notin> set header" and "plain_json (JObj claims)" and "dict_get claims ''tid'' = Some (JStr tid)"
  shows "tenant_of (header @ ''.'' @ b64_encode True (dumps (JObj claims)) @ ''.'' @ signature) = Inr tid"
proof -
  obtain rest where "split_all CHR ''.'' (header @ ''.'' @ b64_encode True (dumps (JObj claims)) @ ''.'' @ signature)
      = header # b64_encode True (dumps (JObj claims)) # rest"
    using split_token [OF assms(1) b64_encode_no_dot] by blast
  moreover have "loads_exn (dumps (JObj claims)) = Inr (JObj claims)"
    by (simp only: loads_exn_def loads_dumps [OF assms(2)] option.case)
  ultimately show ?thesis
    using assms(3) by (simp add: tenant_of_def b64_decode_pad j_item_def)
qed

lemma tenant_roundtrip_witness:
  "tenant_of (''eyJh'' @ ''.'' @ b64_encode True (dumps (JObj [(''aud'', JStr ''arm''), (''tid'', JStr ''t-1'')])) @ ''.'' @ ''sig'')
     = Inr ''t-1''"
  by (rule tenant_roundtrip) (simp_all add: plain_map_def dict_ok_def ascii_def byte_def)

section \<open>The waiting loops end\<close>

text \<open>The clock: no call turns it back, and a pause lasts at least as long as asked.\<close>

definition clock_laws :: "'w hub_svc \<Rightarrow> bool" where
  "clock_laws svc \<longleftrightarrow>
     (\<forall>req w. clock (core svc) w \<le> clock (core svc) (snd (http svc req w)))
   \<and> (\<forall>name w. clock (core svc) w \<le> clock (core svc) (snd (kv_get (core svc) name w)))
   \<and> (\<forall>secs w. 0 \<le> secs \<longrightarrow> clock (core svc) w + secs * 1000000 \<le> clock (core svc) (snd (pause svc secs w)))"

definition forward :: "'w hub_svc \<Rightarrow> ('w, 'a) eff \<Rightarrow> bool" where
  "forward svc m \<longleftrightarrow> (\<forall>w. clock (core svc) w \<le> clock (core svc) (snd (m w)))"

lemma forward_ret [simp]: "forward svc (ret a)"
  by (simp add: forward_def ret_def)

lemma forward_raise [simp]: "forward svc (raise e)"
  by (simp add: forward_def raise_def)

lemma forward_lift_sum [simp]: "forward svc (lift_sum r)"
  by (simp add: forward_def lift_sum_def)

lemma forward_bnd:
  assumes m: "forward svc m" and f: "\<And>a. forward svc (f a)"
  shows "forward svc (bnd m f)"
  unfolding forward_def
proof
  fix w
  have "clock (core svc) w \<le> clock (core svc) (snd (m w))"
    using m by (simp add: forward_def)
  moreover have "clock (core svc) v \<le> clock (core svc) (snd (f a v))" for a v
    using f by (simp add: forward_def)
  ultimately show "clock (core svc) w \<le> clock (core svc) (snd (bnd m f w))"
    by (auto simp: bnd_def split: prod.splits sum.splits intro: order_trans)
qed

lemma forward_sq: "forward svc m \<Longrightarrow> forward svc n \<Longrightarrow> forward svc (sq m n)"
  by (simp add: sq_def forward_bnd)

lemma forward_calls:
  assumes "clock_laws svc"
  shows "forward svc (http svc req)" and "forward svc (github_headers svc)"
  using assms by (auto simp: forward_def [of svc "http svc req"] clock_laws_def github_headers_def github_token_def
      get_secret_def forward_def [of svc "kv_get (core svc) n" for n] intro!: forward_bnd)

lemma forward_check_status: "forward svc (check_status r)"
  by (simp add: check_status_def)

locale deadline_loop =
  fixes svc :: "'w hub_svc" and attempt :: "('w, 'a option) eff" and secs :: int
  assumes attempt_forward: "clock_laws svc \<Longrightarrow> forward svc attempt" and secs_pos: "0 < secs"
begin

lemma more_fuel:
  assumes laws: "clock_laws svc" and "deadline \<le> clock (core svc) w + int n * (secs * 1000000)"
  shows "until_deadline (Suc n + d) svc deadline secs attempt e w = until_deadline (Suc n) svc deadline secs attempt e w"
  using assms(2)
proof (induction n arbitrary: w)
  case 0
  then show ?case
    by (simp add: bnd_def read_clock_def raise_def)
next
  case (Suc n)
  have "until_deadline (Suc n + d) svc deadline secs attempt e v = until_deadline (Suc n) svc deadline secs attempt e v"
    if "attempt w = (r, u)" "pause svc secs u = (r', v)" for r u r' v
  proof (rule Suc.IH)
    have "clock (core svc) w \<le> clock (core svc) u"
      using attempt_forward [OF laws] that(1) by (auto simp: forward_def dest!: spec [of _ w])
    moreover have "clock (core svc) u + secs * 1000000 \<le> clock (core svc) v"
      using laws secs_pos that(2) by (auto simp: clock_laws_def dest!: spec [of _ secs] spec [of _ u])
    ultimately show "deadline \<le> clock (core svc) v + int n * (secs * 1000000)"
      using Suc.prems by (simp add: algebra_simps)
  qed
  then show ?case
    by (auto simp: bnd_def sq_def read_clock_def split: prod.splits sum.splits option.splits)
qed

lemma enough_fuel:
  assumes "clock_laws svc" and "0 < n" and "deadline \<le> clock (core svc) w + (int n - 1) * (secs * 1000000)"
  shows "until_deadline (n + d) svc deadline secs attempt e w = until_deadline n svc deadline secs attempt e w"
  using more_fuel [OF assms(1), of deadline w "n - 1" d e] assms(2,3) by (cases n) simp_all

end

interpretation finding: deadline_loop svc "find_attempt svc correlation_id since_iso" 5
  by unfold_locales (auto simp: find_attempt_def intro!: forward_bnd forward_sq forward_calls forward_check_status)

interpretation polling: deadline_loop svc "poll_attempt svc run_id account_id" POLL_INTERVAL
  by unfold_locales
     (auto simp: poll_attempt_def POLL_INTERVAL_def intro!: forward_bnd forward_sq forward_calls forward_check_status)

text \<open>C18: waiting for a workflow run ends.  With a clock that does not run backwards, the search for the
  run makes at most 24 attempts and the wait for its end at most 180: the loops never need
  more iterations than that, whatever GitHub answers and however often calls fail.\<close>

theorem waiting_for_a_run_ends:
  assumes "clock_laws svc"
  shows "find_run_with (25 + d) svc correlation_id since_iso w = find_run svc correlation_id since_iso w
    \<and> poll_run_with (181 + d) svc run_id account_id w = poll_run svc run_id account_id w"
proof
  show "find_run_with (25 + d) svc correlation_id since_iso w = find_run svc correlation_id since_iso w"
    unfolding find_run_def find_run_with_def bnd_def read_clock_def prod.case sum.case
    by (rule finding.enough_fuel) (simp_all add: assms FIND_RUN_TIMEOUT_def)
  show "poll_run_with (181 + d) svc run_id account_id w = poll_run svc run_id account_id w"
    unfolding poll_run_def poll_run_with_def bnd_def read_clock_def prod.case sum.case
    by (rule polling.enough_fuel) (simp_all add: assms RUN_POLL_TIMEOUT_def POLL_INTERVAL_def)
qed

section \<open>What a deployment leaves behind\<close>

text \<open>Key Vault as the deployment sees it: a secret that is written is the one found later, and no
  other call the deployment makes writes one.\<close>

definition secret_laws :: "('w \<Rightarrow> string \<Rightarrow> string option) \<Rightarrow> 'w hub_svc \<Rightarrow> bool" where
  "secret_laws sec svc \<longleftrightarrow>
     (\<forall>name v w i w'. kv_set (core svc) name v w = (Inr i, w') \<longrightarrow> sec w' = (sec w)(name := Some v))
   \<and> (\<forall>name. keeps sec (kv_get (core svc) name)) \<and> (\<forall>req. keeps sec (http svc req)) \<and> keeps sec (azure_token svc)
   \<and> (\<forall>url. keeps sec (blob_download svc url)) \<and> (\<forall>n. keeps sec (draw (token_urlsafe svc n)))
   \<and> (\<forall>n. keeps sec (draw (token_hex svc n))) \<and> (\<forall>n. keeps sec (pause svc n))"

lemma keeps_lift_sum [simp]: "keeps obs (lift_sum r)"
  by (simp add: keeps_def lift_sum_def)

lemma keeps_read_clock [simp]: "keeps obs (read_clock svc)"
  by (simp add: keeps_def read_clock_def)

lemma keeps_if: "keeps obs m \<Longrightarrow> keeps obs n \<Longrightarrow> keeps obs (if b then m else n)"
  by simp

lemma keeps_until:
  "keeps obs attempt \<Longrightarrow> keeps obs (pause svc secs) \<Longrightarrow> keeps obs (until_deadline n svc deadline secs attempt e)"
proof (induction n)
  case (Suc n)
  then show ?case
    by (auto intro!: keeps_bnd keeps_sq split: option.splits)
qed simp

lemma keeps_check_status [simp]: "keeps obs (check_status r)"
  by (simp add: check_status_def)

lemma keeps_headers: "(\<And>n. keeps obs (kv_get (core svc) n)) \<Longrightarrow> keeps obs (github_headers svc)"
  by (auto simp: github_headers_def github_token_def get_secret_def intro!: keeps_bnd keeps_if)

lemma secret_keeps:
  assumes "secret_laws sec svc"
  shows "keeps sec (refresh_hub_image_ref svc)" and "keeps sec (run_workflow svc account_id action pre)"
    and "keeps sec (read_state_outputs svc account_id)"
proof -
  have k: "\<And>n. keeps sec (kv_get (core svc) n)" "\<And>req. keeps sec (http svc req)" "keeps sec (azure_token svc)"
    "\<And>url. keeps sec (blob_download svc url)" "\<And>n. keeps sec (draw (token_hex svc n))" "\<And>n. keeps sec (pause svc n)"
    using assms by (simp_all add: secret_laws_def)
  note ks = k keeps_headers [OF k(1)]
  have "keeps sec (newest_tag svc registry repository)" for registry repository
    unfolding newest_tag_def Let_def by (intro keeps_catch keeps_bnd keeps_if ks keeps_lift_sum keeps_ret)
  moreover have "keeps sec (set_variable svc g name v)" for g name v
    unfolding set_variable_def Let_def by (auto intro!: keeps_bnd keeps_if ks)
  ultimately show "keeps sec (refresh_hub_image_ref svc)"
    unfolding refresh_hub_image_ref_def Let_def get_secret_def
    by (intro keeps_catch keeps_bnd keeps_if ks) auto
  have "keeps sec (find_run svc c since)" for c since
    unfolding find_run_def find_run_with_def find_attempt_def
    by (intro keeps_bnd keeps_sq keeps_until ks keeps_read_clock keeps_lift_sum keeps_check_status)
  moreover have "keeps sec (poll_run svc i a)" for i a
    unfolding poll_run_def poll_run_with_def poll_attempt_def
    by (intro keeps_bnd keeps_sq keeps_until ks keeps_read_clock keeps_lift_sum keeps_check_status)
  moreover have "keeps sec (trigger_workflow svc account_id action c)" for c
    unfolding trigger_workflow_def by (intro keeps_bnd keeps_if ks) auto
  ultimately show "keeps sec (run_workflow svc account_id action pre)"
    unfolding run_workflow_def Let_def by (intro keeps_bnd keeps_sq ks keeps_read_clock)
  show "keeps sec (read_state_outputs svc account_id)"
    unfolding read_state_outputs_def by (intro keeps_bnd ks keeps_lift_sum)
qed

lemma until_deadline_Inr:
  "until_deadline n svc deadline secs attempt e w = (Inr a, w') \<Longrightarrow> \<exists>u v. attempt u = (Inr (Some a), v)"
proof (induction n arbitrary: w)
  case 0
  then show ?case by (simp add: raise_def)
next
  case (Suc n)
  show ?case
  proof (cases "clock (core svc) w < deadline")
    case True
    then obtain found u where f: "attempt w = (Inr found, u)"
      using Suc.prems by (auto simp: bnd_def read_clock_def split: prod.splits sum.splits)
    show ?thesis
    proof (cases found)
      case None
      then show ?thesis
        using Suc f True by (auto simp: bnd_def sq_def read_clock_def split: prod.splits sum.splits)
    next
      case (Some b)
      then show ?thesis
        using Suc.prems f True by (auto simp: bnd_def ret_def read_clock_def)
    qed
  next
    case False
    then show ?thesis
      using Suc.prems by (simp add: bnd_def read_clock_def raise_def)
  qed
qed

text \<open>An answer about a run that says it succeeded.\<close>

definition succeeded :: "json \<Rightarrow> bool" where
  "succeeded data \<longleftrightarrow>
     (\<exists>d. data = JObj d \<and> jget_or d ''status'' (JStr []) = JStr ''completed''
        \<and> jget_or d ''conclusion'' (JStr []) = JStr ''success'')"

lemma run_verdict_done: "run_verdict run_id account_id data = Inr (Some x) \<Longrightarrow> succeeded data"
  by (cases data) (auto simp: run_verdict_def succeeded_def j_get_def bind_sum_Inr split: if_splits)

lemma poll_attempt_done:
  assumes "poll_attempt svc run_id account_id u = (Inr (Some x), v)"
  shows "\<exists>headers u' r data. fst (http svc (http_get (run_url (stg svc) run_id) headers []) u') = Inr r
    \<and> http_ok r \<and> body_of r = Inr data \<and> succeeded data"
proof -
  obtain headers u' r v' where "http svc (http_get (run_url (stg svc) run_id) headers []) u' = (Inr r, v')"
    and rest: "sq (check_status r) (lift_sum (bind_sum (body_of r) (run_verdict run_id account_id))) v' = (Inr (Some x), v)"
    using assms unfolding poll_attempt_def by (auto simp: bnd_def split: prod.splits sum.splits)
  moreover have "http_ok r" "bind_sum (body_of r) (run_verdict run_id account_id) = Inr (Some x)"
    using rest by (auto simp: sq_def bnd_def check_status_def lift_sum_def raise_def ret_def split: if_splits)
  moreover obtain data where "body_of r = Inr data" "run_verdict run_id account_id data = Inr (Some x)"
    using calculation(4) by (auto simp: bind_sum_Inr)
  ultimately show ?thesis
    using run_verdict_done by (metis fst_conv)
qed

lemma run_workflow_done:
  assumes "run_workflow svc account_id action pre w = (Inr (), w')"
  shows "\<exists>run_id headers u r data. fst (http svc (http_get (run_url (stg svc) run_id) headers []) u) = Inr r
    \<and> http_ok r \<and> body_of r = Inr data \<and> succeeded data"
proof -
  obtain run_id u v where "poll_run svc run_id account_id u = (Inr (), v)"
    using assms by (auto simp: run_workflow_def Let_def bnd_def sq_def read_clock_def draw_def split: prod.splits sum.splits)
  then obtain u' v' where "poll_attempt svc run_id account_id u' = (Inr (Some ()), v')"
    using until_deadline_Inr by (fastforce simp: poll_run_def poll_run_with_def bnd_def read_clock_def)
  from poll_attempt_done [OF this] show ?thesis by blast
qed

text \<open>A deployment that returns has a run that GitHub reported as completed and successful, an app
  URL, and the very secrets it handed out are the ones the workflow read: the job input in
  Key Vault holds the admin token and the hub key that are returned to be stored and to be
  given to the gateway, so both ends of the hub agree without asking it.\<close>

lemma deployed_hub_holds_the_returned_keys:
  assumes laws: "secret_laws sec svc" and run: "deploy_hub svc account_id oauth_token w = (Inr out, w')"
  shows "sec w' (jobinput_name account_id) = Some (job_input account_id oauth_token (out_admin_token out) (out_hub_api_key out))
    \<and> out_app_url out \<noteq> []
    \<and> (\<exists>run_id headers u r data. fst (http svc (http_get (run_url (stg svc) run_id) headers []) u) = Inr r
         \<and> http_ok r \<and> body_of r = Inr data \<and> succeeded data)"
proof -
  obtain adm key u1 u2 u3 u4 url rg where
    job: "write_jobinput svc account_id oauth_token adm key u1 = (Inr (), u2)"
    and img: "refresh_hub_image_ref svc u2 = (Inr (), u3)"
    and flow: "run_workflow svc account_id ''apply'' (account_id @ ''-'') u3 = (Inr (), u4)"
    and state: "read_state_outputs svc account_id u4 = (Inr (url, rg), w')"
    and out: "out = \<lparr>out_app_url = url, out_resource_group = rg, out_admin_token = adm, out_hub_api_key = key\<rparr>"
    using run unfolding deploy_hub_def by (auto simp: bnd_def sq_def ret_def split: prod.splits sum.splits)
  have "sec u2 (jobinput_name account_id) = Some (job_input account_id oauth_token adm key)"
    using laws job
    by (fastforce simp: write_jobinput_def set_secret_def secret_laws_def bnd_def ret_def split: prod.splits sum.splits)
  moreover have "sec w' = sec u2"
    using secret_keeps [OF laws, unfolded keeps_def] img flow state by (metis snd_conv)
  moreover have "url \<noteq> []"
    using state by (auto simp: read_state_outputs_def state_outputs_def bnd_def lift_sum_def bind_sum_Inr j_text_def
        split: prod.splits sum.splits if_splits json.splits)
  ultimately show ?thesis
    using out run_workflow_done [OF flow] by simp
qed

text \<open>A deployment needs the bootstrap token although it says it does not.  When Key Vault has no
  bootstrap token (its client raises) and an image tag is known, no deployment can succeed: the
  exception leaves the best-effort refresh of the image variable and no workflow is started.\<close>

lemma missing_bootstrap_token_stops_the_deploy:
  assumes "hub_image_tag (stg svc) \<noteq> []" and "\<And>u. \<exists>e u'. kv_get (core svc) BOOTSTRAP_PAT_SECRET u = (Inl e, u')"
  shows "\<exists>e w'. deploy_hub svc account_id oauth_token w = (Inl e, w')"
proof -
  have "\<exists>e u'. refresh_hub_image_ref svc u = (Inl e, u')" for u
  proof -
    define m where "m = (if acr_name (stg svc) \<noteq> [] then newest_tag svc (acr_name (stg svc)) HUB_REPOSITORY else ret None)"
    obtain r u1 where "m u = (r, u1)"
      by (cases "m u")
    moreover obtain e u2 where "kv_get (core svc) BOOTSTRAP_PAT_SECRET u1 = (Inl e, u2)"
      using assms(2) by blast
    ultimately show ?thesis
      using assms(1) unfolding refresh_hub_image_ref_def m_def [symmetric]
      by (cases r) (auto simp: bnd_def get_secret_def opt_true_def opt_or_empty_def split: option.splits)
  qed
  then have "refresh_hub_image_ref svc u \<noteq> (Inr (), u')" for u u'
    by (metis Inl_Inr_False prod.inject)
  then show ?thesis
    unfolding deploy_hub_def by (auto simp: bnd_def sq_def split: prod.splits sum.splits)
qed

section \<open>At concrete inputs\<close>

text \<open>A deployment in memory: Key Vault is a map, the clock a number that pauses add to, and GitHub
  answers at once that the run has succeeded.\<close>

definition idle_gateway :: "'w apim_svc" where
  "idle_gateway = \<lparr>apim_settings = default_settings,
     nv = \<lparr>nv_get = ret (None, None), nv_put = (\<lambda>v e. ret ())\<rparr>,
     arm = \<lparr>arm_base = [], arm_token = ret [], arm_get = (\<lambda>p. raise (TransportError ''down'')),
       arm_put = (\<lambda>p d e. raise (TransportError ''down'')), arm_delete = (\<lambda>p e. raise (TransportError ''down'')),
       backend_put = (\<lambda>i c. ret None), backend_delete = (\<lambda>i. ret ()), policy_delete = (\<lambda>i. ret ())\<rparr>,
     product_get = (\<lambda>i. ret ()), api_put = (\<lambda>i c. ret ()), op_put = (\<lambda>a i u. ret ()), api_policy_put = (\<lambda>a p. ret ()),
     op_policy_put = (\<lambda>a i p. ret ()), product_api_put = (\<lambda>p a. ret ()),
     diagnostic_put = (\<lambda>a b. raise (TransportError ''down'')), sub_put = (\<lambda>i p. ret None), sub_secret = (\<lambda>i. ret None),
     sub_scope = (\<lambda>i. ret []), sub_delete = (\<lambda>i. ret ())\<rparr>"

definition json_answer :: "json \<Rightarrow> http_resp" where
  "json_answer j = \<lparr>hr_status = 200, hr_text = [], hr_json = Some j\<rparr>"

definition mem_runs :: json where
  "mem_runs = JObj [(''workflow_runs'', JList [JObj [(''id'', JInt 7), (''name'', JStr ''hub a1-00'')],
     JObj [(''id'', JInt 8), (''name'', JStr ''hub a1-destroy-00'')]])]"

definition mem_run :: json where
  "mem_run = JObj [(''status'', JStr ''completed''), (''conclusion'', JStr ''success'')]"

definition mem_github :: "http_req \<Rightarrow> http_resp" where
  "mem_github req =
     (if ends_with (rq_url req) ''/dispatches'' then \<lparr>hr_status = 204, hr_text = [], hr_json = None\<rparr>
      else if ends_with (rq_url req) ''/runs'' then json_answer mem_runs
      else if rq_method req = ''PATCH'' then \<lparr>hr_status = 204, hr_text = [], hr_json = None\<rparr>
      else json_answer mem_run)"

definition mem_state :: json where
  "mem_state = JObj [(''outputs'', JObj [(''app_url'', JObj [(''value'', JStr ''https://hub.example'')]),
     (''resource_group'', JObj [(''value'', JStr ''rg'')])])]"

definition mem_hub :: "((string \<Rightarrow> string option) \<times> int) hub_svc" where
  "mem_hub = \<lparr>
     core = (mem_services unix_time idle_gateway)\<lparr>clock := snd,
       kv_set := (\<lambda>n v w. (Inr (Some n), ((fst w)(n := Some v), snd w))),
       kv_get := (\<lambda>n w. case fst w n of None \<Rightarrow> (Inl (ResourceNotFoundError n), w) | Some v \<Rightarrow> (Inr (Some v), w))\<rparr>,
     http = (\<lambda>req. ret (mem_github req)), azure_token = ret ''t'',
     blob_download = (\<lambda>url. ret (dumps mem_state)),
     sealed_box = (\<lambda>k v. ret v), token_urlsafe = (\<lambda>n w. (''secret'', w)), token_hex = (\<lambda>n w. (''00'', w)),
     pause = (\<lambda>n w. (Inr (), (fst w, snd w + max 0 n * 1000000)))\<rparr>"

lemma mem_hub_clock: "clock_laws mem_hub"
  by (auto simp: clock_laws_def mem_hub_def ret_def split: option.splits)

lemma mem_hub_secrets: "secret_laws fst mem_hub"
  by (auto simp: secret_laws_def mem_hub_def keeps_def draw_def ret_def split: option.splits)

definition vault :: "(string \<Rightarrow> string option) \<times> int" where
  "vault = (\<lambda>n. if n = ''hub-deploy-github-token'' then Some ''pat'' else None, 0)"

theorem waiting_for_a_run_ends_witness:
  "find_run_with (25 + 3) mem_hub ''a1-00'' ''2026'' vault = find_run mem_hub ''a1-00'' ''2026'' vault
    \<and> poll_run_with (181 + 3) mem_hub 7 ''a1'' vault = poll_run mem_hub 7 ''a1'' vault"
  by (rule waiting_for_a_run_ends [OF mem_hub_clock])

text \<open>How a deployment runs on it, step by step.\<close>

definition has_token :: "(string \<Rightarrow> string option) \<times> int \<Rightarrow> bool" where
  "has_token v \<longleftrightarrow> fst v ''hub-deploy-github-token'' = Some ''pat''"

lemma until_deadline_now:
  "0 < n \<Longrightarrow> clock (core svc) w < deadline \<Longrightarrow> attempt w = (Inr (Some a), w')
     \<Longrightarrow> until_deadline n svc deadline secs attempt e w = (Inr a, w')"
  by (cases n) (simp_all add: bnd_def ret_def read_clock_def)

lemma mem_headers: "has_token v \<Longrightarrow> github_headers mem_hub v = (Inr (repo_headers ''pat''), v)"
  by (simp add: has_token_def github_headers_def github_token_def bnd_def get_secret_def mem_hub_def ret_def
      opt_true_def opt_or_empty_def mem_services_def default_settings_def)

lemma mem_scan:
  "bind_sum (body_of (json_answer mem_runs)) (\<lambda>b. bind_sum (j_get b ''workflow_runs'' (JList []))
     (\<lambda>runs. bind_sum (j_iter runs) (scan_runs ''a1-00''))) = Inr (Some 7)"
  "bind_sum (body_of (json_answer mem_runs)) (\<lambda>b. bind_sum (j_get b ''workflow_runs'' (JList []))
     (\<lambda>runs. bind_sum (j_iter runs) (scan_runs ''a1-destroy-00''))) = Inr (Some 8)"
  by code_simp+

lemma mem_verdict: "bind_sum (body_of (json_answer mem_run)) (run_verdict i ''a1'') = Inr (Some ())"
  by (simp add: body_of_def json_answer_def run_verdict_def mem_run_def j_get_def)

lemma mem_http: "http mem_hub req v = (Inr (mem_github req), v)"
  by (simp add: mem_hub_def ret_def)

lemma mem_answers:
  "mem_github (http_get (workflow_base s @ ''/runs'') h p) = json_answer mem_runs"
  "hr_status (mem_github (http_send ''POST'' (workflow_base s @ ''/dispatches'') h b)) = 204"
  by (simp_all add: mem_github_def http_get_def http_send_def ends_with_def suffix_def)

lemma mem_run_answer: "mem_github (http_get (run_url s 7) h p) = json_answer mem_run"
  "mem_github (http_get (run_url s 8) h p) = json_answer mem_run"
proof -
  have "int_str 7 = ''7''" "int_str 8 = ''8''"
    by code_simp+
  then show "mem_github (http_get (run_url s 7) h p) = json_answer mem_run"
    "mem_github (http_get (run_url s 8) h p) = json_answer mem_run"
    by (auto simp: mem_github_def http_get_def run_url_def ends_with_def suffix_to_prefix)
qed

lemma mem_status: "check_status (json_answer j) v = (Inr (), v)"
  by (simp add: check_status_def http_ok_def json_answer_def ret_def)

lemma mem_find:
  "has_token v \<Longrightarrow> find_run mem_hub ''a1-00'' since v = (Inr 7, v)"
  "has_token v \<Longrightarrow> find_run mem_hub ''a1-destroy-00'' since v = (Inr 8, v)"
  unfolding find_run_def find_run_with_def bnd_def read_clock_def prod.case sum.case
  by (rule until_deadline_now;
      simp add: FIND_RUN_TIMEOUT_def find_attempt_def bnd_def sq_def mem_headers mem_http mem_answers mem_status mem_scan lift_sum_def)+

lemma mem_poll:
  "has_token v \<Longrightarrow> poll_run mem_hub 7 ''a1'' v = (Inr (), v)"
  "has_token v \<Longrightarrow> poll_run mem_hub 8 ''a1'' v = (Inr (), v)"
  unfolding poll_run_def poll_run_with_def bnd_def read_clock_def prod.case sum.case
  by (rule until_deadline_now;
      simp add: RUN_POLL_TIMEOUT_def poll_attempt_def bnd_def sq_def mem_headers mem_http mem_run_answer mem_status mem_verdict
        lift_sum_def)+

lemma mem_draw: "token_hex mem_hub n v = (''00'', v)" "token_urlsafe mem_hub n v = (''secret'', v)"
  by (simp_all add: mem_hub_def)

lemma mem_workflow:
  "has_token v \<Longrightarrow> run_workflow mem_hub ''a1'' ''apply'' ''a1-'' v = (Inr (), v)"
  "has_token v \<Longrightarrow> run_workflow mem_hub ''a1'' ''destroy'' ''a1-destroy-'' v = (Inr (), v)"
  by (simp_all add: run_workflow_def trigger_workflow_def bnd_def sq_def read_clock_def draw_def mem_headers mem_http mem_answers
      mem_find mem_poll ret_def mem_draw Let_def)

lemma mem_outputs: "read_state_outputs mem_hub ''a1'' v = (Inr (''https://hub.example'', ''rg''), v)"
proof -
  have "state_outputs ''a1'' (dumps mem_state) = Inr (''https://hub.example'', ''rg'')"
    by code_simp
  then show ?thesis
    by (simp add: read_state_outputs_def bnd_def mem_hub_def ret_def lift_sum_def)
qed

lemma mem_no_refresh: "refresh_hub_image_ref mem_hub v = (Inr (), v)"
  by (simp add: refresh_hub_image_ref_def mem_hub_def mem_services_def default_settings_def bnd_def ret_def opt_true_def Let_def)

lemma mem_write: "write_jobinput mem_hub ''a1'' tok adm key v
    = (Inr (), ((fst v)(''gh-a1-jobinput'' := Some (job_input ''a1'' tok adm key)), snd v))"
  by (simp add: write_jobinput_def set_secret_def jobinput_name_def mem_hub_def bnd_def ret_def dashed_def)

lemma mem_deploy:
  assumes "has_token v"
  shows "deploy_hub mem_hub ''a1'' tok v =
    (Inr \<lparr>out_app_url = ''https://hub.example'', out_resource_group = ''rg'', out_admin_token = ''secret'',
       out_hub_api_key = ''sk-hub-secret''\<rparr>,
     ((fst v)(''gh-a1-jobinput'' := Some (job_input ''a1'' tok ''secret'' ''sk-hub-secret'')), snd v))"
proof -
  have "has_token ((fst v)(''gh-a1-jobinput'' := x), snd v)" for x
    using assms by (simp add: has_token_def)
  then show ?thesis
    by (simp add: deploy_hub_def new_admin_token_def new_hub_key_def bnd_def sq_def draw_def mem_draw ret_def mem_write
        mem_no_refresh mem_workflow mem_outputs)
qed

lemma vault_token: "has_token vault"
  by (simp add: has_token_def vault_def)

lemma deployed_hub_holds_the_returned_keys_witness:
  "\<exists>out w'. deploy_hub mem_hub ''a1'' ''oauth'' vault = (Inr out, w')
     \<and> fst w' (jobinput_name ''a1'') = Some (job_input ''a1'' ''oauth'' (out_admin_token out) (out_hub_api_key out))"
  using mem_deploy [OF vault_token, of "''oauth''"] deployed_hub_holds_the_returned_keys [OF mem_hub_secrets] by blast

text \<open>With an image tag known, the missing token matters.\<close>

definition tagged_hub :: "((string \<Rightarrow> string option) \<times> int) hub_svc" where
  "tagged_hub = mem_hub\<lparr>core := (core mem_hub)\<lparr>sv_settings := default_settings\<lparr>hub_image_tag := ''v1''\<rparr>,
     kv_get := (\<lambda>n w. if n = ''github-bootstrap-pat'' then (Inl (ResourceNotFoundError n), w) else kv_get (core mem_hub) n w)\<rparr>\<rparr>"

lemma missing_bootstrap_token_stops_the_deploy_witness:
  "\<exists>e w'. deploy_hub tagged_hub ''a1'' ''oauth'' vault = (Inl e, w')"
  by (rule missing_bootstrap_token_stops_the_deploy) (simp_all add: tagged_hub_def BOOTSTRAP_PAT_SECRET_def)

end
