(* ===== verification/DeviceFlow.thy ===== *)
theory DeviceFlow
  imports HubDeploy
begin

text \<open>
  The GitHub device login (\<^verbatim>\<open>services/copilot_device.py\<close>): start a flow, poll it once, and ask
  who a token belongs to.  GitHub's fields are text where the code uses them as text; other
  values are refused where they are read.
\<close>

definition GITHUB_CLIENT_ID :: string where
  "GITHUB_CLIENT_ID = ''Iv1.b507a08c87ecfe98''"

record device_flow =
  df_device_code :: string
  df_user_code :: string
  df_verification_uri :: string
  df_interval :: int
  df_expires_in :: int

definition text_item :: "json \<Rightarrow> string \<Rightarrow> exn + string" where
  "text_item v k = bind_sum (j_item v k) j_text"

definition flow_of :: "json \<Rightarrow> exn + device_flow" where
  "flow_of info =
     bind_sum (text_item info ''device_code'') (\<lambda>d.
     bind_sum (text_item info ''user_code'') (\<lambda>u.
     bind_sum (text_item info ''verification_uri'') (\<lambda>v.
     bind_sum (bind_sum (j_get info ''interval'' (JInt 5)) j_int) (\<lambda>i.
     bind_sum (bind_sum (j_get info ''expires_in'' (JInt 900)) j_int) (\<lambda>e.
     Inr \<lparr>df_device_code = d, df_user_code = u, df_verification_uri = v, df_interval = i, df_expires_in = e\<rparr>)))))"

definition start_device_flow :: "'w hub_svc \<Rightarrow> ('w, device_flow) eff" where
  "start_device_flow h =
     bnd (http h (http_form ''https://github.com/login/device/code'' [(''Accept'', ''application/json'')]
            [(''client_id'', JStr GITHUB_CLIENT_ID), (''scope'', JStr ''read:user'')])) (\<lambda>r.
     sq (check_status r) (lift_sum (bind_sum (body_of r) flow_of)))"

datatype poll_result = PollPending | PollSuccess string | PollError string

definition poll_answer :: "json \<Rightarrow> exn + poll_result" where
  "poll_answer data =
     bind_sum (j_contains ''access_token'' data) (\<lambda>authorized.
     if authorized then bind_sum (text_item data ''access_token'') (\<lambda>t. Inr (PollSuccess t))
     else
       bind_sum (j_get data ''error'' JNull) (\<lambda>err.
       if err = JStr ''authorization_pending'' \<or> err = JStr ''slow_down'' then Inr PollPending
       else Inr (PollError (py_str (py_or err (JStr ''unknown''))))))"

definition poll_device_flow :: "'w hub_svc \<Rightarrow> string \<Rightarrow> ('w, poll_result) eff" where
  "poll_device_flow h device_code =
     bnd (http h (http_form ''https://github.com/login/oauth/access_token'' [(''Accept'', ''application/json'')]
            [(''client_id'', JStr GITHUB_CLIENT_ID), (''device_code'', JStr device_code),
             (''grant_type'', JStr ''urn:ietf:params:oauth:grant-type:device_code'')])) (\<lambda>r.
     lift_sum (bind_sum (body_of r) poll_answer))"

text \<open>Best effort: the empty answer when anything fails.\<close>

record github_user =
  gu_login :: "string option"
  gu_id :: "string option"

definition nobody :: github_user where
  "nobody = \<lparr>gu_login = None, gu_id = None\<rparr>"

definition user_of :: "json \<Rightarrow> exn + github_user" where
  "user_of u =
     bind_sum (j_get u ''login'' JNull) (\<lambda>l.
     bind_sum (j_get u ''id'' JNull) (\<lambda>i.
     bind_sum (if l = JNull then Inr None else bind_sum (j_text l) (\<lambda>t. Inr (Some t))) (\<lambda>login.
     Inr \<lparr>gu_login = login, gu_id = (if truthy i then Some (py_str i) else None)\<rparr>)))"

definition whoami :: "'w hub_svc \<Rightarrow> string \<Rightarrow> ('w, github_user) eff" where
  "whoami h access_token =
     catch_exn
       (bnd (http h (http_get ''https://api.github.com/user''
               [(''Authorization'', ''token '' @ access_token), (''Accept'', ''application/vnd.github+json'')] [])) (\<lambda>r.
        sq (check_status r) (lift_sum (bind_sum (body_of r) user_of))))
       (\<lambda>_. ret nobody)"

end
