(* ===== verification/HubStatus.thy ===== *)
theory HubStatus
  imports HubDeploy TenantsApi
begin

text \<open>
  The health of the hubs (\<^verbatim>\<open>services/hub_client.py\<close>, \<^verbatim>\<open>services/hub_status_poller.py\<close>): what a
  hub reports about itself, and the pass over all hubs that records it.
\<close>

section \<open>A report\<close>

record hub_status =
  hs_logged_in :: bool
  hs_dropped :: int
  hs_lost :: int
  hs_audit_dropped :: int
  hs_state :: string
  hs_reason :: "string option"

text \<open>\<^verbatim>\<open>int(v) if isinstance(v, int) and not isinstance(v, bool) else 0\<close>.\<close>

definition count_of :: "json \<Rightarrow> int" where
  "count_of v = (case v of JInt i \<Rightarrow> i | _ \<Rightarrow> 0)"

definition reason_of :: "jdict \<Rightarrow> string option" where
  "reason_of stats =
     (case jget stats ''recent'' of
        JList recent \<Rightarrow>
          (if recent = [] then None
           else case last recent of
             JObj ev \<Rightarrow>
               (let bits = [py_str (py_or (jget ev ''kind'') (JStr [])), py_str (py_or (jget ev ''error'') (JStr []))];
                    text = py_take 200 (strip (join '' '' (filter (\<lambda>b. b \<noteq> []) bits)))
                in if text = [] then None else Some text)
           | _ \<Rightarrow> None)
      | _ \<Rightarrow> None)"

definition from_payload :: "json \<Rightarrow> hub_status" where
  "from_payload payload =
     (case payload of
        JObj p \<Rightarrow>
          (let stats = (case jget p ''usage_events'' of JObj s \<Rightarrow> s | _ \<Rightarrow> []) in
           \<lparr>hs_logged_in = truthy (jget p ''logged_in''),
            hs_dropped = count_of (jget p ''usage_events_dropped''),
            hs_lost = count_of (jget p ''usage_events_lost''),
            hs_audit_dropped = count_of (jget p ''audit_payloads_dropped''),
            hs_state = py_str (py_or (jget stats ''state'') (JStr ''ok'')),
            hs_reason = reason_of stats\<rparr>)
      | _ \<Rightarrow> \<lparr>hs_logged_in = False, hs_dropped = 0, hs_lost = 0, hs_audit_dropped = 0, hs_state = ''unknown'',
              hs_reason = None\<rparr>)"

definition fetch_status :: "'w hub_svc \<Rightarrow> string \<Rightarrow> string option \<Rightarrow> ('w, hub_status option) eff" where
  "fetch_status h fqdn admin_token =
     catch_exn
       (bnd (http h (http_get (''https://'' @ fqdn @ ''/api/status'')
               (if opt_true admin_token then [(''x-admin-token'', opt_or_empty admin_token)] else []) [])) (\<lambda>r.
        sq (check_status r) (bnd (lift_sum (body_of r)) (\<lambda>b. ret (Some (from_payload b))))))
       (\<lambda>_. ret None)"

section \<open>A pass\<close>

record poll_stats =
  polled :: int
  logged_in :: int
  expired :: int
  unreachable :: int

definition no_stats :: poll_stats where
  "no_stats = \<lparr>polled = 0, logged_in = 0, expired = 0, unreachable = 0\<rparr>"

text \<open>A column write on the row of an account.\<close>

definition modify_account :: "string \<Rightarrow> (github_account \<Rightarrow> github_account) \<Rightarrow> github_account list \<Rightarrow> github_account list" where
  "modify_account i f rows = map (\<lambda>a. if ga_id a = i then f a else a) rows"

definition record_health :: "utc \<Rightarrow> hub_status \<Rightarrow> github_account \<Rightarrow> github_account" where
  "record_health now st a =
     a\<lparr>ga_hub_logged_in := Some (hs_logged_in st), ga_hub_status_at := Some now,
       ga_usage_events_dropped := hs_dropped st, ga_usage_events_lost := hs_lost st,
       ga_audit_payloads_dropped := hs_audit_dropped st, ga_hub_drop_reason := hs_reason st\<rparr>"

definition count_answer :: "hub_status option \<Rightarrow> poll_stats \<Rightarrow> poll_stats" where
  "count_answer answer n =
     (case answer of
        None \<Rightarrow> n\<lparr>polled := polled n + 1, unreachable := unreachable n + 1\<rparr>
      | Some st \<Rightarrow>
          if hs_logged_in st then n\<lparr>polled := polled n + 1, logged_in := logged_in n + 1\<rparr>
          else n\<lparr>polled := polled n + 1, expired := expired n + 1\<rparr>)"

definition ask_hub :: "'w hub_svc \<Rightarrow> github_account \<Rightarrow> ('w, hub_status option) eff" where
  "ask_hub h a =
     bnd (if opt_true (ga_admin_token_kv_ref a)
          then catch_exn (get_secret (core h) (opt_or_empty (ga_admin_token_kv_ref a))) (\<lambda>_. ret None)
          else ret None) (\<lambda>token.
     fetch_status h (opt_or_empty (ga_container_app_fqdn a)) token)"

fun poll_each :: "'w hub_svc \<Rightarrow> github_account list \<Rightarrow> poll_stats \<Rightarrow> ('w, poll_stats) act" where
  "poll_each h [] n = ret n"
| "poll_each h (a # rest) n =
     (if \<not> opt_true (ga_container_app_fqdn a) then poll_each h rest n
      else
        bnd (cloud (ask_hub h a)) (\<lambda>answer.
        sq (case answer of
              None \<Rightarrow> ret ()
            | Some st \<Rightarrow>
                bnd (get_now (core h)) (\<lambda>now.
                edit (\<lambda>t. t\<lparr>github_accounts := modify_account (ga_id a) (record_health now st) (github_accounts t)\<rparr>)))
           (poll_each h rest (count_answer answer n))))"

definition ready_accounts :: "tables \<Rightarrow> github_account list" where
  "ready_accounts t = filter (\<lambda>a. ga_status a = READY) (github_accounts t)"

definition poll_once :: "'w hub_svc \<Rightarrow> ('w, poll_stats) act" where
  "poll_once h =
     bnd (query ready_accounts) (\<lambda>accounts.
     bnd (poll_each h accounts no_stats) (\<lambda>n.
     sq (catch_exn (commit (core h)) (\<lambda>_. rollback)) (ret n)))"

section \<open>What a pass records\<close>

text \<open>A row after a pass: as it was, or with the answer its hub gave.\<close>

definition heard :: "github_account \<Rightarrow> github_account \<Rightarrow> bool" where
  "heard a b \<longleftrightarrow> b = a \<or> ga_status a = READY \<and> opt_true (ga_container_app_fqdn a) \<and> (\<exists>now st. b = record_health now st a)"

lemma heard_refl [simp]: "heard a a"
  by (simp add: heard_def)

lemma record_health_again [simp]: "record_health now st (record_health now' st' a) = record_health now st a"
  by (simp add: record_health_def)

lemma heard_again: "heard a b \<Longrightarrow> ga_status a = READY \<Longrightarrow> opt_true (ga_container_app_fqdn a) \<Longrightarrow> heard a (record_health now st b)"
  unfolding heard_def by (metis record_health_again)

lemma record_health_id [simp]: "ga_id (record_health now st a) = ga_id a" "ga_status (record_health now st a) = ga_status a"
  by (simp_all add: record_health_def)

lemma heard_id: "heard a b \<Longrightarrow> ga_id b = ga_id a"
  by (auto simp: heard_def)

definition balanced :: "poll_stats \<Rightarrow> bool" where
  "balanced n \<longleftrightarrow> polled n = logged_in n + expired n + unreachable n"

lemma balanced_count: "balanced n \<Longrightarrow> balanced (count_answer x n) \<and> polled (count_answer x n) = polled n + 1"
  by (auto simp: balanced_def count_answer_def split: option.splits)

lemma heard_modify:
  assumes "list_all2 heard rows cur" and "distinct (map ga_id rows)" and "a \<in> set rows"
    and "ga_status a = READY" and "opt_true (ga_container_app_fqdn a)"
  shows "list_all2 heard rows (modify_account (ga_id a) (record_health now st) cur)"
  unfolding modify_account_def list_all2_map2
proof (rule list.rel_mono_strong [OF assms(1)])
  fix r c
  assume r: "r \<in> set rows" and h: "heard r c"
  have "r = a" if "ga_id c = ga_id a"
    using inj_onD [OF distinct_map [THEN iffD1, OF assms(2), THEN conjunct2] _ r assms(3)] heard_id [OF h] that by simp
  then show "heard r (if ga_id c = ga_id a then record_health now st c else c)"
    using h heard_again [OF h] assms(4,5) by auto
qed

lemma ask_hub_total: "\<exists>x w'. ask_hub h a w = (Inr x, w')"
proof -
  have "\<exists>x w'. fetch_status h fqdn tok u = (Inr x, w')" for fqdn tok u
    by (auto simp: fetch_status_def catch_exn_def ret_def split: prod.splits sum.splits)
  moreover have "\<exists>x w'. catch_exn m (\<lambda>_. ret None) u = (Inr x, w')" for m :: "('a, string option) eff" and u
    by (auto simp: catch_exn_def ret_def split: prod.splits sum.splits)
  ultimately show ?thesis
    unfolding ask_hub_def bnd_def
    by (cases "opt_true (ga_admin_token_kv_ref a)") (auto simp: ret_def split: prod.splits sum.splits, (metis sum.distinct(1) prod.inject)+)
qed

lemma wp_ask_hub: "(\<And>x w'. Q x (s\<lparr>world := w'\<rparr>)) \<Longrightarrow> wp (cloud (ask_hub h a)) Q E s"
  using ask_hub_total [of h a "world s"] by (auto simp: cloud_def wp_def)

definition to_ask :: "github_account list \<Rightarrow> github_account list" where
  "to_ask = filter (\<lambda>a. opt_true (ga_container_app_fqdn a))"

lemma poll_each_heard:
  assumes "distinct (map ga_id rows)" and "\<forall>a \<in> set accounts. a \<in> set rows \<and> ga_status a = READY"
    and "list_all2 heard rows (github_accounts (session s))" and "balanced n"
  shows "wp (poll_each h accounts n)
    (\<lambda>n' t. committed t = committed s \<and> balanced n' \<and> polled n' = polled n + int (length (to_ask accounts))
       \<and> (\<exists>cur. session t = (session s)\<lparr>github_accounts := cur\<rparr> \<and> list_all2 heard rows cur))
    (\<lambda>_ _. False) s"
  using assms(2-4)
proof (induction accounts arbitrary: n s)
  case Nil
  then show ?case
    by (auto simp: wp_ret to_ask_def intro!: exI [of _ "github_accounts (session s)"])
next
  case (Cons a rest)
  show ?case
  proof (cases "opt_true (ga_container_app_fqdn a)")
    case False
    then show ?thesis
      using Cons.IH [of s n] Cons.prems by (simp add: to_ask_def)
  next
    case True
    let ?near = "\<lambda>u. committed u = committed s
      \<and> (\<exists>cur. session u = (session s)\<lparr>github_accounts := cur\<rparr> \<and> list_all2 heard rows cur)"
    have step: "wp (poll_each h rest (count_answer x n))
      (\<lambda>n' t. committed t = committed s \<and> balanced n' \<and> polled n' = polled n + int (length (to_ask (a # rest)))
         \<and> (\<exists>cur. session t = (session s)\<lparr>github_accounts := cur\<rparr> \<and> list_all2 heard rows cur)) (\<lambda>_ _. False) u"
      if near: "?near u" for x u
      by (rule wp_conseq [OF Cons.IH [of u "count_answer x n"]])
         (use Cons.prems balanced_count [of n x] near True in \<open>auto simp: to_ask_def\<close>)
    have quiet: "?near (s\<lparr>world := w\<rparr>)" for w
      using Cons.prems(2) by (auto intro!: exI [of _ "github_accounts (session s)"])
    have told: "?near (s\<lparr>world := w, session := (session s)\<lparr>github_accounts :=
        modify_account (ga_id a) (record_health now st) (github_accounts (session s))\<rparr>\<rparr>)" for w now st
      using heard_modify [OF Cons.prems(2) assms(1), of a now st] Cons.prems(1) True by auto
    have one: "wp (sq (case x of None \<Rightarrow> ret () | Some st \<Rightarrow> bnd (get_now (core h)) (\<lambda>now.
          edit (\<lambda>t. t\<lparr>github_accounts := modify_account (ga_id a) (record_health now st) (github_accounts t)\<rparr>)))
        (poll_each h rest (count_answer x n)))
      (\<lambda>n' t. committed t = committed s \<and> balanced n' \<and> polled n' = polled n + int (length (to_ask (a # rest)))
         \<and> (\<exists>cur. session t = (session s)\<lparr>github_accounts := cur\<rparr> \<and> list_all2 heard rows cur)) (\<lambda>_ _. False)
      (s\<lparr>world := w\<rparr>)" for x w
      using step [OF quiet] step [OF told]
      by (cases x) (simp_all add: wp_sq wp_ret wp_bnd wp_get_now wp_edit)
    show ?thesis
      using True by (simp add: wp_bnd) (rule wp_ask_hub, rule one)
  qed
qed


definition toy_account :: "deploy_status \<Rightarrow> github_account" where
  "toy_account st = \<lparr>ga_id = ''a1'', ga_github_login = Some ''octo'', ga_github_user_id = Some ''1'',
     ga_oauth_token_kv_ref = Some ''gh-a1-oauth'', ga_hub_key_kv_ref = Some ''gh-a1-hubkey'',
     ga_admin_token_kv_ref = Some ''gh-a1-admin'', ga_status = st, ga_error_detail = None, ga_device_code = None,
     ga_resource_group = Some ''rg'', ga_container_app_fqdn = Some ''hub.example'', ga_tf_state_key = Some ''hubs/a1.tfstate'',
     ga_backend_ids = [], ga_usage_events_dropped = 0, ga_usage_events_lost = 0, ga_audit_payloads_dropped = 0,
     ga_hub_status_at = None, ga_hub_logged_in = None, ga_hub_drop_reason = None, ga_created_at = 0\<rparr>"

definition fleet_tables :: "deploy_status \<Rightarrow> tables" where
  "fleet_tables st = sample_tables\<lparr>github_accounts := [toy_account st]\<rparr>"

lemma fleet_ok: "constraints_ok (fleet_tables st)"
  by (simp add: fleet_tables_def sample_tables_def no_tables_def constraints_ok_def platform_names_def toy_key_def)

definition fleet :: "deploy_status \<Rightarrow> ((string \<Rightarrow> string option) \<times> int) sys" where
  "fleet st = \<lparr>committed = fleet_tables st, session = fleet_tables st, world = vault\<rparr>"


end
