(* ===== verification/HubCatalog.thy ===== *)
theory HubCatalog
  imports HubStatus
begin

text \<open>
  Registering a hub's models as platform routes (\<^verbatim>\<open>api/github_accounts.py\<close>, the catalog part):
  the models a hub serves, their provider, and the sync of the routes with them.

  A failure of the hub or of the gateway is a value of \<^verbatim>\<open>register_hub_catalog\<close>; a failure of
  the database is raised, since it leaves the session unusable for the caller.
\<close>

section \<open>The catalog of a hub\<close>

definition provider_for_model :: "string \<Rightarrow> string option" where
  "provider_for_model model_id =
     (let m = lower model_id in
      if starts_with m ''claude'' then Some ''anthropic''
      else if list_ex (starts_with m) [''gpt'', ''o1-'', ''o3-'', ''o4-'', ''chatgpt'', ''grok'', ''kimi''] then Some ''openai''
      else if starts_with m ''gemini'' then Some ''google''
      else None)"

text \<open>The ids of the chat models in a listing; ids are text.\<close>

fun chat_ids :: "json list \<Rightarrow> exn + string list" where
  "chat_ids [] = Inr []"
| "chat_ids (m # ms) =
     (case m of
        JObj d \<Rightarrow>
          (if truthy (jget d ''id'') \<and> jget d ''type'' = JStr ''chat''
           then bind_sum (j_text (jget d ''id'')) (\<lambda>i. bind_sum (chat_ids ms) (\<lambda>is. Inr (i # is)))
           else chat_ids ms)
      | _ \<Rightarrow> chat_ids ms)"

definition listed_models :: "json \<Rightarrow> exn + string list" where
  "listed_models payload =
     bind_sum (case payload of JObj d \<Rightarrow> j_iter (jget_or d ''data'' (JList [])) | _ \<Rightarrow> j_iter payload) chat_ids"

definition fetch_hub_models :: "'w hub_svc \<Rightarrow> string \<Rightarrow> string \<Rightarrow> ('w, string list) eff" where
  "fetch_hub_models h fqdn admin_token =
     bnd (http h (http_get (''https://'' @ fqdn @ ''/api/models'') [(''x-admin-token'', admin_token)] [])) (\<lambda>r.
     sq (check_status r) (lift_sum (bind_sum (body_of r) listed_models)))"

definition list_at :: "(string, string list) dict \<Rightarrow> string \<Rightarrow> string list" where
  "list_at d k = (case dict_get d k of Some xs \<Rightarrow> xs | None \<Rightarrow> [])"

definition by_provider :: "string list \<Rightarrow> (string, string list) dict" where
  "by_provider model_ids =
     fold (\<lambda>mid d. case provider_for_model mid of
        None \<Rightarrow> d | Some prov \<Rightarrow> dict_set d prov (list_at d prov @ [mid])) model_ids []"

section \<open>The sync\<close>

definition attempt :: "('s, 'a) eff \<Rightarrow> ('s, exn + 'a) eff" where
  "attempt m = catch_exn (bnd m (\<lambda>a. ret (Inr a))) (\<lambda>e. ret (Inl e))"

fun pool_ids :: "'w apim_svc \<Rightarrow> string list \<Rightarrow> ('w, (string, string) dict) eff" where
  "pool_ids svc [] = ret []"
| "pool_ids svc (p # ps) =
     bnd (ensure_pooled_provider_api svc p) (\<lambda>i. bnd (pool_ids svc ps) (\<lambda>rest. ret ((p, i) # rest)))"

definition provider_named :: "string \<Rightarrow> provider" where
  "provider_named p = (if p = ''anthropic'' then ANTHROPIC else if p = ''google'' then GOOGLE else OPENAI)"

definition platform_route :: "string \<Rightarrow> utc \<Rightarrow> string \<Rightarrow> string \<Rightarrow> string option \<Rightarrow> model_route" where
  "platform_route i now provider mid pool =
     \<lparr>rt_id = i, rt_tenant_id = None, rt_name = mid, rt_provider = provider_named provider,
      rt_vendor = vendor_for_model mid, rt_apim_backend_or_pool_id = pool, rt_deployment_name = None, rt_api_version = None,
      rt_owner_scope = OWNER_PLATFORM, rt_auth_mode = MI, rt_price_in_per_1k = FFin 0, rt_price_out_per_1k = FFin 0,
      rt_markup_pct = FFin 0, rt_created_at = now\<rparr>"

fun add_missing :: "'w services \<Rightarrow> (string, string) dict \<Rightarrow> (string \<times> string) list \<Rightarrow> string list \<Rightarrow> ('w, unit) act" where
  "add_missing svc pools [] existing = ret ()"
| "add_missing svc pools ((provider, mid) # rest) existing =
     (if mid \<in> set existing then add_missing svc pools rest existing
      else
        bnd (new_id svc ''rt'') (\<lambda>i.
        bnd (get_now svc) (\<lambda>now.
        sq (edit (\<lambda>t. t\<lparr>model_routes := model_routes t @ [platform_route i now provider mid (dict_get pools provider)]\<rparr>))
           (add_missing svc pools rest (mid # existing)))))"

definition backfill_vendor :: "model_route \<Rightarrow> model_route" where
  "backfill_vendor r = (if rt_vendor r = None then r\<lparr>rt_vendor := vendor_for_model (rt_name r)\<rparr> else r)"

definition wanted :: "(string, string list) dict \<Rightarrow> (string \<times> string) list" where
  "wanted groups = concat (map (\<lambda>(p, ms). map (\<lambda>m. (p, m)) ms) groups)"

definition pruned :: "bool \<Rightarrow> string list \<Rightarrow> model_route list \<Rightarrow> model_route list" where
  "pruned prune hub_ids rs =
     (if prune then filter (\<lambda>r. \<not> (rt_owner_scope r = OWNER_PLATFORM \<and> rt_name r \<notin> set hub_ids)) rs else rs)"

fun is_integrity_error :: "exn \<Rightarrow> bool" where
  "is_integrity_error (IntegrityError _) = True"
| "is_integrity_error _ = False"

definition register_hub_catalog ::
  "'w hub_svc \<Rightarrow> ('w, unit) act \<Rightarrow> string \<Rightarrow> string \<Rightarrow> bool \<Rightarrow> ('w, exn + unit) act" where
  "register_hub_catalog h flush fqdn admin_token prune =
     bnd (attempt (cloud (fetch_hub_models h fqdn admin_token))) (\<lambda>fetched.
     case fetched of
       Inl e \<Rightarrow> ret (Inl e)
     | Inr model_ids \<Rightarrow>
         let groups = by_provider model_ids in
         if groups = [] then ret (Inr ())
         else
           bnd (attempt (cloud (pool_ids (apim (core h)) (map fst groups)))) (\<lambda>wired.
           case wired of
             Inl e \<Rightarrow> ret (Inl e)
           | Inr pools \<Rightarrow>
               bnd (query model_routes) (\<lambda>all_routes.
               sq (add_missing (core h) pools (wanted groups) (platform_names all_routes))
              (sq (edit (\<lambda>t. t\<lparr>model_routes := map backfill_vendor (model_routes t)\<rparr>))
              (sq (edit (\<lambda>t. t\<lparr>model_routes := pruned prune (map snd (wanted groups)) (model_routes t)\<rparr>))
                  (catch_exn (sq flush (ret (Inr ())))
                     (\<lambda>e. if is_integrity_error e then sq rollback (ret (Inr ())) else raise e)))))))"

definition resync_catalog :: "'w hub_svc \<Rightarrow> string \<Rightarrow> principal \<Rightarrow> ('w, nat \<times> nat) act" where
  "resync_catalog h account_id _ =
     bnd (load_or_404 github_accounts ga_id account_id ''account'') (\<lambda>acct.
     if \<not> opt_true (ga_container_app_fqdn acct) then
       raise (HTTPException 409 ''account has no hub endpoint yet (not deployed / still deploying)'')
     else if \<not> opt_true (ga_admin_token_kv_ref acct) then
       raise (HTTPException 409 ''account has no admin token reference (redeploy required)'')
     else
       bnd (cloud (get_secret (core h) (opt_or_empty (ga_admin_token_kv_ref acct)))) (\<lambda>admin_token.
       if \<not> opt_true admin_token then raise (HTTPException 409 ''hub admin token not found in Key Vault'')
       else
         bnd (query (\<lambda>t. length (model_routes t))) (\<lambda>before.
         bnd (register_hub_catalog h (commit (core h)) (opt_or_empty (ga_container_app_fqdn acct))
                (opt_or_empty admin_token) True) (\<lambda>outcome.
         case outcome of
           Inl e \<Rightarrow> (if is_httpx_error e then raise (HTTPException 502 (''hub catalog fetch failed: '' @ exn_str e)) else raise e)
         | Inr _ \<Rightarrow> bnd (query (\<lambda>t. length (model_routes t))) (\<lambda>after. ret (before, after))))))"

section \<open>What the sync makes of the routes\<close>

lemma set_wanted_set: "set (wanted (dict_set d p (list_at d p @ [m]))) = insert (p, m) (set (wanted d))"
  by (induction d) (auto simp: wanted_def list_at_def)

lemma wanted_fold:
  "set (wanted (fold (\<lambda>mid d. case provider_for_model mid of
        None \<Rightarrow> d | Some prov \<Rightarrow> dict_set d prov (list_at d prov @ [mid])) ms d))
   = set (wanted d) \<union> {(p, m). m \<in> set ms \<and> provider_for_model m = Some p}"
  by (induction ms arbitrary: d) (auto simp: set_wanted_set split: option.splits)

definition routable :: "string list \<Rightarrow> string list" where
  "routable = filter (\<lambda>m. provider_for_model m \<noteq> None)"

lemma wanted_names: "set (map snd (wanted (by_provider ms))) = set (routable ms)"
  by (force simp: by_provider_def wanted_fold routable_def wanted_def [of "[]"])

lemma wanted_provider: "(p, m) \<in> set (wanted (by_provider ms)) \<Longrightarrow> provider_for_model m = Some p"
  by (simp add: by_provider_def wanted_fold wanted_def [of "[]"])

definition tenant_owned :: "model_route list \<Rightarrow> model_route list" where
  "tenant_owned = filter (\<lambda>r. rt_owner_scope r = OWNER_TENANT)"

definition fresh_platform :: "model_route \<Rightarrow> bool" where
  "fresh_platform r \<longleftrightarrow> rt_owner_scope r = OWNER_PLATFORM \<and> rt_tenant_id r = None \<and> rt_vendor r = vendor_for_model (rt_name r)"

lemma wp_add_missing:
  "wp (add_missing svc pools ws existing)
     (\<lambda>_ t. committed t = committed s \<and> (\<exists>new. session t = (session s)\<lparr>model_routes := model_routes (session s) @ new\<rparr>
        \<and> list_all fresh_platform new \<and> rt_name ` set new = snd ` set ws - set existing))
     (\<lambda>_ _. False) s"
proof (induction ws arbitrary: existing s)
  case Nil
  then show ?case by (auto simp: wp_ret intro!: exI [of _ "[]"])
next
  case (Cons w ws)
  obtain p m where w: "w = (p, m)" by fastforce
  show ?case
  proof (cases "m \<in> set existing")
    case True
    then show ?thesis
      using Cons.IH [of existing s] by (simp add: w insert_Diff_if)
  next
    case False
    let ?r = "\<lambda>i now. platform_route i now p m (dict_get pools p)"
    have r: "fresh_platform (?r i now)" "rt_name (?r i now) = m" for i now
      by (simp_all add: fresh_platform_def platform_route_def)
    have "wp (add_missing svc pools ws (m # existing))
     (\<lambda>_ t. committed t = committed s \<and> (\<exists>new. session t = (session s)\<lparr>model_routes := model_routes (session s) @ new\<rparr>
        \<and> list_all fresh_platform new \<and> rt_name ` set new = snd ` set (w # ws) - set existing)) (\<lambda>_ _. False)
     (s\<lparr>world := v, session := (session s)\<lparr>model_routes := model_routes (session s) @ [?r i now]\<rparr>\<rparr>)" for v i now
    proof (rule wp_conseq [OF Cons.IH], elim conjE exE)
      fix t :: "'a sys" and new
      assume t: "committed t = committed (s\<lparr>world := v, session := (session s)\<lparr>model_routes := model_routes (session s) @ [?r i now]\<rparr>\<rparr>)"
        "session t = (session (s\<lparr>world := v, session := (session s)\<lparr>model_routes := model_routes (session s) @ [?r i now]\<rparr>\<rparr>))
           \<lparr>model_routes := model_routes (session (s\<lparr>world := v, session := (session s)\<lparr>model_routes := model_routes (session s) @ [?r i now]\<rparr>\<rparr>)) @ new\<rparr>"
        "list_all fresh_platform new" "rt_name ` set new = snd ` set ws - set (m # existing)"
      then show "committed t = committed s \<and> (\<exists>new. session t = (session s)\<lparr>model_routes := model_routes (session s) @ new\<rparr>
        \<and> list_all fresh_platform new \<and> rt_name ` set new = snd ` set (w # ws) - set existing)"
        using r False by (intro conjI exI [of _ "?r i now # new"]) (auto simp: w)
    qed simp
    with False show ?thesis
      by (simp add: w wp_bnd wp_sq wp_get_now wp_edit) (rule wp_new_id, simp add: wp_bnd wp_sq wp_get_now wp_edit)
  qed
qed

lemma backfill_keeps [simp]: "rt_owner_scope (backfill_vendor r) = rt_owner_scope r" "rt_tenant_id (backfill_vendor r) = rt_tenant_id r"
  "rt_name (backfill_vendor r) = rt_name r"
  by (simp_all add: backfill_vendor_def)

lemma platform_names_set: "set (platform_names rs) = {rt_name r | r. r \<in> set rs \<and> rt_owner_scope r = OWNER_PLATFORM \<and> rt_tenant_id r = None}"
  by (auto simp: platform_names_def)

text \<open>The routes after a sync with a hub that serves the routable models \<^verbatim>\<open>ids\<close>.\<close>

definition catalog_synced :: "bool \<Rightarrow> string list \<Rightarrow> tables \<Rightarrow> tables \<Rightarrow> bool" where
  "catalog_synced prune ids a b \<longleftrightarrow> b = a\<lparr>model_routes := model_routes b\<rparr>
     \<and> tenant_owned (model_routes b) = map backfill_vendor (tenant_owned (model_routes a))
     \<and> set (platform_names (model_routes b)) = (if prune then set ids else set (platform_names (model_routes a)) \<union> set ids)"

lemma tenant_owned_simps:
  "tenant_owned (pruned prune ids rs) = tenant_owned rs" "tenant_owned (map backfill_vendor rs) = map backfill_vendor (tenant_owned rs)"
  "tenant_owned (rs @ rs') = tenant_owned rs @ tenant_owned rs'"
  by (auto simp: tenant_owned_def pruned_def filter_map comp_def intro!: filter_cong)

lemma platform_simps:
  "platform_names (map backfill_vendor rs) = platform_names rs" "platform_names (rs @ rs') = platform_names rs @ platform_names rs'"
  "set (platform_names (pruned prune ids rs)) = (if prune then set (platform_names rs) \<inter> set ids else set (platform_names rs))"
  by (auto simp: platform_names_def pruned_def filter_map comp_def)

lemma platform_fresh: "list_all fresh_platform new \<Longrightarrow> platform_names new = map rt_name new"
  by (induction new) (auto simp: platform_names_def fresh_platform_def)

lemma synced_by:
  assumes new: "list_all fresh_platform new" "rt_name ` set new = snd ` set ws - set (platform_names (model_routes a))"
    and ids: "snd ` set ws = set ids"
  shows "catalog_synced prune ids a (a\<lparr>model_routes := pruned prune (map snd ws) (map backfill_vendor (model_routes a @ new))\<rparr>)"
proof -
  have "tenant_owned new = []"
    using new(1) by (auto simp: tenant_owned_def filter_empty_conv list_all_iff fresh_platform_def)
  then have "tenant_owned (pruned prune (map snd ws) (map backfill_vendor (model_routes a @ new)))
      = map backfill_vendor (tenant_owned (model_routes a))"
    by (simp add: tenant_owned_simps)
  moreover have "set (platform_names (pruned prune (map snd ws) (map backfill_vendor (model_routes a @ new))))
      = (if prune then set ids else set (platform_names (model_routes a)) \<union> set ids)"
    using new(2) ids by (auto simp: platform_simps platform_fresh [OF new(1)])
  ultimately show ?thesis
    by (simp add: catalog_synced_def)
qed


text \<open>A fetch that goes through.\<close>

definition serves :: "'w hub_svc \<Rightarrow> string \<Rightarrow> string \<Rightarrow> string list \<Rightarrow> bool" where
  "serves h fqdn admin_token models \<longleftrightarrow> (\<exists>w w'. fetch_hub_models h fqdn admin_token w = (Inr models, w'))"

lemma servesI: "fetch_hub_models h fqdn admin_token w = (Inr models, w') \<Longrightarrow> serves h fqdn admin_token models"
  by (auto simp: serves_def)

lemma wp_attempt: "wp (attempt m) Q E s = wp m (\<lambda>a. Q (Inr a)) (\<lambda>e. Q (Inl e)) s"
  by (simp add: attempt_def wp_catch wp_bnd wp_ret_fun)

lemma wp_cloud_result:
  "(\<And>a w w'. m w = (Inr a, w') \<Longrightarrow> Q a (s\<lparr>world := w'\<rparr>)) \<Longrightarrow> (\<And>e w'. E e (s\<lparr>world := w'\<rparr>)) \<Longrightarrow> wp (cloud m) Q E s"
  by (auto simp: wp_def cloud_def split: prod.splits sum.splits)

lemma wp_undo:
  "wp (if is_integrity_error e then sq rollback (ret (Inr ())) else raise e) Q E
     = (\<lambda>t. if is_integrity_error e then Q (Inr ()) (t\<lparr>session := committed t\<rparr>) else E e t)"
  by (simp add: fun_eq_iff wp_sq wp_rollback wp_ret wp_raise)

text \<open>What \<^verbatim>\<open>register_hub_catalog\<close> does, for any way of flushing: the flush happens on the synced
  tables or not at all.\<close>

lemma wp_register:
  assumes quiet: "\<And>r w. Q r (s\<lparr>world := w\<rparr>)"
    and flushed: "\<And>w models tabs. serves h fqdn admin_token models \<Longrightarrow> catalog_synced prune (routable models) (session s) tabs
      \<Longrightarrow> wp flush (\<lambda>_. Q (Inr ())) (\<lambda>e t. if is_integrity_error e then Q (Inr ()) (t\<lparr>session := committed t\<rparr>) else E e t)
            (s\<lparr>world := w, session := tabs\<rparr>)"
  shows "wp (register_hub_catalog h flush fqdn admin_token prune) Q E s"
proof -
  have sync: "wp (bnd (query model_routes) (\<lambda>all_routes.
      sq (add_missing (core h) pools (wanted (by_provider models)) (platform_names all_routes))
     (sq (edit (\<lambda>t. t\<lparr>model_routes := map backfill_vendor (model_routes t)\<rparr>))
     (sq (edit (\<lambda>t. t\<lparr>model_routes := pruned prune (map snd (wanted (by_provider models))) (model_routes t)\<rparr>))
         (catch_exn (sq flush (ret (Inr ())))
            (\<lambda>e. if is_integrity_error e then sq rollback (ret (Inr ())) else raise e)))))) Q E (s\<lparr>world := w\<rparr>)"
    if m: "serves h fqdn admin_token models" for models pools w
    unfolding wp_bnd wp_query wp_sq
  proof (rule wp_conseq [OF wp_add_missing], elim conjE exE)
    fix x :: unit and t :: "'a sys" and new
    assume t: "committed t = committed (s\<lparr>world := w\<rparr>)"
      "session t = (session (s\<lparr>world := w\<rparr>))\<lparr>model_routes := model_routes (session (s\<lparr>world := w\<rparr>)) @ new\<rparr>"
      "list_all fresh_platform new"
      "rt_name ` set new = snd ` set (wanted (by_provider models)) - set (platform_names (model_routes (session (s\<lparr>world := w\<rparr>))))"
    let ?tabs = "(session s)\<lparr>model_routes := pruned prune (map snd (wanted (by_provider models))) (map backfill_vendor (model_routes (session s) @ new))\<rparr>"
    have "catalog_synced prune (routable models) (session s) ?tabs"
      by (rule synced_by) (use t(3,4) wanted_names [of models] in simp_all)
    note f = flushed [OF m this, of "world t"]
    have "t\<lparr>session := ?tabs\<rparr> = s\<lparr>world := world t, session := ?tabs\<rparr>"
      using t(1) by (cases t; cases s) simp
    with f show "wp (edit (\<lambda>t. t\<lparr>model_routes := map backfill_vendor (model_routes t)\<rparr>))
        (\<lambda>_. wp (edit (\<lambda>t. t\<lparr>model_routes := pruned prune (map snd (wanted (by_provider models))) (model_routes t)\<rparr>))
           (\<lambda>_. wp (catch_exn (sq flush (ret (Inr ()))) (\<lambda>e. if is_integrity_error e then sq rollback (ret (Inr ())) else raise e)) Q E) E) E t"
      by (simp add: wp_edit wp_catch wp_sq wp_ret_fun wp_undo t(2))
  qed simp
  show ?thesis
    unfolding register_hub_catalog_def wp_bnd wp_attempt Let_def
    by (intro wp_cloud_result)
       (auto simp: wp_ret wp_bnd wp_attempt quiet split: sum.splits if_splits intro!: wp_cloudI sync [unfolded wp_bnd] intro: servesI)
qed



end
