(* ===== verification/GithubAccounts.thy ===== *)
theory GithubAccounts
  imports DeviceFlow HubCatalog
begin

text \<open>
  Accounts and their hubs (\<^verbatim>\<open>api/github_accounts.py\<close>): the device login that creates an
  account, the re-login that replaces its token, and the two background jobs that deploy and
  tear down its hub.

  A job runs for minutes next to other requests, so it is cut where the code commits or
  where it has loaded the account and goes off to wait: \<^verbatim>\<open>deploy_load\<close>, \<^verbatim>\<open>deploy_build\<close>,
  \<^verbatim>\<open>deploy_join\<close>, and \<^verbatim>\<open>teardown_load\<close>, \<^verbatim>\<open>teardown_run\<close>.  Assignments to a loaded row are
  column writes on the row as it is when they are flushed; a row that is gone by then makes the
  flush raise, and after a flush that raised the session is unusable, so the job ends there.
\<close>

section \<open>Secret names\<close>

definition github_token_name :: "string \<Rightarrow> string" where
  "github_token_name account_id = ''gh-'' @ dashed account_id @ ''-oauth''"

definition hub_key_name :: "string \<Rightarrow> string" where
  "hub_key_name account_id = ''gh-'' @ dashed account_id @ ''-hubkey''"

definition admin_token_name :: "string \<Rightarrow> string" where
  "admin_token_name account_id = ''gh-'' @ dashed account_id @ ''-admin''"

section \<open>Logging an account in\<close>

definition update_account :: "'w hub_svc \<Rightarrow> string \<Rightarrow> (github_account \<Rightarrow> github_account) \<Rightarrow> ('w, unit) act" where
  "update_account h i f =
     sq (edit (\<lambda>t. t\<lparr>github_accounts := modify_account i f (github_accounts t)\<rparr>)) (commit (core h))"

definition device_start :: "'w hub_svc \<Rightarrow> principal \<Rightarrow> ('w, string \<times> device_flow) act" where
  "device_start h _ =
     bnd (cloud (start_device_flow h)) (\<lambda>flow.
     bnd (new_id (core h) ''gha'') (\<lambda>account_id.
     bnd (get_now (core h)) (\<lambda>now.
     let acct = \<lparr>ga_id = account_id, ga_github_login = None, ga_github_user_id = None, ga_oauth_token_kv_ref = None,
           ga_hub_key_kv_ref = None, ga_admin_token_kv_ref = None, ga_status = PENDING, ga_error_detail = None,
           ga_device_code = Some (df_device_code flow), ga_resource_group = None, ga_container_app_fqdn = None,
           ga_tf_state_key = None, ga_backend_ids = [], ga_usage_events_dropped = 0, ga_usage_events_lost = 0,
           ga_audit_payloads_dropped = 0, ga_hub_status_at = None, ga_hub_logged_in = None, ga_hub_drop_reason = None,
           ga_created_at = now\<rparr> in
     sq (edit (\<lambda>t. t\<lparr>github_accounts := github_accounts t @ [acct]\<rparr>))
    (sq (commit (core h)) (ret (account_id, flow))))))"

record device_poll_out =
  po_status :: deploy_status
  po_github_login :: "string option"
  po_detail :: "string option"
  po_background :: bool

definition poll_failed :: "string \<Rightarrow> github_account \<Rightarrow> github_account" where
  "poll_failed err a = a\<lparr>ga_status := FAILED, ga_error_detail := Some (''device flow: '' @ err)\<rparr>"

definition authorized :: "github_user \<Rightarrow> github_account \<Rightarrow> github_account" where
  "authorized who a =
     a\<lparr>ga_oauth_token_kv_ref := Some (github_token_name (ga_id a)), ga_github_login := gu_login who,
       ga_github_user_id := gu_id who, ga_device_code := None, ga_status := DEPLOYING\<rparr>"

definition device_poll :: "'w hub_svc \<Rightarrow> string \<Rightarrow> principal \<Rightarrow> ('w, device_poll_out) act" where
  "device_poll h account_id _ =
     bnd (load_or_404 github_accounts ga_id account_id ''account'') (\<lambda>acct.
     if ga_status acct \<noteq> PENDING then
       ret \<lparr>po_status = ga_status acct, po_github_login = ga_github_login acct, po_detail = ga_error_detail acct,
            po_background = False\<rparr>
     else
       bnd (cloud (poll_device_flow h (opt_or_empty (ga_device_code acct)))) (\<lambda>result.
       case result of
         PollPending \<Rightarrow> ret \<lparr>po_status = PENDING, po_github_login = None, po_detail = None, po_background = False\<rparr>
       | PollError err \<Rightarrow>
           sq (update_account h account_id (poll_failed err))
              (ret \<lparr>po_status = FAILED, po_github_login = None, po_detail = Some (''device flow: '' @ err), po_background = False\<rparr>)
       | PollSuccess token \<Rightarrow>
           bnd (cloud (whoami h token)) (\<lambda>who.
           bnd (cloud (set_secret (core h) (github_token_name account_id) token)) (\<lambda>_.
           sq (update_account h account_id (authorized who))
              (ret \<lparr>po_status = DEPLOYING, po_github_login = gu_login who, po_detail = None, po_background = True\<rparr>)))))"

definition list_accounts :: "principal \<Rightarrow> ('w, github_account list) act" where
  "list_accounts _ = query github_accounts"

text \<open>The answer to a delete means that the teardown job is queued.\<close>

definition delete_account :: "'w hub_svc \<Rightarrow> string \<Rightarrow> principal \<Rightarrow> ('w, unit) act" where
  "delete_account h account_id _ =
     bnd (load_or_404 github_accounts ga_id account_id ''account'') (\<lambda>_.
     update_account h account_id (\<lambda>a. a\<lparr>ga_status := DELETING\<rparr>))"

section \<open>Logging an account in again\<close>

definition install_token_on_hub :: "'w hub_svc \<Rightarrow> string \<Rightarrow> string \<Rightarrow> string \<Rightarrow> ('w, unit) eff" where
  "install_token_on_hub h fqdn admin_token oauth_token =
     bnd (http h (http_send ''POST'' (''https://'' @ fqdn @ ''/api/auth/copilot/token'') [(''x-admin-token'', admin_token)]
            [(''access_token'', JStr oauth_token)])) (\<lambda>r.
     if 400 \<le> hr_status r then
       raise (RuntimeError (''hub rejected the token ('' @ int_str (hr_status r) @ ''): '' @ py_take 400 (hr_text r)))
     else ret ())"

definition account_for_relogin :: "string \<Rightarrow> ('w, github_account) act" where
  "account_for_relogin account_id =
     bnd (load_or_404 github_accounts ga_id account_id ''account'') (\<lambda>acct.
     if ga_status acct \<noteq> READY then
       raise (HTTPException 409 (''account is '' @ deploy_value (ga_status acct) @ ''; re-login needs a ready account''))
     else if \<not> opt_true (ga_container_app_fqdn acct) \<or> \<not> opt_true (ga_admin_token_kv_ref acct) then
       raise (HTTPException 409 ''account has no hub endpoint / admin token (redeploy required)'')
     else ret acct)"

definition relogin_start :: "'w hub_svc \<Rightarrow> string \<Rightarrow> principal \<Rightarrow> ('w, device_flow) act" where
  "relogin_start h account_id _ =
     bnd (account_for_relogin account_id) (\<lambda>_.
     bnd (cloud (start_device_flow h)) (\<lambda>flow.
     sq (update_account h account_id (\<lambda>a. a\<lparr>ga_device_code := Some (df_device_code flow)\<rparr>)) (ret flow)))"

datatype relogin_out = ReloginPending | ReloginFailed string | ReloginSuccess "string option"

definition other_user :: "github_account \<Rightarrow> github_user \<Rightarrow> bool" where
  "other_user acct who \<longleftrightarrow>
     opt_true (ga_github_user_id acct) \<and> opt_true (gu_id who) \<and> gu_id who \<noteq> ga_github_user_id acct"

definition or_text :: "string option \<Rightarrow> string \<Rightarrow> string" where
  "or_text x d = (if opt_true x then opt_or_empty x else d)"

definition relogged :: "github_user \<Rightarrow> github_account \<Rightarrow> github_account" where
  "relogged who a =
     a\<lparr>ga_oauth_token_kv_ref := Some (github_token_name (ga_id a)),
       ga_github_login := (if opt_true (gu_login who) then gu_login who else ga_github_login a), ga_device_code := None\<rparr>"

definition flow_over :: "github_account \<Rightarrow> github_account" where
  "flow_over a = a\<lparr>ga_device_code := None\<rparr>"

text \<open>The token is in hand: check whose it is, prove it on the hub, then keep it.\<close>

definition prove_on_hub :: "'w hub_svc \<Rightarrow> github_account \<Rightarrow> string \<Rightarrow> string \<Rightarrow> ('w, exn option) act" where
  "prove_on_hub h acct admin_token token =
     catch_exn (sq (cloud (install_token_on_hub h (opt_or_empty (ga_container_app_fqdn acct)) admin_token token)) (ret None))
       (\<lambda>e. if is_runtime_error e \<or> is_httpx_error e then ret (Some e) else raise e)"

definition keep_token :: "'w hub_svc \<Rightarrow> github_account \<Rightarrow> string \<Rightarrow> github_user \<Rightarrow> exn option \<Rightarrow> ('w, relogin_out) act" where
  "keep_token h acct token who failure =
     (case failure of
        Some e \<Rightarrow> sq (update_account h (ga_id acct) flow_over) (ret (ReloginFailed (py_take 500 (exn_str e))))
      | None \<Rightarrow>
          bnd (cloud (set_secret (core h) (github_token_name (ga_id acct)) token)) (\<lambda>_.
          sq (update_account h (ga_id acct) (relogged who)) (ret (ReloginSuccess (ga_github_login (relogged who acct))))))"

definition install_token :: "'w hub_svc \<Rightarrow> github_account \<Rightarrow> string \<Rightarrow> github_user \<Rightarrow> ('w, relogin_out) act" where
  "install_token h acct token who =
     bnd (cloud (get_secret (core h) (opt_or_empty (ga_admin_token_kv_ref acct)))) (\<lambda>admin_token.
     if \<not> opt_true admin_token then raise (HTTPException 409 ''hub admin token not found in Key Vault'')
     else bnd (prove_on_hub h acct (opt_or_empty admin_token) token) (keep_token h acct token who))"

definition relogin_poll :: "'w hub_svc \<Rightarrow> string \<Rightarrow> principal \<Rightarrow> ('w, relogin_out) act" where
  "relogin_poll h account_id _ =
     bnd (account_for_relogin account_id) (\<lambda>acct.
     if \<not> opt_true (ga_device_code acct) then
       raise (HTTPException 409 ''no re-login in progress; call relogin/start first'')
     else
       bnd (cloud (poll_device_flow h (opt_or_empty (ga_device_code acct)))) (\<lambda>result.
       case result of
         PollPending \<Rightarrow> ret ReloginPending
       | PollError err \<Rightarrow>
           sq (update_account h account_id flow_over) (ret (ReloginFailed (''device flow: '' @ err)))
       | PollSuccess token \<Rightarrow>
           bnd (cloud (whoami h token)) (\<lambda>who.
           if other_user acct who then
             sq (update_account h account_id flow_over)
                (ret (ReloginFailed (''authorized as '' @ or_text (gu_login who) ''another user'' @ '', but this account is ''
                   @ or_text (ga_github_login acct) (opt_or_empty (ga_github_user_id acct)))))
           else install_token h acct token who)))"

section \<open>The background jobs\<close>

text \<open>A flush of pending column writes on a row, which raises when the row is gone.\<close>

definition flush_account :: "'w hub_svc \<Rightarrow> string \<Rightarrow> ('w, unit) act" where
  "flush_account h i =
     bnd (query (\<lambda>t. row_by ga_id i (github_accounts t))) (\<lambda>found.
     if found = None then raise (OtherError ''StaleDataError'') else commit (core h))"

definition write_account :: "'w hub_svc \<Rightarrow> string \<Rightarrow> (github_account \<Rightarrow> github_account) \<Rightarrow> ('w, unit) act" where
  "write_account h i f =
     sq (edit (\<lambda>t. t\<lparr>github_accounts := modify_account i f (github_accounts t)\<rparr>)) (flush_account h i)"

definition failed :: "string \<Rightarrow> github_account \<Rightarrow> github_account" where
  "failed detail a = a\<lparr>ga_status := FAILED, ga_error_detail := Some detail\<rparr>"

definition fail_account :: "'w hub_svc \<Rightarrow> string \<Rightarrow> (github_account \<Rightarrow> github_account) \<Rightarrow> string \<Rightarrow> ('w, unit) act" where
  "fail_account h i pending detail = write_account h i (failed detail \<circ> pending)"

definition deploy_load :: "string \<Rightarrow> ('w, github_account option) act" where
  "deploy_load account_id =
     bnd (query (\<lambda>t. row_by ga_id account_id (github_accounts t))) (\<lambda>found.
     ret (case found of None \<Rightarrow> None | Some a \<Rightarrow> if opt_true (ga_oauth_token_kv_ref a) then Some a else None))"

record built =
  bt_fqdn :: string
  bt_hub_key :: string
  bt_admin_token :: string

definition placed :: "hub_outputs \<Rightarrow> github_account \<Rightarrow> github_account" where
  "placed out a =
     a\<lparr>ga_container_app_fqdn := Some (fqdn_from_url (out_app_url out)), ga_resource_group := Some (out_resource_group out),
       ga_tf_state_key := Some (''hubs/'' @ ga_id a @ ''.tfstate'')\<rparr>"

definition keyed :: "github_account \<Rightarrow> github_account" where
  "keyed a = a\<lparr>ga_hub_key_kv_ref := Some (hub_key_name (ga_id a)), ga_admin_token_kv_ref := Some (admin_token_name (ga_id a))\<rparr>"

definition build_hub :: "'w hub_svc \<Rightarrow> github_account \<Rightarrow> ('w, (github_account \<Rightarrow> github_account) \<times> (string + built)) eff" where
  "build_hub h a =
     bnd (attempt (get_secret (core h) (opt_or_empty (ga_oauth_token_kv_ref a)))) (\<lambda>got.
     case got of
       Inl e \<Rightarrow> ret (id, Inl (py_take 2000 (exn_str e)))
     | Inr token \<Rightarrow>
         if \<not> opt_true token then ret (id, Inl ''oauth token not found in Key Vault'')
         else
           bnd (attempt (deploy_hub h (ga_id a) (opt_or_empty token))) (\<lambda>deployed.
           case deployed of
             Inl e \<Rightarrow> ret (id, Inl (py_take 2000 (exn_str e)))
           | Inr out \<Rightarrow>
               bnd (attempt (bnd (set_secret (core h) (hub_key_name (ga_id a)) (out_hub_api_key out)) (\<lambda>_.
                             set_secret (core h) (admin_token_name (ga_id a)) (out_admin_token out)))) (\<lambda>kept.
               case kept of
                 Inl e \<Rightarrow> ret (placed out, Inl (py_take 2000 (exn_str e)))
               | Inr _ \<Rightarrow>
                   ret (keyed \<circ> placed out,
                        Inr \<lparr>bt_fqdn = fqdn_from_url (out_app_url out), bt_hub_key = out_hub_api_key out,
                             bt_admin_token = out_admin_token out\<rparr>))))"

definition deploy_build :: "'w hub_svc \<Rightarrow> github_account \<Rightarrow> ('w, built option) act" where
  "deploy_build h a =
     bnd (cloud (build_hub h a)) (\<lambda>(pending, outcome).
     case outcome of
       Inl detail \<Rightarrow> sq (fail_account h (ga_id a) pending detail) (ret None)
     | Inr b \<Rightarrow> sq (write_account h (ga_id a) pending) (ret (Some b)))"

definition deploy_join :: "'w hub_svc \<Rightarrow> string \<Rightarrow> built \<Rightarrow> ('w, unit) act" where
  "deploy_join h account_id b =
     bnd (attempt (cloud (add_hub_to_pools (arm (apim (core h))) account_id (bt_fqdn b) (bt_hub_key b)))) (\<lambda>joined.
     case joined of
       Inl e \<Rightarrow> fail_account h account_id id (py_take 2000 (exn_str e))
     | Inr backend_ids \<Rightarrow>
         sq (edit (\<lambda>t. t\<lparr>github_accounts := modify_account account_id (\<lambda>a. a\<lparr>ga_backend_ids := backend_ids\<rparr>) (github_accounts t)\<rparr>))
        (bnd (register_hub_catalog h (flush_account h account_id) (bt_fqdn b) (bt_admin_token b) False) (\<lambda>_.
         write_account h account_id (\<lambda>a. a\<lparr>ga_status := READY, ga_error_detail := None\<rparr>))))"

definition deploy_account :: "'w hub_svc \<Rightarrow> string \<Rightarrow> ('w, unit) act" where
  "deploy_account h account_id =
     bnd (deploy_load account_id) (\<lambda>loaded.
     case loaded of
       None \<Rightarrow> ret ()
     | Some a \<Rightarrow> bnd (deploy_build h a) (\<lambda>outcome.
         case outcome of None \<Rightarrow> ret () | Some b \<Rightarrow> deploy_join h account_id b))"

definition teardown_load :: "string \<Rightarrow> ('w, github_account option) act" where
  "teardown_load account_id = query (\<lambda>t. row_by ga_id account_id (github_accounts t))"

definition account_secrets :: "github_account \<Rightarrow> string list" where
  "account_secrets a =
     filter (\<lambda>r. r \<noteq> []) (map opt_or_empty [ga_oauth_token_kv_ref a, ga_hub_key_kv_ref a, ga_admin_token_kv_ref a]
       @ [''gh-'' @ dashed (ga_id a) @ ''-jobinput'', ''gh-'' @ dashed (ga_id a) @ ''-outputs''])"

definition without_account :: "string \<Rightarrow> tables \<Rightarrow> tables" where
  "without_account i t = t\<lparr>github_accounts := filter (\<lambda>a. ga_id a \<noteq> i) (github_accounts t)\<rparr>"

definition NOT_DESTROYED :: string where
  "NOT_DESTROYED = ''Azure resources were NOT destroyed and nothing else was removed '' @ EM_DASH
     @ '' press delete again to retry. If this environment is not the most recently deployed one, the hub workflow is ''
     @ ''pointed at another environment's Key Vault and the retry will fail the same way until that is corrected. ''"

definition teardown_run :: "'w hub_svc \<Rightarrow> github_account \<Rightarrow> ('w, unit) act" where
  "teardown_run h a =
     bnd (attempt (cloud (remove_hub_from_pools (arm (apim (core h))) (ga_id a) (Some (ga_backend_ids a))))) (\<lambda>unpooled.
     case unpooled of
       Inl e \<Rightarrow> fail_account h (ga_id a) id
         (''APIM cleanup failed; nothing was destroyed '' @ EM_DASH @ '' retry delete. '' @ exn_str e)
     | Inr _ \<Rightarrow>
         bnd (if opt_true (ga_oauth_token_kv_ref a)
              then cloud (get_secret (core h) (opt_or_empty (ga_oauth_token_kv_ref a))) else ret None) (\<lambda>token.
         bnd (attempt (cloud (destroy_hub h (ga_id a) (opt_or_empty token)))) (\<lambda>destroyed.
         case destroyed of
           Inl e \<Rightarrow> fail_account h (ga_id a) id (NOT_DESTROYED @ exn_str e)
         | Inr _ \<Rightarrow>
             sq (for_each (account_secrets a) (\<lambda>name. best_effort (cloud (delete_secret (core h) name))))
            (sq (edit (without_account (ga_id a))) (commit (core h))))))"

definition teardown_account :: "'w hub_svc \<Rightarrow> string \<Rightarrow> ('w, unit) act" where
  "teardown_account h account_id =
     bnd (teardown_load account_id) (\<lambda>loaded. case loaded of None \<Rightarrow> ret () | Some a \<Rightarrow> teardown_run h a)"

section \<open>Reasoning about column writes\<close>

definition with_account :: "string \<Rightarrow> (github_account \<Rightarrow> github_account) \<Rightarrow> tables \<Rightarrow> tables" where
  "with_account i f t = t\<lparr>github_accounts := modify_account i f (github_accounts t)\<rparr>"

lemma wp_updateI:
  assumes "\<And>w. constraints_ok (with_account i f (session s))
      \<Longrightarrow> Q () (s\<lparr>session := with_account i f (session s), world := w, committed := with_account i f (session s)\<rparr>)"
    and "\<And>e w. E e (s\<lparr>session := with_account i f (session s), world := w\<rparr>)"
  shows "wp (update_account h i f) Q E s"
  unfolding update_account_def wp_sq wp_edit using assms by (auto simp: with_account_def intro!: wp_commitI)

lemma wp_cloud_keeps:
  assumes "keeps obs m"
    and "\<And>a w'. m (world s) = (Inr a, w') \<Longrightarrow> obs w' = obs (world s) \<Longrightarrow> Q a (s\<lparr>world := w'\<rparr>)"
    and "\<And>e w'. obs w' = obs (world s) \<Longrightarrow> E e (s\<lparr>world := w'\<rparr>)"
  shows "wp (cloud m) Q E s"
  unfolding wp_cloud by (rule wp_keeps [OF assms(1)]) (use assms(2,3) in auto)

lemma wp_update_keeps:
  assumes "keeps obs (db_write (core h))"
    and "\<And>w. obs w = obs (world s)
      \<Longrightarrow> Q () (s\<lparr>session := with_account i f (session s), world := w, committed := with_account i f (session s)\<rparr>)"
    and "\<And>e w. obs w = obs (world s) \<Longrightarrow> E e (s\<lparr>session := with_account i f (session s), world := w\<rparr>)"
  shows "wp (update_account h i f) Q E s"
  unfolding update_account_def wp_sq wp_edit wp_commit
  by (rule wp_keeps [OF assms(1)]) (use assms(2,3) in \<open>auto simp: with_account_def\<close>)

section \<open>Only proven tokens are kept\<close>

definition vault_laws :: "('w \<Rightarrow> string \<Rightarrow> string option) \<Rightarrow> 'w hub_svc \<Rightarrow> bool" where
  "vault_laws sec h \<longleftrightarrow> secret_laws sec h \<and> keeps sec (db_write (core h))
     \<and> (\<forall>name v w r w' n. kv_set (core h) name v w = (r, w') \<longrightarrow> n \<noteq> name \<longrightarrow> sec w' n = sec w n)"

text \<open>The hub of an account took a token.\<close>

definition accepted :: "'w hub_svc \<Rightarrow> github_account \<Rightarrow> string \<Rightarrow> bool" where
  "accepted h a token \<longleftrightarrow>
     (\<exists>admin w r w'. http h (http_send ''POST'' (''https://'' @ opt_or_empty (ga_container_app_fqdn a) @ ''/api/auth/copilot/token'')
        [(''x-admin-token'', admin)] [(''access_token'', JStr token)]) w = (Inr r, w') \<and> hr_status r < 400)"

lemma installed_accepted:
  "install_token_on_hub h (opt_or_empty (ga_container_app_fqdn a)) admin token w = (Inr (), w') \<Longrightarrow> accepted h a token"
  by (fastforce simp: install_token_on_hub_def accepted_def bnd_def raise_def split: prod.splits sum.splits if_splits)

lemma relogin_keeps:
  assumes "vault_laws sec h"
  shows "keeps sec (poll_device_flow h code)" "keeps sec (whoami h token)" "keeps sec (install_token_on_hub h fqdn admin token)"
    "keeps sec (get_secret (core h) n)" "keeps sec (db_write (core h))"
  using assms unfolding vault_laws_def secret_laws_def poll_device_flow_def whoami_def install_token_on_hub_def get_secret_def
  by (auto intro!: keeps_bnd keeps_sq keeps_catch)

text \<open>What a re-login may do to the secrets: the account's token changes only to one its hub accepted.\<close>

definition proven :: "('w \<Rightarrow> string \<Rightarrow> string option) \<Rightarrow> 'w hub_svc \<Rightarrow> github_account \<Rightarrow> 'w \<Rightarrow> 'w \<Rightarrow> bool" where
  "proven sec h a w w' \<longleftrightarrow> (\<forall>n. n \<noteq> github_token_name (ga_id a) \<longrightarrow> sec w' n = sec w n)
     \<and> (sec w' = sec w \<or> (\<exists>token. accepted h a token))"

lemma proven_same: "sec w' = sec w \<Longrightarrow> proven sec h a w w'"
  by (simp add: proven_def)

lemma proven_kept: "proven sec h a w w' \<Longrightarrow> sec w'' = sec w' \<Longrightarrow> proven sec h a w w''"
  by (simp add: proven_def)

lemma wp_keep_token:
  assumes laws: "vault_laws sec h" and acc: "accepted h a token" and same: "sec (world u) = sec w"
    and Q: "\<And>n w'. proven sec h a w w' \<Longrightarrow> sec w' (github_token_name (ga_id a)) = Some token \<Longrightarrow> Q n (u\<lparr>world := w'\<rparr>)"
    and E: "\<And>e w'. proven sec h a w w' \<Longrightarrow> E e (u\<lparr>world := w'\<rparr>)"
  shows "wp (cloud (set_secret (core h) (github_token_name (ga_id a)) token)) Q E u"
proof -
  have p: "proven sec h a w w'" if "kv_set (core h) (github_token_name (ga_id a)) token (world u) = (r, w')" for r w'
    using laws acc same that by (auto simp: vault_laws_def proven_def)
  have "sec w' (github_token_name (ga_id a)) = Some token"
    if "kv_set (core h) (github_token_name (ga_id a)) token (world u) = (Inr i, w')" for i w'
    using laws that by (fastforce simp: vault_laws_def secret_laws_def)
  with p show ?thesis
    unfolding wp_cloud set_secret_def wp_bnd wp_ret_fun by (intro wpI_frame) (auto intro: Q E)
qed

lemma wp_prove_on_hub:
  assumes laws: "vault_laws sec h" and same: "sec (world u) = sec w"
    and Q: "\<And>v. sec (world v) = sec w \<Longrightarrow> accepted h a token \<Longrightarrow> Q None v" "\<And>e v. sec (world v) = sec w \<Longrightarrow> Q (Some e) v"
    and E: "\<And>e v. sec (world v) = sec w \<Longrightarrow> E e v"
  shows "wp (prove_on_hub h a admin token) Q E u"
  unfolding prove_on_hub_def wp_catch wp_sq
  by (rule wp_cloud_keeps [OF relogin_keeps(3) [OF laws]]) (auto simp: wp_ret wp_raise same intro!: Q E installed_accepted)

lemma wp_keep_token_write:
  assumes laws: "vault_laws sec h" and same: "sec (world u) = sec w" and acc: "failure = None \<Longrightarrow> accepted h a token"
    and Q: "\<And>x v. proven sec h a w (world v) \<Longrightarrow> (\<forall>l. x = ReloginSuccess l \<longrightarrow>
        (\<exists>token. accepted h a token \<and> sec (world v) (github_token_name (ga_id a)) = Some token)) \<Longrightarrow> Q x v"
    and E: "\<And>e v. proven sec h a w (world v) \<Longrightarrow> E e v"
  shows "wp (keep_token h a token who failure) Q E u"
proof (cases failure)
  case None
  have "wp (update_account h (ga_id a) (relogged who)) (\<lambda>_. Q (ReloginSuccess l)) E v"
    if "proven sec h a w (world v)" "sec (world v) (github_token_name (ga_id a)) = Some token" for l v
    using that acc [OF None] by (intro wp_update_keeps [where obs = sec] relogin_keeps(5) [OF laws] Q E) (auto simp: proven_def)
  then show ?thesis
    unfolding keep_token_def None option.case wp_bnd
    by (auto simp: wp_sq wp_ret_fun intro!: wp_keep_token [OF laws acc [OF None] same] E)
next
  case (Some e)
  then show ?thesis
    using same unfolding keep_token_def
    by (auto simp: wp_sq wp_ret_fun proven_same intro!: wp_update_keeps [where obs = sec] relogin_keeps(5) [OF laws] Q E)
qed

lemma wp_install_token:
  assumes laws: "vault_laws sec h" and same: "sec (world u) = sec w"
    and Q: "\<And>x v. proven sec h a w (world v) \<Longrightarrow> (\<forall>l. x = ReloginSuccess l \<longrightarrow>
        (\<exists>token. accepted h a token \<and> sec (world v) (github_token_name (ga_id a)) = Some token)) \<Longrightarrow> Q x v"
    and E: "\<And>e v. proven sec h a w (world v) \<Longrightarrow> E e v"
  shows "wp (install_token h a token who) Q E u"
  unfolding install_token_def wp_bnd
  by (rule wp_cloud_keeps [OF relogin_keeps(4) [OF laws]])
     (auto simp: wp_raise wp_bnd same proven_same intro!: E wp_prove_on_hub [OF laws, where w = w] wp_keep_token_write [OF laws, where w = w] Q)

lemma wp_account_for_relogin:
  "(\<And>a. row_by ga_id i (github_accounts (session s)) = Some a \<Longrightarrow> ga_status a = READY \<Longrightarrow> Q a s) \<Longrightarrow> (\<And>e. E e s)
     \<Longrightarrow> wp (account_for_relogin i) Q E s"
  by (auto simp: account_for_relogin_def handler_rules split: option.splits)

lemma wp_relogin_poll:
  assumes laws: "vault_laws sec h"
    and Q: "\<And>a x v. row_by ga_id i (github_accounts (session s)) = Some a \<Longrightarrow> ga_status a = READY
        \<Longrightarrow> proven sec h a (world s) (world v) \<Longrightarrow> (\<forall>l. x = ReloginSuccess l \<longrightarrow>
        (\<exists>token. accepted h a token \<and> sec (world v) (github_token_name (ga_id a)) = Some token)) \<Longrightarrow> Q x v"
    and E: "\<And>a e v. row_by ga_id i (github_accounts (session s)) = Some a \<Longrightarrow> proven sec h a (world s) (world v) \<Longrightarrow> E e v"
    and E0: "\<And>e. E e s"
  shows "wp (relogin_poll h i p) Q E s"
  unfolding relogin_poll_def wp_bnd
proof (rule wp_account_for_relogin)
  fix a
  assume a: "row_by ga_id i (github_accounts (session s)) = Some a" "ga_status a = READY"
  note Q' = Q [OF a] and E' = E [OF a(1)]
  show "wp (if \<not> opt_true (ga_device_code a) then raise (HTTPException 409 ''no re-login in progress; call relogin/start first'')
     else bnd (cloud (poll_device_flow h (opt_or_empty (ga_device_code a)))) (\<lambda>result.
       case result of
         PollPending \<Rightarrow> ret ReloginPending
       | PollError err \<Rightarrow> sq (update_account h i flow_over) (ret (ReloginFailed (''device flow: '' @ err)))
       | PollSuccess token \<Rightarrow>
           bnd (cloud (whoami h token)) (\<lambda>who.
           if other_user a who then
             sq (update_account h i flow_over)
                (ret (ReloginFailed (''authorized as '' @ or_text (gu_login who) ''another user'' @ '', but this account is ''
                   @ or_text (ga_github_login a) (opt_or_empty (ga_github_user_id a)))))
           else install_token h a token who))) Q E s"
    by (auto simp: wp_raise wp_bnd wp_ret wp_sq wp_ret_fun E0 proven_same split: poll_result.splits
        intro!: wp_cloud_keeps [OF relogin_keeps(1) [OF laws]] wp_cloud_keeps [OF relogin_keeps(2) [OF laws]]
          wp_update_keeps [where obs = sec] relogin_keeps(5) [OF laws] wp_install_token [OF laws, where w = "world s"] Q' E')
qed (rule E0)


lemma mem_vault_laws: "vault_laws fst mem_hub"
  by (auto simp: vault_laws_def mem_hub_secrets) (auto simp: mem_hub_def mem_services_def keeps_def ret_def)


end
