(* ===== verification/FleetLife.thy ===== *)
theory FleetLife
  imports GithubAccounts
begin

text \<open>
  The life of the hubs: the requests on accounts, the health pass and the two background jobs,
  interleaved in any order (\<^verbatim>\<open>api/github_accounts.py\<close>, \<^verbatim>\<open>main.py\<close>).

  A state is the system with the jobs that are queued or waiting; a step is one request, or one
  segment of a job.  The other handlers are one step that leaves the accounts alone.  The
  locale \<^verbatim>\<open>account_guard\<close> collects what an invariant of the accounts has to survive, and shows
  once that every handler of the accounts then keeps it.
\<close>

section \<open>Columns that stay set\<close>

definition complete :: "github_account \<Rightarrow> bool" where
  "complete a \<longleftrightarrow> ga_oauth_token_kv_ref a \<noteq> None \<and> ga_container_app_fqdn a \<noteq> None
     \<and> ga_hub_key_kv_ref a \<noteq> None \<and> ga_admin_token_kv_ref a \<noteq> None"

definition kept_columns :: "github_account \<Rightarrow> github_account \<Rightarrow> bool" where
  "kept_columns a b \<longleftrightarrow> ga_id b = ga_id a \<and> (ga_oauth_token_kv_ref a \<noteq> None \<longrightarrow> ga_oauth_token_kv_ref b \<noteq> None)
     \<and> (ga_container_app_fqdn a \<noteq> None \<longrightarrow> ga_container_app_fqdn b \<noteq> None)
     \<and> (ga_hub_key_kv_ref a \<noteq> None \<longrightarrow> ga_hub_key_kv_ref b \<noteq> None)
     \<and> (ga_admin_token_kv_ref a \<noteq> None \<longrightarrow> ga_admin_token_kv_ref b \<noteq> None)"

text \<open>A write that unsets none of them and makes an account ready only if it is one of \<^verbatim>\<open>ids\<close>.\<close>

definition gentle :: "string set \<Rightarrow> string \<Rightarrow> (github_account \<Rightarrow> github_account) \<Rightarrow> bool" where
  "gentle ids i f \<longleftrightarrow> (\<forall>a. kept_columns a (f a) \<and> (ga_status (f a) = READY \<longrightarrow> ga_status a = READY \<or> i \<in> ids))"

lemma gentle_writes [simp]:
  "gentle ids i (poll_failed e)" "gentle ids i (authorized who)" "gentle ids i (\<lambda>a. a\<lparr>ga_status := DELETING\<rparr>)"
  "gentle ids i (\<lambda>a. a\<lparr>ga_device_code := c\<rparr>)" "gentle ids i flow_over" "gentle ids i (relogged who)"
  "gentle ids i (failed d)" "gentle ids i (placed out)" "gentle ids i keyed" "gentle ids i (record_health now st)"
  "gentle ids i (\<lambda>a. a\<lparr>ga_backend_ids := bs\<rparr>)" "gentle ids i id"
  "i \<in> ids \<Longrightarrow> gentle ids i (\<lambda>a. a\<lparr>ga_status := READY, ga_error_detail := d'\<rparr>)"
  by (auto simp: gentle_def kept_columns_def poll_failed_def authorized_def flow_over_def relogged_def failed_def placed_def
      keyed_def record_health_def)

lemma kept_trans: "kept_columns a b \<Longrightarrow> kept_columns b c \<Longrightarrow> kept_columns a c"
  by (auto simp: kept_columns_def)

lemma kept_refl [simp]: "kept_columns a a"
  by (simp add: kept_columns_def)

lemma gentle_comp [simp]: "gentle ids i f \<Longrightarrow> gentle ids i g \<Longrightarrow> gentle ids i (f \<circ> g)"
  by (auto simp: gentle_def) (metis kept_trans)+

text \<open>What a build leaves to be written, whether it succeeded or not.\<close>

lemma build_pending:
  assumes "build_hub h a w = (Inr (pending, outcome), w')"
  shows "(\<exists>d. outcome = Inl d) \<and> (pending = id \<or> (\<exists>out. pending = placed out)) \<or> (\<exists>out. pending = keyed \<circ> placed out)"
  using assms by (auto simp: build_hub_def bnd_def ret_def split: prod.splits sum.splits if_splits)

lemma build_pending_gentle: "build_hub h a w = (Inr (pending, outcome), w') \<Longrightarrow> gentle ids i pending"
  by (drule build_pending) auto

section \<open>What an invariant of the accounts has to survive\<close>

definition stays :: "('s \<Rightarrow> bool) \<Rightarrow> ('s, 'a) eff \<Rightarrow> bool" where
  "stays J m \<longleftrightarrow> (\<forall>s. J s \<longrightarrow> wp m (\<lambda>_. J) (\<lambda>_. J) s)"

lemma staysI: "(\<And>s. J s \<Longrightarrow> wp m (\<lambda>_. J) (\<lambda>_. J) s) \<Longrightarrow> stays J m"
  by (simp add: stays_def)

lemma stays_snd: "stays J m \<longleftrightarrow> (\<forall>s. J s \<longrightarrow> J (snd (m s)))"
  by (simp add: stays_def wp_snd)

lemma staysD: "stays J m \<Longrightarrow> m s = (r, t) \<Longrightarrow> J s \<Longrightarrow> J t"
  by (force simp: stays_snd)

lemma stays_ret [simp]: "stays J (ret a)" and stays_raise [simp]: "stays J (raise e)"
  by (simp_all add: stays_def handler_rules)

lemma stays_query [simp]: "stays J (query f)"
  by (simp add: stays_def handler_rules)

lemma stays_bnd_result:
  assumes m: "stays J m" and f: "\<And>s a t. m s = (Inr a, t) \<Longrightarrow> stays J (f a)"
  shows "stays J (bnd m f)"
  unfolding stays_snd
proof (intro allI impI)
  fix s
  assume "J s"
  obtain r t where run: "m s = (r, t)"
    by fastforce
  then show "J (snd (bnd m f s))"
    using staysD [OF m run \<open>J s\<close>] f [THEN stays_snd [THEN iffD1]] by (cases r) (auto simp: bnd_def)
qed

lemma stays_bnd: "stays J m \<Longrightarrow> (\<And>a. stays J (f a)) \<Longrightarrow> stays J (bnd m f)"
  by (rule stays_bnd_result)

lemma stays_sq: "stays J m \<Longrightarrow> stays J n \<Longrightarrow> stays J (sq m n)"
  by (simp add: sq_def stays_bnd)

lemma stays_catch: "stays J m \<Longrightarrow> (\<And>e. stays J (k e)) \<Longrightarrow> stays J (catch_exn m k)"
  by (rule staysI, unfold wp_catch, rule wpI_frame) (auto dest: staysD, auto simp: stays_def dest: staysD [of J m, unfolded stays_def])

lemma stays_attempt: "stays J m \<Longrightarrow> stays J (attempt m)"
  unfolding attempt_def by (intro stays_catch stays_bnd) simp_all

lemma stays_best_effort: "stays J m \<Longrightarrow> stays J (best_effort m)"
  by (simp add: stays_def wp_best_effort)

lemma stays_if: "(b \<Longrightarrow> stays J m) \<Longrightarrow> (\<not> b \<Longrightarrow> stays J n) \<Longrightarrow> stays J (if b then m else n)"
  by simp

lemma stays_for_each: "(\<And>x. x \<in> set xs \<Longrightarrow> stays J (body x)) \<Longrightarrow> stays J (for_each xs body)"
  by (auto simp: stays_def intro!: wp_for_each_inv [where I = J])

lemma stays_load [simp]: "stays J (load_or_404 rows key i what)"
  by (auto simp: stays_def handler_rules split: option.splits)

lemmas stays_rules = stays_bnd stays_sq stays_catch stays_attempt stays_best_effort stays_if stays_for_each

locale table_guard =
  fixes J :: "'w sys \<Rightarrow> bool"
  assumes world: "J s \<Longrightarrow> J (s\<lparr>world := w\<rparr>)"
    and committing: "J s \<Longrightarrow> constraints_ok (session s) \<Longrightarrow> J (s\<lparr>committed := session s\<rparr>)"
    and undoing: "J s \<Longrightarrow> J (s\<lparr>session := committed s\<rparr>)"
    and routes: "J s \<Longrightarrow> J (s\<lparr>session := (session s)\<lparr>model_routes := rs\<rparr>\<rparr>)"
begin

lemma cloud_call [simp]: "stays J (cloud m)"
  by (auto simp: stays_def intro!: wp_cloudI world)

lemma commit_call [simp]: "stays J (commit svc)"
  by (rule staysI, rule wp_commitI) (use world committing in fastforce)+

lemma rollback_call [simp]: "stays J rollback"
  by (simp add: stays_def wp_rollback undoing)

lemma write_routes: "stays J (edit (\<lambda>t. t\<lparr>model_routes := f (model_routes t)\<rparr>))"
  using routes by (simp add: stays_def wp_edit)

lemma flush_call [simp]: "stays J (flush_account h i)"
  unfolding flush_account_def by (intro stays_rules) auto

lemma get_now_call [simp]: "stays J (get_now svc)" and new_id_call [simp]: "stays J (new_id svc p)"
  by (simp_all add: get_now_def new_id_def)

lemma add_missing_call: "stays J (add_missing svc pools ws existing)"
  by (induction ws arbitrary: existing) (auto intro!: stays_bnd stays_sq write_routes)

lemma register_call: "stays J flush \<Longrightarrow> stays J (register_hub_catalog h flush fqdn tok prune)"
  unfolding register_hub_catalog_def Let_def
  by (intro stays_rules add_missing_call write_routes | simp add: stays_rules add_missing_call write_routes split: sum.splits)+

lemma resync_call: "stays J (resync_catalog h i p)"
  unfolding resync_catalog_def by (auto intro!: stays_bnd register_call split: sum.splits)

end

locale account_guard = table_guard J for J :: "'w sys \<Rightarrow> bool" +
  fixes ids :: "string set"
  assumes columns: "J s \<Longrightarrow> gentle ids i f \<Longrightarrow> J (s\<lparr>session := with_account i f (session s)\<rparr>)"
    and deleting: "J s \<Longrightarrow> J (s\<lparr>session := without_account i (session s)\<rparr>)"
begin

lemma write_columns: "gentle ids i f \<Longrightarrow> stays J (edit (\<lambda>t. t\<lparr>github_accounts := modify_account i f (github_accounts t)\<rparr>))"
  using columns by (simp add: stays_def wp_edit with_account_def)

lemma update_call: "gentle ids i f \<Longrightarrow> stays J (update_account h i f)"
  unfolding update_account_def by (intro stays_sq write_columns) auto

lemma write_call: "gentle ids i f \<Longrightarrow> stays J (write_account h i f)"
  unfolding write_account_def by (intro stays_sq write_columns) auto

lemma fail_call: "gentle ids i f \<Longrightarrow> stays J (fail_account h i f d)"
  unfolding fail_account_def by (intro write_call) simp

lemma device_poll_call: "stays J (device_poll h i p)"
  unfolding device_poll_def
  by (auto intro!: stays_bnd stays_sq update_call split: poll_result.splits)

lemma delete_account_call: "stays J (delete_account h i p)"
  unfolding delete_account_def by (auto intro!: stays_bnd update_call)

lemma relogin_load [simp]: "stays J (account_for_relogin i)"
  unfolding account_for_relogin_def by (auto intro!: stays_bnd)

lemma relogin_start_call: "stays J (relogin_start h i p)"
  unfolding relogin_start_def by (auto intro!: stays_bnd stays_sq update_call)

lemma relogin_poll_call: "stays J (relogin_poll h i p)"
  unfolding relogin_poll_def install_token_def prove_on_hub_def keep_token_def
  by (auto intro!: stays_bnd stays_sq stays_catch update_call split: poll_result.splits option.splits)

lemma poll_each_call: "stays J (poll_each h accounts n)"
  by (induction accounts arbitrary: n) (auto intro!: stays_bnd stays_sq write_columns split: option.splits)

lemma poll_once_call: "stays J (poll_once h)"
  unfolding poll_once_def by (auto intro!: stays_bnd stays_sq stays_catch poll_each_call)

lemma deploy_load_call: "stays J (deploy_load i)"
  unfolding deploy_load_def by (auto intro!: stays_bnd)

lemma deploy_build_call: "stays J (deploy_build h a)"
proof -
  have "stays J (case x of (pending, outcome) \<Rightarrow> case outcome of
      Inl detail \<Rightarrow> sq (fail_account h (ga_id a) pending detail) (ret None)
    | Inr b \<Rightarrow> sq (write_account h (ga_id a) pending) (ret (Some b)))"
    if "cloud (build_hub h a) s = (Inr x, t)" for s x t
  proof -
    obtain pending outcome where x: "x = (pending, outcome)"
      by (cases x)
    then have "gentle ids i pending" for i
      using that build_pending_gentle by (fastforce simp: cloud_def split: prod.splits)
    then show ?thesis
      by (auto simp: x intro!: stays_sq write_call fail_call split: sum.splits)
  qed
  then show ?thesis
    unfolding deploy_build_def by (intro stays_bnd_result) auto
qed

lemma deploy_join_call: "i \<in> ids \<Longrightarrow> stays J (deploy_join h i b)"
  unfolding deploy_join_def
  by (auto intro!: stays_bnd stays_sq stays_attempt write_columns write_call fail_call register_call split: sum.splits)

lemma teardown_run_call: "stays J (teardown_run h a)"
proof -
  have "stays J (edit (without_account (ga_id a)))"
    using deleting by (simp add: stays_def wp_edit)
  then show ?thesis
    unfolding teardown_run_def
    by (auto intro!: stays_bnd stays_sq stays_attempt stays_for_each stays_best_effort fail_call split: sum.splits)
qed

end

section \<open>The accounts after a handler\<close>

definition grown :: "string set \<Rightarrow> github_account list \<Rightarrow> github_account list \<Rightarrow> bool" where
  "grown ids before after \<longleftrightarrow>
     (\<forall>b \<in> set after. \<exists>a \<in> set before. kept_columns a b \<and> (ga_status b = READY \<longrightarrow> ga_status a = READY \<or> ga_id a \<in> ids))"

definition growing :: "string set \<Rightarrow> github_account list \<Rightarrow> 'w sys \<Rightarrow> bool" where
  "growing ids before s \<longleftrightarrow> constraints_ok (committed s)
     \<and> grown ids before (github_accounts (committed s)) \<and> grown ids before (github_accounts (session s))"

lemma grown_refl [simp]: "grown ids rows rows"
  by (auto simp: grown_def intro!: bexI)

lemma grown_columns: "grown ids before rows \<Longrightarrow> gentle ids i f \<Longrightarrow> grown ids before (modify_account i f rows)"
  unfolding grown_def modify_account_def gentle_def
  by (auto split: if_splits) (metis kept_columns_def kept_trans)+

interpretation fleet: account_guard "growing ids before" ids for ids before
  by unfold_locales
     (auto simp: growing_def with_account_def without_account_def grown_columns, auto simp: grown_def)

lemma request_grows:
  assumes "stays (growing ids (github_accounts (committed s))) m" and "request m s = (r, s')" and "constraints_ok (committed s)"
  shows "constraints_ok (committed s') \<and> grown ids (github_accounts (committed s)) (github_accounts (committed s'))"
proof -
  obtain t where "m (s\<lparr>session := committed s\<rparr>) = (r, t)" "s' = t\<lparr>session := committed t\<rparr>"
    using assms(2) by (auto simp: request_def split: prod.splits)
  with staysD [OF assms(1)] assms(3) show ?thesis
    by (fastforce simp: growing_def)
qed

section \<open>Jobs and steps\<close>

datatype job =
  DeployQueued string | DeployWaiting github_account | HubBuilt string built | TeardownQueued string | TeardownWaiting github_account

fun job_account :: "job \<Rightarrow> string" where
  "job_account (DeployQueued i) = i"
| "job_account (DeployWaiting a) = ga_id a"
| "job_account (HubBuilt i b) = i"
| "job_account (TeardownQueued i) = i"
| "job_account (TeardownWaiting a) = ga_id a"

text \<open>One segment of a job, with what is left of the job.\<close>

fun run_job :: "'w hub_svc \<Rightarrow> job \<Rightarrow> 'w sys \<Rightarrow> job list \<times> 'w sys" where
  "run_job h (DeployQueued i) s =
     (case request (deploy_load i) s of (r, t) \<Rightarrow> (case r of Inr (Some a) \<Rightarrow> [DeployWaiting a] | _ \<Rightarrow> [], t))"
| "run_job h (DeployWaiting a) s =
     (case request (deploy_build h a) s of (r, t) \<Rightarrow> (case r of Inr (Some b) \<Rightarrow> [HubBuilt (ga_id a) b] | _ \<Rightarrow> [], t))"
| "run_job h (HubBuilt i b) s = (case request (deploy_join h i b) s of (_, t) \<Rightarrow> ([], t))"
| "run_job h (TeardownQueued i) s =
     (case request (teardown_load i) s of (r, t) \<Rightarrow> (case r of Inr (Some a) \<Rightarrow> [TeardownWaiting a] | _ \<Rightarrow> [], t))"
| "run_job h (TeardownWaiting a) s = (case request (teardown_run h a) s of (_, t) \<Rightarrow> ([], t))"

text \<open>What a request leaves for the background.\<close>

fun after_poll :: "string \<Rightarrow> exn + device_poll_out \<Rightarrow> job list" where
  "after_poll i (Inr out) = (if po_background out then [DeployQueued i] else [])"
| "after_poll i (Inl _) = []"

fun after_delete :: "string \<Rightarrow> exn + unit \<Rightarrow> job list" where
  "after_delete i (Inr _) = [TeardownQueued i]"
| "after_delete i (Inl _) = []"

text \<open>Requests on accounts, the health pass, any other handler, and the jobs.  An identifier that is drawn for a
  new account is not one that a job still holds.\<close>

inductive fleet_step :: "'w hub_svc \<Rightarrow> 'w sys \<times> job list \<Rightarrow> 'w sys \<times> job list \<Rightarrow> bool" for h where
  login_start: "request (device_start h p) s = (r, s') \<Longrightarrow> (\<And>i flow. r = Inr (i, flow) \<Longrightarrow> i \<notin> job_account ` set q)
    \<Longrightarrow> fleet_step h (s, q) (s', q)"
| login_poll: "request (device_poll h i p) s = (r, s') \<Longrightarrow> fleet_step h (s, q) (s', q @ after_poll i r)"
| delete: "request (delete_account h i p) s = (r, s') \<Longrightarrow> fleet_step h (s, q) (s', q @ after_delete i r)"
| relogin_begin: "request (relogin_start h i p) s = (r, s') \<Longrightarrow> fleet_step h (s, q) (s', q)"
| relogin_check: "request (relogin_poll h i p) s = (r, s') \<Longrightarrow> fleet_step h (s, q) (s', q)"
| resync: "request (resync_catalog h i p) s = (r, s') \<Longrightarrow> fleet_step h (s, q) (s', q)"
| health: "request (poll_once h) s = (r, s') \<Longrightarrow> fleet_step h (s, q) (s', q)"
| elsewhere: "github_accounts (committed s') = github_accounts (committed s) \<Longrightarrow> constraints_ok (committed s')
    \<Longrightarrow> fleet_step h (s, q) (s', q)"
| job: "run_job h j s = (js, s') \<Longrightarrow> fleet_step h (s, q @ j # q') (s', q @ js @ q')"

inductive_cases fleet_stepE: "fleet_step h (s, q) (s', q')"

section \<open>Ready accounts are complete\<close>

fun job_ok :: "github_account list \<Rightarrow> job \<Rightarrow> bool" where
  "job_ok rows (DeployWaiting a) = (\<forall>r \<in> set rows. ga_id r = ga_id a \<longrightarrow> ga_oauth_token_kv_ref r \<noteq> None)"
| "job_ok rows (HubBuilt i b) = (\<forall>r \<in> set rows. ga_id r = i \<longrightarrow> complete r)"
| "job_ok rows _ = True"

definition sound :: "'w sys \<times> job list \<Rightarrow> bool" where
  "sound x \<longleftrightarrow> constraints_ok (committed (fst x))
     \<and> (\<forall>a \<in> set (github_accounts (committed (fst x))). ga_status a = READY \<longrightarrow> complete a)
     \<and> (\<forall>j \<in> set (snd x). job_ok (github_accounts (committed (fst x))) j)"

lemma kept_complete: "kept_columns a b \<Longrightarrow> complete a \<Longrightarrow> complete b"
  by (auto simp: kept_columns_def complete_def)

lemma grown_job_ok: "grown ids before after \<Longrightarrow> job_ok before j \<Longrightarrow> job_ok after j"
  by (cases j) (fastforce simp: grown_def kept_columns_def complete_def)+

lemma sound_grown:
  assumes "sound (s, q)" and "constraints_ok (committed s') \<and> grown ids (github_accounts (committed s)) (github_accounts (committed s'))"
    and "\<And>a. a \<in> set (github_accounts (committed s)) \<Longrightarrow> ga_id a \<in> ids \<Longrightarrow> complete a"
    and "\<And>j. j \<in> set q' \<Longrightarrow> j \<in> set q \<or> job_ok (github_accounts (committed s')) j"
  shows "sound (s', q')"
  unfolding sound_def fst_conv snd_conv
proof (intro conjI ballI impI)
  fix b
  assume b: "b \<in> set (github_accounts (committed s'))" "ga_status b = READY"
  then obtain a where "a \<in> set (github_accounts (committed s))" "kept_columns a b" "ga_status a = READY \<or> ga_id a \<in> ids"
    using assms(2) unfolding grown_def by blast
  then show "complete b"
    using assms(1,3) kept_complete by (auto simp: sound_def)
next
  fix j
  assume "j \<in> set q'"
  then show "job_ok (github_accounts (committed s')) j"
    using assms(1,2,4) grown_job_ok by (fastforce simp: sound_def)
qed (use assms(2) in simp)

lemma device_start_adds:
  assumes "request (device_start h p) s = (r, s')" and "constraints_ok (committed s)"
  shows "constraints_ok (committed s') \<and> (github_accounts (committed s') = github_accounts (committed s)
    \<or> (\<exists>flow new. r = Inr (ga_id new, flow) \<and> github_accounts (committed s') = github_accounts (committed s) @ [new]
         \<and> ga_status new = PENDING))"
proof -
  let ?Q = "\<lambda>r t. constraints_ok t \<and> (github_accounts t = github_accounts (committed s)
    \<or> (\<exists>flow new. r = Inr (ga_id new, flow) \<and> github_accounts t = github_accounts (committed s) @ [new]
         \<and> ga_status new = PENDING))"
  have "wp (device_start h p) (\<lambda>a t. ?Q (Inr a) (committed t)) (\<lambda>e t. ?Q (Inl e) (committed t)) (s\<lparr>session := committed s\<rparr>)"
    using assms(2) unfolding device_start_def by (auto simp: handler_rules Let_def intro!: handler_intros)
  from request_wp [OF assms(1), where Q = ?Q, OF this] show ?thesis
    by blast
qed

lemma deploy_load_finds:
  assumes "request (deploy_load i) s = (Inr (Some a), s')"
  shows "committed s' = committed s \<and> a \<in> set (github_accounts (committed s)) \<and> ga_oauth_token_kv_ref a \<noteq> None"
  using assms by (auto simp: request_def deploy_load_def bnd_def query_def ret_def opt_true_def
      dest!: row_by_Some split: option.splits if_splits)

lemma deploy_build_completes:
  assumes "request (deploy_build h a) s = (Inr (Some b), s')" and "job_ok (github_accounts (committed s)) (DeployWaiting a)"
  shows "job_ok (github_accounts (committed s')) (HubBuilt (ga_id a) b)"
proof -
  let ?Q = "\<lambda>r t. (case r of Inr (Some b) \<Rightarrow> \<forall>r \<in> set (github_accounts t). ga_id r = ga_id a \<longrightarrow> complete r | _ \<Rightarrow> True)"
  have "wp (deploy_build h a) (\<lambda>x t. ?Q (Inr x) (committed t)) (\<lambda>e t. ?Q (Inl e) (committed t)) (s\<lparr>session := committed s\<rparr>)"
    unfolding deploy_build_def wp_bnd
  proof (rule wp_cloud_result)
    fix x w w'
    assume run: "build_hub h a w = (Inr x, w')"
    obtain pending outcome where x: "x = (pending, outcome)"
      by (cases x)
    have "\<exists>out. pending = keyed \<circ> placed out" if "outcome = Inr b'" for b'
      using build_pending [of h a w pending outcome w'] run x that by auto
    then show "wp (case x of (pending, outcome) \<Rightarrow> case outcome of
          Inl detail \<Rightarrow> sq (fail_account h (ga_id a) pending detail) (ret None)
        | Inr b \<Rightarrow> sq (write_account h (ga_id a) pending) (ret (Some b)))
      (\<lambda>x t. ?Q (Inr x) (committed t)) (\<lambda>e t. ?Q (Inl e) (committed t)) (s\<lparr>session := committed s, world := w'\<rparr>)"
      using assms(2) unfolding x fail_account_def write_account_def flush_account_def
      by (auto simp: handler_rules modify_account_def keyed_def placed_def complete_def intro!: wp_commitI split: sum.splits)
  qed simp
  from request_wp [OF assms(1), where Q = ?Q, OF this] show ?thesis
    by simp
qed

lemmas grows_rules = fleet.device_poll_call fleet.delete_account_call fleet.relogin_start_call fleet.relogin_poll_call
  fleet.resync_call fleet.poll_once_call fleet.deploy_load_call fleet.deploy_build_call fleet.teardown_run_call

lemma sound_request:
  assumes "sound (s, q)" and "request m s = (r, s')" and "\<And>before. stays (growing {} before) m"
    and "\<And>j. j \<in> set q' \<Longrightarrow> j \<in> set q \<or> job_ok (github_accounts (committed s')) j"
  shows "sound (s', q')"
  using request_grows [OF assms(3,2)] assms(1)
  by (intro sound_grown [OF assms(1) _ _ assms(4)]) (auto simp: sound_def)

lemma sound_device_start:
  assumes "sound (s, q)" and "request (device_start h p) s = (r, s')"
    and fresh: "\<And>i flow. r = Inr (i, flow) \<Longrightarrow> i \<notin> job_account ` set q"
  shows "sound (s', q)"
proof -
  have same: "job_ok (rows @ [new]) j" if "job_ok rows j" "ga_id new \<noteq> job_account j" for rows new j
    using that by (cases j) auto
  have "constraints_ok (committed s)"
    using assms(1) by (simp add: sound_def)
  from device_start_adds [OF assms(2) this] show ?thesis
    using assms(1) fresh same by (fastforce simp: sound_def)
qed

lemma sound_job:
  assumes "sound (s, q @ j # q')" and run: "run_job h j s = (js, s')"
  shows "sound (s', q @ js @ q')"
proof (cases j)
  case (DeployQueued i)
  then obtain r where r: "request (deploy_load i) s = (r, s')" and js: "js = (case r of Inr (Some a) \<Rightarrow> [DeployWaiting a] | _ \<Rightarrow> [])"
    using run by (auto split: prod.splits)
  have "job_ok (github_accounts (committed s')) (DeployWaiting a)" if "r = Inr (Some a)" for a
    using deploy_load_finds [of i s a s'] r that assms(1) by (auto simp: sound_def constraints_ok_def distinct_map inj_on_def)
  then show ?thesis
    using js by (intro sound_request [OF assms(1) r grows_rules(7)]) (auto split: sum.splits option.splits)
next
  case (DeployWaiting a)
  then obtain r where r: "request (deploy_build h a) s = (r, s')" and js: "js = (case r of Inr (Some b) \<Rightarrow> [HubBuilt (ga_id a) b] | _ \<Rightarrow> [])"
    using run by (auto split: prod.splits)
  have "job_ok (github_accounts (committed s')) (HubBuilt (ga_id a) b)" if "r = Inr (Some b)" for b
    using deploy_build_completes [of h a s b s'] r that assms(1) DeployWaiting by (auto simp: sound_def)
  then show ?thesis
    using js by (intro sound_request [OF assms(1) r grows_rules(8)]) (auto split: sum.splits option.splits)
next
  case (HubBuilt i b)
  then obtain r where r: "request (deploy_join h i b) s = (r, s')" and js: "js = []"
    using run by (auto split: prod.splits)
  have "constraints_ok (committed s)" and c: "\<forall>r \<in> set (github_accounts (committed s)). ga_id r = i \<longrightarrow> complete r"
    using assms(1) HubBuilt by (auto simp: sound_def)
  from request_grows [OF fleet.deploy_join_call r this(1), of "{i}"] show ?thesis
    using c js by (intro sound_grown [OF assms(1), of s' "{i}"]) auto
next
  case (TeardownQueued i)
  then obtain r where "request (teardown_load i) s = (r, s')" and "js = (case r of Inr (Some a) \<Rightarrow> [TeardownWaiting a] | _ \<Rightarrow> [])"
    using run by (auto split: prod.splits)
  then show ?thesis
    by (intro sound_request [OF assms(1)]) (auto simp: teardown_load_def split: sum.splits option.splits)
next
  case (TeardownWaiting a)
  then obtain r where "request (teardown_run h a) s = (r, s')" and "js = []"
    using run by (auto split: prod.splits)
  then show ?thesis
    by (intro sound_request [OF assms(1) _ grows_rules(9)]) auto
qed

lemma sound_step: "fleet_step h x y \<Longrightarrow> sound x \<Longrightarrow> sound y"
proof (induction rule: fleet_step.induct)
  case (login_start p s r s' q)
  then show ?case by (rule_tac sound_device_start)
next
  case (login_poll i p s r s' q)
  then show ?case by (intro sound_request [OF login_poll(2,1) grows_rules(1)]) (cases r; auto split: if_splits)
next
  case (delete i p s r s' q)
  then show ?case by (intro sound_request [OF delete(2,1) grows_rules(2)]) (cases r; auto)
next
  case (elsewhere s' s q)
  then show ?case by (simp add: sound_def)
next
  case (job j s js s' q q')
  then show ?case by (rule_tac sound_job)
qed (auto intro: sound_request [OF _ _ grows_rules(3)] sound_request [OF _ _ grows_rules(4)] sound_request [OF _ _ grows_rules(5)]
    sound_request [OF _ _ grows_rules(6)])

lemma sound_path: "(fleet_step h)\<^sup>*\<^sup>* x y \<Longrightarrow> sound x \<Longrightarrow> sound y"
  by (induction rule: rtranclp_induct) (auto dest: sound_step)

text \<open>C19: a ready account is a usable one.  However logins, deletions, re-logins, catalog syncs, health passes,
  other requests and the segments of deployments and teardowns interleave, and whichever of
  their calls fail, every account that is marked ready has the references of its GitHub token,
  hub key and admin token and the address of its hub.\<close>

theorem ready_accounts_are_complete:
  assumes "(fleet_step h)\<^sup>*\<^sup>* (s, []) (s', q)" and "constraints_ok (committed s)"
    and "\<forall>a \<in> set (github_accounts (committed s)). ga_status a = READY \<longrightarrow> complete a"
  shows "\<forall>a \<in> set (github_accounts (committed s')). ga_status a = READY \<longrightarrow> complete a"
  using sound_path [OF assms(1)] assms(2,3) by (simp add: sound_def)

theorem ready_accounts_are_complete_witness:
  "\<exists>s' q. (fleet_step mem_hub)\<^sup>*\<^sup>* (fleet READY, []) (s', q) \<and> q = [TeardownQueued ''a1'']
     \<and> (\<forall>a \<in> set (github_accounts (committed s')). ga_status a = READY \<longrightarrow> complete a)"
proof -
  let ?t = "fleet_tables DELETING"
  have "(fleet_tables READY)\<lparr>github_accounts := modify_account ''a1'' (\<lambda>a. a\<lparr>ga_status := DELETING\<rparr>) (github_accounts (fleet_tables READY))\<rparr> = ?t"
    by (simp add: modify_account_def fleet_tables_def toy_account_def)
  moreover have "row_by ga_id ''a1'' (github_accounts (fleet_tables READY)) = Some (toy_account READY)"
    by (simp add: fleet_tables_def row_by_def toy_account_def)
  ultimately have "request (delete_account mem_hub ''a1'' toy_admin) (fleet READY) = (Inr (), \<lparr>committed = ?t, session = ?t, world = vault\<rparr>)"
    by (simp add: request_def delete_account_def load_or_404_def bnd_def query_def fleet_def ret_def update_account_def sq_def
        edit_def commit_def cloud_def mem_hub_def mem_services_def fleet_ok)
  from fleet_step.delete [OF this, of "[]"]
  have "fleet_step mem_hub (fleet READY, []) (\<lparr>committed = ?t, session = ?t, world = vault\<rparr>, [TeardownQueued ''a1''])"
    by simp
  then have path: "(fleet_step mem_hub)\<^sup>*\<^sup>* (fleet READY, []) (\<lparr>committed = ?t, session = ?t, world = vault\<rparr>, [TeardownQueued ''a1''])"
    by blast
  have "\<forall>a \<in> set (github_accounts (committed (fleet READY))). ga_status a = READY \<longrightarrow> complete a"
    by (simp add: fleet_def fleet_tables_def toy_account_def complete_def)
  from ready_accounts_are_complete [OF path _ this] path show ?thesis
    by (auto simp: fleet_def fleet_ok)
qed

section \<open>How the jobs end\<close>

text \<open>The account \<^verbatim>\<open>i\<close> ended up with a status, and the other accounts were left alone.\<close>

definition marked :: "string \<Rightarrow> deploy_status \<Rightarrow> tables \<Rightarrow> tables \<Rightarrow> bool" where
  "marked i st before after \<longleftrightarrow>
     (\<exists>a. row_by ga_id i (github_accounts after) = Some a \<and> ga_status a = st)
     \<and> filter (\<lambda>a. ga_id a \<noteq> i) (github_accounts after) = filter (\<lambda>a. ga_id a \<noteq> i) (github_accounts before)"

lemma others_kept:
  "(\<And>a. ga_id (f a) = ga_id a) \<Longrightarrow> filter (\<lambda>a. ga_id a \<noteq> i) (modify_account i f rows) = filter (\<lambda>a. ga_id a \<noteq> i) rows"
  by (induction rows) (auto simp: modify_account_def)

lemma row_modified:
  "(\<And>a. ga_id (f a) = ga_id a) \<Longrightarrow> row_by ga_id i (modify_account i f rows) = map_option f (row_by ga_id i rows)"
  by (induction rows) (auto simp: modify_account_def row_by_def)

lemma wp_write_account:
  assumes id: "\<And>a. ga_id (f a) = ga_id a"
    and Q: "\<And>w. constraints_ok (with_account i f (session s)) \<Longrightarrow> row_by ga_id i (github_accounts (session s)) \<noteq> None
      \<Longrightarrow> Q () (s\<lparr>session := with_account i f (session s), world := w, committed := with_account i f (session s)\<rparr>)"
    and E: "\<And>e w. E e (s\<lparr>session := with_account i f (session s), world := w\<rparr>)"
  shows "wp (write_account h i f) Q E s"
proof -
  have E': "E e (s\<lparr>session := with_account i f (session s)\<rparr>)" for e
    using E [of e "world s"] by simp
  show ?thesis
    unfolding write_account_def flush_account_def
    using Q E E' row_modified [of f i "github_accounts (session s)", OF id]
    by (auto simp: handler_rules with_account_def intro!: wp_commitI)
qed

lemma wp_fail_account:
  assumes "\<And>a. ga_id (f a) = ga_id a"
    and "\<And>w v. marked i FAILED (session s) (committed v) \<Longrightarrow> Q () v" and "\<And>e w. E e (s\<lparr>session := with_account i (failed d \<circ> f) (session s), world := w\<rparr>)"
  shows "wp (fail_account h i f d) Q E s"
  unfolding fail_account_def
proof (rule wp_write_account)
  fix w
  assume "row_by ga_id i (github_accounts (session s)) \<noteq> None"
  then have "marked i FAILED (session s) (with_account i (failed d \<circ> f) (session s))"
    using assms(1) by (auto simp: marked_def with_account_def row_modified others_kept failed_def)
  then show "Q () (s\<lparr>session := with_account i (failed d \<circ> f) (session s), world := w, committed := with_account i (failed d \<circ> f) (session s)\<rparr>)"
    by (intro assms(2)) simp
qed (use assms in \<open>auto simp: failed_def\<close>)

lemma wp_forget_secrets:
  "(\<And>w. Q () (s\<lparr>world := w\<rparr>)) \<Longrightarrow> wp (for_each xs (\<lambda>n. best_effort (cloud (delete_secret svc n)))) Q E s"
proof (rule wp_for_each_inv [where I = "\<lambda>t. \<exists>w. t = s\<lparr>world := w\<rparr>"])
  show "\<exists>w. s = s\<lparr>world := w\<rparr>"
    by (rule exI [of _ "world s"]) simp
qed (auto simp: wp_best_effort intro!: wp_cloudI)

text \<open>The gateway took the hub of an account out of its pools; the destroy workflow ran to success.\<close>

definition unpooled :: "'w hub_svc \<Rightarrow> github_account \<Rightarrow> bool" where
  "unpooled h a \<longleftrightarrow> (\<exists>w w'. remove_hub_from_pools (arm (apim (core h))) (ga_id a) (Some (ga_backend_ids a)) w = (Inr (), w'))"

definition destroyed :: "'w hub_svc \<Rightarrow> string \<Rightarrow> bool" where
  "destroyed h i \<longleftrightarrow> (\<exists>token w w'. destroy_hub h i token w = (Inr (), w'))"

lemma unpooledI: "remove_hub_from_pools (arm (apim (core h))) (ga_id a) (Some (ga_backend_ids a)) w = (Inr u, w') \<Longrightarrow> unpooled h a"
  by (auto simp: unpooled_def)

lemma destroyedI: "destroy_hub h i token w = (Inr u, w') \<Longrightarrow> destroyed h i"
  by (auto simp: destroyed_def)

text \<open>C20: a teardown never strands a hub.  A teardown job that ends by itself has either removed the
  account's row, after the gateway took the hub out of its pools and the destroy workflow
  reported success, or marked the account failed so that it can be deleted again; if anything
  else goes wrong it raises and the tables are as they were.  No other account changes.\<close>

theorem teardown_never_strands_a_hub:
  "case request (teardown_run h a) s of
      (Inl _, s') \<Rightarrow> committed s' = committed s
    | (Inr _, s') \<Rightarrow> marked (ga_id a) FAILED (committed s) (committed s')
        \<or> committed s' = without_account (ga_id a) (committed s)
          \<and> unpooled h a \<and> destroyed h (ga_id a)"
proof -
  let ?Q = "\<lambda>r t. case r of Inl _ \<Rightarrow> t = committed s
    | Inr _ \<Rightarrow> marked (ga_id a) FAILED (committed s) t
        \<or> t = without_account (ga_id a) (committed s)
          \<and> unpooled h a \<and> destroyed h (ga_id a)"
  have "wp (teardown_run h a) (\<lambda>x t. ?Q (Inr x) (committed t)) (\<lambda>e t. ?Q (Inl e) (committed t)) (s\<lparr>session := committed s\<rparr>)"
    unfolding teardown_run_def wp_bnd wp_attempt
  proof (rule wp_cloud_result)
    fix u w w'
    assume out: "remove_hub_from_pools (arm (apim (core h))) (ga_id a) (Some (ga_backend_ids a)) w = (Inr u, w')"
    have finish: "wp (bnd (attempt (cloud (destroy_hub h (ga_id a) token))) (\<lambda>gone.
         case gone of
           Inl e \<Rightarrow> fail_account h (ga_id a) id (NOT_DESTROYED @ exn_str e)
         | Inr _ \<Rightarrow>
             sq (for_each (account_secrets a) (\<lambda>name. best_effort (cloud (delete_secret (core h) name))))
            (sq (edit (without_account (ga_id a))) (commit (core h)))))
        (\<lambda>x t. ?Q (Inr x) (committed t)) (\<lambda>e t. ?Q (Inl e) (committed t)) (s\<lparr>session := committed s, world := v\<rparr>)" for token v
      unfolding wp_bnd wp_attempt
      by (rule wp_cloud_result)
         (use out in \<open>auto simp: wp_sq wp_edit intro: unpooledI destroyedI intro!: wp_fail_account wp_forget_secrets wp_commitI\<close>)
    show "wp (case Inr u of
        Inl e \<Rightarrow> fail_account h (ga_id a) id (''APIM cleanup failed; nothing was destroyed '' @ EM_DASH @ '' retry delete. '' @ exn_str e)
      | Inr _ \<Rightarrow> bnd (if opt_true (ga_oauth_token_kv_ref a) then cloud (get_secret (core h) (opt_or_empty (ga_oauth_token_kv_ref a))) else ret None)
         (\<lambda>token. bnd (attempt (cloud (destroy_hub h (ga_id a) (opt_or_empty token)))) (\<lambda>gone.
         case gone of
           Inl e \<Rightarrow> fail_account h (ga_id a) id (NOT_DESTROYED @ exn_str e)
         | Inr _ \<Rightarrow>
             sq (for_each (account_secrets a) (\<lambda>name. best_effort (cloud (delete_secret (core h) name))))
            (sq (edit (without_account (ga_id a))) (commit (core h))))))
        (\<lambda>x t. ?Q (Inr x) (committed t)) (\<lambda>e t. ?Q (Inl e) (committed t)) (s\<lparr>session := committed s, world := w'\<rparr>)"
      using finish [unfolded wp_bnd] finish [of _ "world s", unfolded wp_bnd]
      by (auto simp: wp_bnd wp_ret intro!: wp_cloudI)
  qed (auto intro!: wp_fail_account)
  moreover obtain r s' where run: "request (teardown_run h a) s = (r, s')"
    by fastforce
  ultimately show ?thesis
    using request_wp [OF run, where Q = ?Q] by (auto split: sum.splits)
qed

text \<open>A teardown cannot get past a lost secret.  While Key Vault does not hold the GitHub token an
  account refers to, no teardown of the account removes its row: it either marks the account
  failed in the gateway step, or it raises and leaves the account as it is, still being
  deleted, each time it is tried again.\<close>

lemma lost_token_blocks_the_teardown:
  assumes "ga_oauth_token_kv_ref a = Some name" and "name \<noteq> []"
    and "\<And>w. \<exists>e w'. get_secret (core h) name w = (Inl e, w')"
  shows "case request (teardown_run h a) s of
      (Inl _, s') \<Rightarrow> committed s' = committed s
    | (Inr _, s') \<Rightarrow> marked (ga_id a) FAILED (committed s) (committed s')
        \<and> (\<exists>w e w'. remove_hub_from_pools (arm (apim (core h))) (ga_id a) (Some (ga_backend_ids a)) w = (Inl e, w'))"
proof -
  let ?Q = "\<lambda>r t. case r of Inl _ \<Rightarrow> t = committed s
    | Inr _ \<Rightarrow> marked (ga_id a) FAILED (committed s) t
        \<and> (\<exists>w e w'. remove_hub_from_pools (arm (apim (core h))) (ga_id a) (Some (ga_backend_ids a)) w = (Inl e, w'))"
  have lost: "wp (cloud (get_secret (core h) name)) Q E u" if "\<And>e w. E e (u\<lparr>world := w\<rparr>)" for Q E and u :: "'a sys"
    using that assms(3) [of "world u"] by (auto simp: wp_def cloud_def)
  have refs: "opt_true (ga_oauth_token_kv_ref a)" "opt_or_empty (ga_oauth_token_kv_ref a) = name"
    using assms(1,2) by (simp_all add: opt_true_def opt_or_empty_def)
  have "wp (teardown_run h a) (\<lambda>x t. ?Q (Inr x) (committed t)) (\<lambda>e t. ?Q (Inl e) (committed t)) (s\<lparr>session := committed s\<rparr>)"
    unfolding teardown_run_def wp_bnd wp_attempt wp_cloud
    by (rule wpI_frame) (auto simp: refs wp_bnd intro!: wp_fail_account lost)
  moreover obtain r s' where run: "request (teardown_run h a) s = (r, s')"
    by fastforce
  ultimately show ?thesis
    using request_wp [OF run, where Q = ?Q] by (auto split: sum.splits)
qed

definition lossy_hub :: "((string \<Rightarrow> string option) \<times> int) hub_svc" where
  "lossy_hub = mem_hub\<lparr>core := (core mem_hub)\<lparr>kv_get := (\<lambda>n w. (Inl (ResourceNotFoundError n), w))\<rparr>\<rparr>"

lemma lost_token_blocks_the_teardown_witness:
  "\<exists>r s'. request (teardown_run lossy_hub (toy_account DELETING)) (fleet DELETING) = (r, s')
     \<and> ''a1'' \<in> ga_id ` set (github_accounts (committed s'))"
proof -
  obtain r s' where run: "request (teardown_run lossy_hub (toy_account DELETING)) (fleet DELETING) = (r, s')"
    by fastforce
  have "ga_oauth_token_kv_ref (toy_account DELETING) = Some ''gh-a1-oauth''" "ga_id (toy_account DELETING) = ''a1''"
    "github_accounts (committed (fleet DELETING)) = [toy_account DELETING]"
    by (simp_all add: toy_account_def fleet_def fleet_tables_def)
  moreover have "\<exists>e w'. get_secret (core lossy_hub) ''gh-a1-oauth'' w = (Inl e, w')" for w
    by (simp add: lossy_hub_def get_secret_def)
  ultimately show ?thesis
    using lost_token_blocks_the_teardown [of "toy_account DELETING" "''gh-a1-oauth''" lossy_hub "fleet DELETING"] run
    by (auto simp: marked_def intro: rev_image_eqI split: sum.splits dest!: row_by_Some)
qed

text \<open>The accounts are one of two tables.\<close>

definition either_table :: "github_account list \<Rightarrow> github_account list \<Rightarrow> 'w sys \<Rightarrow> bool" where
  "either_table rows rows' s \<longleftrightarrow> github_accounts (committed s) \<in> {rows, rows'} \<and> github_accounts (session s) \<in> {rows, rows'}"

interpretation either: table_guard "either_table rows rows'" for rows rows'
  by unfold_locales (auto simp: either_table_def)

text \<open>C21: a deployment settles its account.  The last part of a deployment that ends by itself leaves the
  account ready, and then the hub has joined the gateway's pools, or failed; it does so
  whatever the account's status has become in the meantime, a deletion included.  If it
  raises, the status of the account is what it was.\<close>

theorem deployment_settles_the_account:
  "case request (deploy_join h i b) s of
      (Inl _, s') \<Rightarrow> map_option ga_status (row_by ga_id i (github_accounts (committed s')))
          = map_option ga_status (row_by ga_id i (github_accounts (committed s)))
    | (Inr _, s') \<Rightarrow> marked i FAILED (committed s) (committed s')
        \<or> marked i READY (committed s) (committed s')
          \<and> (\<exists>w w' ids. add_hub_to_pools (arm (apim (core h))) i (bt_fqdn b) (bt_hub_key b) w = (Inr ids, w'))"
proof -
  let ?A = "github_accounts (committed s)"
  let ?Q = "\<lambda>r t. case r of
      Inl _ \<Rightarrow> map_option ga_status (row_by ga_id i (github_accounts t)) = map_option ga_status (row_by ga_id i ?A)
    | Inr _ \<Rightarrow> marked i FAILED (committed s) t
        \<or> marked i READY (committed s) t
          \<and> (\<exists>w w' ids. add_hub_to_pools (arm (apim (core h))) i (bt_fqdn b) (bt_hub_key b) w = (Inr ids, w'))"
  let ?ready = "\<lambda>a. a\<lparr>ga_status := READY, ga_error_detail := None\<rparr>"
  have "wp (deploy_join h i b) (\<lambda>x t. ?Q (Inr x) (committed t)) (\<lambda>e t. ?Q (Inl e) (committed t)) (s\<lparr>session := committed s\<rparr>)"
    unfolding deploy_join_def wp_bnd wp_attempt
  proof (rule wp_cloud_result)
    fix backend_ids w w'
    assume joined: "add_hub_to_pools (arm (apim (core h))) i (bt_fqdn b) (bt_hub_key b) w = (Inr backend_ids, w')"
    let ?B = "modify_account i (\<lambda>a. a\<lparr>ga_backend_ids := backend_ids\<rparr>) ?A"
    let ?J = "either_table ?A ?B"
    have same: "map_option ga_status (row_by ga_id i ?B) = map_option ga_status (row_by ga_id i ?A)"
      by (simp add: row_modified option.map_comp comp_def)
    have others: "filter (\<lambda>a. ga_id a \<noteq> i) ?B = filter (\<lambda>a. ga_id a \<noteq> i) ?A"
      by (rule others_kept) simp
    have quiet: "?Q (Inl e) (committed u)" if "?J u" for e u
      using that same by (auto simp: either_table_def)
    have ready: "wp (write_account h i ?ready) (\<lambda>x t. ?Q (Inr x) (committed t)) (\<lambda>e t. ?Q (Inl e) (committed t)) u" if J: "?J u" for u
    proof (rule wp_write_account)
      fix v
      assume "row_by ga_id i (github_accounts (session u)) \<noteq> None"
      then have "marked i READY (committed s) (with_account i ?ready (session u))"
        using J others by (auto simp: marked_def with_account_def row_modified others_kept either_table_def)
      then show "?Q (Inr ()) (committed (u\<lparr>session := with_account i ?ready (session u), world := v,
            committed := with_account i ?ready (session u)\<rparr>))"
        using joined by auto
    qed (use quiet [OF J] in auto)
    have "stays ?J (register_hub_catalog h (flush_account h i) (bt_fqdn b) (bt_admin_token b) False)"
      by (rule either.register_call) simp
    then have reg: "wp (register_hub_catalog h (flush_account h i) (bt_fqdn b) (bt_admin_token b) False) (\<lambda>_. ?J) (\<lambda>_. ?J) u"
      if "?J u" for u
      using that by (simp add: stays_def)
    have "wp (register_hub_catalog h (flush_account h i) (bt_fqdn b) (bt_admin_token b) False)
        (\<lambda>_. wp (write_account h i ?ready) (\<lambda>x t. ?Q (Inr x) (committed t)) (\<lambda>e t. ?Q (Inl e) (committed t)))
        (\<lambda>e t. ?Q (Inl e) (committed t)) u" if "?J u" for u
      by (rule wp_conseq [OF reg [OF that]]) (rule ready quiet; assumption)+
    then show "wp (case Inr backend_ids of
        Inl e \<Rightarrow> fail_account h i id (py_take 2000 (exn_str e))
      | Inr backend_ids \<Rightarrow>
         sq (edit (\<lambda>t. t\<lparr>github_accounts := modify_account i (\<lambda>a. a\<lparr>ga_backend_ids := backend_ids\<rparr>) (github_accounts t)\<rparr>))
        (bnd (register_hub_catalog h (flush_account h i) (bt_fqdn b) (bt_admin_token b) False) (\<lambda>_. write_account h i ?ready)))
      (\<lambda>x t. ?Q (Inr x) (committed t)) (\<lambda>e t. ?Q (Inl e) (committed t)) (s\<lparr>session := committed s, world := w'\<rparr>)"
      by (simp add: wp_sq wp_edit wp_bnd either_table_def)
  qed (auto intro!: wp_fail_account)
  moreover obtain r s' where run: "request (deploy_join h i b) s = (r, s')"
    by fastforce
  ultimately show ?thesis
    using request_wp [OF run, where Q = ?Q] by (auto split: sum.splits)
qed

end
