(* ===== verification/DeployConfig.thy ===== *)
theory DeployConfig
  imports HubDeploy
begin

text \<open>
  Wiring the deployment repository (\<^verbatim>\<open>api/deploy_config.py\<close>): two access tokens go to Key Vault,
  the credentials of the service principal go from Key Vault to the secrets of the repository,
  and the status that opens the way to adding an account is read off Key Vault.

  \<^verbatim>\<open>wire_laws\<close> is the contract of the world: Key Vault is a map, a write that fails may have
  stored its value all the same, and every answered HTTP request is on the trace.
\<close>

section \<open>Key Vault\<close>

definition CONFIGURED_FLAG_SECRET :: string where
  "CONFIGURED_FLAG_SECRET = ''github-repo-configured''"

definition SP_SECRET_MAP :: "(string, string) dict" where
  "SP_SECRET_MAP =
     [(''deployer-sp-client-id'', ''ARM_CLIENT_ID''), (''deployer-sp-client-secret'', ''ARM_CLIENT_SECRET''),
      (''deployer-sp-tenant-id'', ''ARM_TENANT_ID''), (''deployer-sp-subscription-id'', ''ARM_SUBSCRIPTION_ID'')]"

definition get_or_none :: "'w services \<Rightarrow> string \<Rightarrow> ('w, string option) eff" where
  "get_or_none svc name =
     catch_exn (get_secret svc name) (\<lambda>e. if is_resource_not_found e then ret None else raise e)"

definition deploy_pat_secret_name :: "settings \<Rightarrow> string" where
  "deploy_pat_secret_name s = github_token_secret s"

text \<open>\<^verbatim>\<open>all(...)\<close> of a generator stops at the first secret that is missing or empty.\<close>

fun all_present :: "'w services \<Rightarrow> string list \<Rightarrow> ('w, bool) eff" where
  "all_present svc [] = ret True"
| "all_present svc (n # ns) =
     bnd (get_or_none svc n) (\<lambda>v. if opt_true v then all_present svc ns else ret False)"

record deploy_config_status =
  dc_bootstrap_pat_set :: bool
  dc_deploy_pat_set :: bool
  dc_sp_creds_present :: bool
  dc_pushed :: bool
  dc_ready :: bool
  dc_detail :: "string option"

record deploy_pats_in =
  in_bootstrap_pat :: "string option"
  in_deploy_pat :: "string option"

definition compute_status :: "'w services \<Rightarrow> string option \<Rightarrow> ('w, deploy_config_status) eff" where
  "compute_status svc detail =
     bnd (get_or_none svc BOOTSTRAP_PAT_SECRET) (\<lambda>bootstrap.
     bnd (get_or_none svc (deploy_pat_secret_name (sv_settings svc))) (\<lambda>deploy.
     bnd (all_present svc (map fst SP_SECRET_MAP)) (\<lambda>sp_present.
     bnd (get_or_none svc CONFIGURED_FLAG_SECRET) (\<lambda>flag.
     let deploy_set = deploy \<noteq> None; pushed = (flag = Some ''true'') in
     ret \<lparr>dc_bootstrap_pat_set = (bootstrap \<noteq> None), dc_deploy_pat_set = deploy_set,
       dc_sp_creds_present = sp_present, dc_pushed = pushed, dc_ready = (deploy_set \<and> pushed),
       dc_detail = detail\<rparr>))))"

section \<open>The push\<close>

definition repo_variables :: "settings \<Rightarrow> exn + (string, string) dict" where
  "repo_variables s =
     (if hub_image_tag s = [] then
        Inl (HTTPException 409 (''TF_HUB_IMAGE_TAG is not set on the control plane, so hub deploys would pull ''
          @ ''`gitmodel:` and fail. Redeploy with deploy.sh, or set the env var to a gitmodel tag that exists in ACR.''))
      else Inr
       [(''HUB_ACR_NAME'', acr_name s), (''HUB_ACR_RG'', cf_resource_group s), (''HUB_LOCATION'', azure_location s),
        (''HUB_IMAGE_REF'', ''gitmodel:'' @ hub_image_tag s),
        (''TFSTATE_STORAGE_ACCOUNT'', tfstate_storage_account s), (''TFSTATE_CONTAINER'', tfstate_container s),
        (''HUB_KEYVAULT_NAME'', keyvault_name s), (''HUB_EVENTHUB_NAMESPACE_ID'', eventhub_namespace_id s),
        (''HUB_EVENTHUB_FQDN'', eventhub_fqdn s), (''HUB_EVENTHUB_NAME'', eventhub_name s),
        (''HUB_AUDIT_ACCOUNT_URL'', audit_account_url s), (''HUB_AUDIT_CONTAINER'', audit_container s),
        (''HUB_AUDIT_CONTAINER_SCOPE'', audit_container_scope s)])"

fun collect_sp :: "'w services \<Rightarrow> (string, string) dict \<Rightarrow> ('w, (string, string) dict) eff" where
  "collect_sp svc [] = ret []"
| "collect_sp svc ((kv_name, gh_nm) # rest) =
     bnd (get_or_none svc kv_name) (\<lambda>val.
     if \<not> opt_true val then
       raise (HTTPException 409 (''SP cred '' @ kv_name @ '' missing in Key Vault '' @ EM_DASH
                @ '' run create-deployer-sp.sh first''))
     else bnd (collect_sp svc rest) (\<lambda>out. ret ((gh_nm, opt_or_empty val) # out)))"

definition hub_repo :: "settings \<Rightarrow> string \<Rightarrow> gh_repo" where
  "hub_repo s token = \<lparr>gh_owner = github_repo_owner s, gh_name = github_repo_name s, gh_token = token\<rparr>"

definition push_sp_to_github :: "'w hub_svc \<Rightarrow> ('w, unit) eff" where
  "push_sp_to_github svc =
     bnd (get_or_none (core svc) BOOTSTRAP_PAT_SECRET) (\<lambda>bootstrap.
     if \<not> opt_true bootstrap then
       raise (HTTPException 409 (''bootstrap PAT not set '' @ EM_DASH @ '' paste GITHUB_BOOTSTRAP_PAT first''))
     else
       bnd (collect_sp (core svc) SP_SECRET_MAP) (\<lambda>secrets_out.
       sq (catch_exn
             (bnd (lift_sum (repo_variables (stg svc))) (\<lambda>variables.
              push svc (hub_repo (stg svc) (opt_or_empty bootstrap)) secrets_out variables))
             (\<lambda>e. if is_repo_error e then raise (HTTPException 502 (exn_str e)) else raise e))
       (bnd (set_secret (core svc) CONFIGURED_FLAG_SECRET ''true'') (\<lambda>_. ret ()))))"

section \<open>The endpoints\<close>

definition store_pat :: "'w services \<Rightarrow> string \<Rightarrow> string option \<Rightarrow> ('w, unit) eff" where
  "store_pat svc name pat =
     (if opt_true pat then bnd (set_secret svc name (opt_or_empty pat)) (\<lambda>_. ret ()) else ret ())"

fun is_http_exception :: "exn \<Rightarrow> bool" where
  "is_http_exception (HTTPException _ _) = True"
| "is_http_exception _ = False"

definition try_push :: "'w hub_svc \<Rightarrow> ('w, string option) eff" where
  "try_push svc =
     catch_exn (sq (push_sp_to_github svc) (ret None))
       (\<lambda>e. if is_http_exception e then ret (Some (exn_str e)) else raise e)"

definition auto_push :: "'w hub_svc \<Rightarrow> ('w, string option) eff" where
  "auto_push svc =
     bnd (get_or_none (core svc) BOOTSTRAP_PAT_SECRET) (\<lambda>bootstrap.
     bnd (all_present (core svc) (map fst SP_SECRET_MAP)) (\<lambda>sp_ready.
     if opt_true bootstrap \<and> sp_ready then try_push svc
     else if \<not> sp_ready then
       ret (Some (''PATs saved. SP creds not in Key Vault yet '' @ EM_DASH @ '' run create-deployer-sp.sh, then Push.''))
     else ret None))"

definition store_pats :: "'w services \<Rightarrow> deploy_pats_in \<Rightarrow> ('w, unit) eff" where
  "store_pats svc body =
     sq (store_pat svc BOOTSTRAP_PAT_SECRET (in_bootstrap_pat body))
        (store_pat svc (deploy_pat_secret_name (sv_settings svc)) (in_deploy_pat body))"

definition get_status :: "'w hub_svc \<Rightarrow> string \<Rightarrow> ('w, deploy_config_status) act" where
  "get_status svc authorization =
     as_admin (core svc) authorization (\<lambda>_. cloud (compute_status (core svc) None))"

definition save_pats :: "'w hub_svc \<Rightarrow> string \<Rightarrow> deploy_pats_in \<Rightarrow> ('w, deploy_config_status) act" where
  "save_pats svc authorization body =
     as_admin (core svc) authorization (\<lambda>_. cloud (
       sq (store_pats (core svc) body)
       (bnd (auto_push svc) (\<lambda>detail. compute_status (core svc) detail))))"

definition push_sp :: "'w hub_svc \<Rightarrow> string \<Rightarrow> ('w, deploy_config_status) act" where
  "push_sp svc authorization =
     as_admin (core svc) authorization (\<lambda>_. cloud (
       sq (push_sp_to_github svc) (compute_status (core svc) None)))"

section \<open>What Key Vault holds and what GitHub was sent\<close>

definition wire_laws ::
  "('w \<Rightarrow> string \<Rightarrow> string option) \<Rightarrow> ('w \<Rightarrow> (http_req \<times> http_resp) list) \<Rightarrow> 'w hub_svc \<Rightarrow> bool" where
  "wire_laws sec trace svc \<longleftrightarrow>
     (\<forall>n w. case kv_get (core svc) n w of
        (Inr v, w') \<Rightarrow> v = sec w n \<and> sec w' = sec w \<and> trace w' = trace w
      | (Inl e, w') \<Rightarrow> (is_resource_not_found e \<longrightarrow> sec w n = None) \<and> sec w' = sec w \<and> trace w' = trace w)
   \<and> (\<forall>n v w. case kv_set (core svc) n v w of
        (Inr _, w') \<Rightarrow> sec w' = (sec w)(n := Some v) \<and> trace w' = trace w
      | (Inl _, w') \<Rightarrow> (sec w' = sec w \<or> sec w' = (sec w)(n := Some v)) \<and> trace w' = trace w)
   \<and> (\<forall>req w. case http svc req w of
        (Inr rs, w') \<Rightarrow> sec w' = sec w \<and> trace w' = trace w @ [(req, rs)]
      | (Inl _, w') \<Rightarrow> sec w' = sec w \<and> trace w' = trace w)
   \<and> (\<forall>k v. keeps (\<lambda>w. (sec w, trace w)) (sealed_box svc k v))"

lemma wp_get_or_none:
  assumes "wire_laws sec trace svc"
    and "\<And>w'. sec w' = sec w \<Longrightarrow> trace w' = trace w \<Longrightarrow> Q (sec w n) w'"
    and "\<And>e w'. sec w' = sec w \<Longrightarrow> trace w' = trace w \<Longrightarrow> E e w'"
  shows "wp (get_or_none (core svc) n) Q E w"
proof -
  have "case kv_get (core svc) n w of
        (Inr v, w') \<Rightarrow> v = sec w n \<and> sec w' = sec w \<and> trace w' = trace w
      | (Inl e, w') \<Rightarrow> (is_resource_not_found e \<longrightarrow> sec w n = None) \<and> sec w' = sec w \<and> trace w' = trace w"
    using assms(1) by (simp add: wire_laws_def)
  then show ?thesis
    using assms(2,3)
    by (cases "kv_get (core svc) n w")
       (auto simp: get_or_none_def get_secret_def wp_def catch_exn_def ret_def raise_def split: sum.splits)
qed

lemma wp_set_secret:
  assumes "wire_laws sec trace svc"
    and "\<And>i w'. sec w' = (sec w)(n := Some v) \<Longrightarrow> trace w' = trace w \<Longrightarrow> Q i w'"
    and "\<And>e w'. sec w' = sec w \<or> sec w' = (sec w)(n := Some v) \<Longrightarrow> trace w' = trace w \<Longrightarrow> E e w'"
  shows "wp (set_secret (core svc) n v) Q E w"
proof -
  have "case kv_set (core svc) n v w of
        (Inr _, w') \<Rightarrow> sec w' = (sec w)(n := Some v) \<and> trace w' = trace w
      | (Inl _, w') \<Rightarrow> (sec w' = sec w \<or> sec w' = (sec w)(n := Some v)) \<and> trace w' = trace w"
    using assms(1) by (simp add: wire_laws_def)
  then show ?thesis
    using assms(2,3)
    by (cases "kv_set (core svc) n v w") (auto simp: set_secret_def wp_rules wp_def bnd_def ret_def split: sum.splits)
qed

lemma wp_http:
  assumes "wire_laws sec trace svc"
    and "\<And>rs w'. sec w' = sec w \<Longrightarrow> trace w' = trace w @ [(req, rs)] \<Longrightarrow> Q rs w'"
    and "\<And>e w'. sec w' = sec w \<Longrightarrow> trace w' = trace w \<Longrightarrow> E e w'"
  shows "wp (http svc req) Q E w"
proof -
  have "case http svc req w of
        (Inr rs, w') \<Rightarrow> sec w' = sec w \<and> trace w' = trace w @ [(req, rs)]
      | (Inl _, w') \<Rightarrow> sec w' = sec w \<and> trace w' = trace w"
    using assms(1) by (simp add: wire_laws_def)
  then show ?thesis
    using assms(2,3) by (cases "http svc req w") (auto simp: wp_def split: sum.splits)
qed

lemma wp_sealed_box:
  assumes "wire_laws sec trace svc"
    and "\<And>c w'. sealed_box svc k v w = (Inr c, w') \<Longrightarrow> sec w' = sec w \<Longrightarrow> trace w' = trace w \<Longrightarrow> Q c w'"
    and "\<And>e w'. sec w' = sec w \<Longrightarrow> trace w' = trace w \<Longrightarrow> E e w'"
  shows "wp (sealed_box svc k v) Q E w"
  using assms by (intro wp_keeps [where obs = "\<lambda>w. (sec w, trace w)"]) (auto simp: wire_laws_def)

lemma wp_all_present:
  assumes "wire_laws sec trace svc"
    and "\<And>w'. sec w' = sec w \<Longrightarrow> trace w' = trace w \<Longrightarrow> Q (\<forall>n\<in>set ns. opt_true (sec w n)) w'"
    and "\<And>e w'. sec w' = sec w \<Longrightarrow> trace w' = trace w \<Longrightarrow> E e w'"
  shows "wp (all_present (core svc) ns) Q E w"
  using assms(2,3)
proof (induction ns arbitrary: w)
  case Nil
  then show ?case by (simp add: wp_rules)
next
  case (Cons n ns)
  show ?case
    unfolding all_present.simps wp_bnd
  proof (rule wp_get_or_none [OF assms(1)])
    fix w'
    assume w': "sec w' = sec w" "trace w' = trace w"
    show "wp (if opt_true (sec w n) then all_present (core svc) ns else ret False) Q E w'"
    proof (cases "opt_true (sec w n)")
      case True
      then show ?thesis
        using Cons.prems w' by (auto intro!: Cons.IH)
    next
      case False
      then show ?thesis
        using Cons.prems(1) [OF w'] by (simp add: wp_rules)
    qed
  qed (use Cons.prems(2) in simp)
qed

text \<open>What is collected are the stored credentials, all of them there.\<close>

definition sp_secrets :: "(string \<Rightarrow> string option) \<Rightarrow> (string, string) dict \<Rightarrow> (string, string) dict" where
  "sp_secrets held = map (\<lambda>(kv_name, gh_nm). (gh_nm, opt_or_empty (held kv_name)))"

lemma wp_collect_sp:
  assumes "wire_laws sec trace svc"
    and "\<And>w'. sec w' = sec w \<Longrightarrow> trace w' = trace w \<Longrightarrow> \<forall>n\<in>fst ` set ms. opt_true (sec w n) \<Longrightarrow>
      Q (sp_secrets (sec w) ms) w'"
    and "\<And>e w'. sec w' = sec w \<Longrightarrow> trace w' = trace w \<Longrightarrow> E e w'"
  shows "wp (collect_sp (core svc) ms) Q E w"
  using assms(2,3)
proof (induction ms arbitrary: w Q)
  case Nil
  then show ?case by (simp add: wp_rules sp_secrets_def)
next
  case (Cons m ms)
  obtain k g where m: "m = (k, g)"
    by (cases m)
  show ?case
    unfolding m collect_sp.simps wp_bnd
  proof (rule wp_get_or_none [OF assms(1)])
    fix w'
    assume w': "sec w' = sec w" "trace w' = trace w"
    show "wp (if \<not> opt_true (sec w k)
        then raise (HTTPException 409 (''SP cred '' @ k @ '' missing in Key Vault '' @ EM_DASH @ '' run create-deployer-sp.sh first''))
        else bnd (collect_sp (core svc) ms) (\<lambda>out. ret ((g, opt_or_empty (sec w k)) # out))) Q E w'"
      using Cons.prems w' m by (auto simp: wp_rules wp_fun_rules sp_secrets_def intro!: Cons.IH)
  qed (use Cons.prems(2) in simp)
qed

lemma wp_compute_status:
  assumes "wire_laws sec trace svc"
    and "\<And>st w'. sec w' = sec w \<Longrightarrow> trace w' = trace w \<Longrightarrow>
      dc_ready st = (sec w (github_token_secret (stg svc)) \<noteq> None \<and> sec w CONFIGURED_FLAG_SECRET = Some ''true'') \<Longrightarrow>
      dc_sp_creds_present st = (\<forall>n\<in>fst ` set SP_SECRET_MAP. opt_true (sec w n)) \<Longrightarrow> dc_detail st = detail \<Longrightarrow> Q st w'"
    and "\<And>e w'. sec w' = sec w \<Longrightarrow> trace w' = trace w \<Longrightarrow> E e w'"
  shows "wp (compute_status (core svc) detail) Q E w"
  unfolding compute_status_def wp_bnd_fun wp_bnd
  by (rule wp_get_or_none [OF assms(1)] wp_all_present [OF assms(1)]
      | simp add: wp_rules Let_def wp_fun_rules deploy_pat_secret_name_def assms(2,3))+

section \<open>What a push sends\<close>

definition secret_sent :: "'w hub_svc \<Rightarrow> gh_repo \<Rightarrow> string \<Rightarrow> string \<Rightarrow> (http_req \<times> http_resp) list \<Rightarrow> bool" where
  "secret_sent svc g name v l \<longleftrightarrow>
     (\<exists>headers key_id pub c u u' rs.
        (http_send ''PUT'' (repo_base g @ ''/actions/secrets/'' @ name) headers
           [(''encrypted_value'', JStr (b64_pad (b64_encode False c))), (''key_id'', key_id)], rs) \<in> set l
      \<and> sealed_box svc pub v u = (Inr c, u') \<and> hr_status rs \<in> {201, 204})"

definition variable_sent :: "gh_repo \<Rightarrow> string \<Rightarrow> string \<Rightarrow> (http_req \<times> http_resp) list \<Rightarrow> bool" where
  "variable_sent g name v l \<longleftrightarrow>
     (\<exists>headers rs. let body = [(''name'', JStr name), (''value'', JStr v)]; url = repo_base g @ ''/actions/variables'' in
        (http_send ''PATCH'' (url @ ''/'' @ name) headers body, rs) \<in> set l \<and> hr_status rs = 204
      \<or> (http_send ''POST'' url headers body, rs) \<in> set l \<and> hr_status rs = 201)"

text \<open>The trace grew by a list of which \<^verbatim>\<open>P\<close> holds, and Key Vault stayed.\<close>

definition sends ::
  "('w \<Rightarrow> string \<Rightarrow> string option) \<Rightarrow> ('w \<Rightarrow> (http_req \<times> http_resp) list) \<Rightarrow> ((http_req \<times> http_resp) list \<Rightarrow> bool) \<Rightarrow>
   'w \<Rightarrow> 'w \<Rightarrow> bool" where
  "sends sec trace P w w' \<longleftrightarrow> sec w' = sec w \<and> (\<exists>l. trace w' = trace w @ l \<and> P l)"

definition grows :: "((http_req \<times> http_resp) list \<Rightarrow> bool) \<Rightarrow> bool" where
  "grows P \<longleftrightarrow> (\<forall>l l'. P l \<longrightarrow> P (l @ l')) \<and> (\<forall>l l'. P l' \<longrightarrow> P (l @ l'))"

lemma grows_sent: "grows (secret_sent svc g n v)" "grows (variable_sent g n v)"
  unfolding grows_def secret_sent_def variable_sent_def Let_def set_append by blast+

lemma grows_all: "(\<And>x. x \<in> A \<Longrightarrow> grows (P x)) \<Longrightarrow> grows (\<lambda>l. \<forall>x\<in>A. P x l)"
  by (simp add: grows_def)

lemma sends_trans:
  assumes "sends sec trace P w u" and "sends sec trace P' u w'" and "grows P" and "grows P'"
  shows "sends sec trace (\<lambda>l. P l \<and> P' l) w w'"
  using assms unfolding sends_def grows_def by fastforce

lemma sends_mono: "sends sec trace P w w' \<Longrightarrow> (\<And>l. P l \<Longrightarrow> P' l) \<Longrightarrow> sends sec trace P' w w'"
  unfolding sends_def by blast

lemma secret_sentI:
  "(http_send ''PUT'' (repo_base g @ ''/actions/secrets/'' @ n) headers
      [(''encrypted_value'', JStr (b64_pad (b64_encode False c))), (''key_id'', key_id)], rs) \<in> set l \<Longrightarrow>
    sealed_box svc pub v u = (Inr c, u') \<Longrightarrow> hr_status rs \<in> {201, 204} \<Longrightarrow> secret_sent svc g n v l"
  unfolding secret_sent_def by blast

lemma variable_sentI:
  "(http_send ''PATCH'' (repo_base g @ ''/actions/variables'' @ ''/'' @ n) headers
      [(''name'', JStr n), (''value'', JStr v)], rs) \<in> set l \<Longrightarrow> hr_status rs = 204 \<Longrightarrow> variable_sent g n v l"
  "(http_send ''POST'' (repo_base g @ ''/actions/variables'') headers
      [(''name'', JStr n), (''value'', JStr v)], rs) \<in> set l \<Longrightarrow> hr_status rs = 201 \<Longrightarrow> variable_sent g n v l"
  unfolding variable_sent_def Let_def append_assoc by blast+

lemma wp_set_variable:
  assumes "wire_laws sec trace svc"
  shows "wp (set_variable svc g n v) (\<lambda>_. sends sec trace (variable_sent g n v) w) (\<lambda>_ w'. sec w' = sec w) w"
proof -
  let ?url = "repo_base g @ ''/actions/variables''" and ?body = "[(''name'', JStr n), (''value'', JStr v)]"
  have patch: "variable_sent g n v [x, (http_send ''PATCH'' (?url @ ''/'' @ n) headers ?body, rs)]"
    if "hr_status rs = 204" for x headers rs
    by (rule variable_sentI(1) [where headers = headers and rs = rs]) (use that in simp_all)
  have post: "variable_sent g n v [x, (http_send ''POST'' ?url headers ?body, rs)]"
    if "hr_status rs = 201" for x headers rs
    by (rule variable_sentI(2) [where headers = headers and rs = rs]) (use that in simp_all)
  show ?thesis
    unfolding set_variable_def Let_def wp_bnd
    by (rule wp_http [OF assms])
       (use patch post in \<open>auto simp: wp_rules wp_fun_rules sends_def intro!: wp_http [OF assms]\<close>)
qed

lemma wp_get_public_key:
  assumes "wire_laws sec trace svc"
    and "\<And>k w' l. sec w' = sec w \<Longrightarrow> trace w' = trace w @ l \<Longrightarrow> Q k w'" and "\<And>e w'. sec w' = sec w \<Longrightarrow> E e w'"
  shows "wp (get_public_key svc g cached) Q E w"
proof (cases cached)
  case None
  have "wp (http svc (http_get (repo_base g @ ''/actions/secrets/public-key'') (repo_headers (gh_token g)) []))
    (\<lambda>r. wp (if hr_status r \<noteq> 200 then
            raise (GitHubRepoError (''could not read repo public key ('' @ int_str (hr_status r) @ ''): ''
                     @ py_take 300 (hr_text r)))
          else
            lift_sum (bind_sum (body_of r) (\<lambda>data.
              bind_sum (j_item data ''key_id'') (\<lambda>key_id.
              bind_sum (j_item data ''key'') (\<lambda>key. Inr (key_id, key)))))) Q E) E w"
    by (rule wp_http [OF assms(1)]) (auto simp: wp_rules assms(2,3) split: sum.splits)
  then show ?thesis
    using None by (simp add: get_public_key_def wp_bnd)
next
  case (Some k)
  have "Q k w"
    by (rule assms(2) [where l = "[]"]) simp_all
  then show ?thesis
    using Some by (simp add: get_public_key_def wp_rules)
qed

lemma wp_encrypt_secret:
  assumes "wire_laws sec trace svc"
    and "\<And>pub c u' w'. sealed_box svc pub v w = (Inr c, u') \<Longrightarrow> sec w' = sec w \<Longrightarrow> trace w' = trace w \<Longrightarrow>
      Q (b64_pad (b64_encode False c)) w'"
    and "\<And>e w'. sec w' = sec w \<Longrightarrow> E e w'"
  shows "wp (encrypt_secret svc b v) Q E w"
  unfolding encrypt_secret_def
  by (auto simp: wp_rules split: option.splits intro!: wp_sealed_box [OF assms(1)] assms(2,3))

lemma wp_set_repo_secret:
  assumes "wire_laws sec trace svc"
  shows "wp (set_repo_secret svc g cached n v) (\<lambda>_. sends sec trace (secret_sent svc g n v) w) (\<lambda>_ w'. sec w' = sec w) w"
  unfolding set_repo_secret_def wp_bnd
proof (rule wp_get_public_key [OF assms])
  fix k :: "json \<times> json" and u l
  obtain key_id key where k: "k = (key_id, key)"
    by (cases k)
  let ?put = "\<lambda>enc. http_send ''PUT'' (repo_base g @ ''/actions/secrets/'' @ n) (repo_headers (gh_token g))
            [(''encrypted_value'', JStr enc), (''key_id'', key_id)]"
  let ?check = "\<lambda>r. if hr_status r \<notin> {201, 204} then
       raise (GitHubRepoError (''failed to set secret '' @ n @ '' ('' @ int_str (hr_status r) @ ''): ''
                @ py_take 300 (hr_text r)))
     else ret (Some (key_id, key))"
  assume u: "sec u = sec w" "trace u = trace w @ l"
  have put: "wp (http svc (?put (b64_pad (b64_encode False c))))
      (\<lambda>r. wp (?check r) (\<lambda>_. sends sec trace (secret_sent svc g n v) w) (\<lambda>_ w'. sec w' = sec w)) (\<lambda>_ w'. sec w' = sec w) x"
    if c: "sealed_box svc pub v y = (Inr c, y')" and x: "sec x = sec u" "trace x = trace u" for pub c x y y'
  proof (rule wp_http [OF assms])
    fix rs x'
    assume x': "sec x' = sec x" "trace x' = trace x @ [(?put (b64_pad (b64_encode False c)), rs)]"
    have "sends sec trace (secret_sent svc g n v) w x'" if "hr_status rs \<in> {201, 204}"
      unfolding sends_def
    proof (intro conjI exI)
      show "trace x' = trace w @ l @ [(?put (b64_pad (b64_encode False c)), rs)]"
        using x' x u by simp
      show "secret_sent svc g n v (l @ [(?put (b64_pad (b64_encode False c)), rs)])"
        by (rule secret_sentI [where headers = "repo_headers (gh_token g)" and key_id = key_id, OF _ c that]) simp
    qed (use x' x u in simp)
    then show "wp (?check rs) (\<lambda>_. sends sec trace (secret_sent svc g n v) w) (\<lambda>_ w'. sec w' = sec w) x'"
      using x' x u by (simp add: wp_rules)
  qed (use x u in simp)
  have "wp (encrypt_secret svc b v) (\<lambda>enc. wp (http svc (?put enc)) (\<lambda>r. wp (?check r)
      (\<lambda>_. sends sec trace (secret_sent svc g n v) w) (\<lambda>_ w'. sec w' = sec w)) (\<lambda>_ w'. sec w' = sec w)) (\<lambda>_ w'. sec w' = sec w) u" for b
    by (rule wp_encrypt_secret [OF assms]) (use u put in auto)
  then show "wp (case k of (key_id, key) \<Rightarrow> bnd (lift_sum (j_text key)) (\<lambda>key_b64.
       bnd (encrypt_secret svc key_b64 v) (\<lambda>enc.
       bnd (http svc (http_send ''PUT'' (repo_base g @ ''/actions/secrets/'' @ n) (repo_headers (gh_token g))
              [(''encrypted_value'', JStr enc), (''key_id'', key_id)])) (\<lambda>r.
       if hr_status r \<notin> {201, 204} then
         raise (GitHubRepoError (''failed to set secret '' @ n @ '' ('' @ int_str (hr_status r) @ ''): ''
                  @ py_take 300 (hr_text r)))
       else ret (Some (key_id, key))))))
      (\<lambda>_. sends sec trace (secret_sent svc g n v) w) (\<lambda>_ w'. sec w' = sec w) u"
    using u by (simp only: k prod.case wp_bnd_fun wp_bnd wp_lift_sum) (simp split: sum.splits)
qed simp

lemma wp_push_secrets:
  assumes "wire_laws sec trace svc"
  shows "wp (push_secrets svc g cached ss)
    (\<lambda>_. sends sec trace (\<lambda>l. \<forall>(n, v)\<in>set ss. secret_sent svc g n v l) w) (\<lambda>_ w'. sec w' = sec w) w"
proof (induction ss arbitrary: cached w)
  case Nil
  then show ?case by (simp add: wp_rules sends_def)
next
  case (Cons p ss)
  obtain n v where p: "p = (n, v)"
    by (cases p)
  have grow: "grows (\<lambda>l. \<forall>(n, v)\<in>set ss. secret_sent svc g n v l)"
    by (rule grows_all) (auto intro: grows_sent)
  show ?case
    unfolding p push_secrets.simps wp_bnd
  proof (rule wp_conseq [OF wp_set_repo_secret [OF assms]])
    fix cached' u
    assume u: "sends sec trace (secret_sent svc g n v) w u"
    show "wp (push_secrets svc g cached' ss)
       (\<lambda>_. sends sec trace (\<lambda>l. \<forall>(n, v)\<in>set ((n, v) # ss). secret_sent svc g n v l) w) (\<lambda>_ w'. sec w' = sec w) u"
    proof (rule wp_conseq [OF Cons.IH])
      fix a :: unit and w'
      assume "sends sec trace (\<lambda>l. \<forall>(n, v)\<in>set ss. secret_sent svc g n v l) u w'"
      from sends_trans [OF u this grows_sent(1) grow]
      show "sends sec trace (\<lambda>l. \<forall>(n, v)\<in>set ((n, v) # ss). secret_sent svc g n v l) w w'"
        by (rule sends_mono) auto
    qed (use u in \<open>simp add: sends_def\<close>)
  qed
qed

lemma wp_set_variables:
  assumes "wire_laws sec trace svc"
  shows "wp (for_each vs (\<lambda>(n, v). set_variable svc g n v))
    (\<lambda>_. sends sec trace (\<lambda>l. \<forall>(n, v)\<in>set vs. variable_sent g n v l) w) (\<lambda>_ w'. sec w' = sec w) w"
proof (induction vs arbitrary: w)
  case Nil
  then show ?case by (simp add: wp_rules sends_def)
next
  case (Cons p vs)
  obtain n v where p: "p = (n, v)"
    by (cases p)
  have grow: "grows (\<lambda>l. \<forall>(n, v)\<in>set vs. variable_sent g n v l)"
    by (rule grows_all) (auto intro: grows_sent)
  show ?case
    unfolding p for_each.simps prod.case wp_sq
  proof (rule wp_conseq [OF wp_set_variable [OF assms]])
    fix a :: unit and u
    assume u: "sends sec trace (variable_sent g n v) w u"
    show "wp (for_each vs (\<lambda>(n, v). set_variable svc g n v))
       (\<lambda>_. sends sec trace (\<lambda>l. \<forall>(n, v)\<in>set ((n, v) # vs). variable_sent g n v l) w) (\<lambda>_ w'. sec w' = sec w) u"
    proof (rule wp_conseq [OF Cons.IH])
      fix a :: unit and w'
      assume "sends sec trace (\<lambda>l. \<forall>(n, v)\<in>set vs. variable_sent g n v l) u w'"
      from sends_trans [OF u this grows_sent(2) grow]
      show "sends sec trace (\<lambda>l. \<forall>(n, v)\<in>set ((n, v) # vs). variable_sent g n v l) w w'"
        by (rule sends_mono) auto
    qed (use u in \<open>simp add: sends_def\<close>)
  qed
qed

definition all_sent ::
  "'w hub_svc \<Rightarrow> gh_repo \<Rightarrow> (string, string) dict \<Rightarrow> (string, string) dict \<Rightarrow> (http_req \<times> http_resp) list \<Rightarrow> bool" where
  "all_sent svc g ss vs l \<longleftrightarrow>
     (\<forall>(n, v)\<in>set ss. secret_sent svc g n v l) \<and> (\<forall>(n, v)\<in>set vs. variable_sent g n v l)"

lemma wp_push:
  assumes "wire_laws sec trace svc"
  shows "wp (push svc g ss vs) (\<lambda>_. sends sec trace (all_sent svc g ss vs) w) (\<lambda>_ w'. sec w' = sec w) w"
proof -
  have grow: "grows (\<lambda>l. \<forall>(n, v)\<in>set ss. secret_sent svc g n v l)" "grows (\<lambda>l. \<forall>(n, v)\<in>set vs. variable_sent g n v l)"
    by (rule grows_all; auto intro: grows_sent)+
  show ?thesis
    unfolding push_def wp_sq
  proof (rule wp_conseq [OF wp_push_secrets [OF assms]])
    fix a :: unit and u
    assume u: "sends sec trace (\<lambda>l. \<forall>(n, v)\<in>set ss. secret_sent svc g n v l) w u"
    show "wp (for_each vs (\<lambda>(n, v). set_variable svc g n v)) (\<lambda>_. sends sec trace (all_sent svc g ss vs) w)
        (\<lambda>_ w'. sec w' = sec w) u"
      using sends_trans [OF u _ grow] u
      by (intro wp_conseq [OF wp_set_variables [OF assms]]) (auto simp: sends_def all_sent_def)
  qed
qed

section \<open>The gate\<close>

text \<open>The repository was given the credentials that Key Vault held, and every variable, and accepted
  each of them.\<close>

definition wired_with :: "'w hub_svc \<Rightarrow> (string \<Rightarrow> string option) \<Rightarrow> (http_req \<times> http_resp) list \<Rightarrow> bool" where
  "wired_with svc held l \<longleftrightarrow>
     (\<forall>n\<in>fst ` set SP_SECRET_MAP. opt_true (held n))
   \<and> (\<exists>token variables. repo_variables (stg svc) = Inr variables
      \<and> all_sent svc (hub_repo (stg svc) token) (sp_secrets held SP_SECRET_MAP) variables l)"

definition flag_follows ::
  "('w \<Rightarrow> string \<Rightarrow> string option) \<Rightarrow> ('w \<Rightarrow> (http_req \<times> http_resp) list) \<Rightarrow> 'w hub_svc \<Rightarrow> 'w \<Rightarrow> 'w \<Rightarrow> bool" where
  "flag_follows sec trace svc w w' \<longleftrightarrow>
     sec w' CONFIGURED_FLAG_SECRET = sec w CONFIGURED_FLAG_SECRET
   \<or> (\<exists>l. trace w' = trace w @ l \<and> wired_with svc (sec w) l)"

lemma wp_push_sp:
  assumes "wire_laws sec trace svc"
    and "\<And>w'. flag_follows sec trace svc w w' \<Longrightarrow> Q () w'" and "\<And>e w'. flag_follows sec trace svc w w' \<Longrightarrow> E e w'"
  shows "wp (push_sp_to_github svc) Q E w"
proof -
  note laws = assms(1)
  have same: "flag_follows sec trace svc w u" if "sec u = sec w" for u
    using that by (simp add: flag_follows_def)
  have mark: "wp (set_secret (core svc) CONFIGURED_FLAG_SECRET ''true'') (\<lambda>_. Q ()) E v"
    if "\<exists>l. trace v = trace w @ l \<and> wired_with svc (sec w) l" for v
    by (rule wp_set_secret [OF laws]) (use that in \<open>auto simp: flag_follows_def intro!: assms(2,3)\<close>)
  have pushed: "wp (push svc (hub_repo (stg svc) token) (sp_secrets (sec w) SP_SECRET_MAP) variables)
      (\<lambda>_. wp (set_secret (core svc) CONFIGURED_FLAG_SECRET ''true'') (\<lambda>_. Q ()) E)
      (\<lambda>e. wp (if is_repo_error e then raise (HTTPException 502 (exn_str e)) else raise e) Q' E) u"
    if u: "sec u = sec w" "trace u = trace w" "repo_variables (stg svc) = Inr variables"
      "\<forall>n\<in>fst ` set SP_SECRET_MAP. opt_true (sec w n)" for u token variables Q'
  proof (rule wp_conseq [OF wp_push [OF laws]])
    fix a :: unit and v
    assume "sends sec trace (all_sent svc (hub_repo (stg svc) token) (sp_secrets (sec w) SP_SECRET_MAP) variables) u v"
    then show "wp (set_secret (core svc) CONFIGURED_FLAG_SECRET ''true'') (\<lambda>_. Q ()) E v"
      using u by (intro mark) (auto simp: sends_def wired_with_def)
  qed (use u in \<open>auto simp: wp_rules intro!: assms(3) same\<close>)
  show ?thesis
    unfolding push_sp_to_github_def wp_bnd
  proof (rule wp_get_or_none [OF laws])
    fix w1
    assume w1: "sec w1 = sec w" "trace w1 = trace w"
    let ?b = "sec w BOOTSTRAP_PAT_SECRET"
    let ?rest = "\<lambda>secrets_out. sq (catch_exn
          (bnd (lift_sum (repo_variables (stg svc))) (\<lambda>variables.
           push svc (hub_repo (stg svc) (opt_or_empty ?b)) secrets_out variables))
          (\<lambda>e. if is_repo_error e then raise (HTTPException 502 (exn_str e)) else raise e))
        (bnd (set_secret (core svc) CONFIGURED_FLAG_SECRET ''true'') (\<lambda>_. ret ()))"
    have "wp (bnd (collect_sp (core svc) SP_SECRET_MAP) ?rest) Q E w1"
      unfolding wp_bnd
    proof (rule wp_collect_sp [OF laws])
      fix u
      assume u: "sec u = sec w1" "trace u = trace w1" "\<forall>n\<in>fst ` set SP_SECRET_MAP. opt_true (sec w1 n)"
      show "wp (?rest (sp_secrets (sec w1) SP_SECRET_MAP)) Q E u"
      proof (cases "repo_variables (stg svc)")
        case (Inl e)
        then show ?thesis
          using u(1) w1 by (auto simp: wp_rules wp_fun_rules intro!: assms(3) same)
      next
        case (Inr variables)
        then show ?thesis
          using pushed [of u variables "opt_or_empty ?b"] u w1 by (simp add: wp_rules wp_fun_rules)
      qed
    qed (use w1 assms(3) same in simp)
    then show "wp (if \<not> opt_true ?b then raise (HTTPException 409 (''bootstrap PAT not set '' @ EM_DASH @ '' paste GITHUB_BOOTSTRAP_PAT first''))
        else bnd (collect_sp (core svc) SP_SECRET_MAP) ?rest) Q E w1"
      using w1 assms(3) same by (auto simp: wp_rules)
  qed (use assms(3) same in simp)
qed

text \<open>Storing a token changes neither the flag nor the credentials, as long as its name is another.\<close>

definition free_name :: "settings \<Rightarrow> bool" where
  "free_name s \<longleftrightarrow> github_token_secret s \<notin> set (CONFIGURED_FLAG_SECRET # map fst SP_SECRET_MAP)"

lemma wp_store_pats:
  assumes "wire_laws sec trace svc" and "free_name (stg svc)"
    and "\<And>x w'. \<forall>n\<in>set (CONFIGURED_FLAG_SECRET # map fst SP_SECRET_MAP). sec w' n = sec w n \<Longrightarrow> trace w' = trace w \<Longrightarrow> Q x w'"
    and "\<And>x w'. \<forall>n\<in>set (CONFIGURED_FLAG_SECRET # map fst SP_SECRET_MAP). sec w' n = sec w n \<Longrightarrow> trace w' = trace w \<Longrightarrow> E x w'"
  shows "wp (store_pats (core svc) body) Q E w"
proof -
  let ?names = "set (CONFIGURED_FLAG_SECRET # map fst SP_SECRET_MAP)"
  define I where "I u \<longleftrightarrow> (\<forall>n\<in>?names. sec u n = sec w n) \<and> trace u = trace w" for u
  have one: "wp (store_pat (core svc) n pat) (\<lambda>_. I) (\<lambda>_. I) u" if "I u" "n \<notin> ?names" for n pat u
    using that by (auto simp: store_pat_def wp_rules I_def intro!: wp_set_secret [OF assms(1)])
  have free: "BOOTSTRAP_PAT_SECRET \<notin> ?names" "deploy_pat_secret_name (stg svc) \<notin> ?names" "I w"
    using assms(2) by (simp_all add: BOOTSTRAP_PAT_SECRET_def CONFIGURED_FLAG_SECRET_def SP_SECRET_MAP_def
        free_name_def deploy_pat_secret_name_def I_def)
  have both: "wp (store_pats (core svc) body) (\<lambda>_. I) (\<lambda>_. I) w"
    unfolding store_pats_def wp_sq
    by (rule wp_conseq [OF one [OF free(3) free(1)]], rule one [OF _ free(2)], assumption, assumption)
  show ?thesis
    by (rule wp_conseq [OF both]; rule assms(3,4)) (simp_all add: I_def)
qed

lemma wp_auto_push:
  assumes "wire_laws sec trace svc"
    and "\<And>x w'. flag_follows sec trace svc w w' \<Longrightarrow> Q x w'" and "\<And>x w'. flag_follows sec trace svc w w' \<Longrightarrow> E x w'"
  shows "wp (auto_push svc) Q E w"
proof -
  note laws = assms(1)
  have tried: "wp (try_push svc) Q E u" if "sec u = sec w" "trace u = trace w" for u
    unfolding try_push_def wp_catch wp_sq
    by (rule wp_push_sp [OF laws])
       (use that in \<open>auto simp: wp_rules flag_follows_def intro!: assms(2,3)\<close>)
  have same: "flag_follows sec trace svc w u" if "sec u = sec w" for u
    using that by (simp add: flag_follows_def)
  show ?thesis
    unfolding auto_push_def wp_bnd_fun wp_bnd
    by (auto simp: wp_rules wp_fun_rules intro!: wp_get_or_none [OF laws] wp_all_present [OF laws] tried assms(2,3) same)
qed

text \<open>A request that only asks who is there leaves the world alone.\<close>

lemma keeps_world_admin: "keeps world (require_admin svc hdr)"
  unfolding require_admin_def get_principal_def decode_jwt_def decode_token_def Let_def
  by (rule keeps_wp) (auto simp: wp_rules split: option.splits sum.splits)

lemma wp_as_admin_cloud:
  assumes "as_admin svc hdr (\<lambda>_. cloud m) s = (r, s')"
    and "wp m (\<lambda>a. Q (Inr a)) (\<lambda>e. Q (Inl e)) (world s)" and "\<And>e. Q (Inl e) (world s)"
  shows "Q r (world s')"
proof -
  let ?s = "s\<lparr>session := committed s\<rparr>"
  have "wp (bnd (require_admin svc hdr) (\<lambda>_. cloud m)) (\<lambda>a t. Q (Inr a) (world t)) (\<lambda>e t. Q (Inl e) (world t)) ?s"
    unfolding wp_bnd
    by (rule wp_keeps [OF keeps_world_admin]) (use assms(2,3) in \<open>simp_all add: wp_cloud\<close>)
  then show ?thesis
    using assms(1) by (auto simp: as_admin_def request_def wp_def split: prod.splits sum.splits)
qed

text \<open>An answer is honest when it reports readiness as Key Vault holds it and the flag only turned
  after a push that went through.\<close>

definition honest ::
  "('w \<Rightarrow> string \<Rightarrow> string option) \<Rightarrow> ('w \<Rightarrow> (http_req \<times> http_resp) list) \<Rightarrow> 'w hub_svc \<Rightarrow> 'w \<Rightarrow>
   exn + deploy_config_status \<Rightarrow> 'w \<Rightarrow> bool" where
  "honest sec trace svc w r w' \<longleftrightarrow>
     flag_follows sec trace svc w w'
   \<and> (case r of Inl _ \<Rightarrow> True
      | Inr st \<Rightarrow> dc_ready st =
          (sec w' (github_token_secret (stg svc)) \<noteq> None \<and> sec w' CONFIGURED_FLAG_SECRET = Some ''true''))"

lemma honest_error: "flag_follows sec trace svc w w' \<Longrightarrow> honest sec trace svc w (Inl e) w'"
  by (simp add: honest_def)

lemma wp_status_honest:
  assumes "wire_laws sec trace svc" and "flag_follows sec trace svc w u"
  shows "wp (compute_status (core svc) detail) (\<lambda>a. honest sec trace svc w (Inr a)) (\<lambda>e. honest sec trace svc w (Inl e)) u"
  by (rule wp_compute_status [OF assms(1)]) (use assms(2) in \<open>auto simp: honest_def flag_follows_def\<close>)

datatype wiring_request = GetStatus | SavePats deploy_pats_in | PushSp

fun serve_wiring :: "'w hub_svc \<Rightarrow> string \<Rightarrow> wiring_request \<Rightarrow> ('w, deploy_config_status) act" where
  "serve_wiring svc hdr GetStatus = get_status svc hdr"
| "serve_wiring svc hdr (SavePats body) = save_pats svc hdr body"
| "serve_wiring svc hdr PushSp = push_sp svc hdr"

lemma flag_follows_from:
  assumes "\<forall>n\<in>set (CONFIGURED_FLAG_SECRET # map fst SP_SECRET_MAP). sec u n = sec w n" and "trace u = trace w"
    and "flag_follows sec trace svc u w'"
  shows "flag_follows sec trace svc w w'"
proof -
  have "sp_secrets (sec u) SP_SECRET_MAP = sp_secrets (sec w) SP_SECRET_MAP"
    using assms(1) by (auto simp: sp_secrets_def)
  then have "wired_with svc (sec u) l = wired_with svc (sec w) l" for l
    using assms(1) by (simp add: wired_with_def)
  then show ?thesis
    using assms by (auto simp: flag_follows_def)
qed

lemma serve_wiring_honest:
  assumes laws: "wire_laws sec trace svc" and free: "free_name (stg svc)" and run: "serve_wiring svc hdr req s = (r, s')"
  shows "honest sec trace svc (world s) r (world s')"
proof -
  let ?w = "world s"
  note status = wp_status_honest [OF laws]
  have stay: "flag_follows sec trace svc ?w ?w"
    by (simp add: flag_follows_def)
  have answered: "honest sec trace svc ?w r (world s')"
    if "as_admin (core svc) hdr (\<lambda>_. cloud m) s = (r, s')"
      "wp m (\<lambda>a. honest sec trace svc ?w (Inr a)) (\<lambda>e. honest sec trace svc ?w (Inl e)) ?w" for m
    by (rule wp_as_admin_cloud [where Q = "honest sec trace svc ?w", OF that honest_error [OF stay]])
  show ?thesis
  proof (cases req)
    case GetStatus
    show ?thesis
      by (rule answered [OF _ status [OF stay]]) (use run GetStatus in \<open>simp add: get_status_def\<close>)
  next
    case (SavePats body)
    have "wp (sq (store_pats (core svc) body) (bnd (auto_push svc) (compute_status (core svc))))
        (\<lambda>a. honest sec trace svc ?w (Inr a)) (\<lambda>e. honest sec trace svc ?w (Inl e)) ?w"
      unfolding wp_sq
    proof (rule wp_store_pats [OF laws free])
      fix x u
      assume u: "\<forall>n\<in>set (CONFIGURED_FLAG_SECRET # map fst SP_SECRET_MAP). sec u n = sec ?w n" "trace u = trace ?w"
      show "wp (bnd (auto_push svc) (compute_status (core svc))) (\<lambda>a. honest sec trace svc ?w (Inr a))
          (\<lambda>e. honest sec trace svc ?w (Inl e)) u"
        unfolding wp_bnd
        by (rule wp_auto_push [OF laws]) (auto intro!: status honest_error flag_follows_from [OF u])
    qed (auto intro!: honest_error simp: flag_follows_def)
    then show ?thesis
      by (rule answered [rotated]) (use run SavePats in \<open>simp add: save_pats_def\<close>)
  next
    case PushSp
    have "wp (sq (push_sp_to_github svc) (compute_status (core svc) None))
        (\<lambda>a. honest sec trace svc ?w (Inr a)) (\<lambda>e. honest sec trace svc ?w (Inl e)) ?w"
      unfolding wp_sq
      by (rule wp_push_sp [OF laws]) (auto intro!: status honest_error)
    then show ?thesis
      by (rule answered [rotated]) (use run PushSp in \<open>simp add: push_sp_def\<close>)
  qed
qed

text \<open>C35: no request can open the gate by itself.  Every status that is returned calls the wiring
  ready exactly when the deployment token is in Key Vault and the flag reads true; and a request after
  which the flag newly reads true has, before its answer, sent GitHub each of the four credentials of
  the service principal as Key Vault held them, none empty, each sealed and accepted with 201 or 204,
  and every variable of the workflow, accepted too.  The world may fail anywhere; the deployment token
  must not be stored under the name of the flag or of a credential.\<close>

theorem gate_opens_only_after_a_push:
  assumes "wire_laws sec trace svc" and "free_name (stg svc)" and "serve_wiring svc hdr req s = (r, s')"
  shows "(case r of Inl _ \<Rightarrow> True
      | Inr st \<Rightarrow> dc_ready st =
          (sec (world s') (github_token_secret (stg svc)) \<noteq> None \<and> sec (world s') CONFIGURED_FLAG_SECRET = Some ''true''))
    \<and> (sec (world s) CONFIGURED_FLAG_SECRET = Some ''true'' \<or> sec (world s') CONFIGURED_FLAG_SECRET \<noteq> Some ''true''
        \<or> (\<exists>l. trace (world s') = trace (world s) @ l \<and> wired_with svc (sec (world s)) l))"
  using serve_wiring_honest [OF assms] by (auto simp: honest_def flag_follows_def)

section \<open>At concrete inputs\<close>

text \<open>Key Vault is a map and GitHub accepts everything; every answered request is on the trace.\<close>

type_synonym wire = "(string \<Rightarrow> string option) \<times> (http_req \<times> http_resp) list"

definition mem_answer :: "http_req \<Rightarrow> http_resp" where
  "mem_answer req =
     (if rq_method req = ''GET'' then json_answer (JObj [(''key_id'', JStr ''1''), (''key'', JStr [])])
      else \<lparr>hr_status = 204, hr_text = [], hr_json = None\<rparr>)"

definition mem_wiring :: "wire hub_svc" where
  "mem_wiring = \<lparr>
     core = (mem_services unix_time idle_gateway)\<lparr>
       sv_settings := default_settings\<lparr>hub_image_tag := ''v1''\<rparr>,
       kv_set := (\<lambda>n v w. (Inr (Some n), ((fst w)(n := Some v), snd w))),
       kv_get := (\<lambda>n w. case fst w n of None \<Rightarrow> (Inl (ResourceNotFoundError n), w) | Some v \<Rightarrow> (Inr (Some v), w))\<rparr>,
     http = (\<lambda>req w. (Inr (mem_answer req), (fst w, snd w @ [(req, mem_answer req)]))), azure_token = ret ''t'',
     blob_download = (\<lambda>url. ret []), sealed_box = (\<lambda>k v. ret v), token_urlsafe = (\<lambda>n w. (''secret'', w)),
     token_hex = (\<lambda>n w. (''00'', w)), pause = (\<lambda>n w. (Inr (), w))\<rparr>"

lemma mem_wire_laws: "wire_laws fst snd mem_wiring"
  by (auto simp: wire_laws_def mem_wiring_def keeps_def ret_def split: option.splits)

lemma mem_free_name: "free_name (stg mem_wiring)"
  by (simp add: free_name_def mem_wiring_def default_settings_def CONFIGURED_FLAG_SECRET_def SP_SECRET_MAP_def)

definition sp_vault :: "string \<Rightarrow> string option" where
  "sp_vault n = (if n \<in> set (BOOTSTRAP_PAT_SECRET # map fst SP_SECRET_MAP) then Some ''x'' else None)"

theorem gate_opens_only_after_a_push_witness:
  "case serve_wiring mem_wiring ''Bearer dev:admin:'' PushSp \<lparr>committed = no_tables, session = no_tables, world = (sp_vault, [])\<rparr> of
     (r, s') \<Rightarrow> (case r of Inl _ \<Rightarrow> True
      | Inr st \<Rightarrow> dc_ready st =
          (fst (world s') (github_token_secret (stg mem_wiring)) \<noteq> None
           \<and> fst (world s') CONFIGURED_FLAG_SECRET = Some ''true''))
    \<and> (sp_vault CONFIGURED_FLAG_SECRET = Some ''true'' \<or> fst (world s') CONFIGURED_FLAG_SECRET \<noteq> Some ''true''
        \<or> (\<exists>l. snd (world s') = [] @ l \<and> wired_with mem_wiring sp_vault l))"
proof -
  let ?s = "\<lparr>committed = no_tables, session = no_tables, world = (sp_vault, [])\<rparr>"
  obtain r s' where run: "serve_wiring mem_wiring ''Bearer dev:admin:'' PushSp ?s = (r, s')"
    by (metis surj_pair)
  show ?thesis
    unfolding run prod.case using gate_opens_only_after_a_push [OF mem_wire_laws mem_free_name run] by simp
qed

text \<open>The gate does open there: the push goes through.\<close>

lemma mem_get: "get_or_none (core mem_wiring) n w = (Inr (fst w n), w)"
  by (simp add: get_or_none_def get_secret_def mem_wiring_def catch_exn_def ret_def split: option.splits)

lemma mem_set: "set_secret (core mem_wiring) n v w = (Inr n, ((fst w)(n := Some v), snd w))" if "n \<noteq> []"
  using that by (simp add: set_secret_def mem_wiring_def bnd_def ret_def opt_true_def opt_or_empty_def)

lemma mem_sends: "http mem_wiring req w = (Inr (mem_answer req), (fst w, snd w @ [(req, mem_answer req)]))"
  by (simp add: mem_wiring_def)

lemma mem_seals: "encrypt_secret mem_wiring [] v w = (Inr (b64_pad (b64_encode False v)), w)"
  by (simp add: encrypt_secret_def mem_wiring_def b64_decode_def bnd_def ret_def)

lemma mem_secret:
  assumes "cached = None \<or> cached = Some (JStr ''1'', JStr [])"
  shows "\<exists>t. set_repo_secret mem_wiring g cached n v w = (Inr (Some (JStr ''1'', JStr [])), (fst w, t))"
  using assms
  by (auto simp: set_repo_secret_def get_public_key_def mem_sends mem_seals mem_answer_def bnd_def ret_def lift_sum_def
      http_get_def http_send_def json_answer_def body_of_def j_item_def j_text_def bind_sum_def)

lemma mem_secrets:
  "cached = None \<or> cached = Some (JStr ''1'', JStr []) \<Longrightarrow> \<exists>t. push_secrets mem_wiring g cached ss w = (Inr (), (fst w, t))"
proof (induction ss arbitrary: cached w)
  case Nil
  then show ?case by (auto simp: ret_def intro: exI [of _ "snd w"])
next
  case (Cons p ss)
  obtain t where "set_repo_secret mem_wiring g cached (fst p) (snd p) w = (Inr (Some (JStr ''1'', JStr [])), (fst w, t))"
    using mem_secret [OF Cons.prems] by blast
  then show ?case
    using Cons.IH [of "Some (JStr ''1'', JStr [])" "(fst w, t)"] by (cases p) (auto simp: bnd_def)
qed

lemma mem_variables: "\<exists>t. for_each vs (\<lambda>(n, v). set_variable mem_wiring g n v) w = (Inr (), (fst w, t))"
proof (induction vs arbitrary: w)
  case Nil
  then show ?case by (auto simp: ret_def intro: exI [of _ "snd w"])
next
  case (Cons p vs)
  have "\<exists>t. set_variable mem_wiring g (fst p) (snd p) w = (Inr (), (fst w, t))"
    by (simp add: set_variable_def Let_def mem_sends mem_answer_def bnd_def ret_def http_get_def http_send_def json_answer_def)
  then obtain t where "set_variable mem_wiring g (fst p) (snd p) w = (Inr (), (fst w, t))"
    by blast
  then show ?case
    using Cons.IH [of "(fst w, t)"] by (cases p) (auto simp: sq_def bnd_def)
qed

lemma mem_push: "\<exists>t. push mem_wiring g ss vs w = (Inr (), (fst w, t))"
  using mem_secrets [of None g ss w] mem_variables [of vs g] by (force simp: push_def sq_def bnd_def)

lemma mem_collect:
  "\<forall>n\<in>fst ` set ms. opt_true (fst w n) \<Longrightarrow> collect_sp (core mem_wiring) ms w = (Inr (sp_secrets (fst w) ms), w)"
  by (induction ms) (auto simp: mem_get bnd_def ret_def sp_secrets_def)

lemma mem_push_opens:
  "fst (snd (push_sp_to_github mem_wiring (sp_vault, t))) CONFIGURED_FLAG_SECRET = Some ''true''"
proof -
  have held: "sp_vault BOOTSTRAP_PAT_SECRET = Some ''x''" "\<forall>n\<in>fst ` set SP_SECRET_MAP. opt_true (fst (sp_vault, t) n)"
    by (simp_all add: sp_vault_def opt_true_def)
  obtain vs where "repo_variables (stg mem_wiring) = Inr vs"
    by (simp add: repo_variables_def mem_wiring_def)
  moreover obtain t' where "push mem_wiring (hub_repo (stg mem_wiring) ''x'') (sp_secrets sp_vault SP_SECRET_MAP)
      vs (sp_vault, t) = (Inr (), (sp_vault, t'))"
    using mem_push by fastforce
  moreover have "CONFIGURED_FLAG_SECRET \<noteq> []"
    by (simp add: CONFIGURED_FLAG_SECRET_def)
  ultimately show ?thesis
    by (simp add: push_sp_to_github_def bnd_def sq_def mem_get held mem_collect [OF held(2)] opt_true_def opt_or_empty_def
        catch_exn_def lift_sum_def mem_set ret_def)
qed

end
