(* ===== verification/HubEvents.thy ===== *)
theory HubEvents
  imports JsonRoundtrip
begin

text \<open>
  Usage records on their way out of a hub (\<^verbatim>\<open>vendored/gitmodel-hub/hub/eventhub.py\<close>, and the part
  of \<^verbatim>\<open>server.py\<close> that hands them over): the module's globals, the counters, the retry queue, the
  producer, and each coroutine cut at its awaits.

  The event loop runs one coroutine at a time, so the code between two awaits is one operation
  here: \<^verbatim>\<open>emit_begin\<close> ends where \<^verbatim>\<open>emit\<close> awaits the send and \<^verbatim>\<open>emit_end\<close> is what follows it;
  \<^verbatim>\<open>drain_top\<close> and \<^verbatim>\<open>drain_resume\<close> are the pieces of the drain task.  The clocks, the jitter and the
  construction of the producer act on the world \<^verbatim>\<open>'w\<close>.  HubEventsLife composes the pieces.
\<close>

section \<open>Settings\<close>

record hub_cfg =
  hc_hub_id :: string
  hc_eventhub_fqdn :: string
  hc_eventhub_name :: string
  hc_retry_max_queue :: int
  hc_retry_max_attempts :: int
  hc_retry_base_seconds :: pyfloat

definition eventhub_enabled :: "hub_cfg \<Rightarrow> bool" where
  "eventhub_enabled c \<longleftrightarrow> hc_eventhub_fqdn c \<noteq> [] \<and> hc_eventhub_name c \<noteq> []"

section \<open>Records\<close>

text \<open>The values of a record are JSON values, or objects that \<^verbatim>\<open>default=str\<close> turns into their text;
  \<^verbatim>\<open>str\<close> of such an object may raise.\<close>

datatype field_value = Plain json | Foreign "exn + string"

type_synonym usage_rec = "(string, field_value) dict"

fun encode_value :: "field_value \<Rightarrow> exn + string" where
  "encode_value (Plain j) = Inr (dumps_spaced j)"
| "encode_value (Foreign (Inr s)) = Inr (json_str s)"
| "encode_value (Foreign (Inl e)) = Inl e"

fun encode_fields :: "usage_rec \<Rightarrow> exn + string list" where
  "encode_fields [] = Inr []"
| "encode_fields ((k, v) # r) =
     bind_sum (encode_value v) (\<lambda>x.
     bind_sum (encode_fields r) (\<lambda>xs. Inr ((json_str k @ '': '' @ x) # xs)))"

definition encode_record :: "usage_rec \<Rightarrow> exn + string" where
  "encode_record r = bind_sum (encode_fields r) (\<lambda>xs. Inr (''{'' @ join '', '' xs @ ''}''))"

text \<open>\<^verbatim>\<open>{"hub_id": ..., **record}\<close>: a field of the record by that name would win.\<close>

definition envelope :: "hub_cfg \<Rightarrow> usage_rec \<Rightarrow> usage_rec" where
  "envelope c r =
     foldl (\<lambda>d (k, v). dict_set d k v)
       [(''hub_id'', Plain (if hc_hub_id c = [] then JNull else JStr (hc_hub_id c)))] r"

section \<open>The module\<close>

record pending =
  pd_body :: string
  pd_attempts :: int
  pd_next_at :: pyfloat

record drop_reason =
  dr_at :: string
  dr_kind :: string
  dr_count :: int
  dr_error :: "string option"

text \<open>Where the drain task is: at the top of its loop, awaiting the send of an item with the other due
  items still to come, asleep for a tick, or waiting to be woken.\<close>

datatype drain_pc = AtTop | Sending pending "pending list" | Ticking | Waiting

record 'w hub_events =
  eh_producer :: bool
  eh_disabled :: bool
  eh_init_failed :: bool
  eh_init_error :: string
  eh_last_init_try :: pyfloat
  eh_failed_send :: int
  eh_failed_enqueue :: int
  eh_failed_init :: int
  eh_failed_retry :: int
  eh_failed_serialize :: int
  eh_retried :: int
  eh_recovered :: int
  eh_lost :: int
  eh_last_log :: "(string, pyfloat) dict"
  eh_reasons :: "drop_reason list"
  eh_retry_q :: "pending list"
  eh_drainer :: "drain_pc option"
  eh_wake :: bool
  eh_world :: 'w

record 'w ev_svc =
  ev_cfg :: hub_cfg
  monotonic :: "'w \<Rightarrow> pyfloat \<times> 'w"
  wall_second :: "'w \<Rightarrow> string \<times> 'w"
  jitter :: "'w \<Rightarrow> pyfloat \<times> 'w"
  build_producer :: "('w, unit) eff"

type_synonym ('w, 'a) hub_act = "('w hub_events, 'a) eff"

definition outside :: "('w \<Rightarrow> 'a \<times> 'w) \<Rightarrow> ('w, 'a) hub_act" where
  "outside f s = (case f (eh_world s) of (a, w) \<Rightarrow> (Inr a, s\<lparr>eh_world := w\<rparr>))"

definition dropped_count :: "'w hub_events \<Rightarrow> int" where
  "dropped_count s =
     eh_failed_send s + eh_failed_enqueue s + eh_failed_init s + eh_failed_retry s + eh_failed_serialize s"

definition lost_count :: "'w hub_events \<Rightarrow> int" where
  "lost_count s = eh_lost s"

definition retry_depth :: "'w hub_events \<Rightarrow> nat" where
  "retry_depth s = length (eh_retry_q s)"

section \<open>Reasons\<close>

text \<open>\<^verbatim>\<open>type(error).__name__\<close>; what an exception says is kept out of the unauthenticated status.\<close>

fun exn_class :: "exn \<Rightarrow> string" where
  "exn_class (HTTPException _ _) = ''HTTPException''"
| "exn_class (ResourceNotFoundError _) = ''ResourceNotFoundError''"
| "exn_class (HttpResponseError _ _) = ''HttpResponseError''"
| "exn_class (HTTPStatusError _ _) = ''HTTPStatusError''"
| "exn_class (TransportError _) = ''TransportError''"
| "exn_class (TerraformError _) = ''TerraformError''"
| "exn_class (GitHubRepoError _) = ''GitHubRepoError''"
| "exn_class (RuntimeError _) = ''RuntimeError''"
| "exn_class (ValueError _) = ''ValueError''"
| "exn_class (TypeError _) = ''TypeError''"
| "exn_class (KeyError _) = ''KeyError''"
| "exn_class (OverflowError _) = ''OverflowError''"
| "exn_class (IntegrityError _) = ''IntegrityError''"
| "exn_class (OtherError _) = ''Exception''"

datatype note_error = NoDetail | Said string | Raised exn

fun note_detail :: "note_error \<Rightarrow> string option" where
  "note_detail (Raised e) = Some (exn_class e)"
| "note_detail (Said s) = Some (take 80 s)"
| "note_detail NoDetail = None"

text \<open>\<^verbatim>\<open>deque(maxlen=8)\<close>: appending to a full one drops its first element.\<close>

definition push_reason :: "drop_reason \<Rightarrow> drop_reason list \<Rightarrow> drop_reason list" where
  "push_reason r rs = (let all = rs @ [r] in drop (length all - 8) all)"

definition note_drop :: "'w ev_svc \<Rightarrow> string \<Rightarrow> note_error \<Rightarrow> int \<Rightarrow> ('w, unit) hub_act" where
  "note_drop svc kind err n =
     bnd (outside (wall_second svc)) (\<lambda>at'.
     mod_st (\<lambda>s. s\<lparr>eh_reasons := push_reason
       \<lparr>dr_at = at', dr_kind = kind, dr_count = n, dr_error = note_detail err\<rparr> (eh_reasons s)\<rparr>))"

fun fneg :: "pyfloat \<Rightarrow> pyfloat" where
  "fneg (FFin a) = FFin (- a)"
| "fneg (FInf a) = FInf (\<not> a)"
| "fneg FNaN = FNaN"

definition fsub :: "pyfloat \<Rightarrow> pyfloat \<Rightarrow> pyfloat" where
  "fsub a b = fadd a (fneg b)"

text \<open>At most one line per key and minute; only the throttle's memory is kept here.\<close>

definition log_throttled :: "'w ev_svc \<Rightarrow> string \<Rightarrow> ('w, unit) hub_act" where
  "log_throttled svc key =
     bnd (outside (monotonic svc)) (\<lambda>now.
     mod_st (\<lambda>s. if flt (fsub now (case dict_get (eh_last_log s) key of Some t \<Rightarrow> t | None \<Rightarrow> FFin 0)) (FFin 60)
       then s else s\<lparr>eh_last_log := dict_set (eh_last_log s) key now\<rparr>))"

section \<open>The status\<close>

definition hub_state_name :: "'w hub_events \<Rightarrow> string" where
  "hub_state_name s =
     (if eh_disabled s then ''disabled'' else if eh_init_failed s then ''init_failed''
      else if eh_retry_q s \<noteq> [] \<or> eh_lost s \<noteq> 0 then ''degraded'' else ''ok'')"

record hub_stats =
  st_state :: string
  st_dropped :: int
  st_lost :: int
  st_retried :: int
  st_recovered :: int
  st_by_reason :: "(string, int) dict"
  st_retry_queue :: int
  st_retry_capacity :: int
  st_buffered :: "int option"
  st_recent :: "drop_reason list"

text \<open>\<^verbatim>\<open>buffered\<close> is what the SDK says its buffer holds, \<^verbatim>\<open>None\<close> when it raises.\<close>

definition stats :: "hub_cfg \<Rightarrow> int option \<Rightarrow> 'w hub_events \<Rightarrow> hub_stats" where
  "stats c buffered s = \<lparr>st_state = hub_state_name s, st_dropped = dropped_count s, st_lost = eh_lost s,
     st_retried = eh_retried s, st_recovered = eh_recovered s,
     st_by_reason = [(''send'', eh_failed_send s), (''enqueue'', eh_failed_enqueue s), (''init'', eh_failed_init s),
       (''retry'', eh_failed_retry s), (''serialize'', eh_failed_serialize s)],
     st_retry_queue = int (length (eh_retry_q s)), st_retry_capacity = hc_retry_max_queue c,
     st_buffered = (if eh_producer s then buffered else None), st_recent = eh_reasons s\<rparr>"

definition record_drop :: "'w ev_svc \<Rightarrow> string \<Rightarrow> note_error \<Rightarrow> int \<Rightarrow> ('w, unit) hub_act" where
  "record_drop svc kind err n =
     sq (mod_st (\<lambda>s. s\<lparr>eh_failed_enqueue := eh_failed_enqueue s + n, eh_lost := eh_lost s + n\<rparr>)) (note_drop svc kind err n)"

section \<open>Events\<close>

text \<open>An event of the SDK: what reading its body gives, \<^verbatim>\<open>None\<close> when that raises or is no text, and the
  attempt stamped on it.\<close>

record event =
  ev_body :: "string option"
  ev_attempt :: "int option"

definition body_text :: "event \<Rightarrow> string option" where
  "body_text e = (case ev_body e of Some b \<Rightarrow> if b \<noteq> [] then Some b else None | None \<Rightarrow> None)"

definition attempt_of :: "event \<Rightarrow> int" where
  "attempt_of e = (case ev_attempt e of Some n \<Rightarrow> n | None \<Rightarrow> 0)"

definition make_event :: "string \<Rightarrow> int \<Rightarrow> event" where
  "make_event body attempts = \<lparr>ev_body = Some body, ev_attempt = (if attempts \<noteq> 0 then Some attempts else None)\<rparr>"

section \<open>The retry queue\<close>

definition RETRY_CAP_SECONDS :: pyfloat where
  "RETRY_CAP_SECONDS = FFin 60"

definition INIT_RETRY_SECONDS :: pyfloat where
  "INIT_RETRY_SECONDS = FFin 60"

text \<open>\<^verbatim>\<open>min(a, b)\<close> of two floats is \<^verbatim>\<open>a\<close> unless \<^verbatim>\<open>b\<close> is less.\<close>

definition float_min :: "pyfloat \<Rightarrow> pyfloat \<Rightarrow> pyfloat" where
  "float_min a b = (if flt b a then b else a)"

definition backoff_seconds :: "int \<Rightarrow> pyfloat \<Rightarrow> pyfloat \<Rightarrow> exn + pyfloat" where
  "backoff_seconds attempts base cap =
     bind_sum (float_of_int (2 ^ nat (max 0 (attempts - 1)))) (\<lambda>p. Inr (float_min cap (fmul base p)))"

definition delay :: "'w ev_svc \<Rightarrow> int \<Rightarrow> ('w, pyfloat) hub_act" where
  "delay svc attempts =
     bnd (lift_sum (backoff_seconds attempts (hc_retry_base_seconds (ev_cfg svc)) RETRY_CAP_SECONDS)) (\<lambda>base.
     bnd (outside (jitter svc)) (\<lambda>j. ret (fmul base j)))"

text \<open>A running drain task is woken, otherwise one is created.\<close>

definition ensure_drainer :: "('w, unit) hub_act" where
  "ensure_drainer =
     mod_st (\<lambda>s. if eh_drainer s \<noteq> None then s\<lparr>eh_wake := True\<rparr>
       else s\<lparr>eh_drainer := Some AtTop, eh_wake := False\<rparr>)"

text \<open>\<^verbatim>\<open>while len(q) >= cap\<close>: drop the oldest and count it.\<close>

fun evict :: "'w ev_svc \<Rightarrow> int \<Rightarrow> nat \<Rightarrow> ('w, unit) hub_act" where
  "evict svc cap 0 = ret ()"
| "evict svc cap (Suc n) =
     bnd get_st (\<lambda>s.
     if int (length (eh_retry_q s)) \<ge> cap then
       sq (mod_st (\<lambda>s. s\<lparr>eh_retry_q := tl (eh_retry_q s), eh_lost := eh_lost s + 1\<rparr>))
      (sq (note_drop svc ''overflow'' (Said (''retry queue full ('' @ int_str cap @ '')'')) 1)
          (evict svc cap n))
     else ret ())"

definition requeue :: "'w ev_svc \<Rightarrow> string \<Rightarrow> int \<Rightarrow> ('w, unit) hub_act" where
  "requeue svc body attempts =
     (if attempts > hc_retry_max_attempts (ev_cfg svc) then
        sq (mod_st (\<lambda>s. s\<lparr>eh_lost := eh_lost s + 1\<rparr>))
           (note_drop svc ''gave_up'' (Said (int_str (attempts - 1) @ '' attempts'')) 1)
      else
        bnd get_st (\<lambda>s.
        sq (evict svc (max (hc_retry_max_queue (ev_cfg svc)) 1) (length (eh_retry_q s)))
       (bnd (outside (monotonic svc)) (\<lambda>now.
        bnd (delay svc attempts) (\<lambda>d.
        sq (mod_st (\<lambda>s. s\<lparr>eh_retry_q := eh_retry_q s @
              [\<lparr>pd_body = body, pd_attempts = attempts, pd_next_at = fadd now d\<rparr>]\<rparr>))
           ensure_drainer)))))"

definition give_up_all :: "'w ev_svc \<Rightarrow> string \<Rightarrow> ('w, unit) hub_act" where
  "give_up_all svc reason =
     bnd get_st (\<lambda>s.
     if eh_retry_q s = [] then ret ()
     else
       sq (mod_st (\<lambda>s. s\<lparr>eh_lost := eh_lost s + int (length (eh_retry_q s)), eh_retry_q := []\<rparr>))
          (note_drop svc ''gave_up'' (Said reason) (int (length (eh_retry_q s)))))"

section \<open>The producer\<close>

text \<open>Built on first use; \<^verbatim>\<open>True\<close> when there is one.\<close>

definition get_producer :: "'w ev_svc \<Rightarrow> ('w, bool) hub_act" where
  "get_producer svc =
     bnd get_st (\<lambda>s.
     if eh_producer s then ret True
     else if eh_disabled s \<or> eh_init_failed s then ret False
     else if \<not> eventhub_enabled (ev_cfg svc) then sq (mod_st (\<lambda>s. s\<lparr>eh_disabled := True\<rparr>)) (ret False)
     else
       (case build_producer svc (eh_world s) of
          (Inr _, w) \<Rightarrow> sq (mod_st (\<lambda>s. s\<lparr>eh_producer := True, eh_world := w\<rparr>)) (ret True)
        | (Inl e, w) \<Rightarrow> sq (mod_st (\<lambda>s. s\<lparr>eh_init_failed := True, eh_init_error := exn_class e, eh_world := w\<rparr>)) (ret False)))"

section \<open>Callbacks of the producer\<close>

text \<open>A failed batch, \<^verbatim>\<open>None\<close> when the argument is no iterable.\<close>

fun requeue_batch :: "'w ev_svc \<Rightarrow> event list \<Rightarrow> ('w, unit) hub_act" where
  "requeue_batch svc [] = ret ()"
| "requeue_batch svc (ev # evs) =
     sq (case body_text ev of
           None \<Rightarrow> mod_st (\<lambda>s. s\<lparr>eh_lost := eh_lost s + 1\<rparr>)
         | Some body \<Rightarrow> requeue svc body (attempt_of ev + 1))
        (requeue_batch svc evs)"

definition on_error :: "'w ev_svc \<Rightarrow> event list option \<Rightarrow> exn \<Rightarrow> ('w, unit) hub_act" where
  "on_error svc events error =
     (let batch = (case events of Some evs \<Rightarrow> evs | None \<Rightarrow> []); n = int (max (length batch) 1) in
      sq (mod_st (\<lambda>s. s\<lparr>eh_failed_send := eh_failed_send s + n\<rparr>))
     (sq (note_drop svc ''send'' (Raised error) n)
         (requeue_batch svc batch)))"

definition on_success :: "event list \<Rightarrow> ('w, unit) hub_act" where
  "on_success events =
     mod_st (\<lambda>s. if eh_retried s = 0 then s
       else s\<lparr>eh_recovered := eh_recovered s + int (length (filter (\<lambda>e. attempt_of e \<noteq> 0) events))\<rparr>)"

section \<open>Emitting a record\<close>

text \<open>Up to the send: the body that is now being sent, or nothing when \<^verbatim>\<open>emit\<close> has returned.\<close>

definition emit_begin :: "'w ev_svc \<Rightarrow> usage_rec \<Rightarrow> ('w, string option) hub_act" where
  "emit_begin svc r =
     (case encode_record (envelope (ev_cfg svc) r) of
        Inl e \<Rightarrow>
          sq (mod_st (\<lambda>s. s\<lparr>eh_failed_serialize := eh_failed_serialize s + 1, eh_lost := eh_lost s + 1\<rparr>))
         (sq (note_drop svc ''serialize'' (Raised e) 1) (ret None))
      | Inr body \<Rightarrow>
          bnd (get_producer svc) (\<lambda>ready.
          if ready then ret (Some body)
          else
            bnd get_st (\<lambda>s.
            if eh_init_failed s then
              sq (mod_st (\<lambda>s. s\<lparr>eh_failed_init := eh_failed_init s + 1, eh_lost := eh_lost s + 1\<rparr>))
             (sq (note_drop svc ''init'' (Said (eh_init_error s)) 1)
             (sq (log_throttled svc ''init'') (ret None)))
            else ret None)))"

definition emit_end :: "'w ev_svc \<Rightarrow> string \<Rightarrow> exn + unit \<Rightarrow> ('w, unit) hub_act" where
  "emit_end svc body sent =
     (case sent of
        Inr _ \<Rightarrow> ret ()
      | Inl e \<Rightarrow>
          sq (mod_st (\<lambda>s. s\<lparr>eh_failed_enqueue := eh_failed_enqueue s + 1\<rparr>))
         (sq (note_drop svc ''enqueue'' (Raised e) 1)
             (requeue svc body 1)))"

section \<open>Emitting from a streaming response\<close>

definition MAX_PENDING_EMITS :: nat where
  "MAX_PENDING_EMITS = 256"

text \<open>\<^verbatim>\<open>_spawn_emit\<close> never awaits: the record that a new task will emit, or a counted drop.  \<^verbatim>\<open>built\<close> is
  the record or what building it raised, \<^verbatim>\<open>n\<close> the number of tasks not finished yet.\<close>

definition spawn_emit :: "'w ev_svc \<Rightarrow> nat \<Rightarrow> exn + usage_rec \<Rightarrow> ('w, usage_rec option) hub_act" where
  "spawn_emit svc n built =
     (case built of
        Inl e \<Rightarrow> sq (record_drop svc ''schedule'' (Raised e) 1) (ret None)
      | Inr r \<Rightarrow>
          if MAX_PENDING_EMITS \<le> n
          then sq (record_drop svc ''saturated'' (Said (int_str (int n) @ '' emits in flight'')) 1) (ret None)
          else ret (Some r))"

section \<open>The drain task\<close>

text \<open>\<^verbatim>\<open>_drain_once\<close> up to its loop: the items that are due leave the queue.\<close>

definition due_items :: "'w ev_svc \<Rightarrow> ('w, pending list) hub_act" where
  "due_items svc =
     bnd get_st (\<lambda>s.
     if eh_retry_q s = [] then ret []
     else
       bnd (get_producer svc) (\<lambda>ready.
       if \<not> ready then
         bnd get_st (\<lambda>s.
         sq (if eh_disabled s then give_up_all svc ''event hub not configured'' else ret ()) (ret []))
       else
         bnd (outside (monotonic svc)) (\<lambda>now.
         bnd get_st (\<lambda>s.
         sq (mod_st (\<lambda>s. s\<lparr>eh_retry_q := filter (\<lambda>i. \<not> fle (pd_next_at i) now) (eh_retry_q s)\<rparr>))
            (ret (filter (\<lambda>i. fle (pd_next_at i) now) (eh_retry_q s)))))))"

definition maybe_reinit :: "'w ev_svc \<Rightarrow> ('w, unit) hub_act" where
  "maybe_reinit svc =
     bnd get_st (\<lambda>s.
     if \<not> (eh_init_failed s \<and> eh_retry_q s \<noteq> []) then ret ()
     else
       bnd (outside (monotonic svc)) (\<lambda>now.
       if flt (fsub now (eh_last_init_try s)) INIT_RETRY_SECONDS then ret ()
       else
         sq (mod_st (\<lambda>s. s\<lparr>eh_last_init_try := now, eh_init_failed := False\<rparr>))
            (best_effort (bnd (get_producer svc) (\<lambda>_. ret ())))))"

text \<open>After a pass the task sleeps for a tick when something is queued, else until it is woken.\<close>

definition drain_rest :: "'w ev_svc \<Rightarrow> ('w, unit) hub_act" where
  "drain_rest svc =
     mod_st (\<lambda>s. if eh_retry_q s \<noteq> [] then s\<lparr>eh_drainer := Some Ticking\<rparr>
       else s\<lparr>eh_wake := False, eh_drainer := Some Waiting\<rparr>)"

text \<open>The next due item is sent; after the last one the pass is over.\<close>

definition send_next :: "'w ev_svc \<Rightarrow> pending list \<Rightarrow> ('w, unit) hub_act" where
  "send_next svc due =
     (case due of
        item # rest \<Rightarrow> mod_st (\<lambda>s. s\<lparr>eh_retried := eh_retried s + 1, eh_drainer := Some (Sending item rest)\<rparr>)
      | [] \<Rightarrow> sq (maybe_reinit svc) (drain_rest svc))"

text \<open>An exception that escapes a pass is logged and the loop goes on.\<close>

definition in_loop :: "'w ev_svc \<Rightarrow> ('w, unit) hub_act \<Rightarrow> ('w, unit) hub_act" where
  "in_loop svc m = catch_exn m (\<lambda>_. drain_rest svc)"

definition drain_top :: "'w ev_svc \<Rightarrow> ('w, unit) hub_act" where
  "drain_top svc = in_loop svc (bnd (due_items svc) (send_next svc))"

text \<open>What follows the send of one item.\<close>

definition settle_item :: "'w ev_svc \<Rightarrow> pending \<Rightarrow> exn + unit \<Rightarrow> ('w, unit) hub_act" where
  "settle_item svc item sent =
     (case sent of
        Inr _ \<Rightarrow> ret ()
      | Inl e \<Rightarrow>
          sq (mod_st (\<lambda>s. s\<lparr>eh_failed_retry := eh_failed_retry s + 1\<rparr>))
         (sq (note_drop svc ''retry'' (Raised e) 1)
             (requeue svc (pd_body item) (pd_attempts item + 1))))"

definition drain_resume :: "'w ev_svc \<Rightarrow> pending \<Rightarrow> pending list \<Rightarrow> exn + unit \<Rightarrow> ('w, unit) hub_act" where
  "drain_resume svc item rest sent = in_loop svc (sq (settle_item svc item sent) (send_next svc rest))"

section \<open>Shutdown\<close>

text \<open>\<^verbatim>\<open>aclose\<close> in three pieces: cancel the drain task and make everything due; after the last pass, or
  its timeout, forget the producer; after the close, count what is left.  A cancelled task is gone with
  the items it held.\<close>

definition close_begin :: "('w, bool) hub_act" where
  "close_begin =
     sq (mod_st (\<lambda>s. s\<lparr>eh_drainer := None\<rparr>))
    (bnd get_st (\<lambda>s.
     if eh_producer s \<and> eh_retry_q s \<noteq> [] then
       sq (mod_st (\<lambda>s. s\<lparr>eh_retry_q := map (\<lambda>i. i\<lparr>pd_next_at := FFin 0\<rparr>) (eh_retry_q s)\<rparr>)) (ret True)
     else ret False))"

definition close_producer :: "('w, unit) hub_act" where
  "close_producer = mod_st (\<lambda>s. s\<lparr>eh_producer := False, eh_init_failed := False, eh_disabled := False\<rparr>)"

definition close_end :: "'w ev_svc \<Rightarrow> ('w, unit) hub_act" where
  "close_end svc =
     bnd get_st (\<lambda>s.
     if eh_retry_q s = [] then ret ()
     else
       sq (mod_st (\<lambda>s. s\<lparr>eh_lost := eh_lost s + int (length (eh_retry_q s)), eh_retry_q := []\<rparr>))
          (note_drop svc ''shutdown'' (Said (int_str (int (length (eh_retry_q s))) @ '' undelivered''))
             (int (length (eh_retry_q s)))))"

end
