(* ===== verification/HubEventsLife.thy ===== *)
theory HubEventsLife
  imports HubEvents "HOL-Library.Multiset"
begin

text \<open>
  The usage pipeline of a hub as a state machine: emits, spawned emits, callbacks of the producer and
  the drain task interleave in any order, and every send may fail.

  The buffer of the SDK belongs to the state: a send that returns has put its event there, and each
  buffered event comes back in at most one callback.  \<^verbatim>\<open>settles\<close> keeps the books of the retry queue:
  what an operation takes in, it passes on, queues, or counts as lost.
\<close>

section \<open>States and steps\<close>

datatype close_pc = Open | FinalPass pending "pending list" | Closing | Closed

record 'w hub_life =
  hl_mod :: "'w hub_events"
  hl_tasks :: "usage_rec list"
  hl_sends :: "(bool \<times> string) list"
  hl_buffer :: "event multiset"
  hl_acked :: "event multiset"
  hl_records :: "usage_rec list"
  hl_close :: close_pc

definition fresh_module :: "'w \<Rightarrow> 'w hub_events" where
  "fresh_module w = \<lparr>eh_producer = False, eh_disabled = False, eh_init_failed = False, eh_init_error = [],
     eh_last_init_try = FFin 0, eh_failed_send = 0, eh_failed_enqueue = 0, eh_failed_init = 0, eh_failed_retry = 0,
     eh_failed_serialize = 0, eh_retried = 0, eh_recovered = 0, eh_lost = 0, eh_last_log = [], eh_reasons = [],
     eh_retry_q = [], eh_drainer = None, eh_wake = False, eh_world = w\<rparr>"

definition fresh_hub :: "'w \<Rightarrow> 'w hub_life" where
  "fresh_hub w = \<lparr>hl_mod = fresh_module w, hl_tasks = [], hl_sends = [], hl_buffer = {#}, hl_acked = {#},
     hl_records = [], hl_close = Open\<rparr>"

text \<open>The tasks of \<^verbatim>\<open>_PENDING_EMITS\<close>: not started yet, or awaiting their send.\<close>

definition pending_emits :: "'w hub_life \<Rightarrow> nat" where
  "pending_emits r = length (hl_tasks r) + length (filter fst (hl_sends r))"

definition add_send :: "bool \<Rightarrow> string option \<Rightarrow> (bool \<times> string) list \<Rightarrow> (bool \<times> string) list" where
  "add_send task out sends = (case out of Some b \<Rightarrow> sends @ [(task, b)] | None \<Rightarrow> sends)"

inductive hub_step :: "'w ev_svc \<Rightarrow> 'w hub_life \<Rightarrow> 'w hub_life \<Rightarrow> bool" for svc where
  Emit: "emit_begin svc x (hl_mod r) = (Inr out, m) \<Longrightarrow>
    hub_step svc r (r\<lparr>hl_mod := m, hl_sends := add_send False out (hl_sends r), hl_records := hl_records r @ [x]\<rparr>)"
| Spawn: "spawn_emit svc (pending_emits r) (Inr x) (hl_mod r) = (Inr out, m) \<Longrightarrow>
    hub_step svc r (r\<lparr>hl_mod := m, hl_tasks := hl_tasks r @ (case out of Some y \<Rightarrow> [y] | None \<Rightarrow> []),
      hl_records := hl_records r @ [x]\<rparr>)"
| Start: "hl_tasks r = ts @ x # us \<Longrightarrow> emit_begin svc x (hl_mod r) = (Inr out, m) \<Longrightarrow>
    hub_step svc r (r\<lparr>hl_mod := m, hl_tasks := ts @ us, hl_sends := add_send True out (hl_sends r)\<rparr>)"
| Sent: "hl_sends r = as @ (f, b) # bs \<Longrightarrow> emit_end svc b (Inr ()) (hl_mod r) = (a, m) \<Longrightarrow>
    hub_step svc r (r\<lparr>hl_mod := m, hl_sends := as @ bs, hl_buffer := add_mset (make_event b 0) (hl_buffer r)\<rparr>)"
| Not_sent: "hl_sends r = as @ (f, b) # bs \<Longrightarrow> emit_end svc b (Inl e) (hl_mod r) = (a, m) \<Longrightarrow>
    hub_step svc r (r\<lparr>hl_mod := m, hl_sends := as @ bs\<rparr>)"
| Acked: "evs \<noteq> [] \<Longrightarrow> hl_buffer r = mset evs + rest \<Longrightarrow> on_success evs (hl_mod r) = (a, m) \<Longrightarrow>
    hub_step svc r (r\<lparr>hl_mod := m, hl_buffer := rest, hl_acked := hl_acked r + mset evs\<rparr>)"
| Refused: "evs \<noteq> [] \<Longrightarrow> hl_buffer r = mset evs + rest \<Longrightarrow> on_error svc (Some evs) e (hl_mod r) = (a, m) \<Longrightarrow>
    hub_step svc r (r\<lparr>hl_mod := m, hl_buffer := rest\<rparr>)"
| Drain: "eh_drainer (hl_mod r) = Some pc \<Longrightarrow> pc \<in> {AtTop, Ticking, Waiting} \<Longrightarrow> drain_top svc (hl_mod r) = (a, m) \<Longrightarrow>
    hub_step svc r (r\<lparr>hl_mod := m\<rparr>)"
| Resent: "eh_drainer (hl_mod r) = Some (Sending i rest) \<Longrightarrow> drain_resume svc i rest (Inr ()) (hl_mod r) = (a, m) \<Longrightarrow>
    hub_step svc r (r\<lparr>hl_mod := m, hl_buffer := add_mset (make_event (pd_body i) (pd_attempts i)) (hl_buffer r)\<rparr>)"
| Not_resent: "eh_drainer (hl_mod r) = Some (Sending i rest) \<Longrightarrow> drain_resume svc i rest (Inl e) (hl_mod r) = (a, m) \<Longrightarrow>
    hub_step svc r (r\<lparr>hl_mod := m\<rparr>)"
| World: "hub_step svc r (r\<lparr>hl_mod := (hl_mod r)\<lparr>eh_world := w\<rparr>\<rparr>)"

text \<open>Shutdown.  The last pass is cut short when it takes too long.\<close>

definition final_next :: "pending list \<Rightarrow> 'w hub_life \<Rightarrow> 'w hub_life" where
  "final_next due r =
     (case due of
        i # rest \<Rightarrow> r\<lparr>hl_mod := (hl_mod r)\<lparr>eh_retried := eh_retried (hl_mod r) + 1\<rparr>, hl_close := FinalPass i rest\<rparr>
      | [] \<Rightarrow> r\<lparr>hl_mod := snd (close_producer (hl_mod r)), hl_close := Closing\<rparr>)"

definition begin_close :: "'w ev_svc \<Rightarrow> 'w hub_life \<Rightarrow> 'w hub_life" where
  "begin_close svc r =
     (case bnd close_begin (\<lambda>b. if b then due_items svc else ret []) (hl_mod r) of
        (Inr due, m) \<Rightarrow> final_next due (r\<lparr>hl_mod := m\<rparr>)
      | (Inl _, m) \<Rightarrow> final_next [] (r\<lparr>hl_mod := m\<rparr>))"

inductive close_step :: "'w ev_svc \<Rightarrow> 'w hub_life \<Rightarrow> 'w hub_life \<Rightarrow> bool" for svc where
  Close: "hl_close r = Open \<Longrightarrow> close_step svc r (begin_close svc r)"
| Final_sent: "hl_close r = FinalPass i rest \<Longrightarrow>
    close_step svc r (final_next rest (r\<lparr>hl_buffer := add_mset (make_event (pd_body i) (pd_attempts i)) (hl_buffer r)\<rparr>))"
| Final_not_sent: "hl_close r = FinalPass i rest \<Longrightarrow> settle_item svc i (Inl e) (hl_mod r) = (a, m) \<Longrightarrow>
    close_step svc r (final_next (case a of Inr _ \<Rightarrow> rest | Inl _ \<Rightarrow> []) (r\<lparr>hl_mod := m\<rparr>))"
| Final_timeout: "hl_close r = FinalPass i rest \<Longrightarrow> close_step svc r (final_next [] r)"
| Close_done: "hl_close r = Closing \<Longrightarrow> close_end svc (hl_mod r) = (a, m) \<Longrightarrow>
    close_step svc r (r\<lparr>hl_mod := m, hl_close := Closed\<rparr>)"

inductive reaches :: "'w ev_svc \<Rightarrow> 'w hub_life \<Rightarrow> 'w hub_life \<Rightarrow> bool" for svc where
  Here: "reaches svc r r"
| There: "reaches svc r s \<Longrightarrow> hub_step svc s t \<Longrightarrow> reaches svc r t"

lemma reaches_invariant:
  assumes "reaches svc r s" and "P r" and "\<And>s t. P s \<Longrightarrow> hub_step svc s t \<Longrightarrow> P t"
  shows "P s"
  using assms(1,2) by induction (blast intro: assms(3))+

section \<open>The books of the retry queue\<close>

definition queued :: "pending list \<Rightarrow> string option multiset" where
  "queued q = image_mset (\<lambda>i. Some (pd_body i)) (mset q)"

lemma queued_simps [simp]:
  "queued [] = {#}" "queued (i # q) = add_mset (Some (pd_body i)) (queued q)" "queued (p @ q) = queued p + queued q"
  by (simp_all add: queued_def)

lemma queued_filter: "queued (filter P q) + queued (filter (\<lambda>i. \<not> P i) q) = queued q"
  by (induction q) auto

lemma queued_take_drop: "queued (take k q) + queued (drop k q) = queued q"
  by (metis append_take_drop_id queued_simps(3))

text \<open>The operation took in \<^verbatim>\<open>A\<close> and handed on \<^verbatim>\<open>B\<close>; the difference is in the queue or counted.\<close>

definition settles :: "string option multiset \<Rightarrow> string option multiset \<Rightarrow> 'w hub_events \<Rightarrow> 'w hub_events \<Rightarrow> bool" where
  "settles A B m m' \<longleftrightarrow>
     (\<exists>L. queued (eh_retry_q m') + B + L = queued (eh_retry_q m) + A \<and> eh_lost m' = eh_lost m + int (size L))"

lemma settlesI:
  "queued (eh_retry_q m') + B + L = queued (eh_retry_q m) + A \<Longrightarrow> eh_lost m' = eh_lost m + int (size L) \<Longrightarrow> settles A B m m'"
  unfolding settles_def by blast

lemma settles_same: "eh_retry_q m' = eh_retry_q m \<Longrightarrow> eh_lost m' = eh_lost m \<Longrightarrow> settles A A m m'"
  by (rule settlesI [where L = "{#}"]) simp_all

lemma settles_trans:
  assumes "settles A B m n" and "settles C D n p"
  shows "settles (A + C) (B + D) m p"
proof -
  let ?q = "\<lambda>x. queued (eh_retry_q x)"
  obtain L L' where L: "?q n + B + L = ?q m + A" "eh_lost n = eh_lost m + int (size L)"
    "?q p + D + L' = ?q n + C" "eh_lost p = eh_lost n + int (size L')"
    using assms unfolding settles_def by blast
  have "?q p + (B + D) + (L + L') = (?q p + D + L') + (B + L)"
    by (simp add: ac_simps)
  also have "\<dots> = (?q n + B + L) + C"
    unfolding L(3) by (simp add: ac_simps)
  also have "\<dots> = ?q m + (A + C)"
    unfolding L(1) by (simp add: ac_simps)
  finally show ?thesis
    by (rule settlesI) (use L in simp)
qed

text \<open>What an operation leaves alone.\<close>

definition flags :: "'w hub_events \<Rightarrow> bool \<times> bool \<times> bool" where
  "flags m = (eh_producer m, eh_disabled m, eh_init_failed m)"

definition sending :: "'w hub_events \<Rightarrow> pending list" where
  "sending m = (case eh_drainer m of Some (Sending i rest) \<Rightarrow> i # rest | _ \<Rightarrow> [])"

lemma wp_outside [wp_rules]: "wp (outside f) Q E s = (case f (eh_world s) of (a, w) \<Rightarrow> Q a (s\<lparr>eh_world := w\<rparr>))"
  by (simp add: wp_def outside_def split: prod.splits)

lemma wp_note:
  "(\<And>rs w. Q () (s\<lparr>eh_world := w, eh_reasons := rs\<rparr>)) \<Longrightarrow> wp (note_drop svc kind err n) Q E s"
  by (auto simp: note_drop_def wp_rules split: prod.splits)

lemma wp_evict:
  assumes "n \<le> length (eh_retry_q s)" and "1 \<le> cap" and "length (eh_retry_q s) \<le> n + nat (cap - 1)"
    and "\<And>k s'. eh_retry_q s' = drop k (eh_retry_q s) \<Longrightarrow> k \<le> length (eh_retry_q s) \<Longrightarrow> eh_lost s' = eh_lost s + int k \<Longrightarrow>
      int (length (eh_retry_q s')) < cap \<Longrightarrow> flags s' = flags s \<Longrightarrow> eh_drainer s' = eh_drainer s \<Longrightarrow> Q () s'"
  shows "wp (evict svc cap n) Q E s"
  using assms
proof (induction n arbitrary: s)
  case 0
  then have "int (length (eh_retry_q s)) < cap"
    by linarith
  then show ?case
    using 0 by (auto simp: wp_rules intro!: 0(4) [of s 0])
next
  case (Suc n)
  show ?case
  proof (cases "cap \<le> int (length (eh_retry_q s))")
    case True
    have "wp (evict svc cap n) Q E (s\<lparr>eh_retry_q := tl (eh_retry_q s), eh_lost := eh_lost s + 1, eh_world := w, eh_reasons := rs\<rparr>)" for w rs
    proof (rule Suc.IH)
      fix k and s' :: "'a hub_events"
      assume "eh_retry_q s' = drop k (eh_retry_q (s\<lparr>eh_retry_q := tl (eh_retry_q s), eh_lost := eh_lost s + 1, eh_world := w, eh_reasons := rs\<rparr>))"
        "k \<le> length (eh_retry_q (s\<lparr>eh_retry_q := tl (eh_retry_q s), eh_lost := eh_lost s + 1, eh_world := w, eh_reasons := rs\<rparr>))"
        "eh_lost s' = eh_lost (s\<lparr>eh_retry_q := tl (eh_retry_q s), eh_lost := eh_lost s + 1, eh_world := w, eh_reasons := rs\<rparr>) + int k"
        "int (length (eh_retry_q s')) < cap"
        "flags s' = flags (s\<lparr>eh_retry_q := tl (eh_retry_q s), eh_lost := eh_lost s + 1, eh_world := w, eh_reasons := rs\<rparr>)"
        "eh_drainer s' = eh_drainer (s\<lparr>eh_retry_q := tl (eh_retry_q s), eh_lost := eh_lost s + 1, eh_world := w, eh_reasons := rs\<rparr>)"
      then show "Q () s'"
        using Suc.prems(1) by (intro Suc.prems(4) [where k = "Suc k"]) (auto simp: drop_Suc flags_def)
    qed (use Suc.prems in auto)
    then show ?thesis
      using True by (auto simp: wp_rules intro!: wp_note)
  next
    case False
    then show ?thesis
      using Suc.prems(4) [of s 0] by (simp add: wp_rules)
  qed
qed

text \<open>The backoff is a float as long as no event may be tried more than 1024 times.\<close>

lemma float_of_power: "k \<le> 1023 \<Longrightarrow> float_of_int (2 ^ k) = Inr (FFin (2 ^ k))"
proof -
  assume k: "k \<le> 1023"
  have "rep64 (of_int 1 * 2 powi int k)"
    by (rule rep64I) simp_all
  then have "rnd64 (2 ^ k) = 2 ^ k"
    by (simp add: rnd64_rep)
  moreover have "(2::rat) ^ k < 2 ^ 1024"
    using k by (intro power_strict_increasing) auto
  ultimately show ?thesis
    by (simp add: float_of_int_def to_float_def fmax_def Let_def)
qed

lemma backoff_returns: "n \<le> 1024 \<Longrightarrow> \<exists>d. backoff_seconds n base cap = Inr d"
  using float_of_power [of "nat (max 0 (n - 1))"] by (simp add: backoff_seconds_def bind_sum_def)

definition tries_ok :: "'w ev_svc \<Rightarrow> bool" where
  "tries_ok svc \<longleftrightarrow> hc_retry_max_attempts (ev_cfg svc) \<le> 1024"

text \<open>Parking one event: it is queued or given up on, and what it displaces is counted.\<close>

definition parked :: "'w ev_svc \<Rightarrow> 'w hub_events \<Rightarrow> 'w hub_events \<Rightarrow> bool" where
  "parked svc m m' \<longleftrightarrow>
     flags m' = flags m \<and> sending m' = sending m
   \<and> (eh_drainer m \<noteq> None \<longrightarrow> eh_drainer m' = eh_drainer m)
   \<and> int (length (eh_retry_q m')) \<le> max (max (hc_retry_max_queue (ev_cfg svc)) 1) (int (length (eh_retry_q m)))
   \<and> (\<forall>i\<in>set (eh_retry_q m'). i \<in> set (eh_retry_q m) \<or> pd_attempts i \<le> hc_retry_max_attempts (ev_cfg svc))"

lemma parked_refl: "parked svc m m"
  by (simp add: parked_def)

lemma parked_trans: "parked svc m n \<Longrightarrow> parked svc n p \<Longrightarrow> parked svc m p"
  unfolding parked_def by fastforce

lemma wp_requeue_when:
  assumes "attempts \<le> hc_retry_max_attempts (ev_cfg svc) \<Longrightarrow> attempts \<le> 1024"
    and "\<And>m'. settles {#Some body#} {#} m m' \<Longrightarrow> parked svc m m' \<Longrightarrow> Q () m'"
  shows "wp (requeue svc body attempts) Q E m"
proof (cases "hc_retry_max_attempts (ev_cfg svc) < attempts")
  case True
  have "Q () (m\<lparr>eh_lost := eh_lost m + 1, eh_world := w, eh_reasons := rs\<rparr>)" for w rs
  proof (rule assms(2))
    show "settles {#Some body#} {#} m (m\<lparr>eh_lost := eh_lost m + 1, eh_world := w, eh_reasons := rs\<rparr>)"
      by (rule settlesI [where L = "{#Some body#}"]) simp_all
  qed (simp add: parked_def flags_def sending_def)
  then show ?thesis
    using True by (auto simp: requeue_def wp_rules intro!: wp_note)
next
  case False
  let ?cap = "max (hc_retry_max_queue (ev_cfg svc)) 1"
  obtain d where d: "backoff_seconds attempts (hc_retry_base_seconds (ev_cfg svc)) RETRY_CAP_SECONDS = Inr d"
    using backoff_returns [of attempts] False assms(1) by auto
  have "wp (evict svc ?cap (length (eh_retry_q m)))
     (\<lambda>_ t. \<forall>now w1 j w2. Q () (let u = t\<lparr>eh_world := w2, eh_retry_q := eh_retry_q t @
          [\<lparr>pd_body = body, pd_attempts = attempts, pd_next_at = fadd now (fmul d j)\<rparr>]\<rparr> in
        if eh_drainer u \<noteq> None then u\<lparr>eh_wake := True\<rparr> else u\<lparr>eh_drainer := Some AtTop, eh_wake := False\<rparr>)) E m"
  proof (rule wp_evict, goal_cases)
    case (4 k t)
    have "Q () u" if "eh_retry_q u = eh_retry_q t @ [\<lparr>pd_body = body, pd_attempts = attempts, pd_next_at = x\<rparr>]"
      "eh_lost u = eh_lost t" "flags u = flags t" "sending u = sending t"
      "eh_drainer t \<noteq> None \<Longrightarrow> eh_drainer u = eh_drainer t" for u x
    proof (rule assms(2))
      show "settles {#Some body#} {#} m u"
        by (rule settlesI [where L = "queued (take k (eh_retry_q m))"])
           (use 4 that queued_take_drop [of k "eh_retry_q m"] in \<open>simp_all add: queued_def ac_simps\<close>)
      show "parked svc m u"
        using 4 that False in_set_dropD [of _ k "eh_retry_q m"] by (auto simp: parked_def sending_def)
    qed
    then show ?case
      by (auto simp: Let_def flags_def sending_def)
  qed auto
  then have "wp (evict svc ?cap (length (eh_retry_q m)))
     (\<lambda>_. wp (bnd (outside (monotonic svc)) (\<lambda>now. bnd (delay svc attempts) (\<lambda>d.
        sq (mod_st (\<lambda>s. s\<lparr>eh_retry_q := eh_retry_q s @
              [\<lparr>pd_body = body, pd_attempts = attempts, pd_next_at = fadd now d\<rparr>]\<rparr>))
           ensure_drainer))) Q E) E m"
    by (rule wp_conseq) (auto simp: wp_rules wp_fun_rules delay_def d ensure_drainer_def Let_def split: prod.splits)
  then show ?thesis
    using False by (simp add: requeue_def wp_rules)
qed

lemma wp_requeue:
  assumes "tries_ok svc"
    and "\<And>m'. settles {#Some body#} {#} m m' \<Longrightarrow> parked svc m m' \<Longrightarrow> Q () m'"
  shows "wp (requeue svc body attempts) Q E m"
  by (rule wp_requeue_when) (use assms in \<open>auto simp: tries_ok_def\<close>)

lemma wp_requeue_batch:
  assumes "tries_ok svc"
    and "\<And>m'. settles (image_mset body_text (mset evs)) {#} m m' \<Longrightarrow> parked svc m m' \<Longrightarrow> Q () m'"
  shows "wp (requeue_batch svc evs) Q E m"
  using assms(2)
proof (induction evs arbitrary: m)
  case Nil
  then show ?case
    by (auto simp: wp_rules settles_same parked_refl)
next
  case (Cons ev evs)
  have rest: "wp (requeue_batch svc evs) Q E n"
    if n: "settles {#body_text ev#} {#} m n" "parked svc m n" for n
  proof (rule Cons.IH)
    fix m'
    assume "settles (image_mset body_text (mset evs)) {#} n m'" "parked svc n m'"
    then show "Q () m'"
      using settles_trans [OF n(1)] parked_trans [OF n(2)] by (intro Cons.prems) auto
  qed
  show ?case
  proof (cases "body_text ev")
    case None
    have "settles {#None#} {#} m (m\<lparr>eh_lost := eh_lost m + 1\<rparr>)"
      by (rule settlesI [where L = "{#None#}"]) simp_all
    then show ?thesis
      using None rest [of "m\<lparr>eh_lost := eh_lost m + 1\<rparr>"]
      by (simp add: wp_rules parked_def flags_def sending_def)
  next
    case (Some b)
    then show ?thesis
      by (simp add: wp_rules) (rule wp_requeue [OF assms(1)], auto intro: rest)
  qed
qed

lemma wp_on_error:
  assumes "tries_ok svc"
    and "\<And>m'. settles (image_mset body_text (mset evs)) {#} m m' \<Longrightarrow> parked svc m m' \<Longrightarrow> Q () m'"
  shows "wp (on_error svc (Some evs) e) Q E m"
proof -
  have "Q () m'"
    if "settles (image_mset body_text (mset evs)) {#} (m\<lparr>eh_failed_send := n, eh_world := w, eh_reasons := rs\<rparr>) m'"
      "parked svc (m\<lparr>eh_failed_send := n, eh_world := w, eh_reasons := rs\<rparr>) m'" for n w rs m'
    using that by (intro assms(2)) (simp_all add: settles_def parked_def flags_def sending_def)
  then show ?thesis
    by (auto simp: on_error_def Let_def wp_rules intro!: wp_note wp_requeue_batch [OF assms(1)])
qed

section \<open>The pieces of the coroutines\<close>

definition encoded :: "'w ev_svc \<Rightarrow> usage_rec \<Rightarrow> string option" where
  "encoded svc x = (case encode_record (envelope (ev_cfg svc) x) of Inr b \<Rightarrow> Some b | Inl _ \<Rightarrow> None)"

lemma encoded_nonempty: "encoded svc x = Some b \<Longrightarrow> b \<noteq> []"
  by (auto simp: encoded_def encode_record_def bind_sum_def split: sum.splits)

text \<open>The first record that finds no producer builds it or fails for good.\<close>

definition started :: "'w hub_events \<Rightarrow> 'w hub_events \<Rightarrow> bool" where
  "started m m' \<longleftrightarrow>
     eh_disabled m' = eh_disabled m \<and> eh_retry_q m' = eh_retry_q m \<and> eh_drainer m' = eh_drainer m
   \<and> (eh_producer m \<longrightarrow> flags m' = flags m) \<and> (eh_init_failed m \<longrightarrow> flags m' = flags m)
   \<and> (eh_init_failed m' \<longrightarrow> eh_init_failed m \<or> \<not> eh_producer m')"

lemma started_refl: "started m m"
  by (simp add: started_def)

lemma wp_get_producer:
  assumes "eventhub_enabled (ev_cfg svc)" and "\<not> eh_disabled m"
    and "\<And>m'. started m m' \<Longrightarrow> eh_lost m' = eh_lost m \<Longrightarrow> eh_producer m' \<or> eh_init_failed m' \<Longrightarrow> Q (eh_producer m') m'"
  shows "wp (get_producer svc) Q E m"
proof -
  obtain a w where b: "build_producer svc (eh_world m) = (a, w)"
    by (cases "build_producer svc (eh_world m)")
  show ?thesis
    using assms(1,2) b assms(3) [of m] assms(3) [of "m\<lparr>eh_producer := True, eh_world := w\<rparr>"]
      assms(3) [of "m\<lparr>eh_init_failed := True, eh_init_error := exn_class (sum.projl a), eh_world := w\<rparr>"]
    by (cases a) (auto simp: get_producer_def wp_rules started_def flags_def)
qed

lemma wp_log_throttled:
  "(\<And>w t. Q () (s\<lparr>eh_world := w, eh_last_log := t\<rparr>)) \<Longrightarrow> (\<And>w. Q () (s\<lparr>eh_world := w\<rparr>)) \<Longrightarrow> wp (log_throttled svc key) Q E s"
  by (auto simp: log_throttled_def wp_rules split: prod.splits)

lemma wp_emit_begin:
  assumes "eventhub_enabled (ev_cfg svc)" and "\<not> eh_disabled m"
    and "\<And>b m'. encoded svc x = Some b \<Longrightarrow> settles {#} {#} m m' \<Longrightarrow> started m m' \<Longrightarrow> eh_producer m' \<Longrightarrow> Q (Some b) m'"
    and "\<And>m'. settles {#encoded svc x#} {#} m m' \<Longrightarrow> started m m' \<Longrightarrow> Q None m'"
  shows "wp (emit_begin svc x) Q E m"
proof (cases "encode_record (envelope (ev_cfg svc) x)")
  case (Inl e)
  have "Q None (m\<lparr>eh_failed_serialize := n, eh_lost := eh_lost m + 1, eh_world := w, eh_reasons := rs\<rparr>)" for n w rs
    by (rule assms(4), rule settlesI [where L = "{#encoded svc x#}"]) (simp_all add: started_def flags_def)
  then show ?thesis
    using Inl by (auto simp: emit_begin_def wp_rules intro!: wp_note)
next
  case (Inr b)
  then have enc: "encoded svc x = Some b"
    by (simp add: encoded_def)
  show ?thesis
    unfolding emit_begin_def Inr sum.case wp_bnd
  proof (rule wp_get_producer [OF assms(1,2)])
    fix n
    assume n: "started m n" "eh_lost n = eh_lost m" "eh_producer n \<or> eh_init_failed n"
    show "wp (if eh_producer n then ret (Some b)
        else bnd get_st (\<lambda>s.
            if eh_init_failed s then
              sq (mod_st (\<lambda>s. s\<lparr>eh_failed_init := eh_failed_init s + 1, eh_lost := eh_lost s + 1\<rparr>))
             (sq (note_drop svc ''init'' (Said (eh_init_error s)) 1)
             (sq (log_throttled svc ''init'') (ret None)))
            else ret None)) Q E n"
    proof (cases "eh_producer n")
      case True
      then show ?thesis
        using n enc by (auto simp: wp_rules started_def intro!: assms(3) settles_same)
    next
      case False
      have gone: "Q None p" if "eh_lost p = eh_lost n + 1" "started n p" "flags p = flags n" for p
      proof (rule assms(4))
        show "settles {#encoded svc x#} {#} m p"
          by (rule settlesI [where L = "{#encoded svc x#}"]) (use that n in \<open>simp_all add: started_def\<close>)
        show "started m p"
          using that n by (simp add: started_def flags_def)
      qed
      then show ?thesis
        using False n(3) by (auto simp: wp_rules started_def flags_def intro!: wp_note wp_log_throttled gone)
    qed
  qed
qed

lemma wp_emit_end:
  assumes "tries_ok svc"
    and "\<And>m'. settles (case sent of Inr _ \<Rightarrow> {#} | Inl _ \<Rightarrow> {#Some b#}) {#} m m' \<Longrightarrow> parked svc m m' \<Longrightarrow> Q () m'"
  shows "wp (emit_end svc b sent) Q E m"
proof (cases sent)
  case (Inl e)
  have "Q () m'"
    if "settles {#Some b#} {#} (m\<lparr>eh_failed_enqueue := n, eh_world := w, eh_reasons := rs\<rparr>) m'"
      "parked svc (m\<lparr>eh_failed_enqueue := n, eh_world := w, eh_reasons := rs\<rparr>) m'" for n w rs m'
    using that Inl by (intro assms(2)) (simp_all add: settles_def parked_def flags_def sending_def)
  then show ?thesis
    using Inl by (auto simp: emit_end_def wp_rules intro!: wp_note wp_requeue [OF assms(1)])
next
  case (Inr u)
  then show ?thesis
    using assms(2) [of m] by (simp add: emit_end_def wp_rules settles_same parked_refl)
qed

lemma wp_spawn_emit:
  assumes "\<And>m'. settles {#} {#} m m' \<Longrightarrow> started m m' \<Longrightarrow> Q (Some x) m'"
    and "\<And>m'. settles {#encoded svc x#} {#} m m' \<Longrightarrow> started m m' \<Longrightarrow> Q None m'"
  shows "wp (spawn_emit svc n (Inr x)) Q E m"
proof -
  have "Q None (m\<lparr>eh_failed_enqueue := k, eh_lost := eh_lost m + 1, eh_world := w, eh_reasons := rs\<rparr>)" for k w rs
    by (rule assms(2), rule settlesI [where L = "{#encoded svc x#}"]) (simp_all add: started_def flags_def)
  then show ?thesis
    using assms(1) [of m] by (auto simp: spawn_emit_def record_drop_def wp_rules settles_same started_refl intro!: wp_note)
qed

text \<open>The drain task only runs once there is a producer.\<close>

definition drained :: "'w hub_events \<Rightarrow> 'w hub_events \<Rightarrow> bool" where
  "drained m m' \<longleftrightarrow> flags m' = flags m \<and> eh_drainer m' \<noteq> None
     \<and> length (eh_retry_q m') \<le> length (eh_retry_q m)
     \<and> set (eh_retry_q m') \<union> set (sending m') \<subseteq> set (eh_retry_q m) \<union> set (sending m)"

lemma wp_send_next:
  assumes "\<not> eh_init_failed m"
    and "\<And>m'. eh_retry_q m' = eh_retry_q m \<Longrightarrow> eh_lost m' = eh_lost m \<Longrightarrow> flags m' = flags m \<Longrightarrow> sending m' = due \<Longrightarrow>
      eh_drainer m' \<noteq> None \<Longrightarrow> Q () m'"
  shows "wp (send_next svc due) Q E m"
  using assms(1)
  by (auto simp: send_next_def wp_rules maybe_reinit_def drain_rest_def flags_def sending_def intro!: assms(2) split: list.splits)

lemma wp_due_items:
  assumes "eh_producer m"
    and "\<And>due m'. settles {#} (queued due) m m' \<Longrightarrow> flags m' = flags m \<Longrightarrow> eh_drainer m' = eh_drainer m \<Longrightarrow>
      length (eh_retry_q m') \<le> length (eh_retry_q m) \<Longrightarrow> set (eh_retry_q m') \<union> set due \<subseteq> set (eh_retry_q m) \<Longrightarrow> Q due m'"
  shows "wp (due_items svc) Q E m"
proof (cases "eh_retry_q m = []")
  case True
  then show ?thesis
    using assms(2) [of "[]" m] by (simp add: due_items_def wp_rules settles_same)
next
  case False
  obtain now w where now: "monotonic svc (eh_world m) = (now, w)"
    by (cases "monotonic svc (eh_world m)")
  let ?due = "filter (\<lambda>i. fle (pd_next_at i) now) (eh_retry_q m)"
  let ?m = "m\<lparr>eh_world := w, eh_retry_q := filter (\<lambda>i. \<not> fle (pd_next_at i) now) (eh_retry_q m)\<rparr>"
  have "Q ?due ?m"
  proof (rule assms(2))
    show "settles {#} (queued ?due) m ?m"
      by (rule settlesI [where L = "{#}"])
         (use queued_filter [of "\<lambda>i. fle (pd_next_at i) now" "eh_retry_q m"] in \<open>simp_all add: ac_simps\<close>)
  qed (auto simp: flags_def length_filter_le)
  then show ?thesis
    using False assms(1) by (simp add: due_items_def wp_rules wp_fun_rules get_producer_def now)
qed

lemma wp_drain_top:
  assumes "eh_producer m" and "\<not> eh_init_failed m" and "sending m = []"
    and "\<And>m'. settles {#} (queued (sending m')) m m' \<Longrightarrow> drained m m' \<Longrightarrow> Q () m'"
  shows "wp (drain_top svc) Q E m"
  unfolding drain_top_def in_loop_def wp_catch wp_bnd
proof (rule wp_due_items [OF assms(1)])
  fix due n
  assume n: "settles {#} (queued due) m n" "flags n = flags m" "eh_drainer n = eh_drainer m"
    "length (eh_retry_q n) \<le> length (eh_retry_q m)" "set (eh_retry_q n) \<union> set due \<subseteq> set (eh_retry_q m)"
  then have "\<not> eh_init_failed n"
    using assms(2) by (simp add: flags_def)
  then show "wp (send_next svc due) Q (\<lambda>e. wp (drain_rest svc) Q E) n"
  proof (rule wp_send_next)
    fix m' :: "'a hub_events"
    assume m': "eh_retry_q m' = eh_retry_q n" "eh_lost m' = eh_lost n" "flags m' = flags n" "sending m' = due"
      "eh_drainer m' \<noteq> None"
    show "Q () m'"
    proof (rule assms(4))
      show "settles {#} (queued (sending m')) m m'"
        using n(1) m' by (simp add: settles_def)
      show "drained m m'"
        using n m' assms(3) by (simp add: drained_def)
    qed
  qed
qed

lemma wp_settle_item:
  assumes "tries_ok svc"
    and "\<And>m'. settles (case sent of Inr _ \<Rightarrow> {#} | Inl _ \<Rightarrow> {#Some (pd_body i)#}) {#} m m' \<Longrightarrow> parked svc m m' \<Longrightarrow> Q () m'"
  shows "wp (settle_item svc i sent) Q E m"
proof (cases sent)
  case (Inl e)
  have "Q () m'"
    if "settles {#Some (pd_body i)#} {#} (m\<lparr>eh_failed_retry := n, eh_world := w, eh_reasons := rs\<rparr>) m'"
      "parked svc (m\<lparr>eh_failed_retry := n, eh_world := w, eh_reasons := rs\<rparr>) m'" for n w rs m'
    using that Inl by (intro assms(2)) (simp_all add: settles_def parked_def flags_def sending_def)
  then show ?thesis
    using Inl by (auto simp: settle_item_def wp_rules intro!: wp_note wp_requeue [OF assms(1)])
next
  case (Inr u)
  then show ?thesis
    using assms(2) [of m] by (simp add: settle_item_def wp_rules settles_same parked_refl)
qed

lemma wp_drain_resume:
  assumes "tries_ok svc" and "\<not> eh_init_failed m"
    and "\<And>n m'. parked svc m n \<Longrightarrow> settles (case sent of Inr _ \<Rightarrow> {#} | Inl _ \<Rightarrow> {#Some (pd_body i)#}) {#} m m' \<Longrightarrow>
      eh_retry_q m' = eh_retry_q n \<Longrightarrow> flags m' = flags m \<Longrightarrow> sending m' = rest \<Longrightarrow> eh_drainer m' \<noteq> None \<Longrightarrow> Q () m'"
  shows "wp (drain_resume svc i rest sent) Q E m"
  unfolding drain_resume_def in_loop_def wp_catch wp_sq
proof (rule wp_settle_item [OF assms(1)])
  fix n
  assume n: "settles (case sent of Inr _ \<Rightarrow> {#} | Inl _ \<Rightarrow> {#Some (pd_body i)#}) {#} m n" "parked svc m n"
  then have "\<not> eh_init_failed n"
    using assms(2) by (simp add: parked_def flags_def)
  then show "wp (send_next svc rest) Q (\<lambda>e. wp (drain_rest svc) Q E) n"
    by (rule wp_send_next) (use n in \<open>auto simp: settles_def parked_def intro!: assms(3) [OF n(2)]\<close>)
qed

section \<open>Where a record is\<close>

text \<open>What the hub still holds, or knows to be delivered.\<close>

definition elsewhere :: "'w ev_svc \<Rightarrow> 'w hub_life \<Rightarrow> string option multiset" where
  "elsewhere svc r =
     image_mset (encoded svc) (mset (hl_tasks r)) + image_mset (\<lambda>s. Some (snd s)) (mset (hl_sends r))
   + image_mset body_text (hl_buffer r) + image_mset body_text (hl_acked r)"

definition held :: "'w ev_svc \<Rightarrow> 'w hub_life \<Rightarrow> string option multiset" where
  "held svc r = elsewhere svc r + queued (sending (hl_mod r)) + queued (eh_retry_q (hl_mod r))"

definition handed_over :: "'w ev_svc \<Rightarrow> 'w hub_life \<Rightarrow> string option multiset" where
  "handed_over svc r = image_mset (encoded svc) (mset (hl_records r))"

definition books_close :: "'w ev_svc \<Rightarrow> 'w hub_life \<Rightarrow> bool" where
  "books_close svc r \<longleftrightarrow>
     (\<exists>L. held svc r + L = handed_over svc r \<and> eh_lost (hl_mod r) = int (size L))"

text \<open>Before there is a producer nothing is under way, and a producer excludes a failed start.\<close>

definition orderly :: "'w ev_svc \<Rightarrow> 'w hub_life \<Rightarrow> bool" where
  "orderly svc r \<longleftrightarrow>
     (let m = hl_mod r in
      \<not> eh_disabled m
    \<and> (\<not> eh_producer m \<longrightarrow> eh_retry_q m = [] \<and> eh_drainer m = None \<and> hl_sends r = [] \<and> hl_buffer r = {#} \<and> hl_acked r = {#})
    \<and> (eh_init_failed m \<longrightarrow> \<not> eh_producer m)
    \<and> int (length (eh_retry_q m)) \<le> max (hc_retry_max_queue (ev_cfg svc)) 1
    \<and> (\<forall>i\<in>set (eh_retry_q m) \<union> set (sending m). pd_attempts i \<le> hc_retry_max_attempts (ev_cfg svc)))"

lemma books_balance:
  fixes q :: "'x multiset"
  assumes "out + q + L = T" and "q' + B + L' = q + A" and "out' + A = out + B + N"
  shows "out' + q' + (L + L') = T + N"
proof -
  have "out' + q' + (L + L') + B = (q' + B + L') + out' + L"
    by (simp add: ac_simps)
  also have "\<dots> = (out' + A) + q + L"
    unfolding assms(2) by (simp add: ac_simps)
  also have "\<dots> = (out + q + L) + N + B"
    unfolding assms(3) by (simp add: ac_simps)
  finally show ?thesis
    unfolding assms(1) by simp
qed

lemma books_step:
  assumes "books_close svc r" and "settles A B (hl_mod r) (hl_mod r')"
    and "elsewhere svc r' + queued (sending (hl_mod r')) + A = elsewhere svc r + queued (sending (hl_mod r)) + B + N"
    and "handed_over svc r' = handed_over svc r + N"
  shows "books_close svc r'"
proof -
  obtain L where L: "held svc r + L = handed_over svc r" "eh_lost (hl_mod r) = int (size L)"
    using assms(1) unfolding books_close_def by blast
  obtain L' where L': "queued (eh_retry_q (hl_mod r')) + B + L' = queued (eh_retry_q (hl_mod r)) + A"
      "eh_lost (hl_mod r') = eh_lost (hl_mod r) + int (size L')"
    using assms(2) unfolding settles_def by blast
  have "held svc r' + (L + L') = handed_over svc r'"
    using books_balance [OF L(1) [unfolded held_def] L'(1) assms(3)] assms(4) by (simp add: held_def)
  then show ?thesis
    unfolding books_close_def using L(2) L'(2) by (intro exI [of _ "L + L'"]) simp
qed

lemma body_text_make: "b \<noteq> [] \<Longrightarrow> body_text (make_event b n) = Some b"
  by (simp add: body_text_def make_event_def)

text \<open>A body on its way is the text of a record, so it is not empty.\<close>

lemma body_nonempty:
  assumes "books_close svc r" and "Some b \<in># held svc r"
  shows "b \<noteq> []"
proof -
  have "Some b \<in># handed_over svc r"
    using assms unfolding books_close_def by (metis union_iff)
  then obtain x where "encoded svc x = Some b"
    by (force simp: handed_over_def)
  then show ?thesis
    by (rule encoded_nonempty)
qed

lemma orderly_parked:
  assumes "orderly svc r" and "parked svc (hl_mod r) m" and "eh_producer (hl_mod r)"
    and "hl_mod r' = m"
  shows "orderly svc r'"
proof -
  have "eh_disabled m = eh_disabled (hl_mod r)" "eh_producer m" "eh_init_failed m = eh_init_failed (hl_mod r)"
    using assms by (auto simp: parked_def flags_def)
  moreover have "pd_attempts i \<le> hc_retry_max_attempts (ev_cfg svc)" if "i \<in> set (eh_retry_q m) \<union> set (sending m)" for i
    using that assms(1,2) by (auto simp: parked_def orderly_def Let_def)
  ultimately show ?thesis
    using assms by (auto simp: orderly_def Let_def parked_def)
qed

lemma orderly_resumed:
  assumes "orderly svc r" and "eh_producer (hl_mod r)" and "sending (hl_mod r) = i # rest"
    and "parked svc (hl_mod r) n" and "eh_retry_q (hl_mod r') = eh_retry_q n" and "flags (hl_mod r') = flags (hl_mod r)"
    and "sending (hl_mod r') = rest"
  shows "orderly svc r'"
proof -
  have "pd_attempts j \<le> hc_retry_max_attempts (ev_cfg svc)" if "j \<in> set (eh_retry_q n) \<union> set rest" for j
    using that assms(1,3,4) by (auto simp: parked_def orderly_def Let_def)
  then show ?thesis
    using assms by (auto simp: orderly_def Let_def parked_def flags_def)
qed

lemma orderly_started:
  assumes "orderly svc r" and "started (hl_mod r) m" and "hl_mod r' = m"
    and "hl_buffer r' = hl_buffer r" and "hl_acked r' = hl_acked r" and "hl_sends r' = hl_sends r \<or> eh_producer m"
  shows "orderly svc r'"
  using assms by (auto simp: orderly_def Let_def started_def flags_def sending_def)

lemma started_sending: "started m m' \<Longrightarrow> sending m' = sending m"
  by (simp add: started_def sending_def)

lemma hub_step_keeps:
  assumes enabled: "eventhub_enabled (ev_cfg svc)" and tries: "tries_ok svc"
    and r: "orderly svc r" "books_close svc r" and step: "hub_step svc r r'"
  shows "orderly svc r' \<and> books_close svc r'"
  using step
proof cases
  case (Emit x out m)
  have "wp (emit_begin svc x) (\<lambda>out m. orderly svc (r\<lparr>hl_mod := m, hl_sends := add_send False out (hl_sends r), hl_records := hl_records r @ [x]\<rparr>)
      \<and> books_close svc (r\<lparr>hl_mod := m, hl_sends := add_send False out (hl_sends r), hl_records := hl_records r @ [x]\<rparr>)) (\<lambda>_ _. True) (hl_mod r)"
  proof (rule wp_emit_begin [OF enabled], goal_cases)
    case 1
    then show ?case using r by (simp add: orderly_def Let_def)
  next
    case (2 b m)
    then show ?case
      by (intro conjI orderly_started [OF r(1) 2(3)] books_step [OF r(2), where A = "{#}" and B = "{#}" and N = "{#Some b#}"])
         (simp_all add: add_send_def elsewhere_def handed_over_def started_sending ac_simps)
  next
    case (3 m)
    then show ?case
      by (intro conjI orderly_started [OF r(1) 3(2)]
            books_step [OF r(2), where A = "{#encoded svc x#}" and B = "{#}" and N = "{#encoded svc x#}"])
         (simp_all add: add_send_def elsewhere_def handed_over_def started_sending ac_simps)
  qed
  then show ?thesis
    using Emit by (auto dest: wp_Inr)
next
  case (Spawn x out m)
  let ?r = "\<lambda>out m. r\<lparr>hl_mod := m, hl_tasks := hl_tasks r @ (case out of Some y \<Rightarrow> [y] | None \<Rightarrow> []), hl_records := hl_records r @ [x]\<rparr>"
  have "wp (spawn_emit svc (pending_emits r) (Inr x)) (\<lambda>out m. orderly svc (?r out m) \<and> books_close svc (?r out m)) (\<lambda>_ _. True) (hl_mod r)"
  proof (rule wp_spawn_emit, goal_cases)
    case (1 m)
    then show ?case
      by (intro conjI orderly_started [OF r(1) 1(2)]
            books_step [OF r(2), where A = "{#}" and B = "{#}" and N = "{#encoded svc x#}"])
         (simp_all add: elsewhere_def handed_over_def started_sending ac_simps)
  next
    case (2 m)
    then show ?case
      by (intro conjI orderly_started [OF r(1) 2(2)]
            books_step [OF r(2), where A = "{#encoded svc x#}" and B = "{#}" and N = "{#encoded svc x#}"])
         (simp_all add: elsewhere_def handed_over_def started_sending ac_simps)
  qed
  then show ?thesis
    using Spawn by (auto dest: wp_Inr)
next
  case (Start ts x us out m)
  let ?r = "\<lambda>out m. r\<lparr>hl_mod := m, hl_tasks := ts @ us, hl_sends := add_send True out (hl_sends r)\<rparr>"
  have "wp (emit_begin svc x) (\<lambda>out m. orderly svc (?r out m) \<and> books_close svc (?r out m)) (\<lambda>_ _. True) (hl_mod r)"
  proof (rule wp_emit_begin [OF enabled], goal_cases)
    case 1
    then show ?case using r by (simp add: orderly_def Let_def)
  next
    case (2 b m)
    then show ?case using Start
      by (intro conjI orderly_started [OF r(1) 2(3)] books_step [OF r(2), where A = "{#}" and B = "{#}" and N = "{#}"])
         (simp_all add: add_send_def elsewhere_def handed_over_def started_sending ac_simps)
  next
    case (3 m)
    then show ?case using Start
      by (intro conjI orderly_started [OF r(1) 3(2)]
            books_step [OF r(2), where A = "{#encoded svc x#}" and B = "{#}" and N = "{#}"])
         (simp_all add: add_send_def elsewhere_def handed_over_def started_sending ac_simps)
  qed
  then show ?thesis
    using Start by (auto dest: wp_Inr)
next
  case (Sent as f b bs a m)
  have p: "eh_producer (hl_mod r)" and b: "b \<noteq> []"
    using r(1) Sent body_nonempty [OF r(2), of b] by (auto simp: orderly_def Let_def held_def elsewhere_def)
  let ?r = "\<lambda>m. r\<lparr>hl_mod := m, hl_sends := as @ bs, hl_buffer := add_mset (make_event b 0) (hl_buffer r)\<rparr>"
  have "wp (emit_end svc b (Inr ())) (\<lambda>_ m. orderly svc (?r m) \<and> books_close svc (?r m)) (\<lambda>_ m. orderly svc (?r m) \<and> books_close svc (?r m)) (hl_mod r)"
  proof (rule wp_emit_end [OF tries], goal_cases)
    case (1 m)
    then show ?case using Sent p b
      by (intro conjI orderly_parked [OF r(1) 1(2)] books_step [OF r(2), where A = "{#}" and B = "{#}" and N = "{#}"])
         (simp_all add: elsewhere_def handed_over_def parked_def body_text_make ac_simps)
  qed
  then show ?thesis
    using Sent by (cases a) (auto dest: wp_Inr wp_Inl)
next
  case (Not_sent as f b bs e a m)
  have p: "eh_producer (hl_mod r)"
    using r(1) Not_sent by (auto simp: orderly_def Let_def)
  let ?r = "\<lambda>m. r\<lparr>hl_mod := m, hl_sends := as @ bs\<rparr>"
  have "wp (emit_end svc b (Inl e)) (\<lambda>_ m. orderly svc (?r m) \<and> books_close svc (?r m)) (\<lambda>_ m. orderly svc (?r m) \<and> books_close svc (?r m)) (hl_mod r)"
  proof (rule wp_emit_end [OF tries], goal_cases)
    case (1 m)
    then show ?case using Not_sent p
      by (intro conjI orderly_parked [OF r(1) 1(2)] books_step [OF r(2), where A = "{#Some b#}" and B = "{#}" and N = "{#}"])
         (simp_all add: elsewhere_def handed_over_def parked_def ac_simps)
  qed
  then show ?thesis
    using Not_sent by (cases a) (auto dest: wp_Inr wp_Inl)
next
  case (Acked evs rest a m)
  have p: "eh_producer (hl_mod r)"
    using r(1) Acked by (auto simp: orderly_def Let_def)
  have same: "parked svc (hl_mod r) m" "settles {#} {#} (hl_mod r) m"
    using Acked by (auto simp: on_success_def mod_st_def parked_def flags_def sending_def settles_same split: if_splits)
  show ?thesis
    using Acked p same(2)
    by (intro conjI orderly_parked [OF r(1) same(1)] books_step [OF r(2), where A = "{#}" and B = "{#}" and N = "{#}"])
       (use same(1) in \<open>simp_all add: elsewhere_def handed_over_def parked_def ac_simps\<close>)
next
  case (Refused evs rest e a m)
  have p: "eh_producer (hl_mod r)"
    using r(1) Refused by (auto simp: orderly_def Let_def)
  let ?r = "\<lambda>m. r\<lparr>hl_mod := m, hl_buffer := rest\<rparr>"
  have "wp (on_error svc (Some evs) e) (\<lambda>_ m. orderly svc (?r m) \<and> books_close svc (?r m)) (\<lambda>_ m. orderly svc (?r m) \<and> books_close svc (?r m)) (hl_mod r)"
  proof (rule wp_on_error [OF tries], goal_cases)
    case (1 m)
    then show ?case using Refused p
      by (intro conjI orderly_parked [OF r(1) 1(2)]
            books_step [OF r(2), where A = "image_mset body_text (mset evs)" and B = "{#}" and N = "{#}"])
         (simp_all add: elsewhere_def handed_over_def parked_def ac_simps)
  qed
  then show ?thesis
    using Refused by (cases a) (auto dest: wp_Inr wp_Inl)
next
  case (Drain pc a m)
  have p: "eh_producer (hl_mod r)" "\<not> eh_init_failed (hl_mod r)" "sending (hl_mod r) = []"
    using r(1) Drain by (auto simp: orderly_def Let_def sending_def)
  have "wp (drain_top svc) (\<lambda>_ m. orderly svc (r\<lparr>hl_mod := m\<rparr>) \<and> books_close svc (r\<lparr>hl_mod := m\<rparr>))
      (\<lambda>_ m. orderly svc (r\<lparr>hl_mod := m\<rparr>) \<and> books_close svc (r\<lparr>hl_mod := m\<rparr>)) (hl_mod r)"
  proof (rule wp_drain_top [OF p], intro conjI)
    fix m
    assume m: "settles {#} (queued (sending m)) (hl_mod r) m" "drained (hl_mod r) m"
    show "orderly svc (r\<lparr>hl_mod := m\<rparr>)"
      using r(1) m(2) p by (auto simp: orderly_def Let_def drained_def flags_def)
    show "books_close svc (r\<lparr>hl_mod := m\<rparr>)"
      by (rule books_step [OF r(2), where A = "{#}" and N = "{#}"])
         (use m p in \<open>simp_all add: elsewhere_def handed_over_def ac_simps\<close>)
  qed
  then show ?thesis
    using Drain by (cases a) (auto dest: wp_Inr wp_Inl)
next
  case (Resent i rest a m)
  have p: "eh_producer (hl_mod r)" "\<not> eh_init_failed (hl_mod r)" "sending (hl_mod r) = i # rest" "pd_body i \<noteq> []"
    using r(1) Resent body_nonempty [OF r(2), of "pd_body i"] by (auto simp: orderly_def Let_def sending_def held_def)
  let ?r = "\<lambda>m. r\<lparr>hl_mod := m, hl_buffer := add_mset (make_event (pd_body i) (pd_attempts i)) (hl_buffer r)\<rparr>"
  have "wp (drain_resume svc i rest (Inr ())) (\<lambda>_ m. orderly svc (?r m) \<and> books_close svc (?r m))
      (\<lambda>_ m. orderly svc (?r m) \<and> books_close svc (?r m)) (hl_mod r)"
  proof (rule wp_drain_resume [OF tries p(2)], goal_cases)
    case (1 n m)
    then show ?case using p
      by (intro conjI orderly_resumed [OF r(1) p(1,3) 1(1)] books_step [OF r(2), where A = "{#}" and B = "{#}" and N = "{#}"])
         (simp_all add: elsewhere_def handed_over_def body_text_make ac_simps)
  qed
  then show ?thesis
    using Resent by (cases a) (auto dest: wp_Inr wp_Inl)
next
  case (Not_resent i rest e a m)
  have p: "eh_producer (hl_mod r)" "\<not> eh_init_failed (hl_mod r)" "sending (hl_mod r) = i # rest"
    using r(1) Not_resent by (auto simp: orderly_def Let_def sending_def)
  have "wp (drain_resume svc i rest (Inl e)) (\<lambda>_ m. orderly svc (r\<lparr>hl_mod := m\<rparr>) \<and> books_close svc (r\<lparr>hl_mod := m\<rparr>))
      (\<lambda>_ m. orderly svc (r\<lparr>hl_mod := m\<rparr>) \<and> books_close svc (r\<lparr>hl_mod := m\<rparr>)) (hl_mod r)"
  proof (rule wp_drain_resume [OF tries p(2)], goal_cases)
    case (1 n m)
    then show ?case using p
      by (intro conjI orderly_resumed [OF r(1) p(1,3) 1(1)]
            books_step [OF r(2), where A = "{#Some (pd_body i)#}" and B = "{#}" and N = "{#}"])
         (simp_all add: elsewhere_def handed_over_def ac_simps)
  qed
  then show ?thesis
    using Not_resent by (cases a) (auto dest: wp_Inr wp_Inl)
next
  case (World w)
  then show ?thesis
    using r by (simp add: orderly_def Let_def sending_def books_close_def held_def elsewhere_def handed_over_def)
qed

section \<open>Nothing is lost without being counted\<close>

definition running :: "'w ev_svc \<Rightarrow> bool" where
  "running svc \<longleftrightarrow> eventhub_enabled (ev_cfg svc) \<and> hc_retry_max_attempts (ev_cfg svc) \<le> 1024"

lemma fresh_ok: "orderly svc (fresh_hub w)" "books_close svc (fresh_hub w)"
proof -
  show "orderly svc (fresh_hub w)"
    by (simp add: orderly_def Let_def fresh_hub_def fresh_module_def sending_def)
  have "held svc (fresh_hub w) + {#} = handed_over svc (fresh_hub w)"
    by (simp add: held_def elsewhere_def handed_over_def fresh_hub_def fresh_module_def sending_def)
  moreover have "eh_lost (hl_mod (fresh_hub w)) = int (size {#})"
    by (simp add: fresh_hub_def fresh_module_def)
  ultimately show "books_close svc (fresh_hub w)"
    unfolding books_close_def by blast
qed

lemma reaches_ok:
  assumes "running svc" and "reaches svc r s" and "orderly svc r" and "books_close svc r"
  shows "orderly svc s \<and> books_close svc s"
proof (rule reaches_invariant [OF assms(2)])
  fix s t
  assume s: "orderly svc s \<and> books_close svc s" and step: "hub_step svc s t"
  have "eventhub_enabled (ev_cfg svc)" "tries_ok svc"
    using assms(1) by (simp_all add: running_def tries_ok_def)
  from hub_step_keeps [OF this conjunct1 [OF s] conjunct2 [OF s] step]
  show "orderly svc t \<and> books_close svc t" .
qed (use assms(3,4) in simp)

lemma size_handed_over: "size (handed_over svc r) = length (hl_records r)"
  by (simp add: handed_over_def)

text \<open>C26: the loss counter of a hub is exact.  However emits, spawned emits, callbacks of the producer and
  passes of the drain task interleave, and whichever sends fail, every record handed over since the start
  is in exactly one place: it waits in a task, in a send, in the buffer of the SDK, in the retry queue or
  in the pass of the drain task, it is acknowledged, or it is counted by \<^verbatim>\<open>lost_count\<close>, once.  No record is
  ever held twice, the queue stays within its capacity, and no queued event has been tried more often than
  allowed.  (Event Hub is configured, and at most 1024 attempts are allowed, so that the backoff is a
  float.)\<close>

theorem no_usage_is_lost_uncounted:
  assumes "running svc" and "reaches svc (fresh_hub w) r"
  shows "held svc r \<subseteq># handed_over svc r
    \<and> lost_count (hl_mod r) = int (length (hl_records r)) - int (size (held svc r))
    \<and> int (retry_depth (hl_mod r)) \<le> max (hc_retry_max_queue (ev_cfg svc)) 1
    \<and> list_all (\<lambda>i. pd_attempts i \<le> hc_retry_max_attempts (ev_cfg svc)) (eh_retry_q (hl_mod r))"
proof -
  have ok: "orderly svc r" "books_close svc r"
    using reaches_ok [OF assms fresh_ok] by simp_all
  obtain L where L: "held svc r + L = handed_over svc r" "eh_lost (hl_mod r) = int (size L)"
    using ok(2) unfolding books_close_def by blast
  have "size (held svc r) + size L = length (hl_records r)"
    using arg_cong [OF L(1), of size] by (simp add: size_handed_over)
  moreover have "held svc r \<subseteq># handed_over svc r"
    using L(1) by (metis mset_subset_eq_add_left)
  ultimately show ?thesis
    using ok(1) L(2) by (auto simp: orderly_def Let_def lost_count_def retry_depth_def list_all_iff)
qed

section \<open>What a hub holds in memory\<close>

lemma pending_emits_step: "hub_step svc r s \<Longrightarrow> pending_emits r \<le> MAX_PENDING_EMITS \<Longrightarrow> pending_emits s \<le> MAX_PENDING_EMITS"
proof (induction rule: hub_step.induct)
  case (Spawn r x out m)
  then show ?case
    by (cases "MAX_PENDING_EMITS \<le> pending_emits r")
      (auto simp: spawn_emit_def sq_def bnd_def ret_def pending_emits_def split: sum.splits prod.splits option.splits)
qed (auto simp: pending_emits_def add_send_def split: option.splits if_splits)

text \<open>C27: a stalled broker does not fill a hub's memory: whatever the traffic and the failures, at most 256
  records wait in spawned tasks, and the retry queue holds at most its configured capacity (one, if that is less).\<close>

theorem hub_memory_is_bounded:
  assumes "running svc" and "reaches svc (fresh_hub w) r"
  shows "pending_emits r \<le> MAX_PENDING_EMITS \<and> int (retry_depth (hl_mod r)) \<le> max (hc_retry_max_queue (ev_cfg svc)) 1"
proof -
  have "pending_emits r \<le> MAX_PENDING_EMITS"
    using assms(2)
    by (rule reaches_invariant) (simp_all add: pending_emits_def fresh_hub_def pending_emits_step [unfolded pending_emits_def])
  moreover have "orderly svc r"
    using reaches_ok [OF assms fresh_ok] by simp
  ultimately show ?thesis
    by (simp add: orderly_def Let_def retry_depth_def)
qed

section \<open>A start that failed\<close>

lemma failed_start_step:
  assumes "orderly svc r" and "eh_init_failed (hl_mod r)" and "eventhub_enabled (ev_cfg svc)" and "hub_step svc r s"
  shows "eh_init_failed (hl_mod s)"
proof -
  have idle: "eh_drainer (hl_mod r) = None" "hl_sends r = []" "hl_buffer r = {#}" "\<not> eh_disabled (hl_mod r)"
    using assms(1,2) by (auto simp: orderly_def Let_def)
  have emit: "eh_init_failed m" if "emit_begin svc x (hl_mod r) = (Inr out, m)" for x out m
  proof -
    have "wp (emit_begin svc x) (\<lambda>_. eh_init_failed) (\<lambda>_ _. True) (hl_mod r)"
      by (rule wp_emit_begin [OF assms(3) idle(4)]) (use assms(2) in \<open>simp_all add: started_def flags_def\<close>)
    then show ?thesis
      using that by (auto dest: wp_Inr)
  qed
  have spawn: "eh_init_failed m" if "spawn_emit svc n (Inr x) (hl_mod r) = (Inr out, m)" for n x out m
  proof -
    have "wp (spawn_emit svc n (Inr x)) (\<lambda>_. eh_init_failed) (\<lambda>_ _. True) (hl_mod r)"
      by (rule wp_spawn_emit) (use assms(2) in \<open>simp_all add: started_def flags_def\<close>)
    then show ?thesis
      using that by (auto dest: wp_Inr)
  qed
  from assms(4) show ?thesis
  proof cases
    case (Emit x out m)
    then show ?thesis by (simp add: emit)
  next
    case (Spawn x out m)
    then show ?thesis by (simp add: spawn)
  next
    case (Start ts x us out m)
    then show ?thesis by (simp add: emit)
  next
    case (Sent as f b bs a m)
    then show ?thesis using idle(2) by simp
  next
    case (Not_sent as f b bs e a m)
    then show ?thesis using idle(2) by simp
  next
    case (Acked evs rest a m)
    then show ?thesis using idle(3) by simp
  next
    case (Refused evs rest e a m)
    then show ?thesis using idle(3) by simp
  next
    case (Drain pc a m)
    then show ?thesis using idle(1) by simp
  next
    case (Resent i rest a m)
    then show ?thesis using idle(1) by simp
  next
    case (Not_resent i rest e a m)
    then show ?thesis using idle(1) by simp
  next
    case (World w)
    then show ?thesis using assms(2) by simp
  qed
qed

text \<open>When the producer could not be built for the first record, it is never tried again: however long
  the hub goes on, the failure stays latched, no event is ever sent, and every record handed over is lost
  except those whose task has not started yet.  The retry that \<^verbatim>\<open>_maybe_reinit\<close> promises only runs on the
  drain task and only while something is queued, and a hub whose first start failed queues nothing.\<close>

lemma failed_start_is_forever:
  assumes "running svc" and "reaches svc (fresh_hub w) r" and "eh_init_failed (hl_mod r)" and "reaches svc r s"
  shows "eh_init_failed (hl_mod s) \<and> hl_sends s = [] \<and> hl_buffer s = {#} \<and> hl_acked s = {#}
    \<and> eh_retry_q (hl_mod s) = [] \<and> eh_drainer (hl_mod s) = None
    \<and> lost_count (hl_mod s) = int (length (hl_records s)) - int (length (hl_tasks s))"
proof -
  have r: "orderly svc r" "books_close svc r"
    using reaches_ok [OF assms(1,2) fresh_ok] by simp_all
  have "(orderly svc s \<and> books_close svc s) \<and> eh_init_failed (hl_mod s)"
  proof (rule reaches_invariant [OF assms(4), where P = "\<lambda>r. (orderly svc r \<and> books_close svc r) \<and> eh_init_failed (hl_mod r)"])
    fix s t
    assume s: "(orderly svc s \<and> books_close svc s) \<and> eh_init_failed (hl_mod s)" and step: "hub_step svc s t"
    have en: "eventhub_enabled (ev_cfg svc)" "tries_ok svc"
      using assms(1) by (simp_all add: running_def tries_ok_def)
    show "(orderly svc t \<and> books_close svc t) \<and> eh_init_failed (hl_mod t)"
      using hub_step_keeps [OF en _ _ step] failed_start_step [OF _ _ en(1) step] s by blast
  qed (use r assms(3) in simp)
  then have s: "orderly svc s" "books_close svc s" "eh_init_failed (hl_mod s)"
    by simp_all
  then have idle: "hl_sends s = []" "hl_buffer s = {#}" "hl_acked s = {#}" "eh_retry_q (hl_mod s) = []"
      "eh_drainer (hl_mod s) = None"
    by (auto simp: orderly_def Let_def)
  obtain L where L: "held svc s + L = handed_over svc s" "eh_lost (hl_mod s) = int (size L)"
    using s(2) unfolding books_close_def by blast
  have "size (held svc s) = length (hl_tasks s)"
    using idle by (simp add: held_def elsewhere_def sending_def)
  then show ?thesis
    using idle s(3) arg_cong [OF L(1), of size] L(2) by (simp add: size_handed_over lost_count_def)
qed

text \<open>Emitting never raises, whatever the settings and the world: the pieces of \<^verbatim>\<open>emit\<close> before and after
  its send, the scheduling of a streamed response's record, and the report of a drop all return.\<close>

lemma emitting_never_raises:
  "(\<exists>out m'. emit_begin svc x m = (Inr out, m')) \<and> (\<exists>m'. emit_end svc b sent m = (Inr (), m'))
    \<and> (\<exists>out m'. spawn_emit svc n built m = (Inr out, m'))"
proof -
  have returns: "\<exists>a m'. f m = (Inr a, m')" if "wp f (\<lambda>_ _. True) (\<lambda>_ _. False) m" for f :: "('s, 'x) eff" and m
    using that by (auto simp: wp_def split: prod.splits sum.splits)
  have "wp (emit_begin svc x) (\<lambda>_ _. True) (\<lambda>_ _. False) m"
    by (auto simp: emit_begin_def wp_rules get_producer_def intro!: wp_note wp_log_throttled split: sum.splits prod.splits)
  moreover have "wp (emit_end svc b sent) (\<lambda>_ _. True) (\<lambda>_ _. False) m"
    by (auto simp: emit_end_def wp_rules intro!: wp_note wp_requeue_when split: sum.splits)
  moreover have "wp (spawn_emit svc n built) (\<lambda>_ _. True) (\<lambda>_ _. False) m"
    by (auto simp: spawn_emit_def record_drop_def wp_rules intro!: wp_note split: sum.splits)
  ultimately show ?thesis
    using returns [of "emit_begin svc x" m] returns [of "emit_end svc b sent" m] returns [of "spawn_emit svc n built" m] by auto
qed

section \<open>At concrete inputs\<close>

definition toy_cfg :: hub_cfg where
  "toy_cfg = \<lparr>hc_hub_id = ''gha_1'', hc_eventhub_fqdn = ''ns.example'', hc_eventhub_name = ''usage'',
     hc_retry_max_queue = 1000, hc_retry_max_attempts = 6, hc_retry_base_seconds = FFin 0\<rparr>"

text \<open>A producer that can be built, and one that cannot.\<close>

definition toy_ev :: "unit ev_svc" where
  "toy_ev = \<lparr>ev_cfg = toy_cfg, monotonic = (\<lambda>w. (FFin 0, w)), wall_second = (\<lambda>w. (''now'', w)), jitter = (\<lambda>w. (FFin 1, w)),
     build_producer = ret ()\<rparr>"

definition broken_ev :: "unit ev_svc" where
  "broken_ev = toy_ev\<lparr>build_producer := raise (OtherError ''no credential'')\<rparr>"

lemma toy_running: "running toy_ev" "running broken_ev"
  by (simp_all add: running_def toy_ev_def broken_ev_def toy_cfg_def eventhub_enabled_def)

lemma toy_ev_fields [simp]:
  "ev_cfg toy_ev = toy_cfg" "monotonic toy_ev w = (FFin 0, w)" "wall_second toy_ev w = (''now'', w)"
  "jitter toy_ev w = (FFin 1, w)" "build_producer toy_ev w = (Inr (), w)"
  "ev_cfg broken_ev = toy_cfg" "monotonic broken_ev w = (FFin 0, w)" "wall_second broken_ev w = (''now'', w)"
  "build_producer broken_ev w = (Inl (OtherError ''no credential''), w)"
  "eventhub_enabled toy_cfg" "hc_retry_max_attempts toy_cfg = 6" "hc_retry_max_queue toy_cfg = 1000"
  "hc_retry_base_seconds toy_cfg = FFin 0"
  by (simp_all add: toy_ev_def broken_ev_def toy_cfg_def ret_def raise_def eventhub_enabled_def)

abbreviation toy_hub :: "unit hub_life" where
  "toy_hub \<equiv> fresh_hub ()"

definition toy_body :: string where
  "toy_body = the (encoded toy_ev [])"

lemma toy_encoded: "encode_record (envelope toy_cfg []) = Inr toy_body"
  by (simp add: toy_body_def encoded_def encode_record_def envelope_def bind_sum_def)

text \<open>The first record is sent, refused, queued, and taken up by the drain task.\<close>

definition ready_module :: "unit hub_events" where
  "ready_module = (fresh_module ())\<lparr>eh_producer := True\<rparr>"

lemma toy_emit: "emit_begin toy_ev [] (fresh_module ()) = (Inr (Some toy_body), ready_module)"
  by (simp add: emit_begin_def toy_encoded get_producer_def bnd_def get_st_def fresh_module_def
      ret_def sq_def mod_st_def ready_module_def)

definition toy_item :: pending where
  "toy_item = \<lparr>pd_body = toy_body, pd_attempts = 1, pd_next_at = FFin 0\<rparr>"

lemma toy_backoff: "backoff_seconds 1 (FFin 0) RETRY_CAP_SECONDS = Inr (FFin 0)"
  using float_of_power [of 0]
  by (simp add: backoff_seconds_def bind_sum_def float_min_def RETRY_CAP_SECONDS_def to_float_def fmax_def)

lemma toy_body_nonempty: "toy_body \<noteq> []"
  using toy_encoded encoded_nonempty [of toy_ev "[]"] by (simp add: encoded_def)

definition failed_module :: "unit hub_events" where
  "failed_module = ready_module\<lparr>eh_failed_send := 1, eh_reasons := [\<lparr>dr_at = ''now'', dr_kind = ''send'', dr_count = 1,
     dr_error = Some ''Exception''\<rparr>], eh_retry_q := [toy_item], eh_drainer := Some AtTop\<rparr>"

lemma toy_refused: "on_error toy_ev (Some [make_event toy_body 0]) (OtherError []) ready_module = (Inr (), failed_module)"
  by (simp add: on_error_def Let_def sq_def bnd_def mod_st_def note_drop_def outside_def push_reason_def
      body_text_make toy_body_nonempty attempt_of_def make_event_def requeue_def get_st_def ready_module_def fresh_module_def
      ret_def delay_def lift_sum_def toy_backoff ensure_drainer_def body_text_def failed_module_def toy_item_def to_float_def
      fmax_def)

definition draining_module :: "unit hub_events" where
  "draining_module = failed_module\<lparr>eh_retry_q := [], eh_retried := 1, eh_drainer := Some (Sending toy_item [])\<rparr>"

lemma toy_drain: "drain_top toy_ev failed_module = (Inr (), draining_module)"
  by (simp add: drain_top_def in_loop_def catch_exn_def bnd_def due_items_def get_st_def failed_module_def get_producer_def
      ready_module_def ret_def outside_def sq_def mod_st_def toy_item_def send_next_def draining_module_def fresh_module_def)

definition toy_run :: "unit hub_events \<Rightarrow> event multiset \<Rightarrow> (bool \<times> string) list \<Rightarrow> unit hub_life" where
  "toy_run m buf sends = toy_hub\<lparr>hl_mod := m, hl_sends := sends, hl_buffer := buf, hl_records := [[]]\<rparr>"

lemma toy_reaches: "reaches toy_ev toy_hub (toy_run draining_module {#} [])"
proof -
  have 1: "reaches toy_ev toy_hub (toy_run ready_module {#} [(False, toy_body)])"
    using There [OF Here Emit [of toy_ev "[]" toy_hub "Some toy_body" ready_module]] toy_emit
    by (simp add: toy_run_def fresh_hub_def add_send_def)
  have 2: "reaches toy_ev toy_hub (toy_run ready_module {#make_event toy_body 0#} [])"
    using There [OF 1 Sent [of _ "[]" False toy_body "[]" toy_ev "Inr ()" ready_module]]
    by (simp add: toy_run_def fresh_hub_def emit_end_def ret_def)
  have 3: "reaches toy_ev toy_hub (toy_run failed_module {#} [])"
    using There [OF 2 Refused [of "[make_event toy_body 0]" _ "{#}" toy_ev _ "Inr ()" failed_module]] toy_refused
    by (simp add: toy_run_def fresh_hub_def)
  show ?thesis
    using There [OF 3 Drain [of _ AtTop toy_ev "Inr ()" draining_module]] toy_drain
    by (simp add: toy_run_def fresh_hub_def failed_module_def)
qed

theorem no_usage_is_lost_uncounted_witness:
  "held toy_ev (toy_run draining_module {#} []) \<subseteq># handed_over toy_ev (toy_run draining_module {#} [])
    \<and> lost_count (hl_mod (toy_run draining_module {#} []))
        = int (length (hl_records (toy_run draining_module {#} []))) - int (size (held toy_ev (toy_run draining_module {#} [])))
    \<and> int (retry_depth (hl_mod (toy_run draining_module {#} []))) \<le> max (hc_retry_max_queue (ev_cfg toy_ev)) 1
    \<and> list_all (\<lambda>i. pd_attempts i \<le> hc_retry_max_attempts (ev_cfg toy_ev)) (eh_retry_q (hl_mod (toy_run draining_module {#} [])))"
  by (rule no_usage_is_lost_uncounted [OF toy_running(1) toy_reaches])

theorem hub_memory_is_bounded_witness:
  "pending_emits (toy_run draining_module {#} []) \<le> MAX_PENDING_EMITS
    \<and> int (retry_depth (hl_mod (toy_run draining_module {#} []))) \<le> max (hc_retry_max_queue (ev_cfg toy_ev)) 1"
  by (rule hub_memory_is_bounded [OF toy_running(1) toy_reaches])

text \<open>A shutdown can lose a record that nothing counts.  When the drain task is cancelled while it
  awaits a send, the item it holds, and the due items behind it, have already left the queue; \<^verbatim>\<open>aclose\<close>
  only counts what is queued.  Here one record is refused once, its retry is under way when the hub is told
  to stop, and the hub stops with nothing delivered, nothing held and a loss counter of zero.\<close>

lemma shutdown_can_lose_uncounted:
  "\<exists>r s t. reaches toy_ev toy_hub r \<and> close_step toy_ev r s \<and> close_step toy_ev s t \<and> hl_close t = Closed
    \<and> length (hl_records t) = 1 \<and> held toy_ev t = {#} \<and> lost_count (hl_mod t) = 0"
proof -
  let ?r = "toy_run draining_module {#} []"
  let ?m = "draining_module\<lparr>eh_drainer := None, eh_producer := False\<rparr>"
  let ?s = "?r\<lparr>hl_mod := ?m, hl_close := Closing\<rparr>"
  let ?t = "?r\<lparr>hl_mod := ?m, hl_close := Closed\<rparr>"
  have "begin_close toy_ev ?r = ?s"
    by (simp add: begin_close_def close_begin_def bnd_def sq_def mod_st_def get_st_def ret_def toy_run_def draining_module_def
        failed_module_def ready_module_def fresh_module_def final_next_def close_producer_def)
  moreover have "hl_close ?r = Open"
    by (simp add: toy_run_def fresh_hub_def)
  ultimately have "close_step toy_ev ?r ?s"
    using Close [of ?r toy_ev] by simp
  moreover have "close_step toy_ev ?s ?t"
    using Close_done [of ?s toy_ev "Inr ()" ?m]
    by (simp add: close_end_def bnd_def get_st_def ret_def draining_module_def)
  moreover have "held toy_ev ?t = {#}"
    by (simp add: held_def elsewhere_def toy_run_def fresh_hub_def sending_def draining_module_def)
  moreover have "length (hl_records ?t) = 1" "lost_count (hl_mod ?t) = 0"
    by (simp_all add: toy_run_def lost_count_def draining_module_def failed_module_def ready_module_def fresh_module_def)
  ultimately show ?thesis
    using toy_reaches by (intro exI [of _ ?r] exI [of _ ?s] exI [of _ ?t]) simp
qed

text \<open>The failed start, with one more record afterwards.\<close>

definition latched_module :: "unit hub_events" where
  "latched_module = snd (emit_begin broken_ev [] (fresh_module ()))"

lemma broken_emit: "emit_begin broken_ev [] (fresh_module ()) = (Inr None, latched_module)" "eh_init_failed latched_module"
  using toy_encoded
  by (simp_all add: latched_module_def emit_begin_def get_producer_def bnd_def get_st_def fresh_module_def
      ret_def raise_def sq_def mod_st_def note_drop_def outside_def log_throttled_def)

definition broken_hub :: "usage_rec list \<Rightarrow> unit hub_life" where
  "broken_hub tasks = toy_hub\<lparr>hl_mod := latched_module, hl_tasks := tasks, hl_records := [] # tasks\<rparr>"

lemma broken_reaches: "reaches broken_ev toy_hub (broken_hub [])" "reaches broken_ev (broken_hub []) (broken_hub [[]])"
proof -
  show "reaches broken_ev toy_hub (broken_hub [])"
    using There [OF Here Emit [of broken_ev "[]" toy_hub None latched_module]] broken_emit(1)
    by (simp add: broken_hub_def fresh_hub_def add_send_def)
  show "reaches broken_ev (broken_hub []) (broken_hub [[]])"
    using There [OF Here Spawn [of broken_ev "broken_hub []" "[]" "Some []" latched_module]]
    by (simp add: broken_hub_def fresh_hub_def spawn_emit_def pending_emits_def MAX_PENDING_EMITS_def ret_def)
qed

lemma failed_start_is_forever_witness:
  "eh_init_failed (hl_mod (broken_hub [[]])) \<and> hl_sends (broken_hub [[]]) = [] \<and> hl_buffer (broken_hub [[]]) = {#}
    \<and> hl_acked (broken_hub [[]]) = {#} \<and> eh_retry_q (hl_mod (broken_hub [[]])) = []
    \<and> eh_drainer (hl_mod (broken_hub [[]])) = None
    \<and> lost_count (hl_mod (broken_hub [[]])) = int (length (hl_records (broken_hub [[]]))) - int (length (hl_tasks (broken_hub [[]])))"
proof (rule failed_start_is_forever [OF toy_running(2) broken_reaches(1) _ broken_reaches(2)])
  show "eh_init_failed (hl_mod (broken_hub []))"
    using broken_emit(2) by (simp add: broken_hub_def)
qed

end
