(* ===== verification/HubUsage.thy ===== *)
theory HubUsage
  imports Http HubEvents
begin

text \<open>
  What a hub reads off a call (\<^verbatim>\<open>vendored/gitmodel-hub/hub/server.py\<close>): the usage and the billing
  object in an answer or in a stream of server-sent events, the stream as the gateway in front needs
  it, and the record that goes to Event Hub.

  A text that is not JSON is skipped, also where \<^verbatim>\<open>json.loads\<close> raises a \<^verbatim>\<open>ValueError\<close> of its own for an
  integer of more than 4300 digits.
\<close>

section \<open>Server-sent events\<close>

definition NL :: char where
  "NL = CHR 0x0A"

text \<open>The JSON value on a \<^verbatim>\<open>data:\<close> line.\<close>

definition line_payload :: "string \<Rightarrow> string option" where
  "line_payload l =
     (let l = strip l in
      if \<not> starts_with l ''data:'' then None
      else let payload = strip (drop 5 l) in if payload = [] \<or> payload = ''[DONE]'' then None else Some payload)"

definition line_object :: "string \<Rightarrow> json option" where
  "line_object l = Option.bind (line_payload l) loads"

definition sse_objects :: "string \<Rightarrow> json list" where
  "sse_objects text = List.map_filter line_object (split_all NL text)"

section \<open>The billing object\<close>

definition extract_copilot_usage :: "json \<Rightarrow> jdict option" where
  "extract_copilot_usage obj =
     (case obj of JObj d \<Rightarrow> (case dict_get d ''copilot_usage'' of Some (JObj cu) \<Rightarrow> Some cu | _ \<Rightarrow> None) | _ \<Rightarrow> None)"

definition object_copilot_usage :: "json \<Rightarrow> jdict option" where
  "object_copilot_usage obj =
     (case extract_copilot_usage obj of
        Some cu \<Rightarrow> Some cu
      | None \<Rightarrow> (case obj of JObj d \<Rightarrow> extract_copilot_usage (jget d ''response'') | _ \<Rightarrow> None))"

definition last_some :: "('a \<Rightarrow> 'b option) \<Rightarrow> 'a list \<Rightarrow> 'b option" where
  "last_some f xs = fold (\<lambda>x found. case f x of Some y \<Rightarrow> Some y | None \<Rightarrow> found) xs None"

definition scan_sse_copilot_usage :: "string \<Rightarrow> jdict option" where
  "scan_sse_copilot_usage text = last_some object_copilot_usage (sse_objects text)"

section \<open>Usage\<close>

text \<open>\<^verbatim>\<open>a + b\<close> of two values.\<close>

fun as_number :: "json \<Rightarrow> (int + pyfloat) option" where
  "as_number (JInt i) = Some (Inl i)"
| "as_number (JBool b) = Some (Inl (if b then 1 else 0))"
| "as_number (JFloat f) = Some (Inr f)"
| "as_number _ = None"

definition py_add :: "json \<Rightarrow> json \<Rightarrow> exn + json" where
  "py_add a b =
     (case (as_number a, as_number b) of
        (Some (Inl i), Some (Inl j)) \<Rightarrow> Inr (JInt (i + j))
      | (Some (Inl i), Some (Inr g)) \<Rightarrow> bind_sum (float_of_int i) (\<lambda>f. Inr (JFloat (fadd f g)))
      | (Some (Inr f), Some (Inl j)) \<Rightarrow> bind_sum (float_of_int j) (\<lambda>g. Inr (JFloat (fadd f g)))
      | (Some (Inr f), Some (Inr g)) \<Rightarrow> Inr (JFloat (fadd f g))
      | _ \<Rightarrow>
         (case (a, b) of
            (JStr s, JStr t) \<Rightarrow> Inr (JStr (s @ t))
          | (JList xs, JList ys) \<Rightarrow> Inr (JList (xs @ ys))
          | _ \<Rightarrow> Inl (TypeError ''unsupported operand type(s) for +'')))"

record usage4 =
  u_in :: json
  u_out :: json
  u_total :: json
  u_cached :: json

definition no_usage4 :: usage4 where
  "no_usage4 = \<lparr>u_in = JInt 0, u_out = JInt 0, u_total = JInt 0, u_cached = JInt 0\<rparr>"

definition norm_usage :: "json \<Rightarrow> bool \<Rightarrow> exn + usage4" where
  "norm_usage usage responses_shape =
     (if \<not> truthy usage then Inr no_usage4
      else
        let inp = (if responses_shape then ''input_tokens'' else ''prompt_tokens'');
            outp = (if responses_shape then ''output_tokens'' else ''completion_tokens'');
            det = (if responses_shape then ''input_tokens_details'' else ''prompt_tokens_details'') in
        bind_sum (j_get usage inp (JInt 0)) (\<lambda>i.
        bind_sum (j_get usage outp (JInt 0)) (\<lambda>out.
        bind_sum (py_add i out) (\<lambda>both.
        bind_sum (j_get usage ''total_tokens'' both) (\<lambda>t.
        bind_sum (j_get usage det JNull) (\<lambda>d.
        bind_sum (j_get (py_or d (JObj [])) ''cached_tokens'' (JInt 0)) (\<lambda>cached.
        Inr \<lparr>u_in = i, u_out = out, u_total = t, u_cached = cached\<rparr>)))))))"

definition object_usage :: "bool \<Rightarrow> json \<Rightarrow> exn + json" where
  "object_usage responses_shape obj =
     (if responses_shape then
        let cand = (case obj of JObj d \<Rightarrow> (case jget d ''response'' of JObj r \<Rightarrow> jget r ''usage'' | _ \<Rightarrow> JNull) | _ \<Rightarrow> JNull) in
        if truthy cand then Inr cand else j_get obj ''usage'' JNull
      else j_get obj ''usage'' JNull)"

fun last_usage :: "bool \<Rightarrow> json list \<Rightarrow> json \<Rightarrow> exn + json" where
  "last_usage rs [] usage = Inr usage"
| "last_usage rs (obj # objs) usage =
     bind_sum (object_usage rs obj) (\<lambda>cand. last_usage rs objs (if truthy cand then cand else usage))"

definition parse_sse_usage :: "string \<Rightarrow> bool \<Rightarrow> exn + json" where
  "parse_sse_usage text responses_shape = last_usage responses_shape (sse_objects text) JNull"

text \<open>Anthropic spreads the usage over events: a later value replaces an earlier one unless it is zero or
  empty.\<close>

definition merge_value :: "string \<times> json \<Rightarrow> jdict \<Rightarrow> jdict" where
  "merge_value p m = (case p of (k, v) \<Rightarrow> if dict_get m k \<noteq> None \<and> \<not> truthy v then m else dict_set m k v)"

definition merge_usage :: "jdict \<Rightarrow> jdict \<Rightarrow> jdict" where
  "merge_usage u m = fold merge_value u m"

definition event_usage :: "json \<Rightarrow> exn + json" where
  "event_usage obj =
     bind_sum (j_get obj ''message'' JNull) (\<lambda>msg.
     bind_sum (j_get (py_or msg (JObj [])) ''usage'' JNull) (\<lambda>u.
     if truthy u then Inr u else j_get obj ''usage'' JNull))"

fun merge_events :: "json list \<Rightarrow> jdict \<Rightarrow> exn + jdict" where
  "merge_events [] m = Inr m"
| "merge_events (obj # objs) m =
     bind_sum (event_usage obj) (\<lambda>u. merge_events objs (case u of JObj d \<Rightarrow> merge_usage d m | _ \<Rightarrow> m))"

definition canonical_zeros :: jdict where
  "canonical_zeros = [(''input_tokens'', JInt 0), (''output_tokens'', JInt 0), (''cache_read_input_tokens'', JInt 0)]"

definition parse_anthropic_sse_usage :: "string \<Rightarrow> exn + jdict" where
  "parse_anthropic_sse_usage text =
     bind_sum (merge_events (sse_objects text) []) (\<lambda>m. Inr (fold (\<lambda>(k, v) d. dict_set d k v) m canonical_zeros))"

section \<open>The stream as the gateway needs it\<close>

definition CHUNK_OBJECT :: string where
  "CHUNK_OBJECT = ''chat.completion.chunk''"

definition finish_chunk :: "jdict \<Rightarrow> jdict" where
  "finish_chunk d = dict_set (filter (\<lambda>(k, v). k \<noteq> ''usage'') d) ''object'' (JStr CHUNK_OBJECT)"

fun pick :: "string list \<Rightarrow> jdict \<Rightarrow> jdict" where
  "pick [] d = []"
| "pick (k # ks) d = (case dict_get d k of Some v \<Rightarrow> (k, v) # pick ks d | None \<Rightarrow> pick ks d)"

definition usage_chunk :: "jdict \<Rightarrow> json \<Rightarrow> jdict" where
  "usage_chunk d usage =
     dict_set (dict_set (dict_set
       (pick [''id'', ''created'', ''model'', ''system_fingerprint''] d)
       ''object'' (JStr CHUNK_OBJECT)) ''choices'' (JList [])) ''usage'' usage"

definition standardize_object :: "string \<Rightarrow> jdict \<Rightarrow> string" where
  "standardize_object l d =
     (case (jget d ''usage'', jget d ''choices'') of
        (usage, JList (c # cs)) \<Rightarrow>
          if truthy usage then
            ''data: '' @ dumps (JObj (finish_chunk d)) @ [NL, NL] @ ''data: '' @ dumps (JObj (usage_chunk d usage))
          else if jget d ''object'' = JStr CHUNK_OBJECT then l
          else ''data: '' @ dumps (JObj (dict_set d ''object'' (JStr CHUNK_OBJECT)))
      | _ \<Rightarrow>
          if jget d ''object'' = JStr CHUNK_OBJECT then l
          else ''data: '' @ dumps (JObj (dict_set d ''object'' (JStr CHUNK_OBJECT))))"

definition standardize_line :: "string \<Rightarrow> string" where
  "standardize_line l =
     (if \<not> starts_with l ''data:'' then l
      else
        let payload = strip (drop 5 l) in
        if payload = [] \<or> payload = ''[DONE]'' then l
        else (case loads payload of Some (JObj d) \<Rightarrow> standardize_object l d | _ \<Rightarrow> l))"

definition standardize_event :: "string \<Rightarrow> string" where
  "standardize_event event =
     join [NL] (map (\<lambda>l. if starts_with l ''data:'' then standardize_line l else l) (split_all NL event))"

text \<open>Complete events end at a blank line; the rest stays in the buffer.\<close>

fun cut_event :: "string \<Rightarrow> (string \<times> string) option" where
  "cut_event (a # b # s) =
     (if a = NL \<and> b = NL then Some ([], s)
      else map_option (\<lambda>(e, r). (a # e, r)) (cut_event (b # s)))"
| "cut_event _ = None"

lemma cut_event_length: "cut_event s = Some (e, r) \<Longrightarrow> length r < length s"
  by (induction s arbitrary: e r rule: cut_event.induct) (auto split: if_splits)

function split_events :: "string \<Rightarrow> string list \<times> string" where
  "split_events s =
     (case cut_event s of None \<Rightarrow> ([], s)
      | Some (e, r) \<Rightarrow> (case split_events r of (es, rest) \<Rightarrow> (e # es, rest)))"
  by pat_completeness auto
termination
  by (relation "measure length") (auto dest: cut_event_length)

declare split_events.simps [simp del]

text \<open>The generator's loop over the chunks that arrive, each already decoded: what it yields and the
  buffer it is left with.\<close>

fun stream_chunks :: "string list \<Rightarrow> string \<Rightarrow> string list \<times> string" where
  "stream_chunks [] buf = ([], buf)"
| "stream_chunks (t # ts) buf =
     (case split_events (buf @ t) of (es, rest) \<Rightarrow>
      case stream_chunks ts rest of (outs, final) \<Rightarrow>
        (map (\<lambda>e. standardize_event e @ [NL, NL]) es @ outs, final))"

definition stream_all :: "string list \<Rightarrow> string list" where
  "stream_all chunks =
     (case stream_chunks chunks [] of (outs, buf) \<Rightarrow> outs @ (if buf \<noteq> [] then [standardize_event buf] else []))"

section \<open>How the stream is cut does not matter\<close>

lemma cut_event_append: "cut_event s = Some (e, r) \<Longrightarrow> cut_event (s @ t) = Some (e, r @ t)"
  by (induction s arbitrary: e rule: cut_event.induct) (auto split: if_splits)

lemma split_events_none: "cut_event s = None \<Longrightarrow> split_events s = ([], s)"
  by (simp add: split_events.simps)

lemma split_events_some:
  "cut_event s = Some (e, r) \<Longrightarrow> split_events s = (case split_events r of (es, rest) \<Rightarrow> (e # es, rest))"
  by (subst split_events.simps) simp

lemma split_events_append:
  "split_events (s @ t) =
     (case split_events s of (es, r) \<Rightarrow> case split_events (r @ t) of (es', r') \<Rightarrow> (es @ es', r'))"
proof (induction s rule: split_events.induct)
  case (1 s)
  show ?case
  proof (cases "cut_event s")
    case None
    then show ?thesis
      by (simp add: split_events_none split: prod.splits)
  next
    case (Some p)
    obtain e r where p: "p = (e, r)"
      by (cases p)
    have "split_events (s @ t) = (case split_events (r @ t) of (es, rest) \<Rightarrow> (e # es, rest))"
      using Some p by (simp add: split_events_some cut_event_append)
    then show ?thesis
      using 1 [OF Some, of e r] Some p by (simp add: split_events_some split: prod.splits)
  qed
qed

lemma split_events_rest: "split_events s = (es, r) \<Longrightarrow> cut_event r = None"
proof (induction s arbitrary: es rule: split_events.induct)
  case (1 s)
  then show ?case
    by (cases "cut_event s") (auto simp: split_events_none split_events_some split: prod.splits)
qed

lemma stream_chunks_whole:
  "cut_event buf = None \<Longrightarrow>
    stream_chunks ts buf =
      (case split_events (buf @ concat ts) of (es, rest) \<Rightarrow> (map (\<lambda>e. standardize_event e @ [NL, NL]) es, rest))"
proof (induction ts arbitrary: buf)
  case Nil
  then show ?case
    by (simp add: split_events_none)
next
  case (Cons t ts)
  obtain es r where s: "split_events (buf @ t) = (es, r)"
    by fastforce
  then show ?case
    using Cons.IH [OF split_events_rest [OF s]] split_events_append [of "buf @ t" "concat ts"]
    by (simp split: prod.splits)
qed

text \<open>On decoded text, the chunks do not matter.\<close>

lemma rechunked: "stream_all chunks = stream_all [concat chunks]"
  unfolding stream_all_def by (simp add: stream_chunks_whole)

section \<open>What is rewritten still accounts alike\<close>

definition one_line :: "string \<Rightarrow> bool" where
  "one_line s \<longleftrightarrow> list_all (\<lambda>c. 32 \<le> byte c \<and> byte c < 128) s"

lemma one_line_simps [simp]:
  "one_line []" "one_line (c # s) \<longleftrightarrow> 32 \<le> byte c \<and> byte c < 128 \<and> one_line s" "one_line (s @ t) \<longleftrightarrow> one_line s \<and> one_line t"
  by (simp_all add: one_line_def)

lemma byte_hex_digit: "n < 16 \<Longrightarrow> 32 \<le> byte (hex_digit n) \<and> byte (hex_digit n) < 128"
  by (simp add: hex_digit_def)

lemma byte_lit [simp]: "byte (Char b0 b1 b2 b3 b4 b5 b6 b7) = of_bool b0 + 2 * of_bool b1 + 4 * of_bool b2
    + 8 * of_bool b3 + 16 * of_bool b4 + 32 * of_bool b5 + 64 * of_bool b6 + 128 * of_bool b7"
  by (simp add: byte_def)

lemma json_escape_one_line: "p < 128 \<Longrightarrow> one_line (json_escape p)"
  by (simp add: json_escape_def hex4_def byte_hex_digit)

lemma json_str_one_line: "ascii s \<Longrightarrow> one_line (json_str s)"
proof -
  assume "ascii s"
  then have "one_line (concat (map json_escape (map byte s)))"
    by (induction s) (auto simp: ascii_def json_escape_one_line)
  then show ?thesis
    using \<open>ascii s\<close> by (simp add: json_str_def code_points_ascii)
qed

lemma join_one_line: "one_line sep \<Longrightarrow> \<forall>x\<in>set xs. one_line x \<Longrightarrow> one_line (join sep xs)"
  by (induction sep xs rule: join.induct) auto

lemma int_str_one_line: "one_line (int_str i)"
proof -
  have "one_line (digits_str n)" for n
    by (induction n rule: digits_str.induct) (subst digits_str.simps, auto simp: digit_char_def byte_def)
  then show ?thesis
    by (simp add: int_str_def)
qed

lemma dumps_sep_one_line: "one_line sp \<Longrightarrow> plain_json j \<Longrightarrow> one_line (dumps_sep sp j)"
proof (induction j)
  case (JList xs)
  then show ?case
    by (auto simp: list_all_iff intro!: join_one_line)
next
  case (JObj d)
  have "one_line (dumps_sep sp (snd p))" if "p \<in> set d" for p
    using that JObj.prems by (intro JObj.IH [of p]) (auto simp: plain_map_def prod_set_simps intro: snds.intros)
  then have "one_line (json_str (fst p) @ CHR '':'' # sp @ dumps_sep sp (snd p))" if "p \<in> set d" for p
    using JObj.prems that by (simp add: plain_map_def json_str_one_line)
  then show ?case
    using JObj.prems(1) by (force intro!: join_one_line)
qed (simp_all add: int_str_one_line json_str_one_line)

lemma dumps_one_line: "plain_json j \<Longrightarrow> one_line (dumps j)"
  using dumps_sep_one_line [of "[]" j] by (simp add: dumps_sep_Nil)

lemma split_at_whole: "split_at sep s = (h, None) \<Longrightarrow> h = s"
  by (induction s arbitrary: h) (auto split: if_splits prod.splits)

lemma split_at_length: "split_at sep s = (h, Some t) \<Longrightarrow> length t < length s"
  by (induction s arbitrary: h) (auto split: if_splits prod.splits intro: less_SucI)

lemma split_all_append: "sep \<notin> set x \<Longrightarrow> split_all sep (x @ sep # y) = x # split_all sep y"
proof -
  assume x: "sep \<notin> set x"
  have more: "split_max sep n y = split_max sep m y" if "length y \<le> n" "length y \<le> m" for n m
    using that
  proof (induction y arbitrary: n m rule: length_induct)
    case (1 y)
    show ?case
    proof (cases "split_at sep y")
      case (Pair h t)
      show ?thesis
      proof (cases t)
        case None
        with Pair show ?thesis
          by (cases n; cases m) (auto dest: split_at_whole)
      next
        case (Some t')
        from Pair Some have shorter: "length t' < length y"
          by (simp add: split_at_length)
        obtain n' m' where nm: "n = Suc n'" "m = Suc m'"
          using "1.prems" shorter by (cases n; cases m) simp_all
        have "split_max sep n' t' = split_max sep m' t'"
          using "1.prems" nm shorter by (intro "1.IH" [rule_format]) simp_all
        then show ?thesis
          using Pair Some nm by simp
      qed
    qed
  qed
  show ?thesis
    using split_at_notin [OF x, of y] more [of "length x + length y" "length y"] by (simp add: split_all_def)
qed

lemma split_all_last: "sep \<notin> set x \<Longrightarrow> split_all sep x = [x]"
  by (cases "length x") (simp_all add: split_all_def split_at_none)

text \<open>A JSON object on a line of its own is read back.\<close>

lemma strip_fixed: "s \<noteq> [] \<Longrightarrow> \<not> str_space (hd s) \<Longrightarrow> \<not> str_space (last s) \<Longrightarrow> strip s = s"
proof -
  assume s: "s \<noteq> []" "\<not> str_space (hd s)" "\<not> str_space (last s)"
  then have "dropWhile str_space s = s"
    by (cases s) simp_all
  moreover have "dropWhile str_space (rev s) = rev s"
    using s by (cases s rule: rev_cases) simp_all
  ultimately show ?thesis
    by (simp add: strip_def)
qed

definition data_line :: "jdict \<Rightarrow> string" where
  "data_line d = ''data: '' @ dumps (JObj d)"

lemma dumps_obj_shape: "\<exists>m. dumps (JObj d) = CHR ''{'' # m @ ''}''"
  by simp

lemma line_object_data_line: "plain_map d \<Longrightarrow> line_object (data_line d) = Some (JObj d)"
proof -
  assume d: "plain_map d"
  obtain m where m: "dumps (JObj d) = CHR ''{'' # m @ ''}''"
    using dumps_obj_shape by blast
  have "strip (data_line d) = data_line d"
    unfolding data_line_def m by (rule strip_fixed) (simp_all add: str_space_def is_space_def)
  moreover have "strip (CHR '' '' # dumps (JObj d)) = dumps (JObj d)"
    unfolding m by (simp add: strip_def str_space_def is_space_def)
  moreover have "loads (dumps (JObj d)) = Some (JObj d)"
    using d by (intro loads_dumps) simp
  ultimately show ?thesis
    by (simp add: line_object_def line_payload_def Let_def data_line_def starts_with_def m)
qed

lemma NL_one_line: "one_line s \<Longrightarrow> NL \<notin> set s"
  by (auto simp: one_line_def list_all_iff NL_def)

lemma NL_data_line: "plain_map d \<Longrightarrow> NL \<notin> set (data_line d)"
  using dumps_one_line [of "JObj d"] by (intro NL_one_line) (simp add: data_line_def)

lemma lines_append: "split_all NL (x @ NL # y) = split_all NL x @ split_all NL y"
proof (induction x rule: length_induct)
  case (1 x)
  show ?case
  proof (cases "NL \<in> set x")
    case False
    then show ?thesis
      by (simp add: split_all_append split_all_last)
  next
    case True
    then obtain h t where x: "x = h @ NL # t" "NL \<notin> set h"
      by (metis split_list_first)
    then have "split_all NL (t @ NL # y) = split_all NL t @ split_all NL y"
      by (intro "1.IH" [rule_format]) simp
    then show ?thesis
      using split_all_append [OF x(2), of "t @ NL # y"] split_all_append [OF x(2), of t] x by simp
  qed
qed

lemma lines_induct:
  assumes "\<And>x. NL \<notin> set x \<Longrightarrow> P x" and "\<And>x y. NL \<notin> set x \<Longrightarrow> P y \<Longrightarrow> P (x @ NL # y)"
  shows "P s"
proof (induction s rule: length_induct)
  case (1 s)
  show ?case
  proof (cases "NL \<in> set s")
    case True
    then obtain h t where "s = h @ NL # t" "NL \<notin> set h"
      by (metis split_list_first)
    with 1 assms(2) show ?thesis
      by simp
  qed (use assms(1) in simp)
qed

lemma sse_objects_append: "sse_objects (x @ NL # y) = sse_objects x @ sse_objects y"
  by (simp add: sse_objects_def lines_append map_filter_def)

lemma sse_objects_line: "NL \<notin> set x \<Longrightarrow> sse_objects x = (case line_object x of None \<Rightarrow> [] | Some j \<Rightarrow> [j])"
  by (simp add: sse_objects_def split_all_last map_filter_def split: option.splits)

lemma standardize_event_append:
  "standardize_event (x @ NL # y) = standardize_event x @ NL # standardize_event y"
proof -
  have "join [NL] (xs @ ys) = join [NL] xs @ NL # join [NL] ys" if "xs \<noteq> []" "ys \<noteq> []" for xs ys
    using that
  proof (induction "[NL]" xs rule: join.induct)
    case (2 x)
    then show ?case
      by (cases ys) simp_all
  qed simp_all
  moreover have "split_all NL s \<noteq> []" for s
    by (induction s rule: lines_induct) (simp_all add: split_all_last split_all_append)
  ultimately show ?thesis
    by (simp add: standardize_event_def lines_append)
qed

lemma standardize_event_line: "NL \<notin> set x \<Longrightarrow> standardize_event x = standardize_line x"
  by (simp add: standardize_event_def split_all_last standardize_line_def)

text \<open>Two lists of objects account alike when each reading of the usage and of the billing object goes on
  alike after them.\<close>

definition alike :: "json list \<Rightarrow> json list \<Rightarrow> bool" where
  "alike xs ys \<longleftrightarrow> last_usage False xs = last_usage False ys \<and>
     fold (\<lambda>x found. case object_copilot_usage x of Some y \<Rightarrow> Some y | None \<Rightarrow> found) xs =
     fold (\<lambda>x found. case object_copilot_usage x of Some y \<Rightarrow> Some y | None \<Rightarrow> found) ys"

lemma last_usage_append: "last_usage rs (xs @ ys) u = bind_sum (last_usage rs xs u) (last_usage rs ys)"
  by (induction rs xs u rule: last_usage.induct) (simp_all add: bind_sum_def split: sum.splits)

lemma alike_refl [simp]: "alike xs xs"
  by (simp add: alike_def)

lemma alike_append: "alike xs xs' \<Longrightarrow> alike ys ys' \<Longrightarrow> alike (xs @ ys) (xs' @ ys')"
  unfolding alike_def by (auto simp: last_usage_append fun_eq_iff intro: arg_cong2 [where f = bind_sum])

lemma drop_all:
  assumes "list_all P s"
  shows "dropWhile P (rev s @ t) = dropWhile P t" and "dropWhile P (rev s) = []" and "dropWhile P s = []"
  using assms by (auto simp: list_all_iff intro: dropWhile_append2)

lemma drop_some: "\<not> list_all P s \<Longrightarrow> dropWhile P (rev s @ t) = dropWhile P (rev s) @ t"
  by (auto simp: list_all_iff intro: dropWhile_append1)

lemma strips_commute: "dropWhile P (rev (dropWhile P (rev s))) = rev (dropWhile P (rev (dropWhile P s)))"
proof (induction s)
  case (Cons c s)
  then show ?case
    by (cases "list_all P s"; cases "P c") (simp_all add: drop_all drop_some)
qed simp

lemma strip_data: "strip (''data:'' @ r) = ''data:'' @ rev (dropWhile str_space (rev r))"
proof -
  have edges: "\<not> str_space CHR ''d''" "\<not> str_space CHR '':''"
    by (simp_all add: str_space_def is_space_def)
  then show ?thesis
    by (cases "list_all str_space r") (simp_all add: strip_def drop_all drop_some)
qed

lemma strip_rstrip: "strip (rev (dropWhile str_space (rev r))) = strip r"
proof -
  have "rev (dropWhile P (rev (rev (dropWhile P (rev s))))) = rev (dropWhile P (rev s))" for P and s :: string
    by (simp add: dropWhile_idem)
  then show ?thesis
    by (simp add: strip_def strips_commute)
qed

lemma line_payload_data:
  "line_payload (''data:'' @ r) = (let p = strip r in if p = [] \<or> p = ''[DONE]'' then None else Some p)"
  unfolding line_payload_def strip_data Let_def by (simp add: starts_with_def strip_rstrip)

definition plain_object :: "json \<Rightarrow> bool" where
  "plain_object j = (case j of JObj d \<Rightarrow> plain_map d | _ \<Rightarrow> True)"

lemma plain_map_filter: "plain_map d \<Longrightarrow> plain_map (filter P d)"
  by (auto simp: plain_map_def dict_ok_def distinct_map inj_on_def)

lemma dict_get_filter: "dict_get (filter (\<lambda>(k, v). k \<noteq> k') d) k = (if k = k' then None else dict_get d k)"
  by (induction d) auto

lemma ascii_names: "ascii ''object''" "ascii CHUNK_OBJECT" "ascii ''choices''" "ascii ''usage''" "ascii ''id''" "ascii ''created''"
    "ascii ''model''" "ascii ''system_fingerprint''"
  by (simp_all add: ascii_def byte_def CHUNK_OBJECT_def)

lemma plain_finish: "plain_map d \<Longrightarrow> plain_map (finish_chunk d)"
  unfolding finish_chunk_def by (intro plain_map_set plain_map_filter) (simp_all add: ascii_names)

lemma plain_get: "plain_map d \<Longrightarrow> dict_get d k = Some v \<Longrightarrow> plain_json v"
  by (auto simp: plain_map_def dest!: map_of_SomeD)

lemma pick_keys: "fst ` set (pick ks d) \<subseteq> set ks"
  by (induction ks) (auto split: option.splits)

lemma plain_cons: "plain_map d \<Longrightarrow> k \<notin> fst ` set d \<Longrightarrow> ascii k \<Longrightarrow> plain_json v \<Longrightarrow> plain_map ((k, v) # d)"
  by (simp add: plain_map_def dict_ok_Cons)

lemma plain_picked: "plain_map d \<Longrightarrow> distinct ks \<Longrightarrow> \<forall>k \<in> set ks. ascii k \<Longrightarrow> plain_map (pick ks d)"
proof (induction ks)
  case (Cons k ks)
  then have rest: "plain_map (pick ks d)" and "k \<notin> fst ` set (pick ks d)" and "ascii k"
    using pick_keys [of ks d] by (simp, force, simp)
  then show ?case
    using Cons.prems(1) by (cases "dict_get d k") (simp_all add: plain_cons plain_get)
qed (simp add: plain_map_def)

lemma plain_usage: "plain_map d \<Longrightarrow> plain_json u \<Longrightarrow> plain_map (usage_chunk d u)"
  unfolding usage_chunk_def by (intro plain_map_set plain_picked) (simp_all add: ascii_names del: pick.simps)

lemma picked_none: "k \<notin> set ks \<Longrightarrow> dict_get (pick ks d) k = None"
  using pick_keys [of ks d] by (intro dict_get_notin) blast

lemma usage_chunk_gets:
  "dict_get (usage_chunk d u) ''usage'' = Some u" "dict_get (usage_chunk d u) ''copilot_usage'' = None"
  "dict_get (usage_chunk d u) ''response'' = None"
  by (simp_all add: usage_chunk_def dict_get_set picked_none del: pick.simps)

lemma finish_chunk_gets:
  "dict_get (finish_chunk d) ''usage'' = None"
  "k \<noteq> ''usage'' \<Longrightarrow> k \<noteq> ''object'' \<Longrightarrow> dict_get (finish_chunk d) k = dict_get d k"
  by (simp_all add: finish_chunk_def dict_get_set dict_get_filter)

lemma copilot_cong:
  assumes "dict_get d ''copilot_usage'' = dict_get d' ''copilot_usage''" and "dict_get d ''response'' = dict_get d' ''response''"
  shows "object_copilot_usage (JObj d) = object_copilot_usage (JObj d')"
  unfolding object_copilot_usage_def extract_copilot_usage_def jget_def jget_or_def json.case assms by (rule refl)

lemma copilot_none: "dict_get d ''copilot_usage'' = None \<Longrightarrow> dict_get d ''response'' = None \<Longrightarrow> object_copilot_usage (JObj d) = None"
  by (simp add: object_copilot_usage_def extract_copilot_usage_def jget_def jget_or_def)

lemma alike_stamped: "alike [JObj (dict_set d ''object'' v)] [JObj d]"
  using copilot_cong [of "dict_set d ''object'' v" d]
  by (simp add: alike_def object_usage_def j_get_def jget_or_def dict_get_set fun_eq_iff)

lemma alike_split:
  assumes "jget d ''usage'' = u" and "truthy u"
  shows "alike [JObj (finish_chunk d), JObj (usage_chunk d u)] [JObj d]"
proof -
  have "object_copilot_usage (JObj (finish_chunk d)) = object_copilot_usage (JObj d)"
    by (intro copilot_cong) (simp_all add: finish_chunk_gets)
  moreover have "object_copilot_usage (JObj (usage_chunk d u)) = None"
    by (intro copilot_none) (simp_all add: usage_chunk_gets)
  moreover have "j_get (JObj d) ''usage'' JNull = Inr u"
    using assms(1) by (simp add: j_get_def jget_def jget_or_def)
  ultimately show ?thesis
    using assms(2)
    by (simp add: alike_def object_usage_def j_get_def jget_or_def usage_chunk_gets finish_chunk_gets fun_eq_iff bind_sum_simps)
qed

lemma sse_objects_Nil [simp]: "sse_objects [] = []"
  by (simp add: sse_objects_line line_object_def line_payload_def strip_def starts_with_def)

lemma sse_objects_data: "plain_map d \<Longrightarrow> sse_objects (data_line d) = [JObj d]"
  by (simp add: sse_objects_line NL_data_line line_object_data_line)

lemma sse_objects_blank: "sse_objects (x @ [NL, NL] @ y) = sse_objects x @ sse_objects y"
  using sse_objects_append [of x "NL # y"] sse_objects_append [of "[]" y] by simp

lemma alike_object:
  assumes d: "plain_map d" and l: "sse_objects l = [JObj d]"
  shows "alike (sse_objects (standardize_object l d)) (sse_objects l)"
proof -
  have stamped: "alike (sse_objects (''data: '' @ dumps (JObj (dict_set d ''object'' (JStr CHUNK_OBJECT))))) (sse_objects l)"
    using sse_objects_data [of "dict_set d ''object'' (JStr CHUNK_OBJECT)"] d l
    by (simp add: data_line_def alike_stamped plain_map_set ascii_names del: dumps.simps)
  have two: "alike (sse_objects (''data: '' @ dumps (JObj (finish_chunk d)) @ [NL, NL] @ ''data: '' @ dumps (JObj (usage_chunk d u)))) (sse_objects l)"
    if "jget d ''usage'' = u" "truthy u" for u
  proof -
    have "plain_json u"
      using that plain_get [OF d, of "''usage''"] by (auto simp: jget_def jget_or_def split: option.splits)
    then have "sse_objects (data_line (finish_chunk d) @ [NL, NL] @ data_line (usage_chunk d u))
        = [JObj (finish_chunk d), JObj (usage_chunk d u)]"
      using d sse_objects_blank [of "data_line (finish_chunk d)" "data_line (usage_chunk d u)"]
      by (simp only: sse_objects_data plain_finish plain_usage append_Cons append_Nil)
    then show ?thesis
      using alike_split [OF that] l by (simp add: data_line_def del: dumps.simps)
  qed
  show ?thesis
    using stamped two by (simp add: standardize_object_def split: json.splits list.splits del: dumps.simps append.simps)
qed

lemma alike_line:
  assumes "NL \<notin> set l" and "list_all plain_object (sse_objects l)"
  shows "alike (sse_objects (standardize_line l)) (sse_objects l)"
proof (cases "starts_with l ''data:''")
  case True
  then obtain r where l: "l = ''data:'' @ r"
    by (auto simp: starts_with_def prefix_def)
  show ?thesis
  proof (cases "line_object l")
    case None
    then show ?thesis
      using line_payload_data [of r] by (auto simp: standardize_line_def l line_object_def Let_def)
  next
    case (Some j)
    then have objects: "sse_objects l = [j]"
      by (simp add: sse_objects_line assms(1))
    moreover have "standardize_line l = (case j of JObj d \<Rightarrow> standardize_object l d | _ \<Rightarrow> l)"
      using Some line_payload_data [of r] unfolding l by (cases j) (auto simp: standardize_line_def l line_object_def starts_with_def Let_def split: if_splits)
    ultimately show ?thesis
      using assms(2) alike_object by (cases j) (simp_all add: plain_object_def)
  qed
qed (simp add: standardize_line_def)

lemma alike_event:
  "list_all plain_object (sse_objects e) \<Longrightarrow> alike (sse_objects (standardize_event e)) (sse_objects e)"
proof (induction e rule: lines_induct)
  case (1 x)
  then show ?case
    by (simp add: standardize_event_line alike_line)
next
  case (2 x y)
  then show ?case
    by (simp add: standardize_event_append sse_objects_append standardize_event_line alike_line alike_append)
qed

lemma split_events_text: "split_events s = (es, r) \<Longrightarrow> s = concat (map (\<lambda>e. e @ [NL, NL]) es) @ r"
proof (induction s arbitrary: es rule: split_events.induct)
  case (1 s)
  have cut: "cut_event s = Some (e, t) \<Longrightarrow> s = e @ [NL, NL] @ t" for e t
    by (induction s arbitrary: e rule: cut_event.induct) (auto split: if_splits)
  show ?case
  proof (cases "cut_event s")
    case None
    with 1 show ?thesis
      by (simp add: split_events_none)
  next
    case (Some p)
    then show ?thesis
      using 1 cut [of "fst p" "snd p"] by (cases p) (auto simp: split_events_some split: prod.splits)
  qed
qed

lemma alike_events:
  "list_all plain_object (sse_objects (concat (map (\<lambda>e. e @ [NL, NL]) es) @ r))
    \<Longrightarrow> alike (sse_objects (concat (map (\<lambda>e. standardize_event e @ [NL, NL]) es) @ standardize_event r))
          (sse_objects (concat (map (\<lambda>e. e @ [NL, NL]) es) @ r))"
  by (induction es) (simp_all add: sse_objects_blank [simplified] alike_event alike_append)

lemma stream_alike:
  assumes "list_all plain_object (sse_objects (concat chunks))"
  shows "alike (sse_objects (concat (stream_all chunks))) (sse_objects (concat chunks))"
proof -
  obtain es r where s: "split_events (concat chunks) = (es, r)"
    by fastforce
  have "standardize_event [] = []"
    using standardize_event_line [of "[]"] by (simp add: standardize_line_def starts_with_def)
  then have "concat (stream_all chunks) = concat (map (\<lambda>e. standardize_event e @ [NL, NL]) es) @ standardize_event r"
    using s by (simp add: stream_all_def stream_chunks_whole)
  then show ?thesis
    using alike_events assms split_events_text [OF s] by simp
qed


definition last_chunk :: jdict where
  "last_chunk = [(''id'', JStr ''c1''), (''choices'', JList [JObj []]), (''usage'', JObj [(''prompt_tokens'', JInt 7)])]"


end
