(* ===== verification/HubRecords.thy ===== *)
theory HubRecords
  imports HubUsage
begin

text \<open>
  Who called a hub and what is recorded of the call
  (\<^verbatim>\<open>vendored/gitmodel-hub/hub/server.py\<close>): the caller's credentials and tenant, the record that goes
  to Event Hub, and what each kind of answer, buffered or streamed, is recorded as.

  The headers of a request are a function from lower-case names; the digest and the fresh identifier
  are arguments.  Counts are JSON values, because they are whatever the backend sent.
\<close>

section \<open>The caller\<close>

type_synonym headers = "string \<Rightarrow> string option"

definition header :: "headers \<Rightarrow> string \<Rightarrow> string" where
  "header h k = strip (opt_or_empty (h k))"

definition client_key_candidates :: "headers \<Rightarrow> string list" where
  "client_key_candidates h =
     (let xkey = header h ''x-api-key'';
          auth = opt_or_empty (h ''authorization'');
          token = strip (drop 7 auth) in
      (if xkey \<noteq> [] then [xkey] else []) @
      (if starts_with (lower auth) ''bearer '' \<and> token \<noteq> [] then [token] else []))"

definition extract_client_key :: "headers \<Rightarrow> string option" where
  "extract_client_key h = (case client_key_candidates h of [] \<Rightarrow> None | k # _ \<Rightarrow> Some k)"

definition key_fingerprint :: "(string \<Rightarrow> string) \<Rightarrow> string option \<Rightarrow> string option" where
  "key_fingerprint sha256 key = (if opt_true key then Some (take 16 (sha256 (opt_or_empty key))) else None)"

definition wants_audit :: "headers \<Rightarrow> bool" where
  "wants_audit h \<longleftrightarrow> header h ''x-tf-audit'' = ''1''"

record caller =
  cl_subscription :: "string option"
  cl_api_id :: "string option"
  cl_request_id :: string
  cl_key_fp :: "string option"
  cl_via_apim :: bool
  cl_audit :: bool

definition extract_tenant :: "(string \<Rightarrow> string) \<Rightarrow> string \<Rightarrow> headers \<Rightarrow> caller" where
  "extract_tenant sha256 fresh h =
     (let sub = header h ''x-tf-subscription'';
          fp = key_fingerprint sha256 (extract_client_key h);
          api = header h ''x-tf-api'';
          rid = header h ''x-tf-request-id'' in
      \<lparr>cl_subscription = (if sub \<noteq> [] then Some sub else fp), cl_api_id = (if api \<noteq> [] then Some api else None),
       cl_request_id = (if rid \<noteq> [] then rid else fresh), cl_key_fp = fp, cl_via_apim = (sub \<noteq> []),
       cl_audit = wants_audit h\<rparr>)"

definition stripped_text :: "json \<Rightarrow> string option" where
  "stripped_text v = (case v of JStr s \<Rightarrow> if strip s \<noteq> [] then Some (strip s) else None | _ \<Rightarrow> None)"

definition extract_end_user :: "json \<Rightarrow> string option" where
  "extract_end_user body =
     (case body of
        JObj b \<Rightarrow>
          (case (case jget b ''metadata'' of JObj m \<Rightarrow> stripped_text (jget m ''user_id'') | _ \<Rightarrow> None) of
             Some u \<Rightarrow> Some u
           | None \<Rightarrow> stripped_text (jget b ''user''))
      | _ \<Rightarrow> None)"

section \<open>The record\<close>

record call =
  ca_tenant :: caller
  ca_end_user :: "string option"
  ca_model :: json
  ca_served :: json
  ca_endpoint :: string
  ca_in :: json
  ca_out :: json
  ca_total :: json
  ca_streamed :: bool
  ca_estimated :: bool
  ca_status :: int
  ca_cached :: json
  ca_usage :: json
  ca_copilot :: "jdict option"

definition opt_obj :: "jdict option \<Rightarrow> json" where
  "opt_obj o' = (case o' of None \<Rightarrow> JNull | Some d \<Rightarrow> JObj d)"

definition usage_record :: "call \<Rightarrow> string \<Rightarrow> string option \<Rightarrow> jdict" where
  "usage_record c ts audit_blob =
     [(''request_id'', JStr (cl_request_id (ca_tenant c))),
      (''ts'', JStr ts),
      (''subscription'', opt_str_json (cl_subscription (ca_tenant c))),
      (''api_id'', opt_str_json (cl_api_id (ca_tenant c))),
      (''client_key_fp'', opt_str_json (cl_key_fp (ca_tenant c))),
      (''via_apim'', JBool (cl_via_apim (ca_tenant c))),
      (''end_user'', opt_str_json (ca_end_user c)),
      (''model'', ca_model c),
      (''served_model'', ca_served c),
      (''endpoint'', JStr (ca_endpoint c)),
      (''streamed'', JBool (ca_streamed c)),
      (''status'', JInt (ca_status c)),
      (''input_tokens'', ca_in c),
      (''output_tokens'', ca_out c),
      (''total_tokens'', ca_total c),
      (''cached_tokens'', ca_cached c),
      (''estimated'', JBool (ca_estimated c)),
      (''usage'', ca_usage c),
      (''copilot_usage'', opt_obj (ca_copilot c)),
      (''audit_blob'', opt_str_json audit_blob)]"

section \<open>What an answer is recorded as\<close>

text \<open>A refused call: no tokens, the upstream's status.\<close>

definition refused_call :: "caller \<Rightarrow> string option \<Rightarrow> json \<Rightarrow> string \<Rightarrow> int \<Rightarrow> call" where
  "refused_call t eu model endpoint status =
     \<lparr>ca_tenant = t, ca_end_user = eu, ca_model = model, ca_served = JNull, ca_endpoint = endpoint,
      ca_in = JInt 0, ca_out = JInt 0, ca_total = JInt 0, ca_streamed = False, ca_estimated = False,
      ca_status = status, ca_cached = JInt 0, ca_usage = JNull, ca_copilot = None\<rparr>"

definition openai_call :: "bool \<Rightarrow> caller \<Rightarrow> string option \<Rightarrow> json \<Rightarrow> string \<Rightarrow> json \<Rightarrow> exn + call" where
  "openai_call responses_shape t eu model endpoint answer =
     bind_sum (j_get answer ''usage'' JNull) (\<lambda>usage.
     bind_sum (norm_usage usage responses_shape) (\<lambda>u.
     Inr \<lparr>ca_tenant = t, ca_end_user = eu, ca_model = model,
          ca_served = (case answer of JObj d \<Rightarrow> jget d ''model'' | _ \<Rightarrow> JNull), ca_endpoint = endpoint,
          ca_in = u_in u, ca_out = u_out u, ca_total = u_total u, ca_streamed = False, ca_estimated = False,
          ca_status = 200, ca_cached = u_cached u, ca_usage = usage, ca_copilot = extract_copilot_usage answer\<rparr>))"

text \<open>\<^verbatim>\<open>int(u.get(k, 0) or 0)\<close>\<close>

definition count_or_zero :: "json \<Rightarrow> string \<Rightarrow> exn + int" where
  "count_or_zero u k = bind_sum (j_get u k (JInt 0)) (\<lambda>v. j_int (py_or v (JInt 0)))"

definition anthropic_call :: "caller \<Rightarrow> string option \<Rightarrow> json \<Rightarrow> json \<Rightarrow> exn + call" where
  "anthropic_call t eu model answer =
     bind_sum (j_get answer ''usage'' JNull) (\<lambda>usage.
     let u = py_or usage (JObj []) in
     bind_sum (count_or_zero u ''input_tokens'') (\<lambda>i.
     bind_sum (count_or_zero u ''output_tokens'') (\<lambda>out.
     bind_sum (j_get answer ''model'' JNull) (\<lambda>served.
     bind_sum (count_or_zero u ''cache_read_input_tokens'') (\<lambda>cached.
     Inr \<lparr>ca_tenant = t, ca_end_user = eu, ca_model = model, ca_served = served, ca_endpoint = ''messages'',
          ca_in = JInt i, ca_out = JInt out, ca_total = JInt (i + out), ca_streamed = False, ca_estimated = False,
          ca_status = 200, ca_cached = JInt cached, ca_usage = usage,
          ca_copilot = extract_copilot_usage answer\<rparr>)))))"

definition image_call :: "caller \<Rightarrow> string option \<Rightarrow> json \<Rightarrow> string \<Rightarrow> json \<Rightarrow> int \<Rightarrow> exn + call" where
  "image_call t eu model endpoint answer status =
     (case answer of
        JObj d \<Rightarrow>
          if status = 200 then
            bind_sum (norm_usage (jget d ''usage'') True) (\<lambda>u.
            Inr ((refused_call t eu model endpoint status)\<lparr>ca_served := jget d ''model'', ca_in := u_in u,
              ca_out := u_out u, ca_total := u_total u, ca_cached := u_cached u, ca_usage := jget d ''usage''\<rparr>))
          else Inr (refused_call t eu model endpoint status)
      | _ \<Rightarrow> Inr (refused_call t eu model endpoint status))"

text \<open>The two \<^verbatim>\<open>finally\<close> blocks of the streams: the decoded chunks that had arrived, the status the call
  ended with and, for an OpenAI-shaped request, the estimate of its prompt.\<close>

definition openai_stream_call ::
  "bool \<Rightarrow> caller \<Rightarrow> string option \<Rightarrow> json \<Rightarrow> string \<Rightarrow> int \<Rightarrow> string list \<Rightarrow> int \<Rightarrow> exn + call" where
  "openai_stream_call responses_shape t eu model endpoint est_input collected status =
     (let raw = concat collected; got_content = (collected \<noteq> []) in
      bind_sum (parse_sse_usage raw responses_shape) (\<lambda>usage.
      bind_sum (norm_usage usage responses_shape) (\<lambda>u.
      let input_estimated = (got_content \<and> \<not> truthy (u_in u)) in
      bind_sum (if input_estimated then py_add (JInt est_input) (u_out u) else Inr (u_total u)) (\<lambda>total.
      Inr \<lparr>ca_tenant = t, ca_end_user = eu, ca_model = model, ca_served = JNull, ca_endpoint = endpoint,
           ca_in = (if input_estimated then JInt est_input else u_in u), ca_out = u_out u, ca_total = total,
           ca_streamed = True, ca_estimated = (got_content \<and> (usage = JNull \<or> input_estimated)),
           ca_status = status, ca_cached = u_cached u, ca_usage = usage,
           ca_copilot = scan_sse_copilot_usage raw\<rparr>))))"

definition anthropic_stream_call ::
  "caller \<Rightarrow> string option \<Rightarrow> json \<Rightarrow> string list \<Rightarrow> int \<Rightarrow> exn + call" where
  "anthropic_stream_call t eu model collected status =
     (let raw = concat collected in
      bind_sum (parse_anthropic_sse_usage raw) (\<lambda>u.
      let i = jget u ''input_tokens''; out = jget u ''output_tokens'' in
      bind_sum (py_add i out) (\<lambda>total.
      Inr \<lparr>ca_tenant = t, ca_end_user = eu, ca_model = model, ca_served = JNull, ca_endpoint = ''messages'',
           ca_in = i, ca_out = out, ca_total = total, ca_streamed = True,
           ca_estimated = (collected \<noteq> [] \<and> \<not> truthy i), ca_status = status,
           ca_cached = jget u ''cache_read_input_tokens'', ca_usage = JObj u,
           ca_copilot = scan_sse_copilot_usage raw\<rparr>)))"

text \<open>The event that tells a client of a refusal after the 200 has gone out.\<close>

definition sse_error :: "int \<Rightarrow> string \<Rightarrow> string" where
  "sse_error status body =
     ''data: '' @ dumps_spaced (JObj [(''error'', JObj
        [(''message'', JStr (''upstream returned '' @ int_str status)), (''type'', JStr ''upstream_error''),
         (''code'', JInt status), (''upstream'', JStr (py_take 500 body))])]) @ [NL, NL] @ ''data: [DONE]'' @ [NL, NL]"

section \<open>The bytes of a stream\<close>

text \<open>\<^verbatim>\<open>chunk.decode("utf-8", "replace")\<close>: each longest piece that begins a character and is cut short, and
  each byte that begins none, becomes U+FFFD.\<close>

definition cont :: "char \<Rightarrow> bool" where
  "cont c \<longleftrightarrow> 128 \<le> byte c \<and> byte c < 192"

definition second_ok :: "nat \<Rightarrow> char \<Rightarrow> bool" where
  "second_ok lead c \<longleftrightarrow> cont c \<and> (lead = 224 \<longrightarrow> 160 \<le> byte c) \<and> (lead = 237 \<longrightarrow> byte c < 160)
     \<and> (lead = 240 \<longrightarrow> 144 \<le> byte c) \<and> (lead = 244 \<longrightarrow> byte c < 144)"

definition tail_length :: "nat \<Rightarrow> nat" where
  "tail_length lead =
     (if 194 \<le> lead \<and> lead \<le> 223 then 1 else if 224 \<le> lead \<and> lead \<le> 239 then 2
      else if 240 \<le> lead \<and> lead \<le> 244 then 3 else 0)"

definition tail_found :: "nat \<Rightarrow> string \<Rightarrow> nat" where
  "tail_found lead s =
     (case s of
        [] \<Rightarrow> 0
      | c # r \<Rightarrow>
          if tail_length lead \<noteq> 0 \<and> second_ok lead c then Suc (length (takeWhile cont (take (tail_length lead - 1) r))) else 0)"

definition REPLACEMENT :: string where
  "REPLACEMENT = [CHR 0xEF, CHR 0xBF, CHR 0xBD]"

function decode_replace :: "string \<Rightarrow> string" where
  "decode_replace [] = []"
| "decode_replace (c # s) =
     (let k = tail_found (byte c) s in
      if byte c < 128 then c # decode_replace s
      else if k \<noteq> 0 \<and> k = tail_length (byte c) then c # take k s @ decode_replace (drop k s)
      else REPLACEMENT @ decode_replace (drop k s))"
  by pat_completeness auto
termination
  by (relation "measure length") (auto simp: le_imp_less_Suc)

definition stream_bytes :: "string list \<Rightarrow> string list" where
  "stream_bytes chunks = stream_all (map decode_replace chunks)"

text \<open>Text: what the decoder leaves as it is.\<close>

function utf8 :: "string \<Rightarrow> bool" where
  "utf8 [] = True"
| "utf8 (c # s) =
     (if byte c < 128 then utf8 s
      else tail_found (byte c) s \<noteq> 0 \<and> tail_found (byte c) s = tail_length (byte c) \<and> utf8 (drop (tail_found (byte c) s) s))"
  by pat_completeness auto
termination
  by (relation "measure length") (auto simp: le_imp_less_Suc)

lemma tail_found_le: "tail_found l s \<le> tail_length l" "tail_found l s \<le> length s"
proof -
  show "tail_found l s \<le> tail_length l"
  proof (cases s)
    case (Cons c r)
    then show ?thesis
      using length_takeWhile_le [of cont "take (tail_length l - 1) r"] by (auto simp: tail_found_def)
  qed (simp add: tail_found_def)
  show "tail_found l s \<le> length s"
  proof (cases s)
    case (Cons c r)
    then show ?thesis
      using length_takeWhile_le [of cont "take (tail_length l - 1) r"] by (auto simp: tail_found_def)
  qed (simp add: tail_found_def)
qed

lemma tail_found_append:
  assumes "tail_found l s \<noteq> 0" and "tail_found l s = tail_length l"
  shows "tail_found l (s @ t) = tail_length l"
proof -
  obtain c r where s: "s = c # r"
    using assms(1) by (cases s) (simp_all add: tail_found_def)
  have second: "second_ok l c" and found: "Suc (length (takeWhile cont (take (tail_length l - 1) r))) = tail_length l"
    using assms by (simp_all add: tail_found_def s split: if_splits)
  have "length (takeWhile cont (take (tail_length l - 1) r)) \<le> length (take (tail_length l - 1) r)"
    by (rule length_takeWhile_le)
  then have "tail_length l - 1 \<le> length r"
    using found by auto
  then show ?thesis
    using second found by (simp add: tail_found_def s)
qed

lemma decode_append: "utf8 x \<Longrightarrow> decode_replace (x @ y) = x @ decode_replace y"
proof (induction x rule: utf8.induct)
  case (2 c s)
  let ?k = "tail_found (byte c) s"
  show ?case
  proof (cases "byte c < 128")
    case False
    then have k: "?k \<noteq> 0" "?k = tail_length (byte c)" and "utf8 (drop ?k s)"
      using "2.prems" False utf8.simps(2) [of c s] by metis+
    then have rest: "decode_replace (drop ?k s @ y) = drop ?k s @ decode_replace y"
      using "2.IH"(2) False by blast
    have "?k \<le> length s"
      by (rule tail_found_le)
    then show ?thesis
      using False k rest tail_found_append [OF k, of y] by (simp add: Let_def flip: append_assoc)
  qed (use 2 in \<open>simp add: Let_def\<close>)
qed simp

lemma utf8_append: "utf8 x \<Longrightarrow> utf8 y \<Longrightarrow> utf8 (x @ y)"
proof (induction x rule: utf8.induct)
  case (2 c s)
  let ?k = "tail_found (byte c) s"
  show ?case
  proof (cases "byte c < 128")
    case False
    then have k: "?k \<noteq> 0" "?k = tail_length (byte c)" and "utf8 (drop ?k s)"
      using "2.prems" False utf8.simps(2) [of c s] by metis+
    then have rest: "utf8 (drop ?k s @ y)"
      using "2.IH"(2) "2.prems"(2) False by blast
    have "?k \<le> length s"
      by (rule tail_found_le)
    then show ?thesis
      using False k rest tail_found_append [OF k, of y] by simp
  qed (use 2 in simp)
qed simp

lemma utf8_of_valid: "utf8_valid s \<Longrightarrow> utf8 s"
proof (induction s rule: utf8_valid.induct)
  case (2 a s)
  consider "byte a < 128" | "194 \<le> byte a" "byte a < 224" | "224 \<le> byte a" "byte a < 240" | "240 \<le> byte a" "byte a < 245"
    using "2.prems" by (fastforce split: if_splits)
  then show ?case
  proof cases
    case 1
    then show ?thesis
      using 2 by simp
  next
    case 2
    then show ?thesis
      using "2.prems" "2.IH"(2)
      by (auto simp: tail_found_def tail_length_def second_ok_def cont_def is_cont_byte_def split: list.splits)
  next
    case 3
    then show ?thesis
      using "2.prems" "2.IH"(3)
      by (auto simp: tail_found_def tail_length_def second_ok_def cont_def is_cont_byte_def split: list.splits)
  next
    case 4
    then show ?thesis
      using "2.prems" "2.IH"(4)
      by (auto simp: tail_found_def tail_length_def second_ok_def cont_def is_cont_byte_def numeral_3_eq_3 split: list.splits)
  qed
qed simp

text \<open>Where an OpenAI-shaped stream is cut into chunks does not matter, as long as no character is cut: the
  client receives, event by event, what it would have received had the whole text come in one
  piece.\<close>

lemma rechunking_is_harmless:
  assumes "list_all utf8_valid chunks"
  shows "stream_bytes chunks = stream_bytes [concat chunks]"
proof -
  have "decode_replace c = c" if "utf8 c" for c
    using decode_append [OF that, of "[]"] by simp
  moreover have "utf8 (concat chunks)"
    using assms by (induction chunks) (simp_all add: utf8_append utf8_of_valid)
  ultimately have "map decode_replace chunks = chunks" "decode_replace (concat chunks) = concat chunks"
    using assms by (auto simp: list_all_iff utf8_of_valid intro: map_idI)
  then show ?thesis
    using rechunked [of chunks] by (simp add: stream_bytes_def)
qed

lemma rechunking_is_harmless_witness:
  "stream_bytes [''data: a'', [NL], NL # ''b''] = stream_bytes [concat [''data: a'', [NL], NL # ''b'']]"
  by (rule rechunking_is_harmless) (simp add: byte_def NL_def)

text \<open>A chunk that ends inside a character garbles it: both halves are replaced, for the client and in the
  archived answer, although every byte arrived.\<close>

lemma cut_character_is_garbled:
  "stream_bytes [[CHR 0xC3], [CHR 0xA9]] = [REPLACEMENT @ REPLACEMENT] \<and> stream_bytes [[CHR 0xC3, CHR 0xA9]] = [[CHR 0xC3, CHR 0xA9]]"
  by code_simp

section \<open>Anthropic counters\<close>

text \<open>The values a stream reports for a key, in order.\<close>

definition reported :: "string \<Rightarrow> json \<Rightarrow> json list" where
  "reported k obj = (case event_usage obj of Inr (JObj d) \<Rightarrow> map snd (filter (\<lambda>p. fst p = k) d) | _ \<Rightarrow> [])"

definition settled :: "json list \<Rightarrow> json option" where
  "settled vs =
     (case filter truthy vs of
        [] \<Rightarrow> (case vs of [] \<Rightarrow> None | v # _ \<Rightarrow> Some v)
      | ws \<Rightarrow> Some (last ws))"

lemma settled_snoc: "settled (vs @ [v]) = (if settled vs \<noteq> None \<and> \<not> truthy v then settled vs else Some v)"
  by (cases vs) (auto simp: settled_def split: list.splits)

lemma merge_usage_settled:
  "dict_get m k = settled vs \<Longrightarrow> dict_get (merge_usage d m) k = settled (vs @ map snd (filter (\<lambda>p. fst p = k) d))"
proof (induction d arbitrary: m vs)
  case (Cons p d)
  have "dict_get (merge_value p m) k = settled (vs @ map snd (filter (\<lambda>p. fst p = k) [p]))"
    using Cons.prems by (cases p) (auto simp: merge_value_def dict_get_set settled_snoc)
  from Cons.IH [OF this] show ?case
    by (simp add: merge_usage_def)
qed (simp add: merge_usage_def)

lemma merge_events_settled:
  "merge_events objs m = Inr m' \<Longrightarrow> dict_get m k = settled vs \<Longrightarrow> dict_get m' k = settled (vs @ concat (map (reported k) objs))"
proof (induction objs arbitrary: m vs)
  case (Cons obj objs)
  obtain u where u: "event_usage obj = Inr u"
    using Cons.prems(1) by (auto simp: bind_sum_def split: sum.splits)
  show ?case
    using Cons.prems u Cons.IH [of _ "vs @ reported k obj"] merge_usage_settled [of m k vs]
    by (cases u) (simp_all add: reported_def)
qed simp

lemma dict_ok_merge_usage: "dict_ok m \<Longrightarrow> dict_ok (merge_usage d m)"
proof (induction d arbitrary: m)
  case (Cons p d)
  have "dict_ok (merge_value p m)"
    using Cons.prems by (cases p) (simp add: merge_value_def dict_ok_set)
  from Cons.IH [OF this] show ?case
    by (simp add: merge_usage_def)
qed (simp add: merge_usage_def)

lemma dict_ok_merge_events: "merge_events objs m = Inr m' \<Longrightarrow> dict_ok m \<Longrightarrow> dict_ok m'"
proof (induction objs arbitrary: m)
  case (Cons obj objs)
  then show ?case
    by (auto simp: bind_sum_def dict_ok_merge_usage split: sum.splits json.splits)
qed simp

lemma dict_get_update:
  "dict_ok m \<Longrightarrow> dict_get (fold (\<lambda>(k, v) d. dict_set d k v) m d) k = (case dict_get m k of Some v \<Rightarrow> Some v | None \<Rightarrow> dict_get d k)"
proof (induction m arbitrary: d)
  case (Cons p m)
  then show ?case
    by (cases p) (auto simp: dict_get_set dict_ok_Cons dict_get_notin split: option.splits)
qed simp

text \<open>A counter of an Anthropic stream is the last nonzero value its events reported, the first value
  when all of them are zero or empty, and zero when none reported it: no later event erases a count,
  whichever events carry it, and this holds of every key, not of the three that are always there.\<close>

lemma anthropic_counter_is_the_last_nonzero:
  assumes "parse_anthropic_sse_usage text = Inr u"
  shows "dict_get u k = (case settled (concat (map (reported k) (sse_objects text))) of
     Some v \<Rightarrow> Some v | None \<Rightarrow> dict_get canonical_zeros k)"
proof -
  obtain m where m: "merge_events (sse_objects text) [] = Inr m" "u = fold (\<lambda>(k, v) d. dict_set d k v) m canonical_zeros"
    using assms by (auto simp: parse_anthropic_sse_usage_def bind_sum_def split: sum.splits)
  then show ?thesis
    using merge_events_settled [OF m(1), of k "[]"] dict_ok_merge_events [OF m(1)]
    by (simp add: dict_get_update settled_def [of "[]"])
qed

definition start_event :: jdict where
  "start_event = [(''message'', JObj [(''usage'', JObj [(''input_tokens'', JInt 9)])])]"

definition delta_event :: jdict where
  "delta_event = [(''usage'', JObj [(''input_tokens'', JInt 0), (''output_tokens'', JInt 5)])]"

definition two_events :: string where
  "two_events = data_line start_event @ NL # data_line delta_event"

lemma two_events_objects: "sse_objects two_events = [JObj start_event, JObj delta_event]"
proof -
  have "int_fits 9" "int_fits 0" "int_fits 5"
    by code_simp+
  then have "plain_map start_event" "plain_map delta_event"
    by (simp_all add: start_event_def delta_event_def plain_map_def dict_ok_def ascii_def byte_def)
  then show ?thesis
    by (simp add: two_events_def sse_objects_append sse_objects_data)
qed

lemma anthropic_counter_is_the_last_nonzero_witness:
  "dict_get [(''input_tokens'', JInt 9), (''output_tokens'', JInt 5), (''cache_read_input_tokens'', JInt 0)] ''input_tokens''
     = (case settled (concat (map (reported ''input_tokens'') (sse_objects two_events))) of
          Some v \<Rightarrow> Some v | None \<Rightarrow> dict_get canonical_zeros ''input_tokens'')"
  by (rule anthropic_counter_is_the_last_nonzero)
    (simp add: parse_anthropic_sse_usage_def two_events_objects event_usage_def start_event_def delta_event_def j_get_def jget_or_def
      py_or_def merge_usage_def merge_value_def canonical_zeros_def)

section \<open>Nothing delivered, nothing billed\<close>

lemma no_objects: "sse_objects [] = []"
  by simp

lemma py_add_ints: "py_add (JInt i) (JInt j) = Inr (JInt (i + j))"
  by (simp add: py_add_def)

text \<open>A stream that the backend refused before the first chunk bills nothing and guesses nothing: the record
  has the backend's status, zero tokens, no bill and is not marked as estimated, whichever of the two
  protocols the client spoke and however long its prompt was.\<close>

lemma refused_stream_bills_nothing:
  "(case openai_stream_call rs t eu model endpoint est [] status of
      Inl _ \<Rightarrow> False
    | Inr c \<Rightarrow> (ca_in c, ca_out c, ca_total c, ca_cached c) = (JInt 0, JInt 0, JInt 0, JInt 0)
        \<and> \<not> ca_estimated c \<and> ca_status c = status \<and> ca_copilot c = None) \<and>
   (case anthropic_stream_call t eu model [] status of
      Inl _ \<Rightarrow> False
    | Inr c \<Rightarrow> (ca_in c, ca_out c, ca_total c, ca_cached c) = (JInt 0, JInt 0, JInt 0, JInt 0)
        \<and> \<not> ca_estimated c \<and> ca_status c = status \<and> ca_copilot c = None)"
  by (simp add: openai_stream_call_def anthropic_stream_call_def parse_sse_usage_def parse_anthropic_sse_usage_def
      norm_usage_def no_usage4_def scan_sse_copilot_usage_def last_some_def canonical_zeros_def py_add_ints jget_def
      jget_or_def Let_def)

end
