(* ===== verification/HubStore.thy ===== *)
theory HubStore
  imports HubRecords
begin

text \<open>
  A hub's own storage and the guards of its routes (\<^verbatim>\<open>vendored/gitmodel-hub/hub/store.py\<close>,
  \<^verbatim>\<open>server.py\<close>): the settings table, the API keys, the client and the administrator checks, and the
  login throttle.  SQLite's two tables are a dictionary and a list of rows in order of insertion; the
  randomness and the clock are arguments.
\<close>

section \<open>The two tables\<close>

record api_key_row =
  ak_key :: string
  ak_name :: string
  ak_created_at :: pyfloat
  ak_revoked :: bool

record hub_store =
  hs_kv :: "(string, string) dict"
  hs_keys :: "api_key_row list"

definition empty_store :: hub_store where
  "empty_store = \<lparr>hs_kv = [], hs_keys = []\<rparr>"

definition get_setting :: "hub_store \<Rightarrow> string \<Rightarrow> string option" where
  "get_setting st k = dict_get (hs_kv st) k"

definition set_setting :: "string \<Rightarrow> string \<Rightarrow> hub_store \<Rightarrow> hub_store" where
  "set_setting k v st = st\<lparr>hs_kv := dict_set (hs_kv st) k v\<rparr>"

definition get_oauth_token :: "hub_store \<Rightarrow> string option" where
  "get_oauth_token st = dict_get (hs_kv st) ''oauth_token''"

definition set_oauth_token :: "string \<Rightarrow> hub_store \<Rightarrow> hub_store" where
  "set_oauth_token token st = st\<lparr>hs_kv := dict_set (hs_kv st) ''oauth_token'' token\<rparr>"

definition clear_oauth_token :: "hub_store \<Rightarrow> hub_store" where
  "clear_oauth_token st = st\<lparr>hs_kv := filter (\<lambda>(k, v). k \<noteq> ''oauth_token'') (hs_kv st)\<rparr>"

definition get_require_auth :: "hub_store \<Rightarrow> bool \<Rightarrow> bool" where
  "get_require_auth st dflt = (case get_setting st ''require_auth'' of None \<Rightarrow> dflt | Some v \<Rightarrow> v = ''1'')"

definition set_require_auth :: "bool \<Rightarrow> hub_store \<Rightarrow> hub_store" where
  "set_require_auth enabled = set_setting ''require_auth'' (if enabled then ''1'' else ''0'')"

section \<open>Administrator credentials\<close>

definition hash_admin :: "(string \<Rightarrow> string) \<Rightarrow> string \<Rightarrow> string \<Rightarrow> string" where
  "hash_admin sha256 password salt = sha256 (salt @ '':'' @ password)"

definition ensure_admin_defaults :: "(string \<Rightarrow> string) \<Rightarrow> string \<Rightarrow> hub_store \<Rightarrow> hub_store" where
  "ensure_admin_defaults sha256 salt st =
     (let st1 = (if get_setting st ''admin_username'' = None then set_setting ''admin_username'' ''admin'' st else st) in
      if get_setting st1 ''admin_pw_salt'' = None \<or> get_setting st1 ''admin_pw_hash'' = None
      then set_setting ''admin_pw_hash'' (hash_admin sha256 ''admin'' salt) (set_setting ''admin_pw_salt'' salt st1)
      else st1)"

definition get_admin_username :: "hub_store \<Rightarrow> string" where
  "get_admin_username st =
     (let u = (case get_setting st ''admin_username'' of Some u \<Rightarrow> u | None \<Rightarrow> ''admin'') in if u \<noteq> [] then u else ''admin'')"

definition verify_admin :: "(string \<Rightarrow> string) \<Rightarrow> string \<Rightarrow> string \<Rightarrow> hub_store \<Rightarrow> bool" where
  "verify_admin sha256 username password st =
     (if username \<noteq> get_admin_username st then False
      else
        let salt = opt_or_empty (get_setting st ''admin_pw_salt'');
            expected = opt_or_empty (get_setting st ''admin_pw_hash'') in
        expected \<noteq> [] \<and> hash_admin sha256 password salt = expected)"

definition set_admin_credentials :: "(string \<Rightarrow> string) \<Rightarrow> string \<Rightarrow> string \<Rightarrow> string \<Rightarrow> hub_store \<Rightarrow> hub_store" where
  "set_admin_credentials sha256 salt username password st =
     set_setting ''admin_pw_hash'' (hash_admin sha256 password salt)
       (set_setting ''admin_pw_salt'' salt (set_setting ''admin_username'' username st))"

section \<open>The image backend\<close>

record image_config =
  ic_endpoint :: string
  ic_api_key :: string
  ic_model :: string

definition get_image_config :: "hub_store \<Rightarrow> image_config" where
  "get_image_config st =
     (let field = (\<lambda>d k. py_str (py_or (jget d k) (JStr []))) in
      case (case get_setting st ''image_config'' of None \<Rightarrow> None | Some raw \<Rightarrow> if raw = [] then None else loads raw) of
        Some (JObj d) \<Rightarrow> \<lparr>ic_endpoint = field d ''endpoint'', ic_api_key = field d ''api_key'', ic_model = field d ''model''\<rparr>
      | _ \<Rightarrow> \<lparr>ic_endpoint = [], ic_api_key = [], ic_model = []\<rparr>)"

definition set_image_config :: "string option \<Rightarrow> string option \<Rightarrow> string option \<Rightarrow> hub_store \<Rightarrow> image_config \<times> hub_store" where
  "set_image_config endpoint api_key model st =
     (let current = get_image_config st;
          new_key = strip (opt_or_empty api_key);
          cfg = \<lparr>ic_endpoint = strip (opt_or_empty endpoint),
                 ic_api_key = (if new_key \<noteq> [] then new_key else ic_api_key current),
                 ic_model = strip (opt_or_empty model)\<rparr> in
      (cfg, set_setting ''image_config'' (dumps_spaced (JObj
         [(''endpoint'', JStr (ic_endpoint cfg)), (''api_key'', JStr (ic_api_key cfg)), (''model'', JStr (ic_model cfg))])) st))"

definition image_configured :: "hub_store \<Rightarrow> bool" where
  "image_configured st \<longleftrightarrow> ic_endpoint (get_image_config st) \<noteq> [] \<and> ic_api_key (get_image_config st) \<noteq> []"

definition image_model :: "hub_store \<Rightarrow> string" where
  "image_model st = (if ic_model (get_image_config st) \<noteq> [] then ic_model (get_image_config st) else ''gpt-image-2'')"

definition before_suffix :: "string \<Rightarrow> string \<Rightarrow> string" where
  "before_suffix s sfx = (if ends_with s sfx then take (length s - length sfx) s else s)"

definition derive_urls :: "string \<Rightarrow> string \<times> string" where
  "derive_urls endpoint =
     (let given = rstrip CHR ''/'' (strip endpoint);
          base = (if ends_with given ''/images/generations'' then before_suffix given ''/images/generations''
                  else before_suffix given ''/images/edits'');
          v1 = (if ends_with base ''/openai/v1'' then base
                else if ends_with base ''/openai'' then base @ ''/v1'' else base @ ''/openai/v1'') in
      (v1 @ ''/images/generations'', v1 @ ''/images/edits''))"

section \<open>API keys\<close>

definition create_api_key :: "string \<Rightarrow> pyfloat \<Rightarrow> string \<Rightarrow> hub_store \<Rightarrow> exn + api_key_row \<times> hub_store" where
  "create_api_key random now name st =
     (let row = \<lparr>ak_key = ''sk-hub-'' @ random, ak_name = name, ak_created_at = now, ak_revoked = False\<rparr> in
      if \<exists>r \<in> set (hs_keys st). ak_key r = ak_key row then Inl (OtherError ''UNIQUE constraint failed: api_keys.key'')
      else Inr (row, st\<lparr>hs_keys := hs_keys st @ [row]\<rparr>))"

definition revoke_api_key :: "string \<Rightarrow> hub_store \<Rightarrow> hub_store" where
  "revoke_api_key key st = st\<lparr>hs_keys := map (\<lambda>r. if ak_key r = key then r\<lparr>ak_revoked := True\<rparr> else r) (hs_keys st)\<rparr>"

definition is_valid_api_key :: "hub_store \<Rightarrow> string \<Rightarrow> bool" where
  "is_valid_api_key st key \<longleftrightarrow> (\<exists>r \<in> set (hs_keys st). ak_key r = key \<and> \<not> ak_revoked r)"

section \<open>The guards\<close>

record guard_cfg =
  gc_require_auth :: bool
  gc_admin_token :: string
  gc_hub_api_key :: string
  gc_max_fails :: int
  gc_lock_seconds :: int

definition check_client_auth :: "guard_cfg \<Rightarrow> hub_store \<Rightarrow> headers \<Rightarrow> exn + string option" where
  "check_client_auth c st h =
     (let keys = client_key_candidates h in
      if \<not> get_require_auth st (gc_require_auth c) then Inr (extract_client_key h)
      else case filter (\<lambda>k. gc_hub_api_key c \<noteq> [] \<and> k = gc_hub_api_key c \<or> is_valid_api_key st k) keys of
             k # _ \<Rightarrow> Inr (Some k)
           | [] \<Rightarrow> Inl (HTTPException 401 ''Invalid or missing API key''))"

text \<open>Sessions: token to expiry.\<close>

type_synonym sessions = "(string, pyfloat) dict"

definition SESSION_TTL :: pyfloat where
  "SESSION_TTL = FFin 43200"

definition new_session :: "string \<Rightarrow> pyfloat \<Rightarrow> sessions \<Rightarrow> string \<times> sessions" where
  "new_session token now ss = (token, dict_set ss token (fadd now SESSION_TTL))"

definition valid_session :: "pyfloat \<Rightarrow> string option \<Rightarrow> sessions \<Rightarrow> bool \<times> sessions" where
  "valid_session now token ss =
     (case token of
        None \<Rightarrow> (False, ss)
      | Some t \<Rightarrow>
          if t = [] then (False, ss)
          else (case dict_get ss t of
                  None \<Rightarrow> (False, ss)
                | Some e \<Rightarrow>
                    if \<not> float_true e then (False, ss)
                    else if flt e now then (False, dict_del ss t) else (True, ss)))"

definition check_admin :: "guard_cfg \<Rightarrow> pyfloat \<Rightarrow> string option \<Rightarrow> sessions \<Rightarrow> (exn + unit) \<times> sessions" where
  "check_admin c now token ss =
     (if gc_admin_token c \<noteq> [] \<and> opt_or_empty token = gc_admin_token c then (Inr (), ss)
      else case valid_session now token ss of
             (ok, ss') \<Rightarrow> (if ok then Inr () else Inl (HTTPException 401 ''Admin login required''), ss'))"

section \<open>The login throttle\<close>

record attempts =
  at_fails :: int
  at_until :: pyfloat

type_synonym throttle = "(string, attempts) dict"

definition client_ip :: "headers \<Rightarrow> string option \<Rightarrow> string" where
  "client_ip h peer =
     (let xff = opt_or_empty (h ''x-forwarded-for'') in
      if xff \<noteq> [] then strip (hd (split_all CHR '','' xff)) else (case peer of Some p \<Rightarrow> p | None \<Rightarrow> ''unknown''))"

definition login_locked :: "string \<Rightarrow> pyfloat \<Rightarrow> throttle \<Rightarrow> bool" where
  "login_locked ip now th = (case dict_get th ip of None \<Rightarrow> False | Some r \<Rightarrow> flt now (at_until r))"

definition login_fail :: "guard_cfg \<Rightarrow> string \<Rightarrow> pyfloat \<Rightarrow> throttle \<Rightarrow> exn + throttle" where
  "login_fail c ip now th =
     (if gc_max_fails c \<le> 0 then Inr th
      else
        let r = (case dict_get th ip of Some r \<Rightarrow> r | None \<Rightarrow> \<lparr>at_fails = 0, at_until = FFin 0\<rparr>);
            fails = at_fails r + 1 in
        if gc_max_fails c \<le> fails then
          bind_sum (float_of_int (gc_lock_seconds c)) (\<lambda>lock.
          Inr (dict_set th ip \<lparr>at_fails = 0, at_until = fadd now lock\<rparr>))
        else Inr (dict_set th ip \<lparr>at_fails = fails, at_until = at_until r\<rparr>))"

definition login_success :: "string \<Rightarrow> throttle \<Rightarrow> throttle" where
  "login_success ip th = dict_del th ip"

section \<open>Who gets in\<close>

lemma require_auth_set: "get_require_auth (set_require_auth b st) d = b"
  by (simp add: get_require_auth_def set_require_auth_def get_setting_def set_setting_def dict_get_set)

lemma valid_key_set: "is_valid_api_key (set_require_auth b st) k = is_valid_api_key st k"
  by (simp add: is_valid_api_key_def set_require_auth_def set_setting_def)

text \<open>With authentication on, a request is served exactly when one of the credentials it carries is the
  deploy-time key or a key that was created and not revoked, and it is attributed to such a key; a key
  stops working when it is revoked and no other key does.\<close>

lemma only_valid_keys_get_in:
  "(let valid = (\<lambda>k. gc_hub_api_key c \<noteq> [] \<and> k = gc_hub_api_key c \<or> is_valid_api_key st k) in
    case check_client_auth c (set_require_auth True st) h of
      Inl e \<Rightarrow> e = HTTPException 401 ''Invalid or missing API key'' \<and> \<not> list_ex valid (client_key_candidates h)
    | Inr k \<Rightarrow> list_ex (\<lambda>k'. k = Some k' \<and> valid k') (client_key_candidates h)) \<and>
   is_valid_api_key (revoke_api_key k st) k' = (k' \<noteq> k \<and> is_valid_api_key st k')"
proof (rule conjI)
  let ?valid = "\<lambda>k. gc_hub_api_key c \<noteq> [] \<and> k = gc_hub_api_key c \<or> is_valid_api_key st k"
  have check: "check_client_auth c (set_require_auth True st) h =
      (case filter ?valid (client_key_candidates h) of
         k # _ \<Rightarrow> Inr (Some k) | [] \<Rightarrow> Inl (HTTPException 401 ''Invalid or missing API key''))"
    by (simp add: check_client_auth_def require_auth_set valid_key_set Let_def)
  show "let valid = ?valid in
    case check_client_auth c (set_require_auth True st) h of
      Inl e \<Rightarrow> e = HTTPException 401 ''Invalid or missing API key'' \<and> \<not> list_ex valid (client_key_candidates h)
    | Inr k \<Rightarrow> list_ex (\<lambda>k'. k = Some k' \<and> valid k') (client_key_candidates h)"
  proof (cases "filter ?valid (client_key_candidates h)")
    case Nil
    then show ?thesis
      unfolding check Let_def by (auto simp: filter_empty_conv list_ex_iff)
  next
    case (Cons k ks)
    then have "k \<in> set (filter ?valid (client_key_candidates h))"
      by simp
    then have "k \<in> set (client_key_candidates h)" "?valid k"
      by simp_all
    then show ?thesis
      unfolding check Let_def Cons by (auto simp: list_ex_iff)
  qed
  show "is_valid_api_key (revoke_api_key k st) k' = (k' \<noteq> k \<and> is_valid_api_key st k')"
    by (force simp: is_valid_api_key_def revoke_api_key_def)
qed

text \<open>The administrator's routes have no other way in: with no token configured and no session, which
  nothing creates any more, every one of them answers 401.\<close>

lemma no_admin_token_locks_everyone_out:
  "gc_admin_token c = [] \<Longrightarrow> fst (check_admin c now token []) = Inl (HTTPException 401 ''Admin login required'')"
  by (simp add: check_admin_def valid_session_def split: option.splits)

text \<open>The image settings survive their storage as JSON, and a blank key keeps the one that was there.\<close>

lemma ascii_strip: "ascii s \<Longrightarrow> ascii (strip s)"
  by (auto simp: strip_def ascii_def list_all_iff dest!: set_dropWhileD)

lemma image_config_roundtrip:
  assumes "ascii (opt_or_empty e)" and "ascii (opt_or_empty m)"
    and "ascii (opt_or_empty k)" and "ascii (ic_api_key (get_image_config st))"
  shows "get_image_config (snd (set_image_config e k m st)) = fst (set_image_config e k m st)"
proof -
  let ?cfg = "fst (set_image_config e k m st)"
  let ?d = "[(''endpoint'', JStr (ic_endpoint ?cfg)), (''api_key'', JStr (ic_api_key ?cfg)), (''model'', JStr (ic_model ?cfg))]"
  have "ascii (ic_endpoint ?cfg)" "ascii (ic_api_key ?cfg)" "ascii (ic_model ?cfg)"
    using assms by (simp_all add: set_image_config_def Let_def ascii_strip)
  then have "plain_json (JObj ?d)"
    by (simp add: plain_map_def dict_ok_def) (simp add: ascii_def byte_def)
  then have "loads (dumps_spaced (JObj ?d)) = Some (JObj ?d)"
    by (rule loads_dumps_spaced)
  moreover have "get_setting (snd (set_image_config e k m st)) ''image_config'' = Some (dumps_spaced (JObj ?d))"
    by (simp add: set_image_config_def get_setting_def set_setting_def dict_get_set Let_def)
  moreover have "dumps_spaced (JObj ?d) \<noteq> []"
    by (simp add: dumps_spaced_def)
  ultimately show ?thesis
    by (simp add: get_image_config_def [of "snd _"] py_or_def)
qed

end
