(* ===== verification/HubAuth.thy ===== *)
theory HubAuth
  imports HubStore
begin

text \<open>
  The login of a hub at its backend (\<^verbatim>\<open>vendored/gitmodel-hub/hub/copilot_client.py\<close>): the long-lived
  OAuth token, the short-lived API token that it is exchanged for and that is kept in memory, and the
  requests made with it.

  Each coroutine is cut where it awaits, and the lock is the state's \<^verbatim>\<open>cp_lock\<close>: who holds it
  and what the holder waits for.  What the exchange answers is an argument of the piece after it.
\<close>

section \<open>Tokens\<close>

datatype cp_error = NotAuthenticated | Raised_in exn

record api_token =
  tk_token :: json
  tk_endpoint :: json
  tk_expires :: pyfloat

datatype holder = Exchanging string | Installing string "string option" "api_token option"

record copilot =
  cp_store :: hub_store
  cp_env :: string
  cp_cache :: "api_token option"
  cp_lock :: "holder option"

definition COPILOT_API_BASE :: string where
  "COPILOT_API_BASE = ''https://api.githubcopilot.com''"

definition EDITOR_HEADERS :: "(string \<times> string) list" where
  "EDITOR_HEADERS =
     [(''Editor-Version'', ''vscode/1.95.0''), (''Editor-Plugin-Version'', ''copilot-chat/0.22.0''),
      (''Copilot-Integration-Id'', ''vscode-chat''), (''User-Agent'', ''GitHubCopilotChat/0.22.0'')]"

text \<open>The token in use: the stored one before the one of the environment; empty when there is none.\<close>

definition resolve_oauth_token :: "copilot \<Rightarrow> string" where
  "resolve_oauth_token s =
     (let stored = opt_or_empty (get_oauth_token (cp_store s)) in if stored \<noteq> [] then stored else cp_env s)"

definition is_authenticated :: "copilot \<Rightarrow> bool" where
  "is_authenticated s \<longleftrightarrow> resolve_oauth_token s \<noteq> []"

section \<open>The exchange\<close>

definition exchange_request :: "string \<Rightarrow> http_req" where
  "exchange_request oauth =
     http_get ''https://api.github.com/copilot_internal/v2/token''
       ([(''Authorization'', ''token '' @ oauth), (''Accept'', ''application/json'')] @ EDITOR_HEADERS) []"

text \<open>\<^verbatim>\<open>float(v)\<close>; the server sends a number.\<close>

definition number_float :: "json \<Rightarrow> exn + pyfloat" where
  "number_float v =
     (case as_number v of
        Some (Inl i) \<Rightarrow> float_of_int i
      | Some (Inr f) \<Rightarrow> Inr f
      | None \<Rightarrow> Inl (TypeError ''float() argument''))"

definition exchange_answer :: "http_resp \<Rightarrow> exn + api_token" where
  "exchange_answer r =
     (if hr_status r \<noteq> 200 then
        Inl (RuntimeError (''Failed to exchange API token '' @ int_str (hr_status r) @ '': '' @ hr_text r
          @ ''. The account may not have a Copilot subscription or the OAuth token expired (log out and back in).''))
      else
        bind_sum (body_of r) (\<lambda>data.
        bind_sum (j_get data ''endpoints'' (JObj [])) (\<lambda>endpoints.
        bind_sum (j_get endpoints ''api'' (JStr COPILOT_API_BASE)) (\<lambda>endpoint.
        bind_sum (j_item data ''token'') (\<lambda>token.
        bind_sum (j_item data ''expires_at'') (\<lambda>ex.
        bind_sum (number_float ex) (\<lambda>expires.
        Inr \<lparr>tk_token = token, tk_endpoint = endpoint, tk_expires = expires\<rparr>)))))))"

section \<open>The pieces\<close>

definition fresh_token :: "pyfloat \<Rightarrow> copilot \<Rightarrow> api_token option" where
  "fresh_token now s =
     (case cp_cache s of
        Some t \<Rightarrow> if flt now (fsub (tk_expires t) (FFin 300)) then Some t else None
      | None \<Rightarrow> None)"

text \<open>\<^verbatim>\<open>get_api_token\<close> with the lock in hand: done, refused, or waiting for the exchange.\<close>

definition get_locked :: "pyfloat \<Rightarrow> copilot \<Rightarrow> (cp_error + api_token) option \<times> copilot" where
  "get_locked now s =
     (case fresh_token now s of
        Some t \<Rightarrow> (Some (Inr t), s)
      | None \<Rightarrow>
          (let oauth = resolve_oauth_token s in
           if oauth = [] then (Some (Inl NotAuthenticated), s) else (None, s\<lparr>cp_lock := Some (Exchanging oauth)\<rparr>)))"

definition get_answered :: "exn + api_token \<Rightarrow> copilot \<Rightarrow> (cp_error + api_token) \<times> copilot" where
  "get_answered r s =
     (case r of
        Inl e \<Rightarrow> (Inl (Raised_in e), s\<lparr>cp_lock := None\<rparr>)
      | Inr t \<Rightarrow> (Inr t, s\<lparr>cp_cache := Some t, cp_lock := None\<rparr>))"

text \<open>\<^verbatim>\<open>install_oauth_token\<close> with the lock in hand, and after the exchange: on failure the token and
  the cache are put back.\<close>

definition install_locked :: "string \<Rightarrow> copilot \<Rightarrow> exn + copilot" where
  "install_locked token s =
     (let token = strip token in
      if token = [] then Inl (ValueError ''access_token is required'')
      else Inr (s\<lparr>cp_store := set_oauth_token token (cp_store s), cp_cache := None,
                  cp_lock := Some (Installing token (get_oauth_token (cp_store s)) (cp_cache s))\<rparr>))"

definition put_back :: "string option \<Rightarrow> hub_store \<Rightarrow> hub_store" where
  "put_back previous st = (case previous of None \<Rightarrow> clear_oauth_token st | Some t \<Rightarrow> set_oauth_token t st)"

definition install_answered :: "exn + api_token \<Rightarrow> copilot \<Rightarrow> (exn + pyfloat) \<times> copilot" where
  "install_answered r s =
     (case (cp_lock s, r) of
        (Some (Installing token oauth api), Inl e) \<Rightarrow>
          (Inl e, s\<lparr>cp_store := put_back oauth (cp_store s), cp_cache := api, cp_lock := None\<rparr>)
      | (_, Inl e) \<Rightarrow> (Inl e, s)
      | (_, Inr t) \<Rightarrow> (Inr (tk_expires t), s\<lparr>cp_cache := Some t, cp_lock := None\<rparr>))"

text \<open>These two take no lock.\<close>

definition logout :: "copilot \<Rightarrow> copilot" where
  "logout s = s\<lparr>cp_store := clear_oauth_token (cp_store s), cp_cache := None\<rparr>"

definition log_in :: "string \<Rightarrow> copilot \<Rightarrow> copilot" where
  "log_in token s = s\<lparr>cp_store := set_oauth_token token (cp_store s), cp_cache := None\<rparr>"

datatype device_answer = DeviceSuccess | DevicePending json | DeviceError json json

text \<open>\<^verbatim>\<open>device_flow_poll\<close> after its answer; the token GitHub sends is text.\<close>

definition device_flow_poll :: "json \<Rightarrow> copilot \<Rightarrow> (exn + device_answer) \<times> copilot" where
  "device_flow_poll data s =
     (case data of
        JObj d \<Rightarrow>
          (case dict_get d ''access_token'' of
             Some token \<Rightarrow>
               (case j_text token of
                  Inr t \<Rightarrow> (Inr DeviceSuccess, log_in t s)
                | Inl e \<Rightarrow> (Inl e, s))
           | None \<Rightarrow>
               (let err = jget d ''error'' in
                if err = JStr ''authorization_pending'' \<or> err = JStr ''slow_down'' then (Inr (DevicePending err), s)
                else (Inr (DeviceError (py_or err (JStr ''unknown'')) data), s)))
      | _ \<Rightarrow> (Inl attribute_error, s))"

section \<open>Requests\<close>

definition merge_headers :: "(string \<times> string) list \<Rightarrow> (string \<times> string) list \<Rightarrow> (string \<times> string) list" where
  "merge_headers extra hs = fold (\<lambda>(k, v) d. dict_set d k v) extra hs"

definition backend_headers :: "api_token \<Rightarrow> bool \<Rightarrow> (string \<times> string) list \<Rightarrow> (string \<times> string) list" where
  "backend_headers t streaming extra =
     merge_headers extra
       ([(''Authorization'', ''Bearer '' @ py_str (tk_token t)), (''Content-Type'', ''application/json'')]
        @ (if streaming then [(''Accept'', ''text/event-stream'')] else []) @ EDITOR_HEADERS)"

definition backend_request :: "api_token \<Rightarrow> bool \<Rightarrow> string \<Rightarrow> jdict \<Rightarrow> (string \<times> string) list \<Rightarrow> http_req" where
  "backend_request t streaming path payload extra =
     http_send ''POST'' (py_str (tk_endpoint t) @ path) (backend_headers t streaming extra) payload"

definition backend_answer :: "http_resp \<Rightarrow> int \<times> json" where
  "backend_answer r =
     (hr_status r, case hr_json r of Some j \<Rightarrow> j | None \<Rightarrow> JObj [(''error'', JObj [(''message'', JStr (hr_text r))])])"

section \<open>Who a token was issued for\<close>

text \<open>\<^verbatim>\<open>issued oauth t\<close>: the exchange of \<^verbatim>\<open>oauth\<close> answered \<^verbatim>\<open>t\<close>.\<close>

inductive token_step :: "(string \<Rightarrow> api_token \<Rightarrow> bool) \<Rightarrow> copilot \<Rightarrow> copilot \<Rightarrow> bool" for issued where
  Get: "cp_lock s = None \<Longrightarrow> token_step issued s (snd (get_locked now s))"
| Got: "cp_lock s = Some (Exchanging oauth) \<Longrightarrow> (\<And>t. r = Inr t \<Longrightarrow> issued oauth t)
    \<Longrightarrow> token_step issued s (snd (get_answered r s))"
| Install: "cp_lock s = None \<Longrightarrow> install_locked token s = Inr s' \<Longrightarrow> token_step issued s s'"
| Installed: "cp_lock s = Some (Installing token oauth api) \<Longrightarrow> (\<And>t. r = Inr t \<Longrightarrow> issued token t)
    \<Longrightarrow> token_step issued s (snd (install_answered r s))"

definition started_hub :: "hub_store \<Rightarrow> string \<Rightarrow> copilot" where
  "started_hub st env = \<lparr>cp_store = st, cp_env = env, cp_cache = None, cp_lock = None\<rparr>"

definition oauth_or :: "string option \<Rightarrow> string \<Rightarrow> string" where
  "oauth_or stored env = (if opt_or_empty stored \<noteq> [] then opt_or_empty stored else env)"

definition matched :: "(string \<Rightarrow> api_token \<Rightarrow> bool) \<Rightarrow> copilot \<Rightarrow> bool" where
  "matched issued s \<longleftrightarrow>
     (\<forall>t. cp_cache s = Some t \<longrightarrow> issued (resolve_oauth_token s) t) \<and>
     (case cp_lock s of
        None \<Rightarrow> True
      | Some (Exchanging oauth) \<Rightarrow> oauth = resolve_oauth_token s
      | Some (Installing token oauth api) \<Rightarrow>
          token = resolve_oauth_token s \<and> (\<forall>t. api = Some t \<longrightarrow> issued (oauth_or oauth (cp_env s)) t))"

lemma stored_token [simp]:
  "get_oauth_token (set_oauth_token t st) = Some t" "get_oauth_token (clear_oauth_token st) = None"
  "get_oauth_token (put_back p st) = p"
proof -
  have "dict_get (filter (\<lambda>(k, v). k \<noteq> x) d) x = None" for x and d :: "(string, string) dict"
    by (induction d) auto
  then show clear: "get_oauth_token (clear_oauth_token st) = None"
    by (simp add: get_oauth_token_def clear_oauth_token_def)
  show set: "get_oauth_token (set_oauth_token t st) = Some t" for t
    by (simp add: get_oauth_token_def set_oauth_token_def dict_get_set)
  show "get_oauth_token (put_back p st) = p"
    by (cases p) (simp_all add: put_back_def clear set)
qed

lemma resolve_oauth_or: "resolve_oauth_token s = oauth_or (get_oauth_token (cp_store s)) (cp_env s)"
  by (simp add: resolve_oauth_token_def oauth_or_def Let_def)

lemma matched_step: "token_step issued s s' \<Longrightarrow> matched issued s \<Longrightarrow> matched issued s'"
proof (induction rule: token_step.induct)
  case (Get s now)
  then show ?case
    by (auto simp: matched_def get_locked_def resolve_oauth_or Let_def split: option.splits)
next
  case (Got s oauth r)
  then show ?case
    by (cases r) (auto simp: matched_def get_answered_def resolve_oauth_or)
next
  case (Install s token s')
  then show ?case
    by (auto simp: matched_def install_locked_def resolve_oauth_or oauth_or_def opt_or_empty_def [of "Some _"] Let_def split: if_splits)
next
  case (Installed s token oauth api r)
  then show ?case
    by (cases r) (auto simp: matched_def install_answered_def resolve_oauth_or)
qed

text \<open>C30: the API token a hub answers requests with was issued for the account it is logged in to: however
  requests, refreshes and installations of a new login interleave, and whichever exchanges fail, the
  token in memory belongs to the login in force.\<close>

theorem served_token_belongs_to_the_login:
  assumes "(token_step issued)\<^sup>*\<^sup>* (started_hub st env) s" and "fresh_token now s = Some t"
  shows "issued (resolve_oauth_token s) t"
proof -
  have "matched issued s"
    using assms(1)
  proof (induction rule: rtranclp_induct)
    case base
    then show ?case
      by (simp add: matched_def started_hub_def)
  qed (use matched_step in blast)
  then show ?thesis
    using assms(2) by (auto simp: matched_def fresh_token_def split: option.splits if_splits)
qed

definition same_store :: "hub_store \<Rightarrow> hub_store \<Rightarrow> bool" where
  "same_store st st' \<longleftrightarrow> get_setting st = get_setting st' \<and> hs_keys st = hs_keys st'"

text \<open>C31: installing a login is all or nothing: a token the backend refuses leaves the stored login, every
  other setting, the API keys and the token in memory as they were, and a token it accepts takes the
  place of both.\<close>

theorem install_is_all_or_nothing:
  "case install_locked token s of
     Inl e \<Rightarrow> strip token = []
   | Inr s1 \<Rightarrow>
       (case install_answered (Inl e) s1 of (r, s2) \<Rightarrow>
          r = Inl e \<and> same_store (cp_store s2) (cp_store s) \<and> cp_cache s2 = cp_cache s \<and> cp_lock s2 = None) \<and>
       (case install_answered (Inr t) s1 of (r, s2) \<Rightarrow>
          r = Inr (tk_expires t) \<and> resolve_oauth_token s2 = strip token \<and> cp_cache s2 = Some t \<and> cp_lock s2 = None)"
proof -
  have get_filter: "dict_get (filter (\<lambda>(k, v). k \<noteq> x) d) k = (if k = x then None else dict_get d k)"
    for x k and d :: "(string, string) dict"
    by (induction d) auto
  have "same_store (put_back (get_oauth_token st) (set_oauth_token x st)) st" for x st
    by (cases "get_oauth_token st")
      (auto simp: same_store_def get_setting_def fun_eq_iff put_back_def set_oauth_token_def clear_oauth_token_def
        get_oauth_token_def get_filter dict_get_set)
  then show ?thesis
    by (auto simp: install_locked_def install_answered_def resolve_oauth_or oauth_or_def opt_or_empty_def Let_def)
qed

text \<open>A run: the first request exchanges the token of the environment, then a new login is installed.\<close>

definition token_for :: "string \<Rightarrow> api_token" where
  "token_for oauth = \<lparr>tk_token = JStr (''api-'' @ oauth), tk_endpoint = JStr COPILOT_API_BASE, tk_expires = FFin 2000\<rparr>"

definition refreshed_hub :: copilot where
  "refreshed_hub = (started_hub empty_store ''gho_a'')\<lparr>cp_cache := Some (token_for ''gho_a'')\<rparr>"

definition relogged_hub :: copilot where
  "relogged_hub = (started_hub (set_oauth_token ''gho_b'' empty_store) ''gho_a'')\<lparr>cp_cache := Some (token_for ''gho_b'')\<rparr>"

lemma relogged_run: "(token_step (\<lambda>oauth t. t = token_for oauth))\<^sup>*\<^sup>* (started_hub empty_store ''gho_a'') relogged_hub"
proof -
  let ?step = "token_step (\<lambda>oauth t. t = token_for oauth)"
  let ?s0 = "started_hub empty_store ''gho_a''"
  let ?s1 = "?s0\<lparr>cp_lock := Some (Exchanging ''gho_a'')\<rparr>"
  let ?s2 = "refreshed_hub\<lparr>cp_store := set_oauth_token ''gho_b'' empty_store, cp_cache := None,
    cp_lock := Some (Installing ''gho_b'' None (Some (token_for ''gho_a'')))\<rparr>"
  have "?step ?s0 (snd (get_locked (FFin 0) ?s0))"
    by (rule Get) (simp add: started_hub_def)
  moreover have "snd (get_locked (FFin 0) ?s0) = ?s1"
    by (simp add: get_locked_def fresh_token_def started_hub_def resolve_oauth_or oauth_or_def empty_store_def get_oauth_token_def
        opt_or_empty_def Let_def)
  ultimately have 1: "?step ?s0 ?s1"
    by simp
  have "?step ?s1 (snd (get_answered (Inr (token_for ''gho_a'')) ?s1))"
    by (rule Got) (simp_all add: started_hub_def)
  then have 2: "?step ?s1 refreshed_hub"
    by (simp add: get_answered_def refreshed_hub_def started_hub_def)
  have "strip ''gho_b'' = ''gho_b''"
    by code_simp
  then have "install_locked ''gho_b'' refreshed_hub = Inr ?s2"
    by (simp add: install_locked_def refreshed_hub_def started_hub_def get_oauth_token_def empty_store_def Let_def)
  then have 3: "?step refreshed_hub ?s2"
    by (intro Install) (simp_all add: refreshed_hub_def started_hub_def)
  have "?step ?s2 (snd (install_answered (Inr (token_for ''gho_b'')) ?s2))"
    by (rule Installed) simp_all
  then have 4: "?step ?s2 relogged_hub"
    by (simp add: install_answered_def relogged_hub_def refreshed_hub_def started_hub_def)
  show ?thesis
    using 1 2 3 4 by (meson r_into_rtranclp rtranclp_trans)
qed

theorem served_token_belongs_to_the_login_witness:
  "token_for ''gho_b'' = token_for (resolve_oauth_token relogged_hub)"
proof (rule served_token_belongs_to_the_login [OF relogged_run, of "FFin 0"])
  show "fresh_token (FFin 0) relogged_hub = Some (token_for ''gho_b'')"
    by (simp add: fresh_token_def relogged_hub_def token_for_def fsub_def) code_simp
qed

text \<open>A login through the device flow takes no lock.  When it lands while a request waits for the
  exchange of the old token, the API token of the old account is kept and served after it.\<close>

lemma login_race_keeps_the_old_account:
  assumes "cp_lock s = None" and "fresh_token now s = None" and "resolve_oauth_token s = old" and "old \<noteq> []"
    and "flt now (fsub (tk_expires t) (FFin 300))" and "new \<noteq> []"
  shows "case get_answered (Inr t) (log_in new (snd (get_locked now s))) of (r, s') \<Rightarrow>
    cp_lock (snd (get_locked now s)) = Some (Exchanging old) \<and> resolve_oauth_token s' = new \<and> fresh_token now s' = Some t"
  using assms by (simp add: get_locked_def get_answered_def log_in_def fresh_token_def resolve_oauth_or oauth_or_def opt_or_empty_def)

end
