(* ===== verification/HubAdapter.thy ===== *)
theory HubAdapter
  imports HubUsage
begin

text \<open>
  How a hub fits a request to its backend (\<^verbatim>\<open>vendored/gitmodel-hub/hub/anthropic_adapter.py\<close> and the
  header handling of \<^verbatim>\<open>server.py\<close>): model names, fields the backend refuses, beta headers, images,
  and the estimate of a prompt.  The converters between the two protocols, which no route calls any
  more, are not modelled.
\<close>

section \<open>Model names\<close>

definition MODEL_ALIASES :: "(string, string) dict" where
  "MODEL_ALIASES =
     [(''claude-3-5-sonnet-20240620'', ''claude-3.5-sonnet''),
      (''claude-3-5-sonnet-20241022'', ''claude-3.5-sonnet''),
      (''claude-3-5-sonnet-latest'', ''claude-3.5-sonnet''),
      (''claude-3-7-sonnet-20250219'', ''claude-3.7-sonnet''),
      (''claude-3-7-sonnet-latest'', ''claude-3.7-sonnet''),
      (''claude-sonnet-4-20250514'', ''claude-sonnet-4''),
      (''claude-sonnet-4-5'', ''claude-sonnet-4.5''),
      (''claude-sonnet-4-5-20250929'', ''claude-sonnet-4.5''),
      (''claude-sonnet-4-6'', ''claude-sonnet-4.6''),
      (''claude-opus-4-20250514'', ''claude-opus-4''),
      (''claude-opus-4-1-20250805'', ''claude-opus-4.1''),
      (''claude-opus-4-7'', ''claude-opus-4.7''),
      (''claude-3-5-haiku-20241022'', ''claude-3.5-haiku''),
      (''claude-3-5-haiku-latest'', ''claude-3.5-haiku'')]"

text \<open>\<^verbatim>\<open>name.rsplit(sep, 1)[0]\<close> when \<^verbatim>\<open>sep in name\<close>: what is before the last occurrence.\<close>

fun rsplit_head :: "string \<Rightarrow> string \<Rightarrow> string option" where
  "rsplit_head sep [] = (if sep = [] then Some [] else None)"
| "rsplit_head sep (c # s) =
     (case rsplit_head sep s of
        Some b \<Rightarrow> Some (c # b)
      | None \<Rightarrow> if starts_with (c # s) sep then Some [] else None)"

definition map_name :: "string \<Rightarrow> string" where
  "map_name s =
     (case dict_get MODEL_ALIASES s of
        Some m \<Rightarrow> m
      | None \<Rightarrow>
          (case rsplit_head ''-20'' s of
             Some base \<Rightarrow> (case dict_get MODEL_ALIASES base of Some m \<Rightarrow> m | None \<Rightarrow> s)
           | None \<Rightarrow> s))"

definition map_model :: "json \<Rightarrow> exn + json" where
  "map_model name =
     (if \<not> truthy name then Inr name
      else case name of
        JStr s \<Rightarrow> Inr (JStr (map_name s))
      | JList xs \<Rightarrow> Inl (TypeError ''unhashable type: list'')
      | JObj d \<Rightarrow> Inl (TypeError ''unhashable type: dict'')
      | _ \<Rightarrow> Inl (TypeError ''argument is not iterable''))"

section \<open>Fields and betas\<close>

definition UNSUPPORTED_UPSTREAM_FIELDS :: "string list" where
  "UNSUPPORTED_UPSTREAM_FIELDS = [''fallbacks'', ''container'', ''mcp_servers'']"

definition BETA_GATED_FIELDS :: "(string, string) dict" where
  "BETA_GATED_FIELDS = [(''context_management'', ''context-management-2025-06-27'')]"

definition FORWARDABLE_BETAS :: "string list" where
  "FORWARDABLE_BETAS =
     [''claude-code-20250219'', ''context-1m-2025-08-07'', ''context-management-2025-06-27'', ''effort-2025-11-24'',
      ''fallback-credit-2026-06-01'', ''interleaved-thinking-2025-05-14'', ''mid-conversation-system-2026-04-07'',
      ''prompt-caching-scope-2026-01-05'', ''thinking-token-count-2026-05-13'']"

definition betas :: "string option \<Rightarrow> string list" where
  "betas header = filter (\<lambda>p. p \<noteq> []) (map strip (split_all CHR '','' (opt_or_empty header)))"

definition forwardable_betas :: "string option \<Rightarrow> string list" where
  "forwardable_betas header = remdups (filter (\<lambda>b. b \<in> set FORWARDABLE_BETAS) (betas header))"

definition stripped_fields :: "jdict \<Rightarrow> string option \<Rightarrow> string list" where
  "stripped_fields payload beta_header =
     filter (\<lambda>f. dict_get payload f \<noteq> None) UNSUPPORTED_UPSTREAM_FIELDS @
     map fst (filter (\<lambda>(f, b). dict_get payload f \<noteq> None \<and> b \<notin> set (betas beta_header)) BETA_GATED_FIELDS)"

definition strip_unsupported :: "jdict \<Rightarrow> string option \<Rightarrow> jdict \<times> string list" where
  "strip_unsupported payload beta_header =
     (let dropped = stripped_fields payload beta_header in
      if dropped = [] then (payload, []) else (filter (\<lambda>(k, v). k \<notin> set dropped) payload, dropped))"

text \<open>The headers sent upstream.\<close>

definition upstream_contract_headers :: "string \<Rightarrow> (string \<Rightarrow> string option) \<Rightarrow> (string \<times> string) list" where
  "upstream_contract_headers default_version h =
     (let version = opt_or_empty (h ''anthropic-version'');
          forwardable = forwardable_betas (h ''anthropic-beta'') in
      (''anthropic-version'', if version \<noteq> [] then version else default_version) #
      (if forwardable \<noteq> [] then [(''anthropic-beta'', join '','' (sort forwardable))] else []))"

section \<open>Images\<close>

lemma size_dict_get: "dict_get d k = Some v \<Longrightarrow> size v \<le> size_list (size_prod (\<lambda>_. 0) size) d"
  by (induction d) (auto split: if_splits)

text \<open>A block is an image, or the answer of a tool that holds one.\<close>

function image_block :: "json \<Rightarrow> bool" where
  "image_block part =
     (case part of
        JObj d \<Rightarrow>
          jget d ''type'' = JStr ''image'' \<or>
          jget d ''type'' = JStr ''tool_result'' \<and>
            (case dict_get d ''content'' of Some (JList xs) \<Rightarrow> list_ex image_block xs | _ \<Rightarrow> False)
      | _ \<Rightarrow> False)"
  by pat_completeness auto
termination
proof (relation "measure size")
  fix part d v xs x
  assume "part = JObj d" "dict_get d ''content'' = Some v" "v = JList xs" "x \<in> set xs"
  moreover have "x \<in> set xs \<Longrightarrow> size x \<le> size_list size xs"
    by (rule size_list_estimation' [of x]) simp_all
  ultimately show "(x, part) \<in> measure size"
    using size_dict_get [of d "''content''" v] by simp
qed simp

declare image_block.simps [simp del]

definition scan_blocks :: "json \<Rightarrow> bool" where
  "scan_blocks blocks = (case blocks of JList xs \<Rightarrow> list_ex image_block xs | _ \<Rightarrow> False)"

definition anthropic_has_image :: "jdict \<Rightarrow> exn + bool" where
  "anthropic_has_image req =
     bind_sum (j_iter (py_or (jget req ''messages'') (JList []))) (\<lambda>msgs.
     Inr (list_ex (\<lambda>msg. case msg of JObj m \<Rightarrow> scan_blocks (jget m ''content'') | _ \<Rightarrow> False) msgs
       \<or> scan_blocks (jget req ''system'')))"

definition image_url_part :: "json \<Rightarrow> bool" where
  "image_url_part part = (case part of JObj d \<Rightarrow> jget d ''type'' = JStr ''image_url'' | _ \<Rightarrow> False)"

fun any_image_url :: "json list \<Rightarrow> exn + bool" where
  "any_image_url [] = Inr False"
| "any_image_url (msg # msgs) =
     bind_sum (j_get msg ''content'' JNull) (\<lambda>content.
     case content of
       JList parts \<Rightarrow> if list_ex image_url_part parts then Inr True else any_image_url msgs
     | _ \<Rightarrow> any_image_url msgs)"

definition has_image_content :: "json \<Rightarrow> exn + bool" where
  "has_image_content payload =
     bind_sum (j_get payload ''messages'' JNull) (\<lambda>msgs.
     bind_sum (j_iter (py_or msgs (JList []))) any_image_url)"

section \<open>The estimate of a prompt\<close>

definition py_length :: "json \<Rightarrow> exn + nat" where
  "py_length v =
     (case v of
        JStr s \<Rightarrow> Inr (length (code_points s))
      | JList xs \<Rightarrow> Inr (length xs)
      | JObj d \<Rightarrow> Inr (length d)
      | _ \<Rightarrow> Inl (TypeError ''object has no len()''))"

definition estimate_tokens :: "json \<Rightarrow> exn + nat" where
  "estimate_tokens text =
     (if \<not> truthy text then Inr 0 else bind_sum (py_length text) (\<lambda>n. Inr (max 1 (n div 4))))"

fun sum_each :: "('a \<Rightarrow> exn + nat) \<Rightarrow> 'a list \<Rightarrow> exn + nat" where
  "sum_each f [] = Inr 0"
| "sum_each f (x # xs) = bind_sum (f x) (\<lambda>n. bind_sum (sum_each f xs) (\<lambda>m. Inr (n + m)))"

definition estimate_part :: "json \<Rightarrow> exn + nat" where
  "estimate_part part =
     (case part of
        JObj d \<Rightarrow>
          if jget d ''type'' = JStr ''text'' then estimate_tokens (jget_or d ''text'' (JStr []))
          else if jget d ''type'' = JStr ''image_url'' then Inr 600 else Inr 0
      | _ \<Rightarrow> Inr 0)"

definition estimate_tool_call :: "json \<Rightarrow> exn + nat" where
  "estimate_tool_call tc =
     bind_sum (j_get tc ''function'' (JObj [])) (\<lambda>f.
     let fn = py_or f (JObj []) in
     bind_sum (j_get fn ''name'' (JStr [])) (\<lambda>name.
     bind_sum (estimate_tokens name) (\<lambda>n.
     bind_sum (j_get fn ''arguments'' (JStr [])) (\<lambda>args.
     bind_sum (estimate_tokens (py_or args (JStr []))) (\<lambda>m. Inr (n + m))))))"

definition estimate_message :: "json \<Rightarrow> exn + nat" where
  "estimate_message msg =
     bind_sum (j_get msg ''content'' JNull) (\<lambda>content.
     bind_sum (case content of
         JStr s \<Rightarrow> estimate_tokens content
       | JList parts \<Rightarrow> sum_each estimate_part parts
       | _ \<Rightarrow> Inr 0) (\<lambda>n.
     bind_sum (j_get msg ''tool_calls'' JNull) (\<lambda>tcs.
     bind_sum (j_iter (py_or tcs (JList []))) (\<lambda>calls.
     bind_sum (sum_each estimate_tool_call calls) (\<lambda>m. Inr (n + m))))))"

definition estimate_tool :: "json \<Rightarrow> exn + nat" where
  "estimate_tool tool =
     bind_sum (j_get tool ''function'' (JObj [])) (\<lambda>f.
     let fn = py_or f (JObj []) in
     bind_sum (j_get fn ''name'' (JStr [])) (\<lambda>name.
     bind_sum (estimate_tokens name) (\<lambda>n.
     bind_sum (j_get fn ''description'' (JStr [])) (\<lambda>description.
     bind_sum (estimate_tokens description) (\<lambda>m.
     bind_sum (j_get fn ''parameters'' (JObj [])) (\<lambda>ps.
     bind_sum (estimate_tokens (JStr (dumps_spaced ps))) (\<lambda>p. Inr (n + m + p))))))))"

definition estimate_prompt_tokens :: "json \<Rightarrow> exn + nat" where
  "estimate_prompt_tokens payload =
     bind_sum (j_get payload ''messages'' JNull) (\<lambda>msgs.
     bind_sum (j_iter (py_or msgs (JList []))) (\<lambda>ms.
     bind_sum (sum_each estimate_message ms) (\<lambda>n.
     bind_sum (j_get payload ''tools'' JNull) (\<lambda>tools.
     bind_sum (j_iter (py_or tools (JList []))) (\<lambda>ts.
     bind_sum (sum_each estimate_tool ts) (\<lambda>m. Inr (n + m)))))))"

section \<open>What is sent is what the backend takes\<close>

lemma strip_no_comma: "CHR '','' \<notin> set s \<Longrightarrow> CHR '','' \<notin> set (strip s)"
  by (auto simp: strip_def dest!: set_dropWhileD)

lemma betas_join:
  assumes "\<forall>x \<in> set xs. x \<noteq> [] \<and> CHR '','' \<notin> set x \<and> strip x = x"
  shows "betas (Some (join '','' xs)) = xs"
proof -
  have "filter (\<lambda>p. p \<noteq> []) (map strip (split_all CHR '','' (join '','' xs))) = xs"
    using assms
  proof (induction "'',''" xs rule: join.induct)
    case 1
    then show ?case
      by (simp add: split_all_last strip_def)
  next
    case (2 x)
    then show ?case
      by (simp add: split_all_last)
  next
    case (3 x y xs)
    then show ?case
      by (simp add: split_all_append)
  qed
  then show ?thesis
    by (simp add: betas_def opt_or_empty_def)
qed

lemma forwardable_shape: "x \<in> set FORWARDABLE_BETAS \<Longrightarrow> x \<noteq> [] \<and> CHR '','' \<notin> set x \<and> strip x = x"
proof -
  have "list_all (\<lambda>x. x \<noteq> [] \<and> CHR '','' \<notin> set x \<and> strip x = x) FORWARDABLE_BETAS"
    by code_simp
  then show "x \<in> set FORWARDABLE_BETAS \<Longrightarrow> x \<noteq> [] \<and> CHR '','' \<notin> set x \<and> strip x = x"
    by (simp add: list_all_iff)
qed

lemma dict_get_strip:
  "dict_get (fst (strip_unsupported payload bh)) f = (if f \<in> set (stripped_fields payload bh) then None else dict_get payload f)"
proof -
  have "dict_get (filter (\<lambda>(k, v). k \<notin> A) d) f = (if f \<in> A then None else dict_get d f)" for A d
    by (induction d) auto
  from this [of "set (stripped_fields payload bh)" payload] show ?thesis
    by (auto simp: strip_unsupported_def Let_def)
qed

definition sent_beta :: "(string \<times> string) list \<Rightarrow> string option" where
  "sent_beta headers = map_of headers ''anthropic-beta''"

lemma sent_betas: "set (betas (sent_beta (upstream_contract_headers v h))) = set (forwardable_betas (h ''anthropic-beta''))"
proof (cases "forwardable_betas (h ''anthropic-beta'') = []")
  case True
  then show ?thesis
    by (simp add: sent_beta_def upstream_contract_headers_def betas_def opt_or_empty_def split_all_last strip_def Let_def)
next
  case False
  have "betas (Some (join '','' (sort (forwardable_betas (h ''anthropic-beta''))))) = sort (forwardable_betas (h ''anthropic-beta''))"
    by (rule betas_join) (auto simp: forwardable_betas_def dest: forwardable_shape)
  then show ?thesis
    using False by (simp add: sent_beta_def upstream_contract_headers_def Let_def)
qed

text \<open>C34: what the hub sends on is what the backend takes.  No field it refuses outright is left in a request;
  a field it takes only with its beta is left only when that beta is in the header sent along; every beta
  in that header is one it knows; and every other field is as the client sent it.\<close>

theorem forwarded_request_is_acceptable:
  "(\<forall>f. dict_get (fst (strip_unsupported payload (h ''anthropic-beta''))) f =
       (if f \<in> set UNSUPPORTED_UPSTREAM_FIELDS then None
        else case dict_get BETA_GATED_FIELDS f of
          None \<Rightarrow> dict_get payload f
        | Some b \<Rightarrow> if b \<in> set (betas (sent_beta (upstream_contract_headers v h))) then dict_get payload f else None)) \<and>
     set (betas (sent_beta (upstream_contract_headers v h))) \<subseteq> set FORWARDABLE_BETAS"
proof -
  have gated: "''context-management-2025-06-27'' \<in> set (forwardable_betas bh) \<longleftrightarrow> ''context-management-2025-06-27'' \<in> set (betas bh)" for bh
    by (simp add: forwardable_betas_def FORWARDABLE_BETAS_def)
  have "set (forwardable_betas bh) \<subseteq> set FORWARDABLE_BETAS" for bh
    by (auto simp: forwardable_betas_def)
  moreover have "f \<in> set (stripped_fields payload bh) \<longleftrightarrow> dict_get payload f \<noteq> None \<and>
      (f \<in> set UNSUPPORTED_UPSTREAM_FIELDS \<or> f = ''context_management'' \<and> ''context-management-2025-06-27'' \<notin> set (betas bh))" for f bh
    by (auto simp: stripped_fields_def BETA_GATED_FIELDS_def)
  ultimately show ?thesis
    unfolding dict_get_strip sent_betas
    by (auto simp: gated BETA_GATED_FIELDS_def UNSUPPORTED_UPSTREAM_FIELDS_def)
qed

end
