(* ===== verification/HubServer.thy ===== *)
theory HubServer
  imports HubAuth HubAdapter Timestamps
begin

text \<open>
  The routes of a hub (\<^verbatim>\<open>vendored/gitmodel-hub/hub/server.py\<close>): from the request to the call upstream
  and from its answer to what is returned and what is recorded.  A buffered call is a function of what
  the backend answers; a stream is the request that opens it, and the record that its \<^verbatim>\<open>finally\<close> block
  makes of how it ended.  The archive of bodies (\<^verbatim>\<open>hub/audit.py\<close>) is here too.
\<close>

section \<open>The archive\<close>

definition safe_char :: "nat \<Rightarrow> bool" where
  "safe_char p \<longleftrightarrow> 48 \<le> p \<and> p \<le> 57 \<or> 65 \<le> p \<and> p \<le> 90 \<or> 97 \<le> p \<and> p \<le> 122 \<or> p = 95 \<or> p = 45"

text \<open>\<^verbatim>\<open>_UNSAFE.sub("_", s)\<close>: every character outside the set becomes an underscore.\<close>

definition sanitize :: "string \<Rightarrow> string" where
  "sanitize s = map (\<lambda>p. if safe_char p then char_of p else CHR ''_'') (code_points s)"

definition path_segment :: "string option \<Rightarrow> string" where
  "path_segment v =
     (let s = (if opt_true v then opt_or_empty v else ''unknown'');
          t = strip s in
      sanitize (if t \<noteq> [] then t else ''unknown''))"

definition blob_path :: "utc \<Rightarrow> string option \<Rightarrow> string \<Rightarrow> string" where
  "blob_path ts subscription request_id =
     (let c = civil_of ts in
      pad_str 4 (year c) @ ''/'' @ pad_str 2 (month c) @ ''/'' @ pad_str 2 (day c) @ ''/'' @
      path_segment subscription @ ''/'' @ path_segment (Some request_id) @ ''.json.gz'')"

definition MAX_INFLIGHT :: nat where
  "MAX_INFLIGHT = 64"

record archive =
  ar_inflight :: "(string \<times> string) list"
  ar_dropped :: int

text \<open>\<^verbatim>\<open>submit\<close>: what \<^verbatim>\<open>build_payload\<close> made, or raised, is the argument.\<close>

definition submit :: "bool \<Rightarrow> utc \<Rightarrow> string option \<Rightarrow> string \<Rightarrow> exn + string \<Rightarrow> archive \<Rightarrow> string option \<times> archive" where
  "submit enabled ts subscription request_id payload a =
     (if \<not> enabled then (None, a)
      else if MAX_INFLIGHT \<le> length (ar_inflight a) then (None, a\<lparr>ar_dropped := ar_dropped a + 1\<rparr>)
      else
        let path = blob_path ts subscription request_id in
        case payload of
          Inl e \<Rightarrow> (None, a\<lparr>ar_dropped := ar_dropped a + 1\<rparr>)
        | Inr blob \<Rightarrow> (Some path, a\<lparr>ar_inflight := ar_inflight a @ [(path, blob)]\<rparr>))"

text \<open>\<^verbatim>\<open>_upload\<close> and its callback: the task leaves the set, and a failure is counted.\<close>

definition uploaded :: "nat \<Rightarrow> bool \<Rightarrow> archive \<Rightarrow> archive" where
  "uploaded i ok a =
     a\<lparr>ar_inflight := take i (ar_inflight a) @ drop (Suc i) (ar_inflight a),
       ar_dropped := (if ok then ar_dropped a else ar_dropped a + 1)\<rparr>"

definition archive_call :: "bool \<Rightarrow> utc \<Rightarrow> caller \<Rightarrow> exn + string \<Rightarrow> archive \<Rightarrow> string option \<times> archive" where
  "archive_call enabled ts t payload a =
     (if \<not> cl_audit t then (None, a) else submit enabled ts (cl_subscription t) (cl_request_id t) payload a)"

definition clip :: "json \<Rightarrow> nat \<Rightarrow> string" where
  "clip value limit =
     (let text = (case value of JStr s \<Rightarrow> s | _ \<Rightarrow> dumps_spaced value);
          n = length (code_points text) in
      if n \<le> limit then text
      else py_take limit text @ [CHR 0xE2, CHR 0x80, CHR 0xA6] @ ''[truncated '' @ int_str (int (n - limit)) @ '' chars]'')"

text \<open>The image bytes of an answer are archived as their size.\<close>

definition strip_item :: "json \<Rightarrow> json" where
  "strip_item item =
     (case item of
        JObj d \<Rightarrow>
          (case dict_get d ''b64_json'' of
             Some (JStr b) \<Rightarrow>
               JObj (filter (\<lambda>(k, v). k \<noteq> ''b64_json'') d @
                 [(''b64_json'', JStr (''[omitted '' @ int_str (int (length (code_points b))) @ '' b64 chars]''))])
           | _ \<Rightarrow> item)
      | _ \<Rightarrow> item)"

definition strip_image_bytes :: "json \<Rightarrow> json" where
  "strip_image_bytes data =
     (case data of
        JObj d \<Rightarrow> (case dict_get d ''data'' of Some (JList items) \<Rightarrow> JObj (dict_set d ''data'' (JList (map strip_item items))) | _ \<Rightarrow> data)
      | _ \<Rightarrow> data)"

section \<open>A call upstream\<close>

record hub_api =
  ap_guard :: guard_cfg
  ap_store :: hub_store
  ap_env_token :: string
  ap_version :: string
  ap_sha256 :: "string \<Rightarrow> string"
  ap_fresh_id :: string
  ap_post :: "string \<Rightarrow> jdict \<Rightarrow> (string \<times> string) list \<Rightarrow> cp_error + (int \<times> json)"

datatype reply =
    Buffered int json
  | StreamOf string jdict "(string \<times> string) list"

definition logged_in :: "hub_api \<Rightarrow> bool" where
  "logged_in a = is_authenticated (started_hub (ap_store a) (ap_env_token a))"

definition vision_headers :: "bool \<Rightarrow> (string \<times> string) list" where
  "vision_headers pic = (if pic then [(''Copilot-Vision-Request'', ''true'')] else [])"

definition not_logged_in :: exn where
  "not_logged_in = HTTPException 503 ''Hub not logged in to Copilot''"

definition upstream_error :: "cp_error \<Rightarrow> exn" where
  "upstream_error e =
     (case e of
        NotAuthenticated \<Rightarrow> HTTPException 503 ''No Copilot OAuth token configured. Log in via the web portal first.''
      | Raised_in x \<Rightarrow> x)"

definition post_upstream :: "hub_api \<Rightarrow> string \<Rightarrow> jdict \<Rightarrow> (string \<times> string) list \<Rightarrow> exn + (int \<times> json)" where
  "post_upstream a path body hs = (case ap_post a path body hs of Inl e \<Rightarrow> Inl (upstream_error e) | Inr r \<Rightarrow> Inr r)"

definition object_body :: "json \<Rightarrow> exn + jdict" where
  "object_body body = (case body of JObj b \<Rightarrow> Inr b | _ \<Rightarrow> Inl attribute_error)"

definition endpoint_name :: "string \<Rightarrow> string" where
  "endpoint_name path = replace_all ''/'' ''.'' (rstrip CHR ''/'' (dropWhile (\<lambda>c. c = CHR ''/'') path))"

definition ask_for_usage :: "bool \<Rightarrow> jdict \<Rightarrow> jdict" where
  "ask_for_usage responses_shape b =
     (if responses_shape then b
      else
        let b1 = (if dict_get b ''stream_options'' = None then dict_set b ''stream_options'' (JObj []) else b) in
        case dict_get b1 ''stream_options'' of
          Some (JObj o') \<Rightarrow>
            if dict_get o' ''include_usage'' = None
            then dict_set b1 ''stream_options'' (JObj (dict_set o' ''include_usage'' (JBool True))) else b1
        | _ \<Rightarrow> b1)"

text \<open>\<^verbatim>\<open>_passthrough\<close>\<close>

definition passthrough :: "hub_api \<Rightarrow> string \<Rightarrow> bool \<Rightarrow> headers \<Rightarrow> json \<Rightarrow> exn + (reply \<times> call option)" where
  "passthrough a path responses_shape h body =
     bind_sum (check_client_auth (ap_guard a) (ap_store a) h) (\<lambda>_.
     bind_sum (object_body body) (\<lambda>b.
     let t = extract_tenant (ap_sha256 a) (ap_fresh_id a) h;
         eu = extract_end_user body;
         model = jget b ''model'';
         endpoint = endpoint_name path in
     if \<not> logged_in a then Inl not_logged_in
     else
       bind_sum (has_image_content body) (\<lambda>pic.
       if \<not> truthy (jget b ''stream'') then
         bind_sum (post_upstream a path b (vision_headers pic)) (\<lambda>(status, data).
         bind_sum (if status \<noteq> 200 then Inr (refused_call t eu model endpoint status)
                   else openai_call responses_shape t eu model endpoint data) (\<lambda>c.
         Inr (Buffered status data, Some c)))
       else
         let b' = ask_for_usage responses_shape b in
         bind_sum (estimate_prompt_tokens (JObj b')) (\<lambda>_. Inr (StreamOf path b' (vision_headers pic), None)))))"

text \<open>\<^verbatim>\<open>/v1/messages\<close>\<close>

definition messages_headers :: "hub_api \<Rightarrow> headers \<Rightarrow> bool \<Rightarrow> (string \<times> string) list" where
  "messages_headers a h pic = upstream_contract_headers (ap_version a) h @ vision_headers pic"

definition v1_messages :: "hub_api \<Rightarrow> headers \<Rightarrow> json \<Rightarrow> exn + (reply \<times> call option)" where
  "v1_messages a h body =
     bind_sum (check_client_auth (ap_guard a) (ap_store a) h) (\<lambda>_.
     bind_sum (object_body body) (\<lambda>given.
     let b = fst (strip_unsupported given (h ''anthropic-beta''));
         t = extract_tenant (ap_sha256 a) (ap_fresh_id a) h;
         eu = extract_end_user (JObj b);
         model = jget b ''model'' in
     if \<not> logged_in a then Inl not_logged_in
     else
       bind_sum (anthropic_has_image b) (\<lambda>pic.
       let hs = messages_headers a h pic in
       if \<not> truthy (jget b ''stream'') then
         bind_sum (post_upstream a ''/v1/messages'' (filter (\<lambda>(k, v). k \<noteq> ''stream'') b) hs) (\<lambda>(status, data).
         bind_sum (if status \<noteq> 200 then Inr (refused_call t eu model ''messages'' status)
                   else anthropic_call t eu model data) (\<lambda>c.
         Inr (Buffered status data, Some c)))
       else Inr (StreamOf ''/v1/messages'' b hs, None))))"

text \<open>\<^verbatim>\<open>/v1/messages/count_tokens\<close>: nothing is recorded.\<close>

definition count_tokens :: "hub_api \<Rightarrow> headers \<Rightarrow> json \<Rightarrow> exn + (reply \<times> call option)" where
  "count_tokens a h body =
     bind_sum (check_client_auth (ap_guard a) (ap_store a) h) (\<lambda>_.
     if \<not> logged_in a then Inl not_logged_in
     else
       bind_sum (object_body body) (\<lambda>given.
       bind_sum (map_model (jget given ''model'')) (\<lambda>mapped.
       let named = (if mapped \<noteq> jget given ''model'' then dict_set given ''model'' mapped else given);
           b = fst (strip_unsupported named (h ''anthropic-beta'')) in
       case ap_post a ''/v1/messages/count_tokens'' b (upstream_contract_headers (ap_version a) h) of
         Inl NotAuthenticated \<Rightarrow> Inl (upstream_error NotAuthenticated)
       | Inl (Raised_in e) \<Rightarrow> Inl (if is_runtime_error e then HTTPException 502 (exn_str e) else e)
       | Inr (status, data) \<Rightarrow> Inr (Buffered status data, None))))"

section \<open>How a stream ends\<close>

text \<open>The backend ended it, refused it, or something else broke it off: the connection, the exchange of
  the token, the client.\<close>

datatype stream_end = Ended | Refused int string | Broken_off

definition recorded_status :: "stream_end \<Rightarrow> int" where
  "recorded_status e = (case e of Refused status _ \<Rightarrow> status | _ \<Rightarrow> 200)"

definition stream_tail :: "stream_end \<Rightarrow> string option" where
  "stream_tail e = (case e of Refused status body \<Rightarrow> Some (sse_error status body) | _ \<Rightarrow> None)"

section \<open>What is recorded\<close>

definition recorded :: "int \<Rightarrow> call \<Rightarrow> bool" where
  "recorded status c \<longleftrightarrow> ca_status c = status \<and> \<not> ca_streamed c \<and> \<not> ca_estimated c \<and>
     (if status = 200 then True
      else (ca_in c, ca_out c, ca_total c, ca_cached c) = (JInt 0, JInt 0, JInt 0, JInt 0) \<and> ca_copilot c = None)"

lemma openai_call_recorded: "openai_call rs t eu m ep d = Inr c \<Longrightarrow> recorded 200 c \<and> ca_tenant c = t"
  by (auto simp: openai_call_def recorded_def bind_sum_def split: sum.splits)

lemma anthropic_call_recorded: "anthropic_call t eu m d = Inr c \<Longrightarrow> recorded 200 c \<and> ca_tenant c = t"
  by (auto simp: anthropic_call_def recorded_def bind_sum_def Let_def split: sum.splits)

lemma refused_call_recorded: "status \<noteq> 200 \<Longrightarrow> recorded status (refused_call t eu m ep status)"
  by (simp add: recorded_def refused_call_def)

lemma refused_call_tenant: "ca_tenant (refused_call t eu m ep status) = t"
  by (simp add: refused_call_def)

definition accounted :: "caller \<Rightarrow> exn + (reply \<times> call option) \<Rightarrow> bool" where
  "accounted t r =
     (case r of
        Inl _ \<Rightarrow> True
      | Inr (Buffered status data, Some c) \<Rightarrow> recorded status c \<and> ca_tenant c = t
      | Inr (Buffered _ _, None) \<Rightarrow> False
      | Inr (StreamOf _ _ _, c) \<Rightarrow> c = None)"

lemma passthrough_accounted: "accounted (extract_tenant (ap_sha256 a) (ap_fresh_id a) h) (passthrough a path rs h body)"
  by (auto simp: accounted_def passthrough_def bind_sum_def Let_def refused_call_recorded refused_call_tenant
      dest: openai_call_recorded split: sum.splits if_splits)

lemma messages_accounted: "accounted (extract_tenant (ap_sha256 a) (ap_fresh_id a) h) (v1_messages a h body)"
  by (auto simp: accounted_def v1_messages_def bind_sum_def Let_def refused_call_recorded refused_call_tenant
      dest: anthropic_call_recorded split: sum.splits if_splits)

lemma unauthorized:
  assumes "check_client_auth (ap_guard a) (ap_store a) h = Inl e"
  shows "passthrough a path rs h body = Inl e" and "v1_messages a h body = Inl e" and "count_tokens a h body = Inl e"
  using assms by (simp_all add: passthrough_def v1_messages_def count_tokens_def)


text \<open>A stream that broke off before its first chunk, because the connection failed or the token could not be
  exchanged, is recorded as a call that succeeded.\<close>

lemma broken_stream_counts_as_a_success:
  "case openai_stream_call rs t eu m ep est [] (recorded_status Broken_off) of
     Inl _ \<Rightarrow> False
   | Inr c \<Rightarrow> ca_status c = 200 \<and> ca_total c = JInt 0 \<and> \<not> ca_estimated c"
  by (simp add: recorded_status_def openai_stream_call_def parse_sse_usage_def norm_usage_def no_usage4_def Let_def)

section \<open>Where a body is archived\<close>

definition tame :: "string \<Rightarrow> bool" where
  "tame s \<longleftrightarrow> s \<noteq> [] \<and> list_all (\<lambda>c. safe_char (byte c)) s"

definition tenant_prefix :: "utc \<Rightarrow> string \<Rightarrow> string" where
  "tenant_prefix ts t =
     (let c = civil_of ts in pad_str 4 (year c) @ ''/'' @ pad_str 2 (month c) @ ''/'' @ pad_str 2 (day c) @ ''/'' @ t @ ''/'')"

lemma code_points_tame: "list_all (\<lambda>c. safe_char (byte c)) s \<Longrightarrow> code_points s = map byte s"
  by (induction s) (auto simp: safe_char_def)

lemma sanitize_tame: "list_all (\<lambda>c. safe_char (byte c)) s \<Longrightarrow> sanitize s = s"
  by (induction s) (auto simp: sanitize_def code_points_tame char_of_byte safe_char_def)

lemma safe_not_space: "safe_char (byte c) \<Longrightarrow> \<not> str_space c"
  by (auto simp: safe_char_def str_space_def is_space_def)

lemma segment_tame: "tame s \<Longrightarrow> path_segment (Some s) = s"
proof -
  assume s: "tame s"
  then have "strip s = s"
    by (intro strip_fixed) (auto simp: tame_def list_all_iff safe_not_space)
  then show ?thesis
    using s by (simp add: path_segment_def tame_def sanitize_tame opt_true_def opt_or_empty_def Let_def)
qed

lemma sanitize_safe: "c \<in> set (sanitize s) \<Longrightarrow> safe_char (byte c)"
proof -
  have "safe_char p \<Longrightarrow> byte (char_of p) = p" for p
    by (rule byte_char_of) (auto simp: safe_char_def)
  moreover have "safe_char (byte CHR ''_'')"
    by (simp add: safe_char_def byte_def)
  ultimately show "c \<in> set (sanitize s) \<Longrightarrow> safe_char (byte c)"
    by (auto simp: sanitize_def)
qed

lemma segment_no_slash: "CHR ''/'' \<notin> set (path_segment v)"
proof -
  have "\<not> safe_char (byte CHR ''/'')"
    by (simp add: safe_char_def byte_def)
  then have "CHR ''/'' \<notin> set (sanitize s)" for s
    using sanitize_safe by blast
  then show ?thesis
    by (simp add: path_segment_def Let_def)
qed

lemma tame_no_slash: "tame s \<Longrightarrow> CHR ''/'' \<notin> set s"
  by (auto simp: tame_def list_all_iff safe_char_def byte_def)

lemma prefix_segment:
  "CHR ''/'' \<notin> set t \<Longrightarrow> CHR ''/'' \<notin> set s \<Longrightarrow> prefix (t @ ''/'') (s @ CHR ''/'' # r) \<longleftrightarrow> s = t"
proof (induction t arbitrary: s)
  case Nil
  then show ?case
    by (cases s) auto
next
  case (Cons c t)
  then show ?case
    by (cases s) auto
qed



end
