(* ===== verification/HubApi.thy ===== *)
theory HubApi
  imports HubServer HubStatus
begin

text \<open>
  The rest of a hub's routes (\<^verbatim>\<open>vendored/gitmodel-hub/hub/server.py\<close>): images
  (\<^verbatim>\<open>hub/image_client.py\<close>), the model listings, the management routes that the control plane calls
  with the administrator's token, and the status that anyone may ask for.

  A route runs to its end here; how the routes that touch the login interleave is in HubAuth.  The
  servers behind the requests, the clock and the random text are the record \<^verbatim>\<open>hub_env\<close>.
\<close>

section \<open>Images\<close>

definition image_headers :: "hub_store \<Rightarrow> (string \<times> string) list" where
  "image_headers st = [(''Authorization'', ''Bearer '' @ ic_api_key (get_image_config st))]"

definition with_model :: "hub_store \<Rightarrow> jdict \<Rightarrow> jdict" where
  "with_model st body = (if truthy (jget body ''model'') then body else dict_set body ''model'' (JStr (image_model st)))"

definition generate_request :: "hub_store \<Rightarrow> jdict \<Rightarrow> exn + http_req" where
  "generate_request st payload =
     (if \<not> image_configured st then Inl (RuntimeError ''Azure image backend not configured'')
      else Inr (http_send ''POST'' (fst (derive_urls (ic_endpoint (get_image_config st))))
        ((''Content-Type'', ''application/json'') # image_headers st) (with_model st payload)))"

text \<open>A form: text fields and files, in the order they were sent.\<close>

datatype form_value = FormText string | FormFile "string option" string "string option"

record upload =
  up_field :: string
  up_filename :: string
  up_content :: string
  up_type :: string

record edit_req =
  er_url :: string
  er_headers :: "(string \<times> string) list"
  er_form :: jdict
  er_files :: "upload list"

definition form_texts :: "(string \<times> form_value) list \<Rightarrow> jdict" where
  "form_texts items = fold (\<lambda>(k, v) d. case v of FormText s \<Rightarrow> dict_set d k (JStr s) | FormFile _ _ _ \<Rightarrow> d) items []"

definition form_files :: "(string \<times> form_value) list \<Rightarrow> upload list" where
  "form_files items =
     List.map_filter (\<lambda>(k, v).
       case v of
         FormText _ \<Rightarrow> None
       | FormFile name content typ \<Rightarrow>
           Some \<lparr>up_field = k, up_filename = (if opt_true name then opt_or_empty name else k), up_content = content,
             up_type = (if opt_true typ then opt_or_empty typ else ''application/octet-stream'')\<rparr>) items"

definition edit_request :: "hub_store \<Rightarrow> jdict \<Rightarrow> upload list \<Rightarrow> exn + edit_req" where
  "edit_request st form uploads =
     (if \<not> image_configured st then Inl (RuntimeError ''Azure image backend not configured'')
      else Inr \<lparr>er_url = snd (derive_urls (ic_endpoint (get_image_config st))), er_headers = image_headers st,
        er_form = with_model st (filter (\<lambda>(k, v). v \<noteq> JNull) form), er_files = uploads\<rparr>)"

definition image_call :: "caller \<Rightarrow> string option \<Rightarrow> json \<Rightarrow> string \<Rightarrow> json \<Rightarrow> int \<Rightarrow> exn + call" where
  "image_call t eu model endpoint data status =
     (let c = refused_call t eu model endpoint status in
      case data of
        JObj d \<Rightarrow>
          if status = 200 then
            bind_sum (norm_usage (jget d ''usage'') True) (\<lambda>u.
            Inr (c\<lparr>ca_served := jget d ''model'', ca_in := u_in u, ca_out := u_out u, ca_total := u_total u,
                   ca_cached := u_cached u, ca_usage := jget d ''usage''\<rparr>))
          else Inr c
      | _ \<Rightarrow> Inr c)"

definition images_unconfigured :: exn where
  "images_unconfigured = HTTPException 503 ''Image backend not configured''"

definition images_generations ::
  "hub_api \<Rightarrow> (http_req \<Rightarrow> exn + http_resp) \<Rightarrow> headers \<Rightarrow> json \<Rightarrow> exn + (reply \<times> call option)" where
  "images_generations a send h body =
     bind_sum (check_client_auth (ap_guard a) (ap_store a) h) (\<lambda>_.
     let t = extract_tenant (ap_sha256 a) (ap_fresh_id a) h in
     if \<not> image_configured (ap_store a) then Inl images_unconfigured
     else
       bind_sum (object_body body) (\<lambda>b.
       let model = py_or (jget b ''model'') (JStr (image_model (ap_store a))) in
       bind_sum (bind_sum (generate_request (ap_store a) b) send) (\<lambda>r.
       let (status, data) = backend_answer r in
       bind_sum (image_call t (extract_end_user body) model ''images.generations'' data status) (\<lambda>c.
       Inr (Buffered status data, Some c)))))"

definition images_edits ::
  "hub_api \<Rightarrow> (edit_req \<Rightarrow> exn + http_resp) \<Rightarrow> headers \<Rightarrow> (string \<times> form_value) list \<Rightarrow> exn + (reply \<times> call option)" where
  "images_edits a send h items =
     bind_sum (check_client_auth (ap_guard a) (ap_store a) h) (\<lambda>_.
     let t = extract_tenant (ap_sha256 a) (ap_fresh_id a) h in
     if \<not> image_configured (ap_store a) then Inl images_unconfigured
     else
       let form = form_texts items;
           model = py_or (jget form ''model'') (JStr (image_model (ap_store a))) in
       bind_sum (bind_sum (edit_request (ap_store a) form (form_files items)) send) (\<lambda>r.
       let (status, data) = backend_answer r in
       bind_sum (image_call t (extract_end_user (JObj form)) model ''images.edits'' data status) (\<lambda>c.
       Inr (Buffered status data, Some c))))"

text \<open>What is archived of an edit: the form, and the name and the size of each file.\<close>

definition edit_archive :: "(string \<times> form_value) list \<Rightarrow> jdict" where
  "edit_archive items =
     dict_set (form_texts items) ''_files''
       (JList (map (\<lambda>u. JObj [(''field'', JStr (up_field u)), (''filename'', JStr (up_filename u)),
          (''bytes'', JInt (int (length (up_content u))))]) (form_files items)))"

section \<open>The token in use, and the models it gives\<close>

record hub_env =
  he_guard :: guard_cfg
  he_now :: pyfloat
  he_http :: "http_req \<Rightarrow> exn + http_resp"
  he_random :: string

definition exchange :: "hub_env \<Rightarrow> string \<Rightarrow> exn + api_token" where
  "exchange e oauth = bind_sum (he_http e (exchange_request oauth)) exchange_answer"

definition get_api_token :: "hub_env \<Rightarrow> copilot \<Rightarrow> (cp_error + api_token) \<times> copilot" where
  "get_api_token e s =
     (case get_locked (he_now e) s of
        (Some r, s') \<Rightarrow> (r, s')
      | (None, s') \<Rightarrow> get_answered (exchange e (resolve_oauth_token s')) s')"

definition models_request :: "api_token \<Rightarrow> http_req" where
  "models_request t =
     http_get (py_str (tk_endpoint t) @ ''/models'') ((''Authorization'', ''Bearer '' @ py_str (tk_token t)) # EDITOR_HEADERS) []"

definition raise_status :: "http_resp \<Rightarrow> exn + unit" where
  "raise_status r = (if http_ok r then Inr () else Inl (HTTPStatusError (hr_status r) (hr_text r)))"

definition list_models :: "hub_env \<Rightarrow> copilot \<Rightarrow> (exn + json) \<times> copilot" where
  "list_models e s =
     (case get_api_token e s of
        (Inl x, s') \<Rightarrow> (Inl (upstream_error x), s')
      | (Inr t, s') \<Rightarrow>
          (bind_sum (he_http e (models_request t)) (\<lambda>r.
           bind_sum (raise_status r) (\<lambda>_.
           bind_sum (body_of r) (\<lambda>j. j_get j ''data'' (JList [])))), s'))"

fun each_of :: "(json \<Rightarrow> exn + json) \<Rightarrow> json list \<Rightarrow> exn + json list" where
  "each_of f [] = Inr []"
| "each_of f (x # xs) = bind_sum (f x) (\<lambda>y. bind_sum (each_of f xs) (\<lambda>ys. Inr (y # ys)))"

definition listed_model :: "json \<Rightarrow> exn + json" where
  "listed_model m =
     bind_sum (j_get m ''id'' JNull) (\<lambda>i.
     bind_sum (j_get m ''vendor'' (JStr ''github-copilot'')) (\<lambda>v.
     Inr (JObj [(''id'', i), (''object'', JStr ''model''), (''created'', JInt 0), (''owned_by'', v)])))"

definition openai_models_payload :: "json \<Rightarrow> exn + json list" where
  "openai_models_payload models = bind_sum (j_iter models) (each_of listed_model)"

definition v1_models :: "hub_env \<Rightarrow> headers \<Rightarrow> copilot \<Rightarrow> (exn + json) \<times> copilot" where
  "v1_models e h s =
     (case check_client_auth (he_guard e) (cp_store s) h of
        Inl x \<Rightarrow> (Inl x, s)
      | Inr _ \<Rightarrow>
          (case list_models e s of
             (r, s') \<Rightarrow>
               (bind_sum (bind_sum r openai_models_payload) (\<lambda>data.
                Inr (JObj [(''object'', JStr ''list''), (''data'', JList (data @
                  (if image_configured (cp_store s')
                   then [JObj [(''id'', JStr (image_model (cp_store s'))), (''object'', JStr ''model''), (''created'', JInt 0),
                     (''owned_by'', JStr ''azure-openai'')]] else [])))])), s')))"

definition chat_model :: "json \<Rightarrow> exn + json" where
  "chat_model m =
     bind_sum (j_get m ''id'' JNull) (\<lambda>i.
     bind_sum (j_get m ''vendor'' JNull) (\<lambda>v.
     bind_sum (j_get m ''capabilities'' JNull) (\<lambda>c.
     bind_sum (j_get (py_or c (JObj [])) ''type'' JNull) (\<lambda>t.
     Inr (JObj [(''id'', i), (''vendor'', v), (''type'', t)])))))"

definition api_models :: "hub_env \<Rightarrow> copilot \<Rightarrow> (exn + json) \<times> copilot" where
  "api_models e s =
     (case list_models e s of
        (r, s') \<Rightarrow>
          (bind_sum (bind_sum r (\<lambda>models. bind_sum (j_iter models) (each_of chat_model))) (\<lambda>data.
           Inr (JObj [(''data'', JList (data @
             (if image_configured (cp_store s')
              then [JObj [(''id'', JStr (image_model (cp_store s'))), (''vendor'', JStr ''azure-openai''), (''type'', JStr ''image'')]]
              else [])))])), s'))"

section \<open>Settings\<close>

definition settings_view :: "guard_cfg \<Rightarrow> hub_store \<Rightarrow> json" where
  "settings_view c st =
     JObj [(''require_auth'', JBool (get_require_auth st (gc_require_auth c))),
       (''image'', JObj [(''endpoint'', JStr (ic_endpoint (get_image_config st))), (''model'', JStr (image_model st)),
          (''configured'', JBool (image_configured st))])]"

text \<open>\<^verbatim>\<open>(v or "").strip()\<close> needs a text.\<close>

definition optional_text :: "json \<Rightarrow> exn + string option" where
  "optional_text v =
     (if \<not> truthy v then Inr None else case v of JStr s \<Rightarrow> Inr (Some s) | _ \<Rightarrow> Inl attribute_error)"

definition set_auth :: "json \<Rightarrow> hub_store \<Rightarrow> exn + hub_store" where
  "set_auth body st =
     bind_sum (j_contains ''require_auth'' body) (\<lambda>given.
     if \<not> given then Inr st
     else bind_sum (j_item body ''require_auth'') (\<lambda>v. Inr (set_require_auth (truthy v) st)))"

definition set_image :: "json \<Rightarrow> hub_store \<Rightarrow> exn + hub_store" where
  "set_image body st =
     bind_sum (j_contains ''image'' body) (\<lambda>given.
     if \<not> given then Inr st
     else
       bind_sum (j_item body ''image'') (\<lambda>img.
       case img of
         JObj i \<Rightarrow>
           bind_sum (optional_text (jget i ''api_key'')) (\<lambda>k.
           bind_sum (optional_text (jget i ''endpoint'')) (\<lambda>ep.
           bind_sum (optional_text (jget i ''model'')) (\<lambda>m.
           Inr (snd (set_image_config ep k m st)))))
       | _ \<Rightarrow> Inr st))"

text \<open>Each write commits on its own, so what came before a failure stays.\<close>

definition set_settings :: "guard_cfg \<Rightarrow> json \<Rightarrow> hub_store \<Rightarrow> (exn + json) \<times> hub_store" where
  "set_settings c body st =
     (case set_auth body st of
        Inl x \<Rightarrow> (Inl x, st)
      | Inr st1 \<Rightarrow>
          (case set_image body st1 of
             Inl x \<Rightarrow> (Inl x, st1)
           | Inr st2 \<Rightarrow> (Inr (settings_view c st2), st2)))"

section \<open>The login\<close>

definition device_flow_start :: "hub_env \<Rightarrow> exn + json" where
  "device_flow_start e =
     bind_sum (he_http e (http_form ''https://github.com/login/device/code'' [(''Accept'', ''application/json'')]
       [(''client_id'', JStr ''Iv1.b507a08c87ecfe98''), (''scope'', JStr ''read:user'')])) (\<lambda>r.
     bind_sum (raise_status r) (\<lambda>_.
     bind_sum (body_of r) (\<lambda>info.
     bind_sum (j_item info ''device_code'') (\<lambda>d.
     bind_sum (j_item info ''user_code'') (\<lambda>u.
     bind_sum (j_item info ''verification_uri'') (\<lambda>v.
     bind_sum (j_get info ''interval'' (JInt 5)) (\<lambda>i.
     bind_sum (j_get info ''expires_in'' (JInt 900)) (\<lambda>x.
     Inr (JObj [(''device_code'', d), (''user_code'', u), (''verification_uri'', v), (''interval'', i), (''expires_in'', x)])))))))))"

definition device_json :: "device_answer \<Rightarrow> json" where
  "device_json d =
     (case d of
        DeviceSuccess \<Rightarrow> JObj [(''status'', JStr ''success'')]
      | DevicePending err \<Rightarrow> JObj [(''status'', JStr ''pending''), (''error'', err)]
      | DeviceError err detail \<Rightarrow> JObj [(''status'', JStr ''error''), (''error'', err), (''detail'', detail)])"

definition device_poll_request :: "json \<Rightarrow> http_req" where
  "device_poll_request code =
     http_form ''https://github.com/login/oauth/access_token'' [(''Accept'', ''application/json'')]
       [(''client_id'', JStr ''Iv1.b507a08c87ecfe98''), (''device_code'', code),
        (''grant_type'', JStr ''urn:ietf:params:oauth:grant-type:device_code'')]"

definition api_device_poll :: "hub_env \<Rightarrow> json \<Rightarrow> copilot \<Rightarrow> (exn + json) \<times> copilot" where
  "api_device_poll e body s =
     (case j_get body ''device_code'' JNull of
        Inl x \<Rightarrow> (Inl x, s)
      | Inr code \<Rightarrow>
          if \<not> truthy code then (Inl (HTTPException 400 ''device_code required''), s)
          else
            (case bind_sum (he_http e (device_poll_request code)) body_of of
               Inl x \<Rightarrow> (Inl x, s)
             | Inr data \<Rightarrow>
                 (case device_flow_poll data s of
                    (Inl x, s') \<Rightarrow> (Inl x, s')
                  | (Inr d, s') \<Rightarrow> (Inr (device_json d), s'))))"

definition is_value_error :: "exn \<Rightarrow> bool" where
  "is_value_error x = (case x of ValueError _ \<Rightarrow> True | _ \<Rightarrow> False)"

definition install_error :: "exn \<Rightarrow> exn" where
  "install_error x =
     (if is_httpx_error x then HTTPException 502 (''could not reach GitHub: '' @ exn_str x)
      else if is_runtime_error x \<or> is_value_error x then HTTPException 400 (exn_str x) else x)"

definition install_oauth_token :: "hub_env \<Rightarrow> string \<Rightarrow> copilot \<Rightarrow> (exn + pyfloat) \<times> copilot" where
  "install_oauth_token e token s =
     (case install_locked token s of
        Inl x \<Rightarrow> (Inl x, s)
      | Inr s1 \<Rightarrow> install_answered (exchange e (resolve_oauth_token s1)) s1)"

definition api_install_token :: "hub_env \<Rightarrow> json \<Rightarrow> copilot \<Rightarrow> (exn + json) \<times> copilot" where
  "api_install_token e body s =
     (case j_get (py_or body (JObj [])) ''access_token'' JNull of
        Inl x \<Rightarrow> (Inl x, s)
      | Inr token \<Rightarrow>
          if \<not> truthy token then (Inl (HTTPException 400 ''access_token required''), s)
          else
            (case token of
               JStr t \<Rightarrow>
                 (case install_oauth_token e t s of
                    (Inl x, s') \<Rightarrow> (Inl (install_error x), s')
                  | (Inr expires, s') \<Rightarrow> (Inr (JObj [(''ok'', JBool True), (''api_token_expires_at'', JFloat expires)]), s'))
             | _ \<Rightarrow> (Inl attribute_error, s)))"

section \<open>API keys\<close>

text \<open>\<^verbatim>\<open>ORDER BY created_at DESC\<close>\<close>

fun insert_newest :: "api_key_row \<Rightarrow> api_key_row list \<Rightarrow> api_key_row list" where
  "insert_newest r [] = [r]"
| "insert_newest r (x # xs) = (if flt (ak_created_at x) (ak_created_at r) then r # x # xs else x # insert_newest r xs)"

definition list_api_keys :: "hub_store \<Rightarrow> json list" where
  "list_api_keys st =
     map (\<lambda>r. JObj [(''key'', JStr (ak_key r)), (''name'', JStr (ak_name r)), (''created_at'', JFloat (ak_created_at r)),
         (''revoked'', JInt (if ak_revoked r then 1 else 0))])
       (fold insert_newest (hs_keys st) [])"

definition api_keys_create :: "hub_env \<Rightarrow> json \<Rightarrow> hub_store \<Rightarrow> (exn + json) \<times> hub_store" where
  "api_keys_create e body st =
     (case bind_sum (j_get body ''name'' JNull) (\<lambda>n. optional_text (py_or n (JStr ''unnamed''))) of
        Inl x \<Rightarrow> (Inl x, st)
      | Inr name \<Rightarrow>
          (case create_api_key (he_random e) (he_now e) (strip (opt_or_empty name)) st of
             Inl x \<Rightarrow> (Inl x, st)
           | Inr (r, st') \<Rightarrow>
               (Inr (JObj [(''key'', JStr (ak_key r)), (''name'', JStr (ak_name r)), (''created_at'', JFloat (ak_created_at r)),
                  (''revoked'', JBool False)]), st')))"

section \<open>The management routes\<close>

datatype admin_call =
    GetSettings
  | SetSettings json
  | DeviceStart
  | DevicePoll json
  | CopilotLogout
  | InstallToken json
  | ListModels
  | ListKeys
  | CreateKey json
  | RevokeKey string

definition on_store :: "(hub_store \<Rightarrow> 'a \<times> hub_store) \<Rightarrow> copilot \<Rightarrow> 'a \<times> copilot" where
  "on_store f s = (case f (cp_store s) of (r, st) \<Rightarrow> (r, s\<lparr>cp_store := st\<rparr>))"

fun serve_admin :: "hub_env \<Rightarrow> admin_call \<Rightarrow> copilot \<Rightarrow> (exn + json) \<times> copilot" where
  "serve_admin e GetSettings s = (Inr (settings_view (he_guard e) (cp_store s)), s)"
| "serve_admin e (SetSettings body) s = on_store (set_settings (he_guard e) body) s"
| "serve_admin e DeviceStart s = (device_flow_start e, s)"
| "serve_admin e (DevicePoll body) s = api_device_poll e body s"
| "serve_admin e CopilotLogout s = (Inr (JObj [(''ok'', JBool True)]), logout s)"
| "serve_admin e (InstallToken body) s = api_install_token e body s"
| "serve_admin e ListModels s = api_models e s"
| "serve_admin e ListKeys s = (Inr (JObj [(''data'', JList (list_api_keys (cp_store s)))]), s)"
| "serve_admin e (CreateKey body) s = on_store (api_keys_create e body) s"
| "serve_admin e (RevokeKey k) s = on_store (\<lambda>st. (Inr (JObj [(''ok'', JBool True)]), revoke_api_key k st)) s"

record hub =
  hu_copilot :: copilot
  hu_sessions :: sessions

definition manage :: "hub_env \<Rightarrow> string option \<Rightarrow> admin_call \<Rightarrow> hub \<Rightarrow> (exn + json) \<times> hub" where
  "manage e token c h =
     (case check_admin (he_guard e) (he_now e) token (hu_sessions h) of
        (Inl x, ss) \<Rightarrow> (Inl x, h\<lparr>hu_sessions := ss\<rparr>)
      | (Inr _, ss) \<Rightarrow>
          (case serve_admin e c (hu_copilot h) of (r, s) \<Rightarrow> (r, \<lparr>hu_copilot = s, hu_sessions = ss\<rparr>)))"

fun manage_all :: "(hub_env \<times> string option \<times> admin_call) list \<Rightarrow> hub \<Rightarrow> (exn + json) list \<times> hub" where
  "manage_all [] h = ([], h)"
| "manage_all ((e, token, c) # cs) h =
     (case manage e token c h of (r, h1) \<Rightarrow> case manage_all cs h1 of (rs, h2) \<Rightarrow> (r # rs, h2))"

definition booted :: "copilot \<Rightarrow> hub" where
  "booted s = \<lparr>hu_copilot = s, hu_sessions = []\<rparr>"

definition operator_token :: "hub_env \<Rightarrow> string option \<Rightarrow> bool" where
  "operator_token e token \<longleftrightarrow> gc_admin_token (he_guard e) \<noteq> [] \<and> opt_or_empty token = gc_admin_token (he_guard e)"

definition from_operator :: "hub_env \<times> string option \<times> admin_call \<Rightarrow> bool" where
  "from_operator q = (case q of (e, token, _) \<Rightarrow> operator_token e token)"

lemma manage_booted:
  "manage e token c (booted s) =
     (if operator_token e token then (case serve_admin e c s of (r, s') \<Rightarrow> (r, booted s'))
      else (Inl (HTTPException 401 ''Admin login required''), booted s))"
  by (auto simp: manage_def booted_def check_admin_def valid_session_def operator_token_def split: option.splits prod.splits)

lemma from_operator_simp [simp]: "from_operator (e, token, c) = operator_token e token"
  by (simp add: from_operator_def)

text \<open>C32: the management routes serve the operator and nobody else.  Whatever requests reach a hub, those
  without the administrator's token are answered 401, and the hub and every answer to the operator are
  as if they had never been sent.\<close>

theorem management_is_for_the_operator:
  "(case manage_all calls (booted s) of (answers, h) \<Rightarrow>
      (map snd (filter (\<lambda>p. from_operator (fst p)) (zip calls answers)), h)) =
     manage_all (filter from_operator calls) (booted s) \<and>
   map snd (filter (\<lambda>p. \<not> from_operator (fst p)) (zip calls (fst (manage_all calls (booted s))))) =
     replicate (length (filter (\<lambda>q. \<not> from_operator q) calls)) (Inl (HTTPException 401 ''Admin login required''))"
proof (induction calls arbitrary: s)
  case (Cons q calls)
  obtain e token c where q: "q = (e, token, c)"
    by (cases q)
  show ?case
  proof (cases "operator_token e token")
    case True
    obtain r s' where serve: "serve_admin e c s = (r, s')"
      by fastforce
    obtain rs h where rest: "manage_all calls (booted s') = (rs, h)"
      by fastforce
    have kept: "manage_all (filter from_operator calls) (booted s')
        = (map snd (filter (\<lambda>p. from_operator (fst p)) (zip calls rs)), h)"
      using Cons.IH [of s'] unfolding rest by simp
    show ?thesis
      using Cons.IH [of s'] unfolding rest by (simp add: q True serve manage_booted rest kept)
  next
    case False
    obtain rs h where rest: "manage_all calls (booted s) = (rs, h)"
      by fastforce
    show ?thesis
      using Cons.IH [of s] unfolding rest by (simp add: q False manage_booted rest)
  qed
qed simp

text \<open>The settings say that there is a key for the image backend, and not which.\<close>

lemma settings_hide_the_key:
  assumes "get_setting st ''require_auth'' = get_setting st' ''require_auth''"
    and "ic_endpoint (get_image_config st) = ic_endpoint (get_image_config st')"
    and "ic_model (get_image_config st) = ic_model (get_image_config st')"
    and "ic_api_key (get_image_config st) = [] \<longleftrightarrow> ic_api_key (get_image_config st') = []"
  shows "settings_view c st = settings_view c st'"
  using assms by (simp add: settings_view_def get_require_auth_def image_model_def image_configured_def)

section \<open>What is recorded of an image\<close>

lemma image_call_recorded: "image_call t eu m ep d status = Inr c \<Longrightarrow> recorded status c \<and> ca_tenant c = t"
  by (cases "status = 200")
    (auto simp: image_call_def recorded_def refused_call_def bind_sum_def Let_def split: sum.splits json.splits)

lemma image_answers_are_recorded:
  "accounted (extract_tenant (ap_sha256 a) (ap_fresh_id a) h) (images_generations a send h body) \<and>
   accounted (extract_tenant (ap_sha256 a) (ap_fresh_id a) h) (images_edits a send' h items)"
  by (auto simp: accounted_def images_generations_def images_edits_def bind_sum_def Let_def dest: image_call_recorded
      split: sum.splits if_splits prod.splits)

section \<open>The status\<close>

definition reason_json :: "drop_reason \<Rightarrow> json" where
  "reason_json r =
     JObj [(''at'', JStr (dr_at r)), (''kind'', JStr (dr_kind r)), (''count'', JInt (dr_count r)),
       (''error'', opt_str_json (dr_error r))]"

definition stats_json :: "hub_stats \<Rightarrow> json" where
  "stats_json x =
     JObj [(''state'', JStr (st_state x)), (''dropped'', JInt (st_dropped x)), (''lost'', JInt (st_lost x)),
       (''retried'', JInt (st_retried x)), (''recovered'', JInt (st_recovered x)),
       (''by_reason'', JObj (map (\<lambda>(k, n). (k, JInt n)) (st_by_reason x))), (''retry_queue'', JInt (st_retry_queue x)),
       (''retry_capacity'', JInt (st_retry_capacity x)),
       (''buffered'', case st_buffered x of None \<Rightarrow> JNull | Some n \<Rightarrow> JInt n),
       (''recent'', JList (map reason_json (st_recent x)))]"

definition api_status :: "guard_cfg \<Rightarrow> hub_cfg \<Rightarrow> int option \<Rightarrow> copilot \<Rightarrow> 'w hub_events \<Rightarrow> archive \<Rightarrow> json" where
  "api_status c ev buffered s m a =
     JObj [(''logged_in'', JBool (is_authenticated s)),
       (''require_auth'', JBool (get_require_auth (cp_store s) (gc_require_auth c))),
       (''usage_events_dropped'', JInt (dropped_count m)), (''usage_events_lost'', JInt (lost_count m)),
       (''audit_payloads_dropped'', JInt (ar_dropped a)), (''usage_events'', stats_json (stats ev buffered m))]"

text \<open>The last drop, as the control plane shows it.\<close>

definition drop_shown :: "drop_reason \<Rightarrow> string option" where
  "drop_shown r =
     (let text = py_take 200 (strip (join '' '' (filter (\<lambda>b. b \<noteq> []) [dr_kind r, opt_or_empty (dr_error r)]))) in
      if text = [] then None else Some text)"

definition seen_as :: "copilot \<Rightarrow> 'w hub_events \<Rightarrow> archive \<Rightarrow> hub_status" where
  "seen_as s m a =
     \<lparr>hs_logged_in = is_authenticated s, hs_dropped = dropped_count m, hs_lost = lost_count m,
      hs_audit_dropped = ar_dropped a, hs_state = hub_state_name m,
      hs_reason = (if eh_reasons m = [] then None else drop_shown (last (eh_reasons m)))\<rparr>"

lemma reason_of_stats: "reason_of [(''state'', u1), (''dropped'', u2), (''lost'', u3), (''retried'', u4), (''recovered'', u5),
    (''by_reason'', u6), (''retry_queue'', u7), (''retry_capacity'', u8), (''buffered'', u9), (''recent'', JList (map reason_json rs))]
  = (if rs = [] then None else drop_shown (last rs))"
proof -
  have "py_str (py_or (opt_str_json x) (JStr [])) = opt_or_empty x" for x
    by (cases x) (auto simp: opt_str_json_def py_or_def opt_or_empty_def)
  moreover have "py_str (py_or (JStr x) (JStr [])) = x" for x
    by (simp add: py_or_def)
  ultimately show ?thesis
    by (simp add: reason_of_def last_map drop_shown_def reason_json_def Let_def)
qed

text \<open>C25: the control plane sees a hub as it is.  The status a hub answers, written as JSON and read again by
  the health pass, gives the login, the counters, the state and the last drop that the hub holds, as
  long as its texts are ASCII and no counter has more than 4300 digits.\<close>

theorem portal_sees_the_hub_as_it_is:
  assumes "plain_json (api_status c ev buffered s m a)"
  shows "case loads (dumps (api_status c ev buffered s m a)) of
      None \<Rightarrow> False
    | Some payload \<Rightarrow> from_payload payload = seen_as s m a"
proof -
  have "py_str (py_or (JStr (hub_state_name m)) (JStr ''ok'')) = hub_state_name m"
    by (simp add: hub_state_name_def py_or_def)
  then have "from_payload (api_status c ev buffered s m a) = seen_as s m a"
    by (simp add: from_payload_def api_status_def stats_json_def stats_def reason_of_stats count_of_def seen_as_def Let_def)
  then show ?thesis
    by (simp add: loads_dumps [OF assms])
qed

definition sample_hub :: copilot where
  "sample_hub = started_hub empty_store ''gho_a''"

definition sample_guard :: guard_cfg where
  "sample_guard = \<lparr>gc_require_auth = True, gc_admin_token = ''adm'', gc_hub_api_key = ''sk-1'', gc_max_fails = 5, gc_lock_seconds = 900\<rparr>"

definition sample_events :: hub_cfg where
  "sample_events = \<lparr>hc_hub_id = ''gha_1'', hc_eventhub_fqdn = ''f'', hc_eventhub_name = ''n'', hc_retry_max_queue = 1000,
     hc_retry_max_attempts = 6, hc_retry_base_seconds = FFin 2\<rparr>"

definition sample_module :: "unit hub_events" where
  "sample_module = \<lparr>eh_producer = False, eh_disabled = False, eh_init_failed = True, eh_init_error = ''ClientAuthenticationError'',
     eh_last_init_try = FFin 0, eh_failed_send = 0, eh_failed_enqueue = 0, eh_failed_init = 3, eh_failed_retry = 0,
     eh_failed_serialize = 0, eh_retried = 0, eh_recovered = 0, eh_lost = 3, eh_last_log = [],
     eh_reasons = [\<lparr>dr_at = ''2026-08-01T00:00:00Z'', dr_kind = ''init'', dr_count = 3, dr_error = Some ''ClientAuthenticationError''\<rparr>],
     eh_retry_q = [], eh_drainer = None, eh_wake = False, eh_world = ()\<rparr>"

theorem portal_sees_the_hub_as_it_is_witness:
  "case loads (dumps (api_status sample_guard sample_events None sample_hub sample_module \<lparr>ar_inflight = [], ar_dropped = 2\<rparr>)) of
      None \<Rightarrow> False
    | Some payload \<Rightarrow> from_payload payload = seen_as sample_hub sample_module \<lparr>ar_inflight = [], ar_dropped = 2\<rparr>"
  by (rule portal_sees_the_hub_as_it_is) code_simp

end
