(* ===== verification/UsageFlow.thy ===== *)
theory UsageFlow
  imports HubRecords CaptureLife
begin

text \<open>
  The two ends of the billing pipeline put together: the record a hub makes of a call
  (\<^verbatim>\<open>server.py\<close>, \<^verbatim>\<open>eventhub.py\<close>), as the control plane reads it back from the capture and stores it
  (\<^verbatim>\<open>usage_capture_import.py\<close>).
\<close>

section \<open>From the hub to the capture\<close>

definition plain_record :: "jdict \<Rightarrow> usage_rec" where
  "plain_record d = map (\<lambda>(k, v). (k, Plain v)) d"

definition event_of :: "hub_cfg \<Rightarrow> jdict \<Rightarrow> jdict" where
  "event_of cfg r = (''hub_id'', if hc_hub_id cfg = [] then JNull else JStr (hc_hub_id cfg)) # r"

lemma encode_plain: "encode_record (plain_record d) = Inr (dumps_spaced (JObj d))"
proof -
  have "encode_fields (plain_record d) = Inr (map (\<lambda>(k, v). json_str k @ '': '' @ dumps_spaced v) d)"
    by (induction d) (auto simp: plain_record_def)
  then show ?thesis
    by (simp add: encode_record_def dumps_spaced_def)
qed

lemma envelope_plain:
  assumes "distinct (map fst r)" and "''hub_id'' \<notin> fst ` set r"
  shows "envelope cfg (plain_record r) = plain_record (event_of cfg r)"
proof -
  let ?hub = "(''hub_id'', Plain (if hc_hub_id cfg = [] then JNull else JStr (hc_hub_id cfg)))"
  have keys: "map fst (plain_record r) = map fst r"
    by (simp add: plain_record_def comp_def case_prod_beta)
  have "foldl (\<lambda>d (k, v). dict_set d k v) acc ps = fold (\<lambda>(k, v) d. dict_set d k v) ps acc" for acc and ps :: usage_rec
    by (induction ps arbitrary: acc) auto
  then have "envelope cfg (plain_record r) = ?hub # plain_record r"
    using assms fold_dict_set [of "[?hub]" "plain_record r"] by (simp add: envelope_def keys)
  then show ?thesis
    by (simp add: event_of_def plain_record_def)
qed

lemma record_keys:
  "distinct (map fst (usage_record c ts blob))" "''hub_id'' \<notin> fst ` set (usage_record c ts blob)"
  by (simp_all add: usage_record_def)

section \<open>From the capture to the document\<close>

lemma utf8_valid_ascii: "ascii s \<Longrightarrow> utf8_valid s"
  by (induction s) (simp_all add: ascii_def)

lemma dumps_spaced_ascii: "plain_json j \<Longrightarrow> ascii (dumps_spaced j)"
  using dumps_sep_one_line [of "'' ''" j] by (auto simp: dumps_spaced_def one_line_def ascii_def list_all_iff)

lemma event_read_back:
  assumes "plain_map (event_of cfg r)"
  shows "decode_body (BodyBytes (dumps_spaced (JObj (event_of cfg r)))) = Inr (Some (event_of cfg r))"
  using assms dumps_spaced_ascii [of "JObj (event_of cfg r)"]
  by (simp add: decode_body_def utf8_valid_ascii loads_dumps_spaced)

lemma replace_Z_id: "CHR ''Z'' \<notin> set s \<Longrightarrow> replace_Z s = s"
  by (induction s) auto

lemma pad_str_no_Z: "CHR ''Z'' \<notin> set (pad_str n i)"
  by (induction n i rule: pad_str.induct) (auto dest: sym simp: digit_char_neqs(5))

lemma parse_ts_iso: "0 \<le> t \<Longrightarrow> t < MAX_UTC \<Longrightarrow> parse_ts (JStr (iso_utc t)) now = Inr t"
proof -
  assume t: "0 \<le> t" "t < MAX_UTC"
  have "CHR ''Z'' \<notin> set (iso_utc t)"
    by (simp add: iso_utc_def hour_str_def date_str_def pad_str_no_Z Let_def)
  then show ?thesis
    using fromisoformat_iso_utc [OF t]
    by (simp add: parse_ts_def replace_Z_id astimezone_utc_0 [OF t])
qed

definition int_or_none :: "json \<Rightarrow> int" where
  "int_or_none v = (case v of JInt n \<Rightarrow> n | _ \<Rightarrow> 0)"

lemma to_int_plain: "plain_json v \<Longrightarrow> to_int v = Inr (int_or_none v)"
  by (cases v) (simp_all add: to_int_def int_or_none_def)

text \<open>The document of a call: what it must hold.\<close>

definition billed_for :: "hub_cfg \<Rightarrow> call \<Rightarrow> string \<Rightarrow> utc \<Rightarrow> token_counts \<Rightarrow> cost_breakdown option \<Rightarrow> jdict \<Rightarrow> bool" where
  "billed_for cfg c tenant t tokens cost d \<longleftrightarrow>
     jget d ''id'' = JStr (cl_request_id (ca_tenant c)) \<and>
     jget d ''pk'' = JStr (tenant @ ''_'' @ fmt_Ym t) \<and>
     jget d ''subscription'' = JStr tenant \<and> jget d ''ts'' = JStr (iso_utc t) \<and>
     jget d ''hub_id'' = (if hc_hub_id cfg = [] then JNull else JStr (hc_hub_id cfg)) \<and>
     jget d ''status'' = JInt (ca_status c) \<and> jget d ''copilot_usage'' = opt_obj (ca_copilot c) \<and>
     jget d ''cost_usd'' = JFloat (case cost of Some x \<Rightarrow> cost_usd x | None \<Rightarrow> FFin 0) \<and>
     jget d ''billed_usd'' = JFloat (case cost of Some x \<Rightarrow> billed_usd x | None \<Rightarrow> FFin 0) \<and>
     jget d ''prompt_tok'' = JInt (if any_tokens tokens then prompt_tok tokens else int_or_none (ca_in c)) \<and>
     jget d ''completion_tok'' = JInt (if any_tokens tokens then completion_tok tokens else int_or_none (ca_out c)) \<and>
     jget d ''total_tok'' = JInt (int_or_none (ca_total c))"

text \<open>C2: what a hub records of a call is what the control plane bills.  A record of plain vals, encoded for
  Event Hub under the hub's name, is read back from the capture as it was and becomes one document, under
  the tenant and in the month of the call, with the hub, the status, the bill of the backend at the
  markup of the route, and the counts of the bill, or those of the answer when the bill has none.\<close>

theorem recorded_call_is_billed:
  assumes "0 \<le> t" and "t < MAX_UTC" and "plain_map (usage_record c (iso_utc t) blob)" and "ascii (hc_hub_id cfg)"
    and "cl_request_id (ca_tenant c) \<noteq> []" and "cl_subscription (ca_tenant c) = Some tenant" and "tenant \<noteq> []"
    and "ca_model c = JStr model" and "model \<noteq> []"
    and "tokens_from_copilot_usage (opt_obj (ca_copilot c)) = Inr tokens"
    and "cost_from_copilot_usage (opt_obj (ca_copilot c)) (case dict_get markups model of None \<Rightarrow> FFin 0 | Some m \<Rightarrow> m) = Inr cost"
  shows "case encode_record (envelope cfg (plain_record (usage_record c (iso_utc t) blob))) of
      Inl _ \<Rightarrow> False
    | Inr body \<Rightarrow>
        (case decode_body (BodyBytes body) of
           Inr (Some event) \<Rightarrow>
             (case event_to_document event markups now of
                Inr (Some d) \<Rightarrow> billed_for cfg c tenant t tokens cost d
              | _ \<Rightarrow> False)
         | _ \<Rightarrow> False)"
proof -
  let ?r = "usage_record c (iso_utc t) blob"
  let ?e = "event_of cfg ?r"
  have "ascii ''hub_id''"
    by (simp add: ascii_def byte_def)
  then have plain: "plain_map ?e"
    using assms(3,4) record_keys(2) [of c "iso_utc t" blob] by (simp add: event_of_def plain_cons)
  have vals: "plain_json (ca_in c)" "plain_json (ca_out c)" "plain_json (ca_total c)" "plain_json (ca_cached c)"
    using assms(3) by (simp_all add: plain_map_def usage_record_def)
  have fields: "jget ?e ''request_id'' = JStr (cl_request_id (ca_tenant c))" "jget ?e ''ts'' = JStr (iso_utc t)"
    "jget ?e ''subscription'' = JStr tenant" "jget ?e ''model'' = JStr model" "jget ?e ''status'' = JInt (ca_status c)"
    "jget ?e ''copilot_usage'' = opt_obj (ca_copilot c)" "jget ?e ''total_tokens'' = ca_total c"
    "jget ?e ''input_tokens'' = ca_in c" "jget ?e ''output_tokens'' = ca_out c" "jget ?e ''cached_tokens'' = ca_cached c"
    "jget ?e ''hub_id'' = (if hc_hub_id cfg = [] then JNull else JStr (hc_hub_id cfg))"
    using assms(6,8) by (simp_all add: event_of_def usage_record_def opt_str_json_def)
  have tokens: "event_tokens ?e = Inr (if any_tokens tokens then tokens
      else \<lparr>prompt_tok = int_or_none (ca_in c), completion_tok = int_or_none (ca_out c), cached_tok = int_or_none (ca_cached c), cache_write_tok = 0\<rparr>)"
    using vals by (simp add: event_tokens_def fields assms(10) to_int_plain)
  have "\<exists>d. event_to_document ?e markups now = Inr (Some d) \<and> billed_for cfg c tenant t tokens cost d"
    using assms vals
    by (simp add: event_to_document_def billed_for_def fields tokens parse_ts_iso py_or_def markup_of_def to_int_plain to_int_def [of "JInt _"]
        Let_def)
  moreover have "encode_record (envelope cfg (plain_record ?r)) = Inr (dumps_spaced (JObj ?e))"
    by (simp only: envelope_plain [OF record_keys] encode_plain)
  ultimately show ?thesis
    using event_read_back [OF plain] by auto
qed

definition sample_call :: call where
  "sample_call = (refused_call \<lparr>cl_subscription = Some ''sub-1'', cl_api_id = None, cl_request_id = ''r1'', cl_key_fp = None,
       cl_via_apim = True, cl_audit = False\<rparr> None (JStr ''gpt-4o'') ''messages'' 200)
     \<lparr>ca_in := JInt 9, ca_out := JInt 5, ca_total := JInt 14, ca_copilot := Some [(''total_nano_aiu'', JInt 250000)]\<rparr>"

definition sample_cfg :: hub_cfg where
  "sample_cfg = \<lparr>hc_hub_id = ''gha_1'', hc_eventhub_fqdn = ''f'', hc_eventhub_name = ''n'', hc_retry_max_queue = 1000,
     hc_retry_max_attempts = 6, hc_retry_base_seconds = FFin 2\<rparr>"

lemma sample_plain: "plain_map (usage_record sample_call (iso_utc 63922003200000000) None)"
proof -
  have "int_fits 200" "int_fits 9" "int_fits 5" "int_fits 14" "int_fits 0" "int_fits 250000"
    "ascii (iso_utc 63922003200000000)"
    by code_simp+
  then show ?thesis
    by (simp add: plain_map_def dict_ok_def usage_record_def sample_call_def refused_call_def opt_str_json_def opt_obj_def
        ascii_def byte_def)
qed

theorem recorded_call_is_billed_witness:
  "case encode_record (envelope sample_cfg (plain_record (usage_record sample_call (iso_utc 63922003200000000) None))) of
      Inl _ \<Rightarrow> False
    | Inr body \<Rightarrow>
        (case decode_body (BodyBytes body) of
           Inr (Some event) \<Rightarrow>
             (case event_to_document event [(''gpt-4o'', FFin (1/4))] 0 of
                Inr (Some d) \<Rightarrow> billed_for sample_cfg sample_call ''sub-1'' 63922003200000000 zero_tokens
                  (Some (round_pair (to_float (of_int 250000 / 10 ^ 11)) (FFin (1/4)) 11)) d
              | _ \<Rightarrow> False)
         | _ \<Rightarrow> False)"
proof (rule recorded_call_is_billed [OF _ _ sample_plain])
  show "cost_from_copilot_usage (opt_obj (ca_copilot sample_call))
      (case dict_get [(''gpt-4o'', FFin (1/4))] ''gpt-4o'' of None \<Rightarrow> FFin 0 | Some m \<Rightarrow> m)
    = Inr (Some (round_pair (to_float (of_int 250000 / 10 ^ 11)) (FFin (1/4)) 11))"
    by (simp add: sample_call_def opt_obj_def cost_of_int_total del: of_int_numeral)
qed (simp_all add: MAX_UTC_def DAY_def sample_cfg_def sample_call_def refused_call_def opt_obj_def tokens_from_copilot_usage_def
    ascii_def byte_def)

end
