(* ===== verification/UsageStore.thy ===== *)
theory UsageStore
  imports Http Billing "HOL-Library.Multiset"
begin

text \<open>
  The usage store (\<^verbatim>\<open>UsageStore\<close> of \<^verbatim>\<open>services/usage_ingest.py\<close>): the queries it sends to the
  Cosmos container, and the aggregation of the answers in Python.

  The container is a pair of function parameters; a query is its text with its parameters, as
  the code builds them.  The fold over the rows is a pure function whose exceptions are values,
  since a row can hold any JSON.
\<close>

section \<open>Numbers in documents\<close>

text \<open>\<^verbatim>\<open>float(s)\<close> of ASCII text: a decimal with single underscores between digits, or a name of
  infinity or NaN; the value is the nearest float.\<close>

fun digit_run :: "bool \<Rightarrow> string \<Rightarrow> string \<times> string" where
  "digit_run after_digit [] = ([], [])"
| "digit_run after_digit (c # s) =
     (if 48 \<le> byte c \<and> byte c \<le> 57 then (case digit_run True s of (ds, r) \<Rightarrow> (c # ds, r))
      else if c = CHR ''_'' \<and> after_digit \<and> (case s of d # _ \<Rightarrow> 48 \<le> byte d \<and> byte d \<le> 57 | [] \<Rightarrow> False)
      then digit_run False s
      else ([], c # s))"

definition nat_of_digits :: "string \<Rightarrow> int" where
  "nat_of_digits ds = foldl (\<lambda>n c. n * 10 + int (byte c - 48)) 0 ds"

definition exponent_of :: "string \<Rightarrow> int option" where
  "exponent_of s =
     (case s of
        [] \<Rightarrow> Some 0
      | c # t \<Rightarrow>
          if c = CHR ''e'' \<or> c = CHR ''E'' then
            let (neg, u) = (case t of d # v \<Rightarrow> if d = CHR ''-'' then (True, v) else if d = CHR ''+'' then (False, v) else (False, t)
                              | [] \<Rightarrow> (False, t)) in
            case digit_run False u of (ds, r) \<Rightarrow>
              if ds = [] \<or> r \<noteq> [] then None else Some (if neg then - nat_of_digits ds else nat_of_digits ds)
          else None)"

definition decimal_value :: "string \<Rightarrow> rat option" where
  "decimal_value s =
     (case digit_run False s of (whole, r) \<Rightarrow>
      case (case r of c # t \<Rightarrow> if c = CHR ''.'' then digit_run False t else ([], r) | [] \<Rightarrow> ([], r)) of (fraction, r') \<Rightarrow>
      if whole = [] \<and> fraction = [] then None
      else map_option (\<lambda>e. let v = of_int (nat_of_digits (whole @ fraction)) / 10 ^ length fraction in
              if 0 \<le> e then v * 10 ^ nat e else v / 10 ^ nat (- e)) (exponent_of r'))"

definition py_float_of_str :: "string \<Rightarrow> pyfloat option" where
  "py_float_of_str s =
     (let t = strip s;
          (neg, u) = (case t of c # v \<Rightarrow> if c = CHR ''-'' then (True, v) else if c = CHR ''+'' then (False, v) else (False, t)
                        | [] \<Rightarrow> (False, t)) in
      if lower u \<in> {''inf'', ''infinity''} then Some (FInf neg)
      else if lower u = ''nan'' then Some FNaN
      else map_option (\<lambda>v. to_float (if neg then - v else v)) (decimal_value u))"

definition j_float :: "json \<Rightarrow> exn + pyfloat" where
  "j_float v =
     (case v of
        JFloat f \<Rightarrow> Inr f
      | JInt i \<Rightarrow> float_of_int i
      | JBool b \<Rightarrow> Inr (FFin (if b then 1 else 0))
      | JStr s \<Rightarrow> (case py_float_of_str s of Some f \<Rightarrow> Inr f | None \<Rightarrow> Inl (ValueError ''could not convert string to float''))
      | _ \<Rightarrow> Inl (TypeError ''float() argument''))"

text \<open>\<^verbatim>\<open>int(v or 0)\<close> and \<^verbatim>\<open>float(v or 0.0)\<close>.\<close>

definition int_or_0 :: "json \<Rightarrow> exn + int" where
  "int_or_0 v = (if truthy v then j_int v else Inr 0)"

definition float_or_0 :: "json \<Rightarrow> exn + pyfloat" where
  "float_or_0 v = (if truthy v then j_float v else Inr (FFin 0))"

section \<open>The container\<close>

record kql_answer =
  kq_success :: bool
  kq_tables :: "(string list \<times> json list list) list"

record 'w usage_svc =
  metadata :: "'w services"
  cosmos_query :: "string \<Rightarrow> (string \<times> json) list \<Rightarrow> ('w, json list) eff"
  cosmos_upsert :: "jdict \<Rightarrow> ('w, unit) eff"
  kql_query :: "string \<Rightarrow> string \<Rightarrow> int \<Rightarrow> ('w, kql_answer) eff"

definition has_cosmos :: "'w usage_svc \<Rightarrow> bool" where
  "has_cosmos u \<longleftrightarrow> cosmos_endpoint (sv_settings (metadata u)) \<noteq> []"

definition upsert :: "'w usage_svc \<Rightarrow> jdict \<Rightarrow> ('w, unit) eff" where
  "upsert u doc = cosmos_upsert u doc"

definition agg_where :: "string list option \<Rightarrow> string option \<Rightarrow> string \<times> (string \<times> json) list" where
  "agg_where subscription_ids since_iso =
     (let ids = (case subscription_ids of None \<Rightarrow> [] | Some is \<Rightarrow> is);
          parts = (if ids \<noteq> [] then [(''ARRAY_CONTAINS(@ids, c.subscription)'', (''@ids'', JList (map JStr ids)))] else [])
               @ (if opt_true since_iso then [(''c.ts >= @since'', (''@since'', JStr (opt_or_empty since_iso)))] else []) in
      (if parts \<noteq> [] then '' WHERE '' @ join '' AND '' (map fst parts) else [], map snd parts))"

definition query_tenant :: "'w usage_svc \<Rightarrow> string \<Rightarrow> int \<Rightarrow> ('w, json list) eff" where
  "query_tenant u tenant_id limit =
     (if \<not> has_cosmos u then ret []
      else cosmos_query u (''SELECT * FROM c WHERE c.tenant_id = @t OR c.tenant = @t ''
             @ ''ORDER BY c.ts DESC OFFSET 0 LIMIT @n'') [(''@t'', JStr tenant_id), (''@n'', JInt limit)])"

definition query_all :: "'w usage_svc \<Rightarrow> int \<Rightarrow> ('w, json list) eff" where
  "query_all u limit =
     (if \<not> has_cosmos u then ret []
      else cosmos_query u ''SELECT * FROM c ORDER BY c.ts DESC OFFSET 0 LIMIT @n'' [(''@n'', JInt limit)])"

definition log_query :: "string list \<Rightarrow> string option \<Rightarrow> int \<Rightarrow> int \<Rightarrow> string \<times> (string \<times> json) list" where
  "log_query subscription_ids since_iso skip limit =
     (case agg_where (Some subscription_ids) since_iso of (where_sql, ps) \<Rightarrow>
        (''SELECT * FROM c'' @ where_sql @ '' ORDER BY c.ts DESC OFFSET @skip LIMIT @n'',
         ps @ [(''@skip'', JInt skip), (''@n'', JInt limit)]))"

definition query_by_subscriptions ::
  "'w usage_svc \<Rightarrow> string list \<Rightarrow> int \<Rightarrow> int \<Rightarrow> string option \<Rightarrow> ('w, json list) eff" where
  "query_by_subscriptions u subscription_ids limit skip since_iso =
     (if \<not> has_cosmos u \<or> subscription_ids = [] then ret []
      else (case log_query subscription_ids since_iso skip limit of (sql, ps) \<Rightarrow> cosmos_query u sql ps))"

definition count_query :: "string list \<Rightarrow> string option \<Rightarrow> string \<times> (string \<times> json) list" where
  "count_query subscription_ids since_iso =
     (case agg_where (Some subscription_ids) since_iso of (where_sql, ps) \<Rightarrow>
        (''SELECT VALUE COUNT(1) FROM c'' @ where_sql, ps))"

definition count_by_subscriptions :: "'w usage_svc \<Rightarrow> string list \<Rightarrow> string option \<Rightarrow> ('w, int) eff" where
  "count_by_subscriptions u subscription_ids since_iso =
     (if \<not> has_cosmos u \<or> subscription_ids = [] then ret 0
      else (case count_query subscription_ids since_iso of (sql, ps) \<Rightarrow>
        bnd (cosmos_query u sql ps) (\<lambda>rows.
        lift_sum (case rows of [] \<Rightarrow> Inr 0 | r # _ \<Rightarrow> j_int r))))"

section \<open>Folding the rows\<close>

definition AGG_DIMS :: "(string \<times> string) list" where
  "AGG_DIMS = [(''model'', ''route''), (''api'', ''api''), (''subscription'', ''subscription''), (''backend'', ''hub_id''),
     (''end_user'', ''end_user'')]"

definition TOKEN_FIELDS :: "string list" where
  "TOKEN_FIELDS = [''prompt_tok'', ''cached_tok'', ''cache_write_tok'', ''completion_tok'']"

definition MAX_ROWS :: nat where
  "MAX_ROWS = 20000"

definition MAX_GROUPS :: nat where
  "MAX_GROUPS = 500"

definition agg_columns :: "string list \<Rightarrow> string list" where
  "agg_columns extra_fields = TOKEN_FIELDS @ [''cost_usd'', ''billed_usd'', ''status''] @ extra_fields"

definition agg_query :: "string list option \<Rightarrow> string option \<Rightarrow> string list \<Rightarrow> string \<times> (string \<times> json) list" where
  "agg_query subscription_ids since_iso extra_fields =
     (case agg_where subscription_ids since_iso of (where_sql, ps) \<Rightarrow>
        (''SELECT '' @ join '', '' (map (\<lambda>f. ''c.'' @ f) (agg_columns extra_fields)) @ '' FROM c'' @ where_sql
           @ '' ORDER BY c.ts DESC OFFSET 0 LIMIT @n'',
         ps @ [(''@n'', JInt (int MAX_ROWS))]))"

definition fetch_agg_rows :: "'w usage_svc \<Rightarrow> string list option \<Rightarrow> string option \<Rightarrow> string list \<Rightarrow> ('w, json list) eff" where
  "fetch_agg_rows u subscription_ids since_iso extra_fields =
     (case agg_query subscription_ids since_iso extra_fields of (sql, ps) \<Rightarrow> cosmos_query u sql ps)"

record bucket =
  bk_calls :: int
  bk_ok_calls :: int
  bk_failed_calls :: int
  bk_failed_by_status :: "(string, int) dict"
  bk_tokens :: token_counts
  bk_cost_usd :: pyfloat
  bk_billed_usd :: pyfloat

definition blank :: bucket where
  "blank = \<lparr>bk_calls = 0, bk_ok_calls = 0, bk_failed_calls = 0, bk_failed_by_status = [],
     bk_tokens = zero_tokens, bk_cost_usd = FFin 0, bk_billed_usd = FFin 0\<rparr>"

text \<open>A status counts as failed when it is an int of at least 400; \<^verbatim>\<open>True\<close> and \<^verbatim>\<open>False\<close> are ints
  below.\<close>

definition failed_status :: "jdict \<Rightarrow> int option" where
  "failed_status row = (case jget row ''status'' of JInt i \<Rightarrow> if 400 \<le> i then Some i else None | _ \<Rightarrow> None)"

definition count_status :: "int option \<Rightarrow> bucket \<Rightarrow> bucket" where
  "count_status failed b =
     (case failed of
        Some i \<Rightarrow> b\<lparr>bk_calls := bk_calls b + 1, bk_failed_calls := bk_failed_calls b + 1,
          bk_failed_by_status := dict_set (bk_failed_by_status b) (int_str i)
            ((case dict_get (bk_failed_by_status b) (int_str i) of None \<Rightarrow> 0 | Some n \<Rightarrow> n) + 1)\<rparr>
      | None \<Rightarrow> b\<lparr>bk_calls := bk_calls b + 1, bk_ok_calls := bk_ok_calls b + 1\<rparr>)"

definition row_tokens :: "jdict \<Rightarrow> exn + token_counts" where
  "row_tokens row =
     bind_sum (int_or_0 (jget row ''prompt_tok'')) (\<lambda>p.
     bind_sum (int_or_0 (jget row ''cached_tok'')) (\<lambda>c.
     bind_sum (int_or_0 (jget row ''cache_write_tok'')) (\<lambda>w.
     bind_sum (int_or_0 (jget row ''completion_tok'')) (\<lambda>o'.
     Inr \<lparr>prompt_tok = p, completion_tok = o', cached_tok = c, cache_write_tok = w\<rparr>))))"

definition plus_tokens :: "token_counts \<Rightarrow> token_counts \<Rightarrow> token_counts" where
  "plus_tokens a b = \<lparr>prompt_tok = prompt_tok a + prompt_tok b, completion_tok = completion_tok a + completion_tok b,
     cached_tok = cached_tok a + cached_tok b, cache_write_tok = cache_write_tok a + cache_write_tok b\<rparr>"

definition all_tokens :: "token_counts \<Rightarrow> int" where
  "all_tokens t = prompt_tok t + cached_tok t + cache_write_tok t + completion_tok t"

text \<open>What a row adds: a failed status or not, the tokens, the two amounts.\<close>

definition row_amounts :: "jdict \<Rightarrow> exn + token_counts \<times> pyfloat \<times> pyfloat" where
  "row_amounts row =
     bind_sum (row_tokens row) (\<lambda>ns.
     bind_sum (float_or_0 (jget row ''cost_usd'')) (\<lambda>cost.
     bind_sum (float_or_0 (jget row ''billed_usd'')) (\<lambda>billed. Inr (ns, cost, billed))))"

definition add_row :: "jdict \<Rightarrow> bucket \<Rightarrow> exn + bucket" where
  "add_row row b =
     (let b' = count_status (failed_status row) b in
      bind_sum (row_amounts row) (\<lambda>(ns, cost, billed).
      Inr (b'\<lparr>bk_tokens := plus_tokens (bk_tokens b') ns, bk_cost_usd := fadd (bk_cost_usd b') cost,
            bk_billed_usd := fadd (bk_billed_usd b') billed\<rparr>)))"

definition accumulate :: "bucket \<Rightarrow> json \<Rightarrow> exn + bucket" where
  "accumulate b row = (case row of JObj d \<Rightarrow> add_row d b | _ \<Rightarrow> Inl attribute_error)"

fun accumulate_all :: "bucket \<Rightarrow> json list \<Rightarrow> exn + bucket" where
  "accumulate_all b [] = Inr b"
| "accumulate_all b (r # rs) = bind_sum (accumulate b r) (\<lambda>b'. accumulate_all b' rs)"

text \<open>A row into the bucket of its key.\<close>

definition bucket_at :: "(string, bucket) dict \<Rightarrow> string \<Rightarrow> bucket" where
  "bucket_at d k = (case dict_get d k of None \<Rightarrow> blank | Some b \<Rightarrow> b)"

definition add_to_group :: "string \<Rightarrow> json \<Rightarrow> (string, bucket) dict \<Rightarrow> exn + (string, bucket) dict" where
  "add_to_group key row d = bind_sum (accumulate (bucket_at d key) row) (\<lambda>b. Inr (dict_set d key b))"

text \<open>The rows into the buckets of their keys; a row without a key is skipped.\<close>

fun bucket_rows :: "(json \<Rightarrow> exn + string option) \<Rightarrow> json list \<Rightarrow> (string, bucket) dict \<Rightarrow> exn + (string, bucket) dict" where
  "bucket_rows key [] d = Inr d"
| "bucket_rows key (r # rs) d =
     bind_sum (key r) (\<lambda>k.
     case k of
       None \<Rightarrow> bucket_rows key rs d
     | Some k \<Rightarrow> bind_sum (add_to_group k r d) (bucket_rows key rs))"

definition group_key :: "string \<Rightarrow> json \<Rightarrow> exn + string option" where
  "group_key field row = bind_sum (j_get row field JNull) (\<lambda>v. Inr (Some (py_str (py_or v (JStr ''unknown'')))))"

text \<open>\<^verbatim>\<open>sorted(xs, key=k, reverse=True)\<close>, which keeps the order of equal keys.\<close>

fun insert_desc :: "('a \<Rightarrow> 'a \<Rightarrow> bool) \<Rightarrow> 'a \<Rightarrow> 'a list \<Rightarrow> 'a list" where
  "insert_desc below x [] = [x]"
| "insert_desc below x (y # ys) = (if below x y then y # insert_desc below x ys else x # y # ys)"

definition sort_desc :: "('a \<Rightarrow> 'a \<Rightarrow> bool) \<Rightarrow> 'a list \<Rightarrow> 'a list" where
  "sort_desc below xs = foldr (insert_desc below) xs []"

definition cheaper :: "string \<times> bucket \<Rightarrow> string \<times> bucket \<Rightarrow> bool" where
  "cheaper x y = flt (bk_cost_usd (snd x)) (bk_cost_usd (snd y))"

definition costliest :: "(string, bucket) dict \<Rightarrow> (string \<times> bucket) list" where
  "costliest d = take MAX_GROUPS (sort_desc cheaper d)"

definition cost_breakdown ::
  "'w usage_svc \<Rightarrow> string list option \<Rightarrow> string option \<Rightarrow> string \<Rightarrow> ('w, (string \<times> bucket) list) eff" where
  "cost_breakdown u subscription_ids since_iso group_by =
     (if \<not> has_cosmos u \<or> subscription_ids = Some [] then ret []
      else case map_of AGG_DIMS group_by of
        None \<Rightarrow> ret []
      | Some field \<Rightarrow>
          bnd (fetch_agg_rows u subscription_ids since_iso [field]) (\<lambda>rows.
          lift_sum (bind_sum (bucket_rows (group_key field) rows []) (\<lambda>d. Inr (costliest d)))))"

definition cost_totals :: "'w usage_svc \<Rightarrow> string list option \<Rightarrow> string option \<Rightarrow> ('w, bucket) eff" where
  "cost_totals u subscription_ids since_iso =
     (if \<not> has_cosmos u \<or> subscription_ids = Some [] then ret blank
      else bnd (fetch_agg_rows u subscription_ids since_iso []) (\<lambda>rows. lift_sum (accumulate_all blank rows)))"

section \<open>The trend\<close>

definition HOURLY_MAX_HOURS :: int where
  "HOURLY_MAX_HOURS = 48"

definition trend_bucket :: "int \<Rightarrow> string" where
  "trend_bucket hours = (if hours \<le> HOURLY_MAX_HOURS then ''hour'' else ''day'')"

definition HOUR :: int where
  "HOUR = 3600000000"

record trend_point =
  tp_ts :: string
  tp_tokens :: int
  tp_calls :: int
  tp_cost_usd :: pyfloat

definition slot_key :: "nat \<Rightarrow> json \<Rightarrow> exn + string option" where
  "slot_key width row =
     bind_sum (j_get row ''ts'' JNull) (\<lambda>ts. Inr (case ts of JStr s \<Rightarrow> Some (py_take width s) | _ \<Rightarrow> None))"

definition trend_count :: "int \<Rightarrow> int" where
  "trend_count hours =
     (if hours \<le> HOURLY_MAX_HOURS then max hours 1 else max (- (- max hours 1 div 24)) 1)"

definition trend_step :: "int \<Rightarrow> int" where
  "trend_step hours = (if hours \<le> HOURLY_MAX_HOURS then HOUR else DAY)"

definition slot_width :: "int \<Rightarrow> nat" where
  "slot_width hours = (if hours \<le> HOURLY_MAX_HOURS then 13 else 10)"

definition slot_label :: "int \<Rightarrow> utc \<Rightarrow> string" where
  "slot_label hours t = (if hours \<le> HOURLY_MAX_HOURS then fmt_hour t else fmt_day t)"

definition point_of :: "bucket option \<Rightarrow> utc \<Rightarrow> trend_point" where
  "point_of got t =
     \<lparr>tp_ts = iso_utc t, tp_tokens = (case got of None \<Rightarrow> 0 | Some b \<Rightarrow> all_tokens (bk_tokens b)),
      tp_calls = (case got of None \<Rightarrow> 0 | Some b \<Rightarrow> bk_calls b),
      tp_cost_usd = (case got of None \<Rightarrow> FFin 0 | Some b \<Rightarrow> bk_cost_usd b)\<rparr>"

text \<open>The starts of the buckets, oldest first.  Python's dates end at year 1.\<close>

definition trend_slots :: "int \<Rightarrow> utc \<Rightarrow> exn + utc list" where
  "trend_slots hours now =
     (let step = trend_step hours; last_start = now - now mod step; n = trend_count hours in
      if last_start - step * (n - 1) < 0 then Inl (OverflowError ''date value out of range'')
      else Inr (map (\<lambda>i. last_start - step * (n - 1 - int i)) [0..<nat n]))"

definition trend_of :: "int \<Rightarrow> utc \<Rightarrow> json list \<Rightarrow> exn + trend_point list" where
  "trend_of hours now rows =
     bind_sum (bucket_rows (slot_key (slot_width hours)) rows []) (\<lambda>d.
     bind_sum (trend_slots hours now) (\<lambda>slots.
     Inr (map (\<lambda>t. point_of (dict_get d (slot_label hours t)) t) slots)))"

definition cost_trend :: "'w usage_svc \<Rightarrow> string list option \<Rightarrow> string option \<Rightarrow> int \<Rightarrow> ('w, trend_point list) eff" where
  "cost_trend u subscription_ids since_iso hours =
     (if \<not> has_cosmos u \<or> subscription_ids = Some [] then ret []
      else
        bnd (fetch_agg_rows u subscription_ids since_iso [''ts'']) (\<lambda>rows w.
        (trend_of hours (clock (metadata u) w) rows, w)))"

section \<open>What the fold computes\<close>

text \<open>Whether a row can be added does not depend on the bucket.\<close>

definition summable :: "json \<Rightarrow> bool" where
  "summable row \<longleftrightarrow> (\<exists>b. accumulate blank row = Inr b)"

lemma accumulate_summable: "(\<exists>b'. accumulate b row = Inr b') \<longleftrightarrow> summable row"
  by (cases row) (auto simp: summable_def accumulate_def add_row_def Let_def bind_sum_def split: sum.splits)

lemma accumulate_Inl: "accumulate b row = Inl e \<Longrightarrow> \<not> summable row"
  using accumulate_summable [of b row] by auto

lemma bucket_rows_Cons_Inr:
  "bucket_rows key (r # rs) d = Inr d' \<longleftrightarrow>
     key r = Inr None \<and> bucket_rows key rs d = Inr d'
     \<or> (\<exists>k d1. key r = Inr (Some k) \<and> add_to_group k r d = Inr d1 \<and> bucket_rows key rs d1 = Inr d')"
  by (cases "key r"; cases "projr (key r)") (auto simp: bind_sum_Inr)

text \<open>An observation of a bucket to which each row contributes a number of its own.\<close>

locale additive =
  fixes m :: "bucket \<Rightarrow> int" and g :: "json \<Rightarrow> int"
  assumes empty: "m blank = 0" and step: "accumulate b row = Inr b' \<Longrightarrow> m b' = m b + g row"
begin

lemma total: "accumulate_all b rows = Inr b' \<Longrightarrow> m b' = m b + (\<Sum>r\<leftarrow>rows. g r)"
  by (induction rows arbitrary: b) (auto simp: bind_sum_Inr step)

lemma at_bucket: "dict_get d k = None \<Longrightarrow> m (bucket_at d k) = 0"
  by (simp add: bucket_at_def empty)

lemma sum_set: "(\<Sum>x\<leftarrow>dict_set d k b. m (snd x)) = (\<Sum>x\<leftarrow>d. m (snd x)) - m (bucket_at d k) + m b"
  by (induction d) (auto simp: bucket_at_def empty split: option.splits)

lemma add_to_group: "add_to_group k row d = Inr d' \<Longrightarrow> (\<Sum>x\<leftarrow>d'. m (snd x)) = (\<Sum>x\<leftarrow>d. m (snd x)) + g row"
  by (auto simp: add_to_group_def bind_sum_Inr sum_set step)

lemma groups:
  "bucket_rows key rows d = Inr d' \<Longrightarrow>
     (\<Sum>x\<leftarrow>d'. m (snd x)) = (\<Sum>x\<leftarrow>d. m (snd x)) + (\<Sum>r\<leftarrow>filter (\<lambda>r. key r \<noteq> Inr None) rows. g r)"
  by (induction rows arbitrary: d) (auto simp: bucket_rows_Cons_Inr simp del: bucket_rows.simps(2) dest!: add_to_group)

lemma partition:
  assumes "bucket_rows key rows [] = Inr d" and "accumulate_all blank rows = Inr t" and "\<And>r. key r \<noteq> Inr None"
  shows "(\<Sum>x\<leftarrow>d. m (snd x)) = m t"
  using groups [OF assms(1)] total [OF assms(2)] assms(3) by (simp add: empty)

end

definition tokens_added :: "json \<Rightarrow> token_counts" where
  "tokens_added row = (case row of JObj d \<Rightarrow> (case row_tokens d of Inr ns \<Rightarrow> ns | Inl _ \<Rightarrow> zero_tokens) | _ \<Rightarrow> zero_tokens)"

definition failed_row :: "json \<Rightarrow> bool" where
  "failed_row row = (case row of JObj d \<Rightarrow> failed_status d \<noteq> None | _ \<Rightarrow> False)"

lemma accumulate_step:
  assumes "accumulate b row = Inr b'"
  shows "bk_calls b' = bk_calls b + 1" "bk_ok_calls b' = bk_ok_calls b + (if failed_row row then 0 else 1)"
    "bk_failed_calls b' = bk_failed_calls b + (if failed_row row then 1 else 0)"
    "bk_tokens b' = plus_tokens (bk_tokens b) (tokens_added row)"
  using assms
  by (cases row; auto simp: accumulate_def add_row_def row_amounts_def Let_def bind_sum_Inr count_status_def failed_row_def
      tokens_added_def split: option.splits)+

interpretation calls: additive bk_calls "\<lambda>_. 1"
  by unfold_locales (simp_all add: blank_def accumulate_step)

interpretation ok_calls: additive bk_ok_calls "\<lambda>r. if failed_row r then 0 else 1"
  by unfold_locales (simp_all add: blank_def accumulate_step)

interpretation failed_calls: additive bk_failed_calls "\<lambda>r. if failed_row r then 1 else 0"
  by unfold_locales (simp_all add: blank_def accumulate_step)

interpretation prompt: additive "\<lambda>b. prompt_tok (bk_tokens b)" "\<lambda>r. prompt_tok (tokens_added r)"
  by unfold_locales (simp_all add: blank_def zero_tokens_def accumulate_step plus_tokens_def)

interpretation completion: additive "\<lambda>b. completion_tok (bk_tokens b)" "\<lambda>r. completion_tok (tokens_added r)"
  by unfold_locales (simp_all add: blank_def zero_tokens_def accumulate_step plus_tokens_def)

interpretation cached: additive "\<lambda>b. cached_tok (bk_tokens b)" "\<lambda>r. cached_tok (tokens_added r)"
  by unfold_locales (simp_all add: blank_def zero_tokens_def accumulate_step plus_tokens_def)

interpretation cache_write: additive "\<lambda>b. cache_write_tok (bk_tokens b)" "\<lambda>r. cache_write_tok (tokens_added r)"
  by unfold_locales (simp_all add: blank_def zero_tokens_def accumulate_step plus_tokens_def)

interpretation tokens: additive "\<lambda>b. all_tokens (bk_tokens b)" "\<lambda>r. all_tokens (tokens_added r)"
  by unfold_locales (simp_all add: blank_def zero_tokens_def accumulate_step plus_tokens_def all_tokens_def)

text \<open>The failures by status add up to the failures.\<close>

definition tallied :: "bucket \<Rightarrow> bool" where
  "tallied b \<longleftrightarrow> bk_calls b = bk_ok_calls b + bk_failed_calls b
     \<and> bk_failed_calls b = (\<Sum>x\<leftarrow>bk_failed_by_status b. snd x)"

lemma sum_dict_set:
  "(\<Sum>x\<leftarrow>dict_set d k (v :: int). snd x) = (\<Sum>x\<leftarrow>d. snd x) - (case dict_get d k of None \<Rightarrow> 0 | Some n \<Rightarrow> n) + v"
  by (induction d) (auto split: option.splits)

lemma accumulate_tallied: "accumulate b row = Inr b' \<Longrightarrow> tallied b \<Longrightarrow> tallied b'"
  by (cases row) (auto simp: accumulate_def add_row_def Let_def bind_sum_Inr count_status_def tallied_def sum_dict_set
      split: option.splits)

lemma blank_tallied [simp]: "tallied blank"
  by (simp add: tallied_def blank_def)

lemma accumulate_all_tallied: "accumulate_all b rows = Inr b' \<Longrightarrow> tallied b \<Longrightarrow> tallied b'"
  by (induction rows arbitrary: b) (auto simp: bind_sum_Inr dest: accumulate_tallied)

text \<open>The rows of a group, and the bucket of a group as the fold of its rows.\<close>

definition in_group :: "(json \<Rightarrow> exn + string option) \<Rightarrow> string \<Rightarrow> json \<Rightarrow> bool" where
  "in_group key k row \<longleftrightarrow> key row = Inr (Some k)"

lemma accumulate_all_append:
  "accumulate_all b (rs @ [r]) = bind_sum (accumulate_all b rs) (\<lambda>b'. accumulate b' r)"
  by (induction rs arbitrary: b) (auto simp: bind_sum_def split: sum.splits)

lemma bucket_rows_append:
  "bucket_rows key (rs @ [r]) d = bind_sum (bucket_rows key rs d) (\<lambda>d'. bucket_rows key [r] d')"
  by (induction rs arbitrary: d) (auto simp: bind_sum_def split: sum.splits option.splits)

lemma bucket_rows_buckets:
  "bucket_rows key rows [] = Inr d \<Longrightarrow>
     dict_ok d \<and> (\<forall>k. accumulate_all blank (filter (in_group key k) rows) = Inr (bucket_at d k))
       \<and> (\<forall>k. dict_get d k \<noteq> None \<longleftrightarrow> (\<exists>r \<in> set rows. in_group key k r))"
proof (induction rows arbitrary: d rule: rev_induct)
  case Nil
  then show ?case by (simp add: bucket_at_def)
next
  case (snoc r rows)
  then obtain d0 kr where d0: "bucket_rows key rows [] = Inr d0" and kr: "key r = Inr kr"
    by (auto simp: bucket_rows_append bind_sum_Inr)
  note IH = snoc.IH [OF d0]
  show ?case
  proof (cases kr)
    case None
    with snoc.prems IH d0 kr show ?thesis
      by (auto simp: bucket_rows_append in_group_def)
  next
    case (Some k0)
    then obtain b where b: "accumulate (bucket_at d0 k0) r = Inr b" and d: "d = dict_set d0 k0 b"
      using snoc.prems d0 kr by (auto simp: bucket_rows_append bind_sum_Inr add_to_group_def)
    have k: "in_group key k r \<longleftrightarrow> k = k0" for k
      using kr Some by (auto simp: in_group_def)
    have "accumulate_all blank (filter (in_group key k) (rows @ [r])) = Inr (bucket_at d k)" for k
      using IH b by (cases "k = k0") (simp_all add: k accumulate_all_append d bucket_at_def dict_get_set)
    with IH show ?thesis
      by (auto simp: d dict_ok_set dict_get_set k)
  qed
qed

lemma bucket_rows_total:
  assumes "\<And>r. summable r \<Longrightarrow> \<exists>k. key r = Inr k"
  shows "list_all summable rows \<Longrightarrow> \<exists>d'. bucket_rows key rows d = Inr d'"
proof (induction rows arbitrary: d)
  case (Cons r rows)
  then obtain k where k: "key r = Inr k"
    using assms by auto
  show ?case
  proof (cases k)
    case None
    then show ?thesis
      using Cons k by simp
  next
    case (Some k0)
    obtain b where "accumulate (bucket_at d k0) r = Inr b"
      using Cons.prems accumulate_summable [of "bucket_at d k0" r] by auto
    then show ?thesis
      using Cons k Some by (simp add: add_to_group_def)
  qed
qed simp

lemma bucket_rows_summable:
  "bucket_rows key rows d = Inr d' \<Longrightarrow> (\<And>r. key r \<noteq> Inr None) \<Longrightarrow> list_all summable rows"
proof (induction rows arbitrary: d)
  case (Cons r rows)
  then obtain k b where "key r = Inr (Some k)" "accumulate (bucket_at d k) r = Inr b" "bucket_rows key rows (dict_set d k b) = Inr d'"
    by (auto simp: bucket_rows_Cons_Inr bind_sum_Inr add_to_group_def simp del: bucket_rows.simps(2))
  then show ?case
    using Cons.IH Cons.prems(2) accumulate_summable [of "bucket_at d k" r] by auto
qed simp

lemma keys_of_summable: "summable r \<Longrightarrow> \<exists>k. group_key field r = Inr k" "summable r \<Longrightarrow> \<exists>k. slot_key width r = Inr k"
  by (cases r; simp add: summable_def accumulate_def group_key_def slot_key_def j_get_def)+

lemma group_key_given: "group_key field r \<noteq> Inr None"
  by (auto simp: group_key_def bind_sum_def split: sum.splits)

lemma accumulate_all_Inr_iff: "(\<exists>b'. accumulate_all b rows = Inr b') \<longleftrightarrow> list_all summable rows"
proof (induction rows arbitrary: b)
  case (Cons r rows)
  show ?case
  proof (cases "accumulate b r")
    case (Inl e)
    then show ?thesis
      using accumulate_Inl by auto
  next
    case (Inr b1)
    then show ?thesis
      using Cons.IH [of b1] accumulate_summable [of b r] by auto
  qed
qed simp

lemma mset_insert_desc [simp]: "mset (insert_desc below x xs) = add_mset x (mset xs)"
  by (induction xs) auto

lemma mset_sort_desc [simp]: "mset (sort_desc below xs) = mset xs"
  by (induction xs) (simp_all add: sort_desc_def)

lemma set_costliest: "set (costliest d) \<subseteq> set d"
  unfolding costliest_def by (metis mset_sort_desc mset_eq_setD set_take_subset)

text \<open>C37: the breakdown adds up to the totals.  From the same rows, grouped by any field, the breakdown
  succeeds exactly when the totals do.  Its groups have distinct keys; the bucket of a group,
  amounts included, is the fold of exactly the rows of that group; over all groups the calls,
  served and failed, and every kind of token sum to the totals, every row is counted once,
  and the failures by status sum to the failures.  What is returned are the groups
  themselves, all of them up to the cap.\<close>

theorem breakdown_adds_up:
  "case (bucket_rows (group_key field) rows [], accumulate_all blank rows) of
     (Inr d, Inr t) \<Rightarrow>
       dict_ok d \<and> (\<forall>key. accumulate_all blank (filter (in_group (group_key field) key) rows) = Inr (bucket_at d key))
       \<and> (\<Sum>x\<leftarrow>d. bk_calls (snd x)) = bk_calls t
       \<and> (\<Sum>x\<leftarrow>d. bk_ok_calls (snd x)) = bk_ok_calls t \<and> (\<Sum>x\<leftarrow>d. bk_failed_calls (snd x)) = bk_failed_calls t
       \<and> (\<Sum>x\<leftarrow>d. prompt_tok (bk_tokens (snd x))) = prompt_tok (bk_tokens t)
       \<and> (\<Sum>x\<leftarrow>d. completion_tok (bk_tokens (snd x))) = completion_tok (bk_tokens t)
       \<and> (\<Sum>x\<leftarrow>d. cached_tok (bk_tokens (snd x))) = cached_tok (bk_tokens t)
       \<and> (\<Sum>x\<leftarrow>d. cache_write_tok (bk_tokens (snd x))) = cache_write_tok (bk_tokens t)
       \<and> bk_calls t = int (length rows) \<and> tallied t
       \<and> mset (costliest d) \<subseteq># mset d \<and> length (costliest d) = min MAX_GROUPS (length d)
   | (Inl _, Inl _) \<Rightarrow> True
   | _ \<Rightarrow> False"
proof (cases "list_all summable rows")
  case True
  then obtain d t where d: "bucket_rows (group_key field) rows [] = Inr d" and t: "accumulate_all blank rows = Inr t"
    using bucket_rows_total [of "group_key field", OF keys_of_summable(1)] accumulate_all_Inr_iff by blast
  have sub: "mset (costliest d) \<subseteq># mset d"
    unfolding costliest_def by (metis append_take_drop_id mset_append mset_sort_desc mset_subset_eq_add_left)
  have len: "length (costliest d) = min MAX_GROUPS (length d)"
    unfolding costliest_def length_take by (metis mset_sort_desc size_mset min.commute)
  have "bk_calls t = int (length rows)"
    using calls.total [OF t] by (simp add: blank_def sum_list_triv)
  with bucket_rows_buckets [OF d] accumulate_all_tallied [OF t] sub len show ?thesis
    by (simp add: d t calls.partition [OF d t group_key_given] ok_calls.partition [OF d t group_key_given]
        failed_calls.partition [OF d t group_key_given] prompt.partition [OF d t group_key_given]
        completion.partition [OF d t group_key_given] cached.partition [OF d t group_key_given]
        cache_write.partition [OF d t group_key_given])
next
  case False
  have "\<not> (\<exists>d. bucket_rows (group_key field) rows [] = Inr d)"
    using False bucket_rows_summable group_key_given by blast
  moreover have "\<not> (\<exists>t. accumulate_all blank rows = Inr t)"
    using False accumulate_all_Inr_iff by blast
  ultimately show ?thesis
    by (auto split: sum.splits)
qed

text \<open>A point of the trend shows the fold of the rows whose timestamp starts with its label.\<close>

lemma point_of_bucket: "point_of (dict_get d k) t = point_of (Some (bucket_at d k)) t"
  by (simp add: point_of_def bucket_at_def blank_def zero_tokens_def all_tokens_def split: option.splits)

definition labelled :: "int \<Rightarrow> utc \<Rightarrow> json list \<Rightarrow> json list" where
  "labelled hours t = filter (in_group (slot_key (slot_width hours)) (slot_label hours t))"

lemma trend_points:
  assumes "list_all summable rows" and slots: "trend_slots hours now = Inr slots"
  shows "\<exists>pts. trend_of hours now rows = Inr pts
    \<and> list_all2 (\<lambda>t p. \<exists>b. accumulate_all blank (labelled hours t rows) = Inr b \<and> p = point_of (Some b) t) slots pts"
proof -
  obtain d where d: "bucket_rows (slot_key (slot_width hours)) rows [] = Inr d"
    using bucket_rows_total [of "slot_key (slot_width hours)", OF keys_of_summable(2) assms(1)] by blast
  show ?thesis
    using bucket_rows_buckets [OF d]
    by (intro exI [of _ "map (\<lambda>t. point_of (dict_get d (slot_label hours t)) t) slots"])
       (auto simp: trend_of_def d slots list_all2_map2 list_all2_same point_of_bucket labelled_def)
qed

lemma trend_slots_length: "trend_slots hours now = Inr slots \<Longrightarrow> length slots = nat (trend_count hours)"
  by (auto simp: trend_slots_def Let_def split: if_splits)

lemma trend_count_le: "trend_count hours \<le> max 48 hours"
  by (auto simp: trend_count_def HOURLY_MAX_HOURS_def)

end
