(* ===== verification/UsageApi.thy ===== *)
theory UsageApi
  imports UsageStore ControlPlane
begin

text \<open>
  The usage endpoints (\<^verbatim>\<open>api/usage.py\<close>): the window, the keys of a tenant, the numbers read off
  a document, the summary, the call log and the breakdowns with their labels.

  A handler is a computation on the tables and the world; the documents come from the store.
  The tenant of a self-service request is the one its token names.
\<close>

section \<open>Windows and keys\<close>

definition MAX_WINDOW_HOURS :: int where
  "MAX_WINDOW_HOURS = 24 * 90"

definition clamp_hours :: "int \<Rightarrow> int" where
  "clamp_hours hours = min (max hours 1) MAX_WINDOW_HOURS"

definition window_since :: "'w services \<Rightarrow> int option \<Rightarrow> ('w, string option) eff" where
  "window_since svc hours w =
     (case hours of
        None \<Rightarrow> (Inr None, w)
      | Some h \<Rightarrow>
          let t = clock svc w - clamp_hours h * HOUR in
          if t < 0 then (Inl (OverflowError ''date value out of range''), w) else (Inr (Some (iso_utc t)), w))"

definition tenant_key_ids :: "string \<Rightarrow> tables \<Rightarrow> string list" where
  "tenant_key_ids tenant_id t = map vk_id (tenant_keys tenant_id t)"

section \<open>The numbers of a document\<close>

text \<open>\<^verbatim>\<open>(v or {}).get(k)\<close>.\<close>

definition nested :: "jdict \<Rightarrow> string \<Rightarrow> string \<Rightarrow> exn + json" where
  "nested usage k f = j_get (py_or (jget usage k) (JObj [])) f JNull"

definition cached_of :: "jdict \<Rightarrow> exn + json" where
  "cached_of usage =
     (if truthy (jget usage ''cache_read_input_tokens'') then Inr (jget usage ''cache_read_input_tokens'')
      else
        bind_sum (nested usage ''prompt_tokens_details'' ''cached_tokens'') (\<lambda>a.
        if truthy a then Inr a
        else bind_sum (nested usage ''input_tokens_details'' ''cached_tokens'') (\<lambda>b. Inr (py_or b (JInt 0)))))"

definition raw_usage :: "jdict \<Rightarrow> jdict option" where
  "raw_usage d =
     (case jget d ''raw_response'' of
        JObj raw \<Rightarrow> (case jget raw ''usage'' of JObj usage \<Rightarrow> Some usage | _ \<Rightarrow> None)
      | _ \<Rightarrow> None)"

definition extract_tokens :: "jdict \<Rightarrow> exn + int \<times> int \<times> int" where
  "extract_tokens d =
     (if dict_get d ''prompt_tok'' \<noteq> None \<or> dict_get d ''completion_tok'' \<noteq> None then
        bind_sum (int_or_0 (jget_or d ''prompt_tok'' (JInt 0))) (\<lambda>p.
        bind_sum (int_or_0 (jget_or d ''completion_tok'' (JInt 0))) (\<lambda>c.
        bind_sum (int_or_0 (jget_or d ''cached_tok'' (JInt 0))) (\<lambda>k. Inr (p, c, k))))
      else case raw_usage d of
        None \<Rightarrow> Inr (0, 0, 0)
      | Some usage \<Rightarrow>
          let prompt = py_or (jget_or usage ''prompt_tokens'' (jget_or usage ''input_tokens'' (JInt 0))) (JInt 0);
              completion = py_or (jget_or usage ''completion_tokens'' (jget_or usage ''output_tokens'' (JInt 0))) (JInt 0) in
          bind_sum (cached_of usage) (\<lambda>cached.
          bind_sum (j_int prompt) (\<lambda>p. bind_sum (j_int completion) (\<lambda>c. bind_sum (j_int cached) (\<lambda>k. Inr (p, c, k))))))"

definition extract_cache_write :: "jdict \<Rightarrow> exn + int" where
  "extract_cache_write d =
     (if dict_get d ''cache_write_tok'' \<noteq> None then int_or_0 (jget_or d ''cache_write_tok'' (JInt 0))
      else case raw_usage d of
        None \<Rightarrow> Inr 0
      | Some usage \<Rightarrow> int_or_0 (jget_or usage ''cache_creation_input_tokens'' (JInt 0)))"

record usage_summary =
  us_tenant_id :: string
  us_total_prompt_tok :: int
  us_total_completion_tok :: int
  us_total_cost_usd :: pyfloat
  us_total_billed_usd :: pyfloat

text \<open>A row of \<^verbatim>\<open>SELECT *\<close> is an object.\<close>

definition row_object :: "json \<Rightarrow> exn + jdict" where
  "row_object r = (case r of JObj d \<Rightarrow> Inr d | _ \<Rightarrow> Inl attribute_error)"

fun summarize_rows :: "json list \<Rightarrow> usage_summary \<Rightarrow> exn + usage_summary" where
  "summarize_rows [] s = Inr s"
| "summarize_rows (r # rs) s =
     bind_sum (row_object r) (\<lambda>d.
     bind_sum (extract_tokens d) (\<lambda>(prompt, completion, cached).
     bind_sum (float_or_0 (jget_or d ''cost_usd'' (JFloat (FFin 0)))) (\<lambda>cost.
     bind_sum (float_or_0 (jget_or d ''billed_usd'' (JFloat (FFin 0)))) (\<lambda>billed.
     summarize_rows rs
       (s\<lparr>us_total_prompt_tok := us_total_prompt_tok s + prompt,
          us_total_completion_tok := us_total_completion_tok s + completion,
          us_total_cost_usd := fadd (us_total_cost_usd s) cost,
          us_total_billed_usd := fadd (us_total_billed_usd s) billed\<rparr>)))))"

definition summarize :: "string \<Rightarrow> json list \<Rightarrow> exn + usage_summary" where
  "summarize tenant_id rows =
     bind_sum (summarize_rows rows \<lparr>us_tenant_id = tenant_id, us_total_prompt_tok = 0, us_total_completion_tok = 0,
                 us_total_cost_usd = FFin 0, us_total_billed_usd = FFin 0\<rparr>) (\<lambda>s.
     Inr (s\<lparr>us_total_cost_usd := py_round 4 (us_total_cost_usd s), us_total_billed_usd := py_round 4 (us_total_billed_usd s)\<rparr>))"

section \<open>The call log\<close>

definition key_project_map :: "string \<Rightarrow> tables \<Rightarrow> (string \<times> project) list" where
  "key_project_map tenant_id t =
     List.map_filter (\<lambda>k. map_option (\<lambda>p. (vk_id k, p)) (row_by pj_id (vk_project_id k) (projects t))) (tenant_keys tenant_id t)"

text \<open>\<^verbatim>\<open>d.get(sub or "")\<close> of a dictionary keyed by text: a list or an object is not hashable.\<close>

definition project_of :: "(string \<times> project) list \<Rightarrow> json \<Rightarrow> exn + project option" where
  "project_of key_projects sub =
     (case py_or sub (JStr []) of
        JStr s \<Rightarrow> Inr (map_of key_projects s)
      | JList _ \<Rightarrow> Inl (TypeError ''unhashable type: list'')
      | JObj _ \<Rightarrow> Inl (TypeError ''unhashable type: dict'')
      | _ \<Rightarrow> Inr None)"

definition status_view :: "json \<Rightarrow> json" where
  "status_view v = (case v of JInt i \<Rightarrow> JInt i | JBool b \<Rightarrow> JInt (if b then 1 else 0) | _ \<Rightarrow> JNull)"

definition to_record_view :: "(string \<times> project) list \<Rightarrow> jdict \<Rightarrow> exn + jdict" where
  "to_record_view key_projects r =
     bind_sum (extract_tokens r) (\<lambda>(prompt, completion, cached).
     let sub = py_or (jget r ''subscription'') (jget r ''subscription_id'') in
     bind_sum (project_of key_projects sub) (\<lambda>proj.
     bind_sum (extract_cache_write r) (\<lambda>cache_write.
     bind_sum (float_or_0 (jget_or r ''cost_usd'' (JFloat (FFin 0)))) (\<lambda>cost.
     bind_sum (float_or_0 (jget_or r ''billed_usd'' (JFloat (FFin 0)))) (\<lambda>billed.
     Inr [(''ts'', jget r ''ts''), (''subscription'', sub),
       (''project_id'', opt_str_json (map_option pj_id proj)), (''project_name'', opt_str_json (map_option pj_name proj)),
       (''route'', jget_or r ''route'' (JStr ''unknown'')), (''api'', jget r ''api''),
       (''status'', status_view (jget r ''status'')),
       (''prompt_tok'', JInt prompt), (''completion_tok'', JInt completion), (''cached_tok'', JInt cached),
       (''cache_write_tok'', JInt cache_write), (''cost_usd'', JFloat cost), (''billed_usd'', JFloat billed),
       (''cost_source'', jget r ''cost_source''), (''estimated'', JBool (truthy (jget r ''estimated''))),
       (''streamed'', JBool (truthy (jget r ''streamed'')))])))))"

fun record_views :: "(string \<times> project) list \<Rightarrow> json list \<Rightarrow> exn + jdict list" where
  "record_views key_projects [] = Inr []"
| "record_views key_projects (r # rs) =
     bind_sum (row_object r) (\<lambda>d. bind_sum (to_record_view key_projects d) (\<lambda>v.
     bind_sum (record_views key_projects rs) (\<lambda>vs. Inr (v # vs))))"

section \<open>Breakdowns and their labels\<close>

record breakdown_payload =
  pl_by :: string
  pl_hours :: int
  pl_bucket :: string
  pl_groups :: "(string \<times> bucket \<times> string option) list"
  pl_trend :: "trend_point list"
  pl_totals :: bucket

definition group_dimension :: "string \<Rightarrow> string" where
  "group_dimension by =
     (let d = (if by = ''endpoint'' then ''api'' else if by = ''hub'' then ''backend'' else by) in
      if map_of AGG_DIMS d = None then ''model'' else d)"

definition usage_breakdown_payload ::
  "'w usage_svc \<Rightarrow> string list option \<Rightarrow> int \<Rightarrow> string \<Rightarrow> ('w, breakdown_payload) eff" where
  "usage_breakdown_payload u key_ids hours by =
     (let group_by = group_dimension by; h = clamp_hours hours in
      bnd (window_since (metadata u) (Some h)) (\<lambda>since.
      bnd (cost_breakdown u key_ids since group_by) (\<lambda>groups.
      bnd (cost_trend u key_ids since h) (\<lambda>trend.
      bnd (cost_totals u key_ids since) (\<lambda>totals.
      ret \<lparr>pl_by = group_by, pl_hours = h, pl_bucket = trend_bucket h, pl_groups = map (\<lambda>(k, b). (k, b, None)) groups,
           pl_trend = trend, pl_totals = totals\<rparr>)))))"

definition project_names_for :: "string list \<Rightarrow> tables \<Rightarrow> (string \<times> string) list" where
  "project_names_for key_ids t =
     List.map_filter (\<lambda>k. case row_by pj_id (vk_project_id k) (projects t) of
         None \<Rightarrow> None
       | Some p \<Rightarrow> if pj_name p \<noteq> [] then Some (vk_id k, pj_name p) else None)
       (filter (\<lambda>k. vk_id k \<in> set key_ids) (virtual_keys t))"

definition hub_login_map :: "tables \<Rightarrow> (string \<times> string) list" where
  "hub_login_map t =
     List.map_filter (\<lambda>a. if opt_true (ga_github_login a) then Some (ga_id a, opt_or_empty (ga_github_login a)) else None)
       (github_accounts t)"

definition labels_for :: "string \<Rightarrow> string list \<Rightarrow> tables \<Rightarrow> (string \<times> string) list" where
  "labels_for by ids t =
     (if by = ''backend'' then hub_login_map t else if by = ''subscription'' then project_names_for ids t else [])"

definition label_groups :: "breakdown_payload \<Rightarrow> ('w, breakdown_payload) act" where
  "label_groups payload =
     bnd (query (labels_for (pl_by payload) (filter (\<lambda>k. k \<noteq> []) (map fst (pl_groups payload))))) (\<lambda>names.
     ret (payload\<lparr>pl_groups := map (\<lambda>(k, b, l). (k, b, case map_of names k of Some n \<Rightarrow> Some n | None \<Rightarrow> l)) (pl_groups payload)\<rparr>))"

section \<open>Endpoints\<close>

definition DEFAULT_LIMIT :: int where
  "DEFAULT_LIMIT = 1000"

definition usage_of :: "'w usage_svc \<Rightarrow> int option \<Rightarrow> string \<Rightarrow> ('w, usage_summary) act" where
  "usage_of u hours tenant_id =
     bnd (query (tenant_key_ids tenant_id)) (\<lambda>key_ids.
     bnd (cloud (window_since (metadata u) hours)) (\<lambda>since.
     bnd (cloud (query_by_subscriptions u key_ids DEFAULT_LIMIT 0 since)) (\<lambda>rows.
     lift_sum (summarize tenant_id rows))))"

definition breakdown_of :: "'w usage_svc \<Rightarrow> int \<Rightarrow> string \<Rightarrow> string \<Rightarrow> ('w, breakdown_payload) act" where
  "breakdown_of u hours by tenant_id =
     bnd (query (tenant_key_ids tenant_id)) (\<lambda>key_ids.
     bnd (cloud (usage_breakdown_payload u (Some key_ids) hours by)) label_groups)"

text \<open>A tenant id in a token that is not text cannot be compared with the column.\<close>

definition as_tenant :: "'w usage_svc \<Rightarrow> string \<Rightarrow> (string \<Rightarrow> ('w, 'a) act) \<Rightarrow> ('w, 'a) act" where
  "as_tenant u authorization h =
     request (bnd (tenant_scope (metadata u) authorization) (\<lambda>v.
       case v of JStr tenant_id \<Rightarrow> h tenant_id | _ \<Rightarrow> raise (OtherError ''ProgrammingError'')))"

definition my_usage :: "'w usage_svc \<Rightarrow> string \<Rightarrow> int option \<Rightarrow> ('w, usage_summary) act" where
  "my_usage u authorization hours = as_tenant u authorization (usage_of u hours)"

definition tenant_usage :: "'w usage_svc \<Rightarrow> string \<Rightarrow> string \<Rightarrow> int option \<Rightarrow> ('w, usage_summary) act" where
  "tenant_usage u authorization tenant_id hours = as_admin (metadata u) authorization (\<lambda>_. usage_of u hours tenant_id)"

record usage_page =
  pg_items :: "jdict list"
  pg_total :: int
  pg_page :: int
  pg_page_size :: int
  pg_hours :: "int option"

definition records_of :: "'w usage_svc \<Rightarrow> string \<Rightarrow> int \<Rightarrow> int \<Rightarrow> int option \<Rightarrow> ('w, usage_page) act" where
  "records_of u tenant_id page page_size hours =
     (let page' = max 1 page; size' = max 1 (min page_size 200) in
      bnd (query (tenant_key_ids tenant_id)) (\<lambda>key_ids.
      bnd (cloud (window_since (metadata u) hours)) (\<lambda>since.
      bnd (cloud (query_by_subscriptions u key_ids size' ((page' - 1) * size') since)) (\<lambda>rows.
      bnd (query (key_project_map tenant_id)) (\<lambda>key_projects.
      bnd (lift_sum (record_views key_projects rows)) (\<lambda>items.
      bnd (cloud (count_by_subscriptions u key_ids since)) (\<lambda>total.
      ret \<lparr>pg_items = items, pg_total = total, pg_page = page', pg_page_size = size', pg_hours = hours\<rparr>)))))))"

definition tenant_usage_records ::
  "'w usage_svc \<Rightarrow> string \<Rightarrow> string \<Rightarrow> int \<Rightarrow> int \<Rightarrow> int option \<Rightarrow> ('w, usage_page) act" where
  "tenant_usage_records u authorization tenant_id page page_size hours =
     as_admin (metadata u) authorization (\<lambda>_. records_of u tenant_id page page_size hours)"

definition my_usage_breakdown :: "'w usage_svc \<Rightarrow> string \<Rightarrow> int \<Rightarrow> string \<Rightarrow> ('w, breakdown_payload) act" where
  "my_usage_breakdown u authorization hours by = as_tenant u authorization (breakdown_of u hours by)"

definition tenant_usage_breakdown ::
  "'w usage_svc \<Rightarrow> string \<Rightarrow> string \<Rightarrow> int \<Rightarrow> string \<Rightarrow> ('w, breakdown_payload) act" where
  "tenant_usage_breakdown u authorization tenant_id hours by =
     as_admin (metadata u) authorization (\<lambda>_. breakdown_of u hours by tenant_id)"

definition platform_usage_breakdown :: "'w usage_svc \<Rightarrow> string \<Rightarrow> int \<Rightarrow> string \<Rightarrow> ('w, breakdown_payload) act" where
  "platform_usage_breakdown u authorization hours by =
     as_admin (metadata u) authorization (\<lambda>_. bnd (cloud (usage_breakdown_payload u None hours by)) label_groups)"

section \<open>Whose documents a customer sees\<close>

definition own :: "string list \<Rightarrow> jdict \<Rightarrow> bool" where
  "own ids d \<longleftrightarrow> (\<exists>i \<in> set ids. jget d ''subscription'' = JStr i)"

definition in_window :: "string option \<Rightarrow> jdict \<Rightarrow> bool" where
  "in_window since d \<longleftrightarrow> \<not> opt_true since \<or> (\<exists>ts. jget d ''ts'' = JStr ts \<and> opt_or_empty since \<le> ts)"

text \<open>What Cosmos promises of the call-log query: the rows are stored documents with a subscription
  in the bound list and a timestamp from the bound start on, at most as many as the limit.\<close>

definition cosmos_law :: "('w \<Rightarrow> jdict list) \<Rightarrow> 'w usage_svc \<Rightarrow> bool" where
  "cosmos_law docs u \<longleftrightarrow>
     (\<forall>ids since skip n w rows w'. ids \<noteq> [] \<longrightarrow>
        cosmos_query u (fst (log_query ids since skip n)) (snd (log_query ids since skip n)) w = (Inr rows, w') \<longrightarrow>
        (\<exists>ds. rows = map JObj ds \<and> set ds \<subseteq> set (docs w) \<and> list_all (\<lambda>d. own ids d \<and> in_window since d) ds
            \<and> length ds \<le> nat n))"

lemma query_own:
  assumes "cosmos_law docs u" and "query_by_subscriptions u ids n skip since w = (Inr rows, w')"
  shows "\<exists>ds. rows = map JObj ds \<and> set ds \<subseteq> set (docs w) \<and> list_all (own ids) ds \<and> list_all (in_window since) ds"
proof (cases "\<not> has_cosmos u \<or> ids = []")
  case True
  then show ?thesis
    using assms(2) by (simp add: query_by_subscriptions_def ret_def)
next
  case False
  then have "cosmos_query u (fst (log_query ids since skip n)) (snd (log_query ids since skip n)) w = (Inr rows, w')" "ids \<noteq> []"
    using assms(2) by (simp_all add: query_by_subscriptions_def split: prod.splits)
  then obtain ds where "rows = map JObj ds" "set ds \<subseteq> set (docs w)" "list_all (\<lambda>d. own ids d \<and> in_window since d) ds"
    using assms(1) unfolding cosmos_law_def by blast
  then show ?thesis
    by (auto simp: list_all_iff)
qed

lemma usage_of_own:
  assumes "cosmos_law docs u" and "usage_of u hours tenant s = (Inr summary, s')"
  shows "\<exists>w ds. set ds \<subseteq> set (docs w) \<and> list_all (own (tenant_key_ids tenant (session s))) ds
    \<and> summarize tenant (map JObj ds) = Inr summary"
proof -
  obtain since w rows w' where q: "query_by_subscriptions u (tenant_key_ids tenant (session s)) DEFAULT_LIMIT 0 since w = (Inr rows, w')"
    and sum: "summarize tenant rows = Inr summary"
    using assms(2) by (auto simp: usage_of_def bnd_def query_def cloud_def lift_sum_def split: prod.splits sum.splits)
  from query_own [OF assms(1) q] sum show ?thesis
    by blast
qed

lemma summarize_tenant: "summarize tenant rows = Inr summary \<Longrightarrow> us_tenant_id summary = tenant"
proof -
  have "summarize_rows rows a = Inr b \<Longrightarrow> us_tenant_id b = us_tenant_id a" for a b
    by (induction rows arbitrary: a) (auto simp: bind_sum_Inr)
  then show "summarize tenant rows = Inr summary \<Longrightarrow> us_tenant_id summary = tenant"
    by (fastforce simp: summarize_def bind_sum_Inr)
qed


section \<open>A store in memory\<close>

definition mem_find :: "(string \<times> json) list \<Rightarrow> jdict list \<Rightarrow> jdict list" where
  "mem_find ps ds =
     (let ids = (case map_of ps ''@ids'' of Some (JList is) \<Rightarrow> is | _ \<Rightarrow> []);
          n = (case map_of ps ''@n'' of Some (JInt i) \<Rightarrow> nat i | _ \<Rightarrow> 0) in
      take n (filter (\<lambda>d. jget d ''subscription'' \<in> set ids
         \<and> (case map_of ps ''@since'' of Some (JStr s) \<Rightarrow> in_window (Some s) d | _ \<Rightarrow> True)) ds))"

definition mem_usage :: "jdict list \<Rightarrow> ((string \<Rightarrow> string option) \<times> bool) usage_svc" where
  "mem_usage ds = \<lparr>metadata = toy_services\<lparr>sv_settings := default_settings\<lparr>cosmos_endpoint := ''https://cosmos''\<rparr>\<rparr>,
     cosmos_query = (\<lambda>sql ps. ret (map JObj (mem_find ps ds))), cosmos_upsert = (\<lambda>d. ret ()),
     kql_query = (\<lambda>r q h. ret \<lparr>kq_success = False, kq_tables = []\<rparr>)\<rparr>"

lemma log_params:
  "ids \<noteq> [] \<Longrightarrow> map_of (snd (log_query ids since skip n)) ''@ids'' = Some (JList (map JStr ids))"
  "ids \<noteq> [] \<Longrightarrow> map_of (snd (log_query ids since skip n)) ''@n'' = Some (JInt n)"
  "ids \<noteq> [] \<Longrightarrow> map_of (snd (log_query ids since skip n)) ''@since''
     = (if opt_true since then Some (JStr (opt_or_empty since)) else None)"
  by (auto simp: log_query_def agg_where_def Let_def)

lemma mem_cosmos_law: "cosmos_law (\<lambda>_. ds) (mem_usage ds)"
  unfolding cosmos_law_def
proof (intro allI impI)
  fix ids since skip n and w :: "(string \<Rightarrow> string option) \<times> bool" and rows w'
  assume ids: "ids \<noteq> []"
    and run: "cosmos_query (mem_usage ds) (fst (log_query ids since skip n)) (snd (log_query ids since skip n)) w = (Inr rows, w')"
  let ?f = "mem_find (snd (log_query ids since skip n)) ds"
  have f: "?f = take (nat n) (filter (\<lambda>d. own ids d \<and> in_window since d) ds)"
    by (auto simp: mem_find_def log_params [OF ids] Let_def own_def in_window_def opt_true_def opt_or_empty_def
        intro!: arg_cong [of _ _ "take (nat n)"] filter_cong split: if_splits option.splits)
  have "rows = map JObj ?f"
    using run by (simp add: mem_usage_def ret_def)
  moreover have "set ?f \<subseteq> set ds" "list_all (\<lambda>d. own ids d \<and> in_window since d) ?f" "length ?f \<le> nat n"
    unfolding f by (auto simp: list_all_iff dest!: in_set_takeD)
  ultimately show "\<exists>es. rows = map JObj es \<and> set es \<subseteq> set ds \<and> list_all (\<lambda>d. own ids d \<and> in_window since d) es \<and> length es \<le> nat n"
    by blast
qed

definition two_documents :: "jdict list" where
  "two_documents = [[(''subscription'', JStr ''vk_1''), (''prompt_tok'', JInt 3), (''completion_tok'', JInt 4)],
     [(''subscription'', JStr ''vk_9''), (''prompt_tok'', JInt 50), (''completion_tok'', JInt 60)]]"


end
