(* ===== verification/UsageReads.thy ===== *)
theory UsageReads
  imports UsageApi CaptureLife
begin

text \<open>
  The way from an imported event to the numbers the portal shows: the documents that
  \<^verbatim>\<open>services/usage_capture_import.py\<close> writes, as the readers of \<^verbatim>\<open>services/usage_ingest.py\<close> and
  \<^verbatim>\<open>api/usage.py\<close> read them.
\<close>

section \<open>Amounts\<close>

lemma float_or_0_float [simp]: "float_or_0 (JFloat f) = Inr f"
  by (cases f) (auto simp: float_or_0_def j_float_def)

lemma int_or_0_int [simp]: "int_or_0 (JInt i) = Inr i"
  by (auto simp: int_or_0_def j_int_def)

lemma jget_present: "jget d k = JInt i \<Longrightarrow> dict_get d k = Some (JInt i)" "jget d k = JInt i \<Longrightarrow> jget_or d k v = JInt i"
  by (auto simp: jget_def jget_or_def split: option.splits)

lemma imported_amounts:
  assumes "event_to_document event markups now = Inr (Some d)" and "event_tokens event = Inr tokens"
  shows "\<exists>cost billed. jget d ''cost_usd'' = JFloat cost \<and> jget d ''billed_usd'' = JFloat billed
    \<and> row_amounts d = Inr (tokens, cost, billed)
    \<and> extract_tokens d = Inr (prompt_tok tokens, completion_tok tokens, cached_tok tokens)
    \<and> extract_cache_write d = Inr (cache_write_tok tokens)"
  using assms(1)
proof (rule event_to_document_Some)
  fix ts tok cost
  assume "event_tokens event = Inr tok"
    and money: "jget d ''cost_usd'' = JFloat (case cost of Some c \<Rightarrow> cost_usd c | None \<Rightarrow> FFin 0)"
      "jget d ''billed_usd'' = JFloat (case cost of Some c \<Rightarrow> billed_usd c | None \<Rightarrow> FFin 0)"
    and "jget d ''prompt_tok'' = JInt (prompt_tok tok)" "jget d ''completion_tok'' = JInt (completion_tok tok)"
      "jget d ''cached_tok'' = JInt (cached_tok tok)" "jget d ''cache_write_tok'' = JInt (cache_write_tok tok)"
  then have toks: "jget d ''prompt_tok'' = JInt (prompt_tok tokens)" "jget d ''completion_tok'' = JInt (completion_tok tokens)"
    "jget d ''cached_tok'' = JInt (cached_tok tokens)" "jget d ''cache_write_tok'' = JInt (cache_write_tok tokens)"
    using assms(2) by simp_all
  note read = toks toks [THEN jget_present(1)] toks [THEN jget_present(2)]
  show ?thesis
    using money by (simp add: read row_amounts_def row_tokens_def extract_tokens_def extract_cache_write_def)
qed



section \<open>The slot of a call\<close>

lemma py_take_prefix:
  "list_all (\<lambda>c. byte c < 128) (a @ [c]) \<Longrightarrow> py_take (length a) (a @ c # s) = a"
  by (induction a) auto

lemma ascii_pad_str: "list_all (\<lambda>c. byte c < 128) (pad_str w n)"
  by (induction w n rule: pad_str.induct) (auto intro: le_less_trans [OF conjunct2 [OF byte_digit_range]])

lemma byte_separators: "byte CHR ''-'' < 128" "byte CHR ''T'' < 128" "byte CHR '':'' < 128"
  by (simp_all add: byte_def)

lemma day_text: "list_all (\<lambda>c. byte c < 128) (date_str c)"
  by (simp add: date_str_def ascii_pad_str byte_separators)

lemma hour_text: "list_all (\<lambda>c. byte c < 128) (hour_str c)" "length (hour_str c) = 13"
  by (simp_all add: hour_str_def day_text ascii_pad_str byte_separators)

lemma label_of_text: "py_take (slot_width hours) (iso_utc x) = slot_label hours x"
proof (cases "hours \<le> HOURLY_MAX_HOURS")
  case True
  have "py_take (length (hour_str (civil_of x))) (hour_str (civil_of x) @ CHR '':'' # r) = hour_str (civil_of x)" for r
    by (rule py_take_prefix) (simp add: hour_text byte_separators)
  then show ?thesis
    using True by (simp add: slot_width_def slot_label_def fmt_hour_def iso_utc_def Let_def hour_text)
next
  case False
  have "py_take (length (date_str (civil_of x))) (date_str (civil_of x) @ CHR ''T'' # r) = date_str (civil_of x)" for r
    by (rule py_take_prefix) (simp add: day_text byte_separators)
  then show ?thesis
    using False by (simp add: slot_width_def slot_label_def fmt_day_def iso_utc_def hour_str_def Let_def)
qed

definition floor_to :: "int \<Rightarrow> int \<Rightarrow> int" where
  "floor_to step x = x - x mod step"

lemma trend_step_pos: "0 < trend_step hours"
  by (simp add: trend_step_def HOUR_def DAY_def)

lemma div_mod_step: "(x :: int) div (h * 24) = x div h div 24" "0 < h \<Longrightarrow> x mod (h * 24) div h = x div h mod 24"
  "0 < h \<Longrightarrow> h * k div (h * 24) = k div 24" "h * k mod (h * 24) = h * (k mod 24)"
proof -
  show "x div (h * 24) = x div h div 24"
    by (simp add: zdiv_zmult2_eq)
  show "x mod (h * 24) div h = x div h mod 24" if "0 < h"
    using that by (simp add: zmod_zmult2_eq)
qed (simp_all add: mult_mod_right [symmetric])

lemma floor_to_mult: "floor_to step x = step * (x div step)"
  by (simp add: floor_to_def minus_mod_eq_mult_div)

lemma DAY_HOUR: "DAY = HOUR * 24" "0 < HOUR"
  by (simp_all add: DAY_def HOUR_def)

lemma floor_hour: "floor_to HOUR x div DAY = x div DAY" "floor_to HOUR x mod DAY div HOUR = x mod DAY div HOUR"
    "floor_to HOUR x mod DAY = HOUR * (x mod DAY div HOUR)"
  unfolding floor_to_mult DAY_HOUR(1) using DAY_HOUR(2) by (simp_all add: div_mod_step)

lemma floor_day: "floor_to DAY x div DAY = x div DAY" "floor_to DAY x mod DAY = 0"
  using DAY_pos by (simp_all add: floor_to_mult)

lemma hour_fields: "HOUR * k div 3600000000 = k" "HOUR * k div 60000000 mod 60 = 0" "HOUR * k div 1000000 mod 60 = 0"
  "HOUR * k mod 1000000 = 0"
proof -
  have "HOUR * k = 60 * k * 60000000" "HOUR * k = 60 * (60 * k) * 1000000"
    by (simp_all add: HOUR_def)
  then show "HOUR * k div 60000000 mod 60 = 0" "HOUR * k div 1000000 mod 60 = 0" "HOUR * k mod 1000000 = 0"
    by (metis nonzero_mult_div_cancel_right mod_mult_self1_is_0 zero_neq_numeral)
       (metis \<open>HOUR * k = 60 * (60 * k) * 1000000\<close> nonzero_mult_div_cancel_right mod_mult_self1_is_0 zero_neq_numeral,
        metis \<open>HOUR * k = 60 * (60 * k) * 1000000\<close> mod_mult_self2_is_0)
qed (simp add: HOUR_def)

lemma civil_floor_hour: "civil_of (floor_to HOUR x) = (civil_of x)\<lparr>minute := 0, second := 0, micro := 0\<rparr>"
  by (simp add: civil_of_def Let_def floor_hour hour_fields split: prod.splits) (simp add: HOUR_def)

lemma civil_floor_day: "civil_of (floor_to DAY x) = (civil_of x)\<lparr>hour := 0, minute := 0, second := 0, micro := 0\<rparr>"
  by (simp add: civil_of_def Let_def floor_day split: prod.splits)

lemma two_zeros: "pad_str 2 0 = ''00''"
  by code_simp

lemma label_floor: "slot_label hours (floor_to (trend_step hours) x) = slot_label hours x"
  by (simp add: slot_label_def trend_step_def fmt_hour_def fmt_day_def hour_str_def date_str_def civil_floor_hour civil_floor_day)

lemma iso_floor:
  "iso_utc (floor_to (trend_step hours) x)
     = slot_label hours x @ (if hours \<le> HOURLY_MAX_HOURS then '':00:00+00:00'' else ''T00:00:00+00:00'')"
  by (simp add: slot_label_def trend_step_def fmt_hour_def fmt_day_def iso_utc_def hour_str_def date_str_def Let_def
      civil_floor_hour civil_floor_day two_zeros)

lemma floor_range: "0 \<le> x \<Longrightarrow> 0 \<le> floor_to (trend_step hours) x" "floor_to (trend_step hours) x \<le> x"
  using pos_mod_sign [OF trend_step_pos [of hours], of x] by (auto simp: floor_to_def zmod_le_nonneg_dividend)

lemma label_iff:
  assumes "0 \<le> x" "x < MAX_UTC" "0 \<le> y" "y < MAX_UTC"
  shows "slot_label hours x = slot_label hours y \<longleftrightarrow> floor_to (trend_step hours) x = floor_to (trend_step hours) y"
proof
  let ?f = "floor_to (trend_step hours)"
  assume "slot_label hours x = slot_label hours y"
  then have "iso_utc (?f x) = iso_utc (?f y)"
    by (simp add: iso_floor)
  moreover have "0 \<le> ?f x" "?f x < MAX_UTC" "0 \<le> ?f y" "?f y < MAX_UTC"
    using assms floor_range(1) [of x hours] floor_range(1) [of y hours] floor_range(2) [of hours x] floor_range(2) [of hours y] by simp_all
  ultimately show "?f x = ?f y"
    using iso_utc_le_iff [of "?f x" "?f y"] iso_utc_le_iff [of "?f y" "?f x"] by simp
next
  assume "floor_to (trend_step hours) x = floor_to (trend_step hours) y"
  then show "slot_label hours x = slot_label hours y"
    by (metis label_floor)
qed

section \<open>The trend of imported calls\<close>

text \<open>A document of a call at an instant.\<close>

definition imported :: "jdict \<Rightarrow> utc \<Rightarrow> bool" where
  "imported d x \<longleftrightarrow> (\<exists>event markups now. event_to_document event markups now = Inr (Some d))
     \<and> jget d ''ts'' = JStr (iso_utc x) \<and> 0 \<le> x \<and> x < MAX_UTC"

lemma imported_summable:
  assumes "imported d x"
  shows "summable (JObj d)"
proof -
  obtain event markups now where run: "event_to_document event markups now = Inr (Some d)"
    using assms by (auto simp: imported_def)
  then obtain tokens where "event_tokens event = Inr tokens"
    by (rule event_to_document_Some)
  from imported_amounts [OF run this] show ?thesis
    by (auto simp: summable_def accumulate_def add_row_def Let_def)
qed

definition calls_in :: "int \<Rightarrow> utc \<Rightarrow> (jdict \<times> utc) list \<Rightarrow> (jdict \<times> utc) list" where
  "calls_in hours t = filter (\<lambda>(d, x). t \<le> x \<and> x < t + trend_step hours)"

lemma slot_div:
  assumes "0 < h" and t: "h * (t div h) = (t :: int)"
  shows "h * (x div h) = t \<longleftrightarrow> t \<le> x \<and> x < t + h"
proof
  assume "h * (x div h) = t"
  then show "t \<le> x \<and> x < t + h"
    using mult_div_mod_eq [of h x] pos_mod_sign [OF assms(1), of x] pos_mod_bound [OF assms(1), of x] by linarith
next
  assume "t \<le> x \<and> x < t + h"
  moreover have "x = h * (t div h) + (x - t)"
    using t by simp
  ultimately have "x div h = t div h"
    using assms(1) by (metis add.commute add_diff_cancel_left' diff_add_cancel div_mult_self4 div_pos_pos_trivial
        diff_ge_0_iff_ge less_diff_eq add_cancel_left_right order_less_irrefl)
  then show "h * (x div h) = t"
    using t by simp
qed

lemma in_slot:
  assumes "imported d x" and t: "floor_to (trend_step hours) t = t" "0 \<le> t" "t < MAX_UTC"
  shows "in_group (slot_key (slot_width hours)) (slot_label hours t) (JObj d) \<longleftrightarrow> t \<le> x \<and> x < t + trend_step hours"
proof -
  let ?step = "trend_step hours"
  have x: "jget d ''ts'' = JStr (iso_utc x)" "0 \<le> x" "x < MAX_UTC" and pos: "0 < ?step"
    using assms(1) trend_step_pos by (auto simp: imported_def)
  have "jget_or d ''ts'' JNull = jget d ''ts''"
    by (simp add: jget_or_def jget_def)
  then have "in_group (slot_key (slot_width hours)) (slot_label hours t) (JObj d) \<longleftrightarrow> slot_label hours x = slot_label hours t"
    by (simp add: in_group_def slot_key_def j_get_def x label_of_text)
  also have "\<dots> \<longleftrightarrow> floor_to ?step x = t"
    using label_iff [OF x(2,3) t(2,3)] t(1) by simp
  also have "\<dots> \<longleftrightarrow> t \<le> x \<and> x < t + ?step"
    using slot_div [OF pos] t(1) by (simp add: floor_to_mult)
  finally show ?thesis .
qed

lemma calls_labelled:
  assumes "list_all (\<lambda>(d, x). imported d x) calls" and "floor_to (trend_step hours) t = t" "0 \<le> t" "t < MAX_UTC"
  shows "labelled hours t (map (JObj \<circ> fst) calls) = map (JObj \<circ> fst) (calls_in hours t calls)"
  using assms(1) in_slot [OF _ assms(2-4)]
  by (induction calls) (auto simp: labelled_def calls_in_def)

lemma trend_slots_grid:
  assumes "trend_slots hours now = Inr slots" and "0 \<le> now" "now < MAX_UTC"
  shows "length slots = nat (trend_count hours)" "\<forall>t \<in> set slots. floor_to (trend_step hours) t = t \<and> 0 \<le> t \<and> t < MAX_UTC"
    "\<forall>i. Suc i < length slots \<longrightarrow> slots ! Suc i = slots ! i + trend_step hours"
    "slots \<noteq> [] \<and> last slots \<le> now \<and> now < last slots + trend_step hours"
proof -
  let ?h = "trend_step hours" and ?n = "trend_count hours"
  let ?slot = "\<lambda>i. ?h * (now div ?h - (?n - 1 - int i))"
  have n: "1 \<le> ?n" and h: "0 < ?h"
    by (auto simp: trend_count_def trend_step_pos)
  have start: "now - now mod ?h = ?h * (now div ?h)"
    by (simp add: minus_mod_eq_mult_div)
  have slots: "slots = map ?slot [0..<nat ?n]" and first: "0 \<le> ?slot 0"
    using assms(1) by (auto simp: trend_slots_def Let_def start right_diff_distrib split: if_splits)
  show "length slots = nat ?n" "\<forall>i. Suc i < length slots \<longrightarrow> slots ! Suc i = slots ! i + ?h"
    by (auto simp: slots algebra_simps)
  have le: "?slot i \<le> now" if "i < nat ?n" for i
  proof -
    have "?slot i \<le> ?h * (now div ?h)"
      using h that by (intro mult_left_mono) auto
    then show ?thesis
      using start pos_mod_sign [OF h, of now] by linarith
  qed
  have "0 \<le> ?slot i" for i
  proof -
    have "?slot 0 \<le> ?slot i"
      using h by (intro mult_left_mono) auto
    with first show ?thesis by linarith
  qed
  with le show "\<forall>t \<in> set slots. floor_to ?h t = t \<and> 0 \<le> t \<and> t < MAX_UTC"
    using h assms(3) by (fastforce simp: slots floor_to_mult)
  have "last slots = ?h * (now div ?h)" "slots \<noteq> []"
    using n by (simp_all add: slots last_map)
  then show "slots \<noteq> [] \<and> last slots \<le> now \<and> now < last slots + ?h"
    using start pos_mod_sign [OF h, of now] pos_mod_bound [OF h, of now] by auto
qed

text \<open>C39: the trend puts every call into the slot of its instant.  Over imported documents the trend
  never fails, as long as its first slot is a date; it has one point for every slot of the
  window, without gaps, the last one being the slot of now, and each point counts exactly the
  calls whose instants lie in its slot, with all of their tokens, and nothing twice.\<close>

theorem trend_counts_each_call_in_its_slot:
  assumes "list_all (\<lambda>(d, x). imported d x) calls" and "trend_slots hours now = Inr slots" and "0 \<le> now" "now < MAX_UTC"
  shows "\<exists>pts. trend_of hours now (map (JObj \<circ> fst) calls) = Inr pts
    \<and> length slots = nat (trend_count hours) \<and> (\<forall>i. Suc i < length slots \<longrightarrow> slots ! Suc i = slots ! i + trend_step hours)
    \<and> last slots \<le> now \<and> now < last slots + trend_step hours
    \<and> map tp_ts pts = map iso_utc slots
    \<and> map tp_calls pts = map (\<lambda>t. int (length (calls_in hours t calls))) slots
    \<and> map tp_tokens pts = map (\<lambda>t. \<Sum>c\<leftarrow>calls_in hours t calls. all_tokens (tokens_added (JObj (fst c)))) slots"
proof -
  let ?rows = "map (JObj \<circ> fst) calls"
  note grid = trend_slots_grid [OF assms(2-4)]
  have "list_all summable ?rows"
    using assms(1) imported_summable by (fastforce simp: list_all_iff)
  from trend_points [OF this assms(2)] obtain pts where pts: "trend_of hours now ?rows = Inr pts"
    "list_all2 (\<lambda>t p. \<exists>b. accumulate_all blank (labelled hours t ?rows) = Inr b \<and> p = point_of (Some b) t) slots pts"
    by blast
  have "list_all2 (\<lambda>t p. tp_ts p = iso_utc t \<and> tp_calls p = int (length (calls_in hours t calls))
      \<and> tp_tokens p = (\<Sum>c\<leftarrow>calls_in hours t calls. all_tokens (tokens_added (JObj (fst c))))) slots pts"
  proof (rule list.rel_mono_strong [OF pts(2)])
    fix t p
    assume "t \<in> set slots" and "\<exists>b. accumulate_all blank (labelled hours t ?rows) = Inr b \<and> p = point_of (Some b) t"
    then obtain b where b: "accumulate_all blank (map (JObj \<circ> fst) (calls_in hours t calls)) = Inr b" and p: "p = point_of (Some b) t"
      using grid(2) calls_labelled [OF assms(1)] by auto
    show "tp_ts p = iso_utc t \<and> tp_calls p = int (length (calls_in hours t calls))
      \<and> tp_tokens p = (\<Sum>c\<leftarrow>calls_in hours t calls. all_tokens (tokens_added (JObj (fst c))))"
      using calls.total [OF b] tokens.total [OF b]
      by (simp add: p point_of_def blank_def zero_tokens_def all_tokens_def sum_list_triv comp_def)
  qed
  then have "map tp_ts pts = map iso_utc slots" "map tp_calls pts = map (\<lambda>t. int (length (calls_in hours t calls))) slots"
    "map tp_tokens pts = map (\<lambda>t. \<Sum>c\<leftarrow>calls_in hours t calls. all_tokens (tokens_added (JObj (fst c)))) slots"
    by (induction rule: list_all2_induct) auto
  with pts(1) grid show ?thesis
    by blast
qed

theorem trend_counts_each_call_in_its_slot_witness:
  "\<exists>pts slots. trend_slots 6 63921139200000000 = Inr slots \<and> length slots = 6
     \<and> trend_of 6 63921139200000000 [JObj sample_document] = Inr pts
     \<and> map tp_calls pts = map (\<lambda>t. int (length (calls_in 6 t [(sample_document, 63921139200000000)]))) slots"
proof -
  have "jget sample_document ''ts'' = JStr (iso_utc 63921139200000000)"
    using event_to_document_Some [OF sample_document_eq] by (auto simp: sample_event_def parse_ts_def elim!: event_to_document_Some)
  then have d: "list_all (\<lambda>(d, x). imported d x) [(sample_document, 63921139200000000)]"
    using sample_document_eq by (auto simp: imported_def MAX_UTC_def DAY_def)
  obtain slots where slots: "trend_slots 6 63921139200000000 = Inr slots"
    by (simp add: trend_slots_def trend_count_def trend_step_def HOURLY_MAX_HOURS_def HOUR_def Let_def)
  have six: "trend_count 6 = 6"
    by (simp add: trend_count_def HOURLY_MAX_HOURS_def)
  from trend_counts_each_call_in_its_slot [OF d slots] slots six show ?thesis
    by (auto simp: MAX_UTC_def DAY_def)
qed

end
