(* ===== verification/Telemetry.thy ===== *)
theory Telemetry
  imports UsageApi
begin

text \<open>
  Telemetry from Application Insights (\<^verbatim>\<open>AppInsightsUsage\<close> and \<^verbatim>\<open>_parse_usage_tokens\<close> of
  \<^verbatim>\<open>services/usage_ingest.py\<close>): the KQL texts, the best-effort queries, and the tables folded
  into what the portal shows.

  A cell of an answer is a JSON value; a timestamp is the text \<^verbatim>\<open>str\<close> gives of it.  The value of
  a dimension used as a key is text.
\<close>

section \<open>The tokens of a raw usage object\<close>

text \<open>\<^verbatim>\<open>_i\<close>: a value that is no number counts as zero; an infinite one still raises.\<close>

definition int_or_zero :: "json \<Rightarrow> exn + int" where
  "int_or_zero v =
     (case j_int v of
        Inr i \<Rightarrow> Inr i
      | Inl (ValueError _) \<Rightarrow> Inr 0
      | Inl (TypeError _) \<Rightarrow> Inr 0
      | Inl e \<Rightarrow> Inl e)"

record usage_tokens =
  ut_total :: int
  ut_prompt :: int
  ut_completion :: int
  ut_cached :: int
  ut_reasoning :: int
  ut_cache_creation :: int
  ut_accepted_prediction :: int
  ut_rejected_prediction :: int
  ut_prompt_audio :: int
  ut_completion_audio :: int

definition no_usage :: usage_tokens where
  "no_usage = \<lparr>ut_total = 0, ut_prompt = 0, ut_completion = 0, ut_cached = 0, ut_reasoning = 0, ut_cache_creation = 0,
     ut_accepted_prediction = 0, ut_rejected_prediction = 0, ut_prompt_audio = 0, ut_completion_audio = 0\<rparr>"

text \<open>\<^verbatim>\<open>a or b\<close> where \<^verbatim>\<open>b\<close> may raise.\<close>

definition or_else :: "exn + json \<Rightarrow> exn + json \<Rightarrow> exn + json" where
  "or_else a b = bind_sum a (\<lambda>v. if truthy v then Inr v else b)"

definition parse_details :: "jdict \<Rightarrow> exn + usage_tokens" where
  "parse_details u =
     (let pd = py_or (jget u ''prompt_tokens_details'') (JObj []);
          cd = py_or (jget u ''completion_tokens_details'') (JObj []);
          od = py_or (jget u ''output_tokens_details'') (JObj []) in
      bind_sum (int_or_zero (jget_or u ''input_tokens'' (jget_or u ''prompt_tokens'' (JInt 0)))) (\<lambda>prompt.
      bind_sum (int_or_zero (jget_or u ''output_tokens'' (jget_or u ''completion_tokens'' (JInt 0)))) (\<lambda>completion.
      bind_sum (or_else (Inr (jget u ''cache_read_input_tokens'')) (or_else (j_get pd ''cached_tokens'' JNull) (Inr (JInt 0)))) (\<lambda>c.
      bind_sum (int_or_zero c) (\<lambda>cached.
      bind_sum (int_or_zero (jget_or u ''cache_creation_input_tokens'' (JInt 0))) (\<lambda>cache_creation.
      bind_sum (or_else (Inr (jget u ''reasoning_tokens'')) (or_else (j_get cd ''reasoning_tokens'' JNull)
        (or_else (j_get od ''reasoning_tokens'' JNull) (Inr (JInt 0))))) (\<lambda>r.
      bind_sum (int_or_zero r) (\<lambda>reasoning.
      bind_sum (bind_sum (j_get cd ''accepted_prediction_tokens'' (JInt 0)) int_or_zero) (\<lambda>accepted.
      bind_sum (bind_sum (j_get cd ''rejected_prediction_tokens'' (JInt 0)) int_or_zero) (\<lambda>rejected.
      bind_sum (bind_sum (j_get pd ''audio_tokens'' (JInt 0)) int_or_zero) (\<lambda>prompt_audio.
      bind_sum (bind_sum (j_get cd ''audio_tokens'' (JInt 0)) int_or_zero) (\<lambda>completion_audio.
      Inr \<lparr>ut_total = 0, ut_prompt = prompt, ut_completion = completion, ut_cached = cached, ut_reasoning = reasoning,
           ut_cache_creation = cache_creation, ut_accepted_prediction = accepted, ut_rejected_prediction = rejected,
           ut_prompt_audio = prompt_audio, ut_completion_audio = completion_audio\<rparr>))))))))))))"

definition settle_total :: "int \<Rightarrow> usage_tokens \<Rightarrow> usage_tokens" where
  "settle_total upstream_total t =
     (let t' = (if ut_completion t = 0 \<and> 0 < ut_reasoning t then t\<lparr>ut_completion := ut_reasoning t\<rparr> else t) in
      t'\<lparr>ut_total := (if 0 < upstream_total then upstream_total
                     else ut_prompt t' + ut_completion t' + ut_cached t' + ut_cache_creation t')\<rparr>)"

definition parse_usage_tokens :: "json \<Rightarrow> exn + usage_tokens" where
  "parse_usage_tokens usage_json =
     (case usage_json of
        JStr s \<Rightarrow>
          if s = [] \<or> s \<in> {''BODY_READ_FAILED'', ''NO_USAGE_KEY''} then Inr no_usage
          else (case loads s of
            Some (JObj u) \<Rightarrow>
              bind_sum (parse_details u) (\<lambda>t.
              bind_sum (int_or_zero (jget_or u ''total_tokens'' (JInt 0))) (\<lambda>n. Inr (settle_total n t)))
          | _ \<Rightarrow> Inr no_usage)
      | _ \<Rightarrow> Inr no_usage)"

section \<open>Queries\<close>

definition insights :: "'w usage_svc \<Rightarrow> string" where
  "insights u = app_insights_resource_id (sv_settings (metadata u))"

definition has_insights :: "'w usage_svc \<Rightarrow> bool" where
  "has_insights u \<longleftrightarrow> insights u \<noteq> []"

text \<open>\<^verbatim>\<open>dict(zip(columns, row))\<close>.\<close>

definition row_dict :: "string list \<Rightarrow> json list \<Rightarrow> jdict" where
  "row_dict columns row = fold (\<lambda>(k, v) d. dict_set d k v) (zip columns row) []"

definition run_kql :: "'w usage_svc \<Rightarrow> string \<Rightarrow> int \<Rightarrow> ('w, jdict list) eff" where
  "run_kql u kql hours =
     (if \<not> has_insights u then ret []
      else
        catch_exn
          (bnd (kql_query u (insights u) kql hours) (\<lambda>response.
           ret (case kq_tables response of
                  (columns, rows) # _ \<Rightarrow> if kq_success response then map (row_dict columns) rows else []
                | [] \<Rightarrow> [])))
          (\<lambda>_. ret []))"

text \<open>The texts, line by line.\<close>

definition kql_text :: "string list \<Rightarrow> string" where
  "kql_text ls = concat (map (\<lambda>l. CHR 0x0A # ''        '' @ l) ls)"

definition LLM_REQUESTS :: "string list" where
  "LLM_REQUESTS = [''requests'', ''| where name startswith '' @ [CHR 0x27] @ ''POST /llm-'' @ [CHR 0x27]]"

definition BASE_KQL :: string where
  "BASE_KQL = kql_text (LLM_REQUESTS @ [''| summarize calls = count(),'', ''            p50 = percentile(duration, 50),'',
     ''            p95 = percentile(duration, 95),'', ''            failures = countif(toint(resultCode) >= 400)'',
     ''            by name'', ''| order by calls desc'', []])"

definition SPLIT_KQL :: string where
  "SPLIT_KQL = kql_text ([''let deps = dependencies'', ''    | summarize depDur = sum(duration) by opId = operation_Id;'']
     @ LLM_REQUESTS @ [''| project opId = operation_Id, name, reqDur = duration'', ''| join kind=leftouter deps on opId'',
     ''| extend backendDur = coalesce(depDur, 0.0)'', ''| extend gatewayDur = reqDur - backendDur'',
     ''| summarize gateway_p50 = percentile(gatewayDur, 50),'', ''            backend_p50 = percentile(backendDur, 50)'',
     ''            by name'', []])"

definition CODES_KQL :: string where
  "CODES_KQL = kql_text (LLM_REQUESTS @ [''| summarize calls = count() by resultCode'', ''| order by calls desc'', []])"

definition trend_kql :: "int \<Rightarrow> string" where
  "trend_kql hours = kql_text (LLM_REQUESTS @ [''| make-series calls = count() default = 0'',
     ''    on timestamp from ago('' @ int_str hours @ ''h) to now() step '' @ (if hours \<le> HOURLY_MAX_HOURS then ''1h'' else ''1d''),
     ''| mv-expand timestamp to typeof(datetime), calls to typeof(long)'', ''| order by timestamp asc'', []])"

section \<open>Request telemetry\<close>

record telemetry =
  tl_by_api :: "jdict list"
  tl_total_calls :: int
  tl_total_ok :: int
  tl_total_failures :: int
  tl_by_status :: "(string \<times> int) list"
  tl_by_hour :: "(string \<times> int) list"
  tl_bucket :: string
  tl_hours :: int

definition empty_telemetry :: "int \<Rightarrow> telemetry" where
  "empty_telemetry hours = \<lparr>tl_by_api = [], tl_total_calls = 0, tl_total_ok = 0, tl_total_failures = 0, tl_by_status = [],
     tl_by_hour = [], tl_bucket = trend_bucket hours, tl_hours = hours\<rparr>"

definition count_in :: "string \<Rightarrow> jdict \<Rightarrow> exn + int" where
  "count_in k r = int_or_0 (jget_or r k (JInt 0))"

fun sum_of :: "('a \<Rightarrow> exn + int) \<Rightarrow> 'a list \<Rightarrow> exn + int" where
  "sum_of f [] = Inr 0"
| "sum_of f (x # xs) = bind_sum (f x) (\<lambda>n. bind_sum (sum_of f xs) (\<lambda>m. Inr (n + m)))"

fun map_sum :: "('a \<Rightarrow> exn + 'b) \<Rightarrow> 'a list \<Rightarrow> exn + 'b list" where
  "map_sum f [] = Inr []"
| "map_sum f (x # xs) = bind_sum (f x) (\<lambda>y. bind_sum (map_sum f xs) (\<lambda>ys. Inr (y # ys)))"

text \<open>The last row of a name wins.\<close>

definition split_of :: "jdict list \<Rightarrow> json \<Rightarrow> jdict option" where
  "split_of splits name = List.find (\<lambda>r. jget r ''name'' = name) (rev splits)"

definition with_split :: "jdict list \<Rightarrow> jdict \<Rightarrow> jdict" where
  "with_split splits row =
     (let split = (case split_of splits (jget row ''name'') of Some r \<Rightarrow> if r \<noteq> [] then r else [] | None \<Rightarrow> []) in
      dict_set (dict_set row ''gateway_p50'' (jget split ''gateway_p50'')) ''backend_p50'' (jget split ''backend_p50''))"

definition status_row :: "jdict \<Rightarrow> exn + string \<times> int" where
  "status_row r = bind_sum (count_in ''calls'' r) (\<lambda>n. Inr (py_str (py_or (jget r ''resultCode'') (JStr ''?'')), n))"

definition hour_row :: "jdict \<Rightarrow> exn + string \<times> int" where
  "hour_row r = bind_sum (count_in ''calls'' r) (\<lambda>n. Inr (py_str (jget r ''timestamp''), n))"

definition request_telemetry :: "'w usage_svc \<Rightarrow> int \<Rightarrow> ('w, telemetry) eff" where
  "request_telemetry u hours =
     (if \<not> has_insights u then ret (empty_telemetry hours)
      else
        bnd (run_kql u BASE_KQL hours) (\<lambda>base.
        if base = [] then ret (empty_telemetry hours)
        else
          bnd (run_kql u SPLIT_KQL hours) (\<lambda>splits.
          bnd (run_kql u CODES_KQL hours) (\<lambda>codes.
          bnd (lift_sum (map_sum status_row codes)) (\<lambda>by_status.
          bnd (run_kql u (trend_kql hours) hours) (\<lambda>points.
          bnd (lift_sum (map_sum hour_row points)) (\<lambda>by_hour.
          let by_api = map (with_split splits) base in
          bnd (lift_sum (sum_of (count_in ''calls'') by_api)) (\<lambda>total.
          bnd (lift_sum (sum_of (count_in ''failures'') by_api)) (\<lambda>failures.
          ret \<lparr>tl_by_api = by_api, tl_total_calls = total, tl_total_ok = total - failures, tl_total_failures = failures,
               tl_by_status = by_status, tl_by_hour = by_hour, tl_bucket = trend_bucket hours, tl_hours = hours\<rparr>)))))))))"

definition usage_telemetry :: "'w usage_svc \<Rightarrow> string \<Rightarrow> int \<Rightarrow> ('w, telemetry) act" where
  "usage_telemetry u authorization hours =
     as_admin (metadata u) authorization (\<lambda>_. cloud (request_telemetry u (clamp_hours hours)))"

section \<open>Token metrics\<close>

definition TOKEN_METRICS :: "(string \<times> string) list" where
  "TOKEN_METRICS = [(''total'', ''Total Tokens''), (''prompt'', ''Prompt Tokens''), (''cached'', ''Prompt Cached Tokens''),
     (''completion'', ''Completion Tokens''), (''reasoning'', ''Completion Reasoning Tokens''),
     (''accepted_prediction'', ''Completion Accepted Prediction Tokens''),
     (''rejected_prediction'', ''Completion Rejected Prediction Tokens''), (''prompt_audio'', ''Prompt Audio Tokens''),
     (''completion_audio'', ''Completion Audio Tokens'')]"

definition TOKEN_KEYS :: "string list" where
  "TOKEN_KEYS = [''total'', ''prompt'', ''cached'', ''completion'', ''reasoning'', ''cache_creation'', ''accepted_prediction'',
     ''rejected_prediction'', ''prompt_audio'', ''completion_audio'']"

definition GROUP_DIMS :: "(string \<times> string) list" where
  "GROUP_DIMS = [(''model'', ''model''), (''api'', ''api''), (''subscription'', ''subscription'')]"

definition double_quoted :: "string list \<Rightarrow> string" where
  "double_quoted xs = join '', '' (map (\<lambda>x. [CHR 0x22] @ x @ [CHR 0x22]) xs)"

definition dimension :: "string \<Rightarrow> string" where
  "dimension k = ''tostring(customDimensions['' @ [CHR 0x27] @ k @ [CHR 0x27] @ ''])''"

definition sub_filter :: "string list option \<Rightarrow> string" where
  "sub_filter subscription_ids =
     (case subscription_ids of
        Some (i # is) \<Rightarrow> ''| extend subscription = '' @ dimension ''subscription'' @ '' | where subscription in (''
          @ double_quoted (i # is) @ '') ''
      | _ \<Rightarrow> [])"

definition metric_names_kql :: string where
  "metric_names_kql = ''| where name in ('' @ double_quoted (map snd TOKEN_METRICS) @ '') ''"

record metric_bucket =
  mt_calls :: int
  mt_tokens :: "(string, int) dict"

definition blank_metrics :: metric_bucket where
  "blank_metrics = \<lparr>mt_calls = 0, mt_tokens = map (\<lambda>k. (k, 0)) TOKEN_KEYS\<rparr>"

definition metrics_at :: "(string, metric_bucket) dict \<Rightarrow> string \<Rightarrow> metric_bucket" where
  "metrics_at d k = (case dict_get d k of None \<Rightarrow> blank_metrics | Some b \<Rightarrow> b)"

definition key_of_metric :: "json \<Rightarrow> string option" where
  "key_of_metric v = (case v of JStr m \<Rightarrow> map_of (map (\<lambda>(k, n). (n, k)) TOKEN_METRICS) m | _ \<Rightarrow> None)"

definition add_metric :: "jdict \<Rightarrow> metric_bucket \<Rightarrow> exn + metric_bucket" where
  "add_metric r b =
     (let metric = jget_or r ''metric'' (JStr []) in
      bind_sum (case key_of_metric metric of
          None \<Rightarrow> Inr b
        | Some key \<Rightarrow> bind_sum (count_in ''tokens'' r) (\<lambda>n. Inr (b\<lparr>mt_tokens := dict_set (mt_tokens b) key n\<rparr>))) (\<lambda>b'.
      if jget r ''metric'' = JStr ''Total Tokens''
      then bind_sum (count_in ''calls'' r) (\<lambda>n. Inr (b'\<lparr>mt_calls := n\<rparr>)) else Inr b'))"

fun pivot :: "(jdict \<Rightarrow> string) \<Rightarrow> (jdict \<Rightarrow> metric_bucket \<Rightarrow> exn + metric_bucket) \<Rightarrow> jdict list
    \<Rightarrow> (string, metric_bucket) dict \<Rightarrow> exn + (string, metric_bucket) dict" where
  "pivot key add [] d = Inr d"
| "pivot key add (r # rs) d = bind_sum (add r (metrics_at d (key r))) (\<lambda>b. pivot key add rs (dict_set d (key r) b))"

definition text_key :: "string \<Rightarrow> jdict \<Rightarrow> string" where
  "text_key field r = py_str (py_or (jget r field) (JStr ''unknown''))"

definition total_of :: "string \<times> metric_bucket \<Rightarrow> int" where
  "total_of x = (case dict_get (mt_tokens (snd x)) ''total'' of Some n \<Rightarrow> n | None \<Rightarrow> 0)"

definition biggest :: "(string, metric_bucket) dict \<Rightarrow> (string \<times> metric_bucket) list" where
  "biggest = sort_desc (\<lambda>x y. total_of x < total_of y)"

definition metrics_kql :: "string list option \<Rightarrow> string \<Rightarrow> string" where
  "metrics_kql subscription_ids field =
     ''customMetrics '' @ metric_names_kql @ sub_filter subscription_ids
       @ ''| extend '' @ field @ '' = '' @ dimension field
       @ '' | summarize tokens = sum(valueSum), calls = sum(valueCount) by metric = name, '' @ field
       @ '' | order by '' @ field @ '' asc''"

text \<open>One call of a trace: its tokens are added, key by key.\<close>

definition tokens_list :: "usage_tokens \<Rightarrow> (string \<times> int) list" where
  "tokens_list t = [(''total'', ut_total t), (''prompt'', ut_prompt t), (''completion'', ut_completion t),
     (''cached'', ut_cached t), (''reasoning'', ut_reasoning t), (''cache_creation'', ut_cache_creation t),
     (''accepted_prediction'', ut_accepted_prediction t), (''rejected_prediction'', ut_rejected_prediction t),
     (''prompt_audio'', ut_prompt_audio t), (''completion_audio'', ut_completion_audio t)]"

definition add_trace :: "jdict \<Rightarrow> metric_bucket \<Rightarrow> exn + metric_bucket" where
  "add_trace r b =
     bind_sum (parse_usage_tokens (jget r ''usage'')) (\<lambda>t.
     Inr \<lparr>mt_calls = mt_calls b + 1,
          mt_tokens = fold (\<lambda>(k, v) d. dict_set d k ((case dict_get d k of Some n \<Rightarrow> n | None \<Rightarrow> 0) + v)) (tokens_list t) (mt_tokens b)\<rparr>)"

definition traces_kql :: "string list option \<Rightarrow> string" where
  "traces_kql subscription_ids =
     ''traces | where message startswith '' @ [CHR 0x22] @ ''llm-usage '' @ [CHR 0x22] @ '' ''
       @ (case subscription_ids of None \<Rightarrow> []
          | Some is \<Rightarrow> ''| where '' @ dimension ''subscription'' @ '' in ('' @ double_quoted is @ '') '')
       @ ''| extend hub = '' @ dimension ''hub'' @ '', usage = '' @ dimension ''usage''
       @ '' | project hub, usage | take 100000''"

definition backend_breakdown :: "'w usage_svc \<Rightarrow> string list option \<Rightarrow> int \<Rightarrow> ('w, (string \<times> metric_bucket) list) eff" where
  "backend_breakdown u subscription_ids hours =
     (if subscription_ids = Some [] then ret []
      else
        bnd (run_kql u (traces_kql subscription_ids) hours) (\<lambda>rows.
        lift_sum (bind_sum (pivot (text_key ''hub'') add_trace rows []) (\<lambda>d. Inr (biggest d)))))"

definition token_usage_breakdown ::
  "'w usage_svc \<Rightarrow> string list option \<Rightarrow> int \<Rightarrow> string \<Rightarrow> ('w, (string \<times> metric_bucket) list) eff" where
  "token_usage_breakdown u subscription_ids hours group_by =
     (if \<not> has_insights u then ret []
      else if group_by = ''backend'' then backend_breakdown u subscription_ids hours
      else case map_of GROUP_DIMS group_by of
        None \<Rightarrow> ret []
      | Some field \<Rightarrow>
          bnd (run_kql u (metrics_kql subscription_ids field) hours) (\<lambda>rows.
          lift_sum (bind_sum (pivot (text_key field) add_metric rows []) (\<lambda>d. Inr (biggest d)))))"

definition usage_point :: "jdict \<Rightarrow> exn + string \<times> int \<times> int" where
  "usage_point r =
     bind_sum (count_in ''tokens'' r) (\<lambda>t. bind_sum (count_in ''calls'' r) (\<lambda>c. Inr (py_str (jget r ''timestamp''), t, c)))"

definition usage_trend_kql :: "string list option \<Rightarrow> int \<Rightarrow> int \<Rightarrow> string" where
  "usage_trend_kql subscription_ids hours bucket_minutes =
     ''customMetrics | where name == '' @ [CHR 0x22] @ ''Total Tokens'' @ [CHR 0x22] @ '' '' @ sub_filter subscription_ids
       @ ''| make-series tokens = sum(valueSum) default = 0, calls = sum(valueCount) default = 0 on timestamp from ago(''
       @ int_str hours @ ''h) to now() step '' @ int_str bucket_minutes
       @ ''m | mv-expand timestamp to typeof(datetime), tokens to typeof(long), calls to typeof(long) | order by timestamp asc''"

definition token_usage_trend ::
  "'w usage_svc \<Rightarrow> string list option \<Rightarrow> int \<Rightarrow> int \<Rightarrow> ('w, (string \<times> int \<times> int) list) eff" where
  "token_usage_trend u subscription_ids hours bucket_minutes =
     (if \<not> has_insights u then ret []
      else bnd (run_kql u (usage_trend_kql subscription_ids hours bucket_minutes) hours) (\<lambda>rows. lift_sum (map_sum usage_point rows)))"

section \<open>Telemetry is best effort\<close>

text \<open>What the KQL texts promise: the columns they name as counts hold numbers.\<close>

definition counted :: "jdict \<Rightarrow> bool" where
  "counted r \<longleftrightarrow> (\<exists>n. count_in ''calls'' r = Inr n) \<and> (\<exists>n. count_in ''failures'' r = Inr n)"

definition numeric_counts :: "'w usage_svc \<Rightarrow> bool" where
  "numeric_counts u \<longleftrightarrow>
     (\<forall>q hours w a w'. kql_query u (insights u) q hours w = (Inr a, w') \<longrightarrow>
        (\<forall>(columns, rows) \<in> set (kq_tables a). \<forall>row \<in> set rows. counted (row_dict columns row)))"

lemma run_kql_returns:
  assumes "numeric_counts u"
  shows "\<exists>rows w'. run_kql u q hours w = (Inr rows, w') \<and> list_all counted rows"
proof -
  obtain r w' where run: "kql_query u (insights u) q hours w = (r, w')"
    by fastforce
  show ?thesis
  proof (cases r)
    case (Inl e)
    then show ?thesis
      using run by (simp add: run_kql_def catch_exn_def bnd_def ret_def)
  next
    case (Inr a)
    then have "\<forall>(columns, rows) \<in> set (kq_tables a). \<forall>row \<in> set rows. counted (row_dict columns row)"
      using assms run unfolding numeric_counts_def by blast
    then show ?thesis
      using run Inr by (cases "kq_tables a") (auto simp: run_kql_def catch_exn_def bnd_def ret_def list_all_iff)
  qed
qed

lemma sum_of_returns: "list_all (\<lambda>x. \<exists>n. f x = Inr n) xs \<Longrightarrow> \<exists>n. sum_of f xs = Inr n"
  by (induction xs) auto

lemma map_sum_returns: "list_all (\<lambda>x. \<exists>y. f x = Inr y) xs \<Longrightarrow> \<exists>ys. map_sum f xs = Inr ys \<and> length ys = length xs"
  by (induction xs) auto

lemma counted_with_split [simp]: "counted (with_split splits r) = counted r"
  by (simp add: counted_def count_in_def with_split_def Let_def jget_or_def dict_get_set)

lemma counted_rows: "counted r \<Longrightarrow> \<exists>y. status_row r = Inr y" "counted r \<Longrightarrow> \<exists>y. hour_row r = Inr y"
  by (auto simp: counted_def status_row_def hour_row_def)



end
