(* ===== verification/Startup.thy ===== *)
theory Startup
  imports ControlPlane HubStore
begin

text \<open>
  What is fixed when the two servers start: the pauses of the control plane's timers, the access lines it
  drops, the files of the portal (\<^verbatim>\<open>main.py\<close>), and the settings a hub reads from its environment
  (\<^verbatim>\<open>hub/config.py\<close>).
\<close>

section \<open>The control plane\<close>

text \<open>\<^verbatim>\<open>_DropHealthProbeAccessLogs.filter\<close>: the arguments of a log record, when they are a tuple; an argument that
  is no text is \<^verbatim>\<open>None\<close>.\<close>

definition PROBE_PATHS :: "string list" where
  "PROBE_PATHS = [''/healthz'', ''/readyz'', ''/livez'']"

definition keeps_log_line :: "string option list option \<Rightarrow> bool" where
  "keeps_log_line args =
     (case args of
        Some (_ # _ # Some path # _) \<Rightarrow> path \<notin> set PROBE_PATHS
      | _ \<Rightarrow> True)"

text \<open>The pause before the first pass of a timer, and the one between two passes, in seconds.\<close>

definition import_pauses :: "settings \<Rightarrow> int \<times> int" where
  "import_pauses s = (let interval = max (usage_capture_interval_seconds s) 60 in (interval, interval))"

definition status_pauses :: "settings \<Rightarrow> int \<times> int" where
  "status_pauses s = (let interval = max (hub_status_interval_seconds s) 60 in (interval div 2, interval))"

lemma timers_never_spin:
  "60 \<le> fst (import_pauses s)" "60 \<le> snd (import_pauses s)" "30 \<le> fst (status_pauses s)" "60 \<le> snd (status_pauses s)"
  by (simp_all add: import_pauses_def status_pauses_def Let_def)

definition allow_origins :: "settings \<Rightarrow> string list" where
  "allow_origins s = (if is_local s then [''http://localhost:5173''] else [])"

text \<open>\<^verbatim>\<open>base / p\<close> of \<^verbatim>\<open>pathlib\<close>: an absolute right side replaces the left one.  The file system is a parameter; it
  resolves \<^verbatim>\<open>..\<close>, which \<^verbatim>\<open>pathlib\<close> keeps.\<close>

definition path_join :: "string \<Rightarrow> string \<Rightarrow> string" where
  "path_join base p = (if starts_with p ''/'' then p else base @ ''/'' @ p)"

definition spa_fallback :: "string \<Rightarrow> (string \<Rightarrow> bool) \<Rightarrow> string \<Rightarrow> string" where
  "spa_fallback static_dir is_file full_path =
     (let candidate = path_join static_dir full_path in
      if full_path \<noteq> [] \<and> is_file candidate then candidate else path_join static_dir ''index.html'')"

text \<open>A file of the server is served, whatever the directory of the portal: the path after the first slash
  of \<^verbatim>\<open>GET //etc/passwd\<close> is absolute, and one that climbs out of the directory is taken as it is.\<close>

lemma any_file_is_served:
  "starts_with p ''/'' \<Longrightarrow> is_file p \<Longrightarrow> spa_fallback static_dir is_file p = p"
  "is_file (static_dir @ ''/../'' @ p) \<Longrightarrow> spa_fallback static_dir is_file (''../'' @ p) = static_dir @ ''/../'' @ p"
  by (auto simp: spa_fallback_def path_join_def starts_with_def Let_def)

section \<open>A hub's environment\<close>

type_synonym env = "(string, string) dict"

text \<open>The file \<^verbatim>\<open>.env\<close> does not override what is set.\<close>

definition setdefault_all :: "(string \<times> string) list \<Rightarrow> env \<Rightarrow> env" where
  "setdefault_all given e = fold (\<lambda>(k, v) d. if dict_get d k = None then dict_set d k v else d) given e"

definition env_text :: "env \<Rightarrow> string \<Rightarrow> string" where
  "env_text e k = strip (opt_or_empty (dict_get e k))"

definition env_bool :: "env \<Rightarrow> string \<Rightarrow> bool \<Rightarrow> bool" where
  "env_bool e k dflt =
     (case dict_get e k of None \<Rightarrow> dflt | Some v \<Rightarrow> lower (strip v) \<in> {''1'', ''true'', ''yes'', ''on''})"

definition env_int :: "env \<Rightarrow> string \<Rightarrow> int \<Rightarrow> int" where
  "env_int e k dflt =
     (case dict_get e k of
        None \<Rightarrow> dflt
      | Some v \<Rightarrow> if strip v = [] then dflt else (case py_int_of_str (strip v) of Some i \<Rightarrow> i | None \<Rightarrow> dflt))"

definition guard_of :: "env \<Rightarrow> guard_cfg" where
  "guard_of e =
     \<lparr>gc_require_auth = env_bool e ''HUB_REQUIRE_AUTH'' False, gc_admin_token = env_text e ''HUB_ADMIN_TOKEN'',
      gc_hub_api_key = env_text e ''HUB_API_KEY'', gc_max_fails = env_int e ''HUB_LOGIN_MAX_FAILS'' 5,
      gc_lock_seconds = env_int e ''HUB_LOGIN_LOCK_SECONDS'' (15 * 60)\<rparr>"

definition version_of :: "env \<Rightarrow> string" where
  "version_of e = (let v = env_text e ''HUB_ANTHROPIC_VERSION'' in if v \<noteq> [] then v else ''2023-06-01'')"

definition oauth_of :: "env \<Rightarrow> string" where
  "oauth_of e = env_text e ''COPILOT_OAUTH_TOKEN''"

text \<open>The event settings; \<^verbatim>\<open>_float\<close> of the base delay is the argument.\<close>

definition events_of :: "pyfloat \<Rightarrow> env \<Rightarrow> hub_cfg" where
  "events_of base e =
     \<lparr>hc_hub_id = env_text e ''TF_HUB_ID'', hc_eventhub_fqdn = env_text e ''TF_EVENTHUB_FQDN'',
      hc_eventhub_name = env_text e ''TF_EVENTHUB_NAME'', hc_retry_max_queue = env_int e ''TF_EVENTHUB_RETRY_MAX_QUEUE'' 1000,
      hc_retry_max_attempts = env_int e ''TF_EVENTHUB_RETRY_MAX_ATTEMPTS'' 6, hc_retry_base_seconds = base\<rparr>"

definition audit_enabled :: "env \<Rightarrow> bool" where
  "audit_enabled e \<longleftrightarrow> env_text e ''TF_AUDIT_ACCOUNT_URL'' \<noteq> [] \<and> env_text e ''TF_AUDIT_CONTAINER'' \<noteq> []"

lemma setdefault_keeps: "dict_get e k = Some v \<Longrightarrow> dict_get (setdefault_all given e) k = Some v"
proof (induction given arbitrary: e)
  case (Cons p given)
  obtain a b where p: "p = (a, b)"
    by (cases p)
  let ?e = "if dict_get e a = None then dict_set e a b else e"
  have "dict_get ?e k = Some v"
    using Cons.prems by (auto simp: dict_get_set)
  then show ?case
    using Cons.IH [of ?e] by (simp add: p setdefault_all_def)
qed (simp add: setdefault_all_def)

text \<open>A hub without settings asks nobody for a key, manages for nobody, sends no usage and archives nothing.\<close>

lemma bare_hub:
  "check_client_auth (guard_of []) (set_oauth_token t empty_store) h = Inr (extract_client_key h)"
  "fst (check_admin (guard_of []) now token []) = Inl (HTTPException 401 ''Admin login required'')"
  "\<not> eventhub_enabled (events_of base [])" "\<not> audit_enabled []" "oauth_of [] = []"
  by (simp_all add: check_client_auth_def guard_of_def env_bool_def env_text_def get_require_auth_def get_setting_def
      set_oauth_token_def empty_store_def check_admin_def valid_session_def eventhub_enabled_def events_of_def audit_enabled_def
      oauth_of_def opt_or_empty_def strip_def Let_def dict_get_set split: option.splits)

end
