(* ===== verification/Spec2Isabelle.thy ===== *)
theory Spec2Isabelle
  imports Billing CaptureLife KeyLimits ApimPools ControlPlane HubDeploy FleetLife DeployConfig
    HubEventsLife HubApi UsageFlow UsageReads Telemetry Startup
begin

text \<open>
  A verification library for TokenFoundry: a control plane that sells access to language models, and
  the hubs that serve them.

  The program.  The control plane (\<^verbatim>\<open>app/\<close>) is a FastAPI server over a metadata database (tenants,
  projects, virtual keys, routes, budgets, users, GitHub accounts).  It wires an API gateway (Azure API
  Management) so that a virtual key reaches a pool of hubs, deploys a hub per GitHub account by a
  GitHub workflow, keeps secrets in Key Vault, imports usage from Event Hub Capture into Cosmos with
  its price, and serves it to the portal.  A hub (\<^verbatim>\<open>vendored/gitmodel-hub/hub/\<close>) is a small server with
  one login at the model backend: it checks the caller, forwards the call, reads the usage off the
  answer or the stream, and sends a usage record to Event Hub.

  The vocabulary.
  \<^item> Prelude: exceptions as values, computations over a state with their weakest preconditions,
    Python dictionaries, strings as UTF-8 byte lists.
  \<^item> PyFloat: binary64 with one rounding per operation.  Timestamps: the calendar, \<^verbatim>\<open>isoformat\<close> and
    \<^verbatim>\<open>fromisoformat\<close>.  Json, JsonParse, JsonRoundtrip: JSON values, CPython's parser and printer, and that
    the one reads back what the other wrote.  Http: requests, answers, base64.
  \<^item> Config, Rows, Session: \<^verbatim>\<open>config.py\<close>, the tables and bodies of \<^verbatim>\<open>models/\<close>, one database session per
    request (\<^verbatim>\<open>db.py\<close>) with Key Vault (\<^verbatim>\<open>services/keyvault.py\<close>).

  Usage and billing.
  \<^item> Billing: \<^verbatim>\<open>services/billing.py\<close>.  CaptureImport: \<^verbatim>\<open>services/usage_capture_import.py\<close>; CaptureLife: the
    importer over its whole life, with blobs that appear late and calls that fail.  The lemmas show that no
    blob is skipped, and what one poison event does to the run.
  \<^item> UsageStore, UsageReads, UsageApi: queries, aggregation and endpoints
    (\<^verbatim>\<open>services/usage_ingest.py\<close>, \<^verbatim>\<open>api/usage.py\<close>); every number adds up, and a customer sees only its own.
    Telemetry: the KQL side of \<^verbatim>\<open>services/usage_ingest.py\<close>.
  \<^item> UsageFlow: the record a hub makes of a call, through Event Hub and the capture, to the document
    the control plane bills.

  The gateway.
  \<^item> KeyLimits, ApimPools, ApimProvider: \<^verbatim>\<open>services/apim_provisioner.py\<close>; the shared map of key limits under
    optimistic concurrency, the pools of hubs, and the wiring of an API with the text of its policy.

  The control plane.
  \<^item> Identity (\<^verbatim>\<open>services/passwords.py\<close>, \<^verbatim>\<open>services/tokens.py\<close>, \<^verbatim>\<open>api/auth.py\<close>, \<^verbatim>\<open>api/login.py\<close>), UsersApi
    (\<^verbatim>\<open>api/users.py\<close>, \<^verbatim>\<open>init_db.py\<close>), TenantsApi (\<^verbatim>\<open>api/tenants.py\<close>, \<^verbatim>\<open>api/keys.py\<close>), RoutesApi
    (\<^verbatim>\<open>api/routes.py\<close>, \<^verbatim>\<open>api/budgets.py\<close>, \<^verbatim>\<open>services/budget_enforcer.py\<close>), DeployConfig
    (\<^verbatim>\<open>api/deploy_config.py\<close>): one function per endpoint.
  \<^item> ControlPlane: \<^verbatim>\<open>main.py\<close> and all writing endpoints as one step relation; the locale \<^verbatim>\<open>api_invariant\<close>
    turns an invariant of every write into one of every reachable state.  Startup: the timers' pauses and
    the portal's files (\<^verbatim>\<open>main.py\<close>), and a hub's settings from its environment (\<^verbatim>\<open>hub/config.py\<close>).

  The hubs, seen from the control plane.
  \<^item> DeviceFlow (\<^verbatim>\<open>services/copilot_device.py\<close>), HubStatus (\<^verbatim>\<open>services/hub_client.py\<close>,
    \<^verbatim>\<open>services/hub_status_poller.py\<close>), HubDeploy (\<^verbatim>\<open>services/terraform_runner.py\<close>, \<^verbatim>\<open>services/acr.py\<close>,
    \<^verbatim>\<open>services/github_repo.py\<close>), HubCatalog and GithubAccounts (\<^verbatim>\<open>api/github_accounts.py\<close>).
  \<^item> FleetLife: requests, the health pass, deployments and teardowns, interleaved where the jobs commit
    or wait.  Its locales collect what an invariant of the accounts has to survive.

  A hub from the inside.
  \<^item> HubStore (\<^verbatim>\<open>hub/store.py\<close>, the guards of \<^verbatim>\<open>hub/server.py\<close>, \<^verbatim>\<open>hub/image_client.py\<close>), HubAuth
    (\<^verbatim>\<open>hub/copilot_client.py\<close>), HubAdapter (\<^verbatim>\<open>hub/anthropic_adapter.py\<close>), HubUsage and HubRecords (usage off
    answers and streams, and the records of \<^verbatim>\<open>hub/server.py\<close>), HubServer (its model routes;
    \<^verbatim>\<open>hub/audit.py\<close>), HubApi (images, listings, management, and the status that HubStatus reads).
  \<^item> HubEvents, HubEventsLife: \<^verbatim>\<open>hub/eventhub.py\<close>, each coroutine cut at its awaits, and all their
    interleavings; nothing handed over is lost without being counted.

  What is shown.  Of money: a usage record is acknowledged, held, or counted as lost; what is recorded is
  what is billed; no capture blob older than the importer's position is missing; the groups of a report
  add up, and a customer sees its own rows only.  Of the gateway: an update of the key limits is atomic, a
  hub that is removed is in no pool and one that is added is in all, a pooled API routes to its pool.
  Of the control plane: endpoints for administrators need one, a failed request changes no table, the
  invariants of accounts and limits hold in every reachable state.  Of the hubs: a ready account is
  complete, a teardown strands no hub, waiting ends, a login replaces a token only by one that was proved to
  work, management serves the operator alone, and the portal sees the state a hub is in.  The properties
  whose names speak of poison, staleness and the like state what the code does not prevent.

  What stands for the world.  Azure (ARM, Key Vault, Cosmos, Blob Storage, Log Analytics, the Event Hub
  SDK), GitHub, the model backend, the database's willingness to commit, clocks, random values, digests and
  signatures are functions of a services record over an abstract world.  What a property needs of
  them (Key Vault is a map, a clock does not run backwards, an upsert that returns has stored) is a named
  predicate among its hypotheses, and its witness gives an instance.

  Bounds and fuel.  The two waiting loops of HubDeploy run 25 and 181 times: the timeouts of 120 and 1800
  seconds over pauses of 5 and 10 seconds, and one more; HubDeploy shows that more changes nothing.  The
  update of the key limits is tried as often as the code tries it.  The parser of JSON has the length
  of the text as fuel.  The backoff of the event queue is a float up to 1024 attempts, which the hypothesis
  \<^verbatim>\<open>running\<close> bounds.  Python's integers are unbounded; floats are binary64.

  Not modelled.  The database engines, HTTP servers and clients, and logging; \<^verbatim>\<open>scripts/\<close>, which
  asks cloud services and prints; the control plane's environment and \<^verbatim>\<open>.env\<close> files; DDL beyond the constraints it
  creates; the timer that repeats the health pass.  In the hub: the protocol converters of
  \<^verbatim>\<open>anthropic_adapter.py\<close>, which no route calls any more, the transport of a stream over HTTP, the
  building of SDK clients, and gzip.  The portal is TypeScript and the infrastructure is Terraform,
  outside the language modelled here.
\<close>

end
